(* ===== verification/Prelude.thy ===== *)
theory Prelude
  imports Complex_Main "HOL-Library.AList" "HOL-Library.Char_ord" "HOL-Library.List_Lexorder"
    "HOL-Library.Sublist"
begin

text \<open>
  What every component of the model shares: results that may be an error, the \<open>for\<close> loop
  that stops at the first error, the insertion-ordered dictionary, the decimal notation of
  numbers, and the interface of a machine whose steps keep an invariant.
\<close>

named_theorems res_simps \<open>evaluation of results and of loops over results\<close>
named_theorems dict_simps \<open>lookups in dictionaries\<close>

section \<open>Results\<close>

text \<open>
  A Python call either raises (\<open>Inl\<close>) or returns (\<open>Inr\<close>). Sequencing two calls is
  \<open>and_then\<close>: the second is not reached when the first raises.
\<close>

definition and_then :: "'e + 'a \<Rightarrow> ('a \<Rightarrow> 'e + 'b) \<Rightarrow> 'e + 'b" where
  "and_then r k = (case r of Inl e \<Rightarrow> Inl e | Inr x \<Rightarrow> k x)"

lemma and_then_Inl [simp, res_simps]: "and_then (Inl e) k = Inl e"
  by (simp add: and_then_def)

lemma and_then_Inr [simp, res_simps]: "and_then (Inr x) k = k x"
  by (simp add: and_then_def)

lemma and_then_eq_Inr: "and_then r k = Inr y \<longleftrightarrow> (\<exists>x. r = Inr x \<and> k x = Inr y)"
  by (cases r) auto

lemma and_then_eq_Inl:
  "and_then r k = Inl e \<longleftrightarrow> r = Inl e \<or> (\<exists>x. r = Inr x \<and> k x = Inl e)"
  by (cases r) auto

lemma and_then_InrE:
  assumes "and_then r k = Inr y"
  obtains x where "r = Inr x" and "k x = Inr y"
  using assms by (auto simp: and_then_eq_Inr)

lemma and_then_if [res_simps]:
  "and_then (if b then Inl e else Inr x) k = (if b then Inl e else k x)"
  by simp

text \<open>\<open>raise e\<close> unless the condition holds; the unit result carries no information.\<close>

definition ensure :: "bool \<Rightarrow> 'e \<Rightarrow> 'e + unit" where
  "ensure c e = (if c then Inr () else Inl e)"

lemma ensure_True [simp, res_simps]: "ensure True e = Inr ()"
  by (simp add: ensure_def)

lemma ensure_False [simp, res_simps]: "ensure False e = Inl e"
  by (simp add: ensure_def)

lemma ensure_eq_Inr [simp]: "ensure c e = Inr u \<longleftrightarrow> c"
  by (simp add: ensure_def)

lemma ensure_eq_Inl [simp]: "ensure c e = Inl e' \<longleftrightarrow> \<not> c \<and> e = e'"
  by (auto simp: ensure_def)

section \<open>Loops\<close>

text \<open>
  \<open>for i, x in enumerate(xs, n): s = body(i, x, s)\<close>, where the body may raise. The index
  is an argument because several messages name the position of the offending element.
\<close>

fun for_each :: "(nat \<Rightarrow> 'a \<Rightarrow> 's \<Rightarrow> 'e + 's) \<Rightarrow> nat \<Rightarrow> 'a list \<Rightarrow> 's \<Rightarrow> 'e + 's" where
  "for_each body n [] s = Inr s"
| "for_each body n (x # xs) s = and_then (body n x s) (for_each body (Suc n) xs)"

lemma for_each_append:
  "for_each body n (xs @ ys) s =
     and_then (for_each body n xs s) (for_each body (n + length xs) ys)"
  by (induction xs arbitrary: n s) (auto simp: and_then_def split: sum.splits)

text \<open>The loop rule: an invariant that every returning round keeps holds at the end.\<close>

lemma for_each_invariant:
  assumes "for_each body n xs s = Inr t" and "P s"
    and "\<And>i x u v. x \<in> set xs \<Longrightarrow> body i x u = Inr v \<Longrightarrow> P u \<Longrightarrow> P v"
  shows "P t"
  using assms
proof (induction xs arbitrary: n s)
  case Nil
  then show ?case by simp
next
  case (Cons x xs)
  from Cons.prems(1) obtain u where u: "body n x s = Inr u"
    and rest: "for_each body (Suc n) xs u = Inr t"
    by (auto elim: and_then_InrE)
  from u Cons.prems(2,3) have "P u" by auto
  with rest show ?case by (rule Cons.IH) (use Cons.prems(3) in auto)
qed

lemma for_each_returns:
  assumes "\<And>i x u. x \<in> set xs \<Longrightarrow> \<exists>v. body i x u = Inr v"
  shows "\<exists>t. for_each body n xs s = Inr t"
  using assms
proof (induction xs arbitrary: n s)
  case Nil
  then show ?case by simp
next
  case (Cons x xs)
  then obtain u where "body n x s = Inr u" by (meson list.set_intros(1))
  with Cons show ?case by simp
qed

lemma for_each_raises:
  assumes "for_each body n xs s = Inl e"
  shows "\<exists>i x u. x \<in> set xs \<and> body i x u = Inl e"
  using assms by (induction xs arbitrary: n s) (auto simp: and_then_eq_Inl, blast+)

text \<open>A loop that only checks: the state is \<open>()\<close>. It returns when every round does.\<close>

abbreviation check_each :: "(nat \<Rightarrow> 'a \<Rightarrow> 'e + unit) \<Rightarrow> 'a list \<Rightarrow> 'e + unit" where
  "check_each body xs \<equiv> for_each (\<lambda>i x _. body i x) 0 xs ()"

lemma for_each_check_iff:
  "for_each (\<lambda>i x _. body i x) n xs () = Inr u \<longleftrightarrow>
     (\<forall>i < length xs. body (n + i) (xs ! i) = Inr ())"
proof (induction xs arbitrary: n)
  case Nil
  then show ?case by simp
next
  case (Cons x xs)
  then show ?case
    by (cases "body n x") (auto simp: less_Suc_eq_0_disj all_conj_distrib)
qed

lemma check_each_all:
  assumes "check_each body xs = Inr ()" and "x \<in> set xs"
  shows "\<exists>i. body i x = Inr ()"
proof -
  from assms(2) obtain i where "i < length xs" "xs ! i = x" by (auto simp: in_set_conv_nth)
  with assms(1) have "body (0 + i) x = Inr ()" by (auto simp: for_each_check_iff)
  then show ?thesis by blast
qed

text \<open>A list comprehension whose element expression may raise.\<close>

fun map_res :: "('a \<Rightarrow> 'e + 'b) \<Rightarrow> 'a list \<Rightarrow> 'e + 'b list" where
  "map_res f [] = Inr []"
| "map_res f (x # xs) = and_then (f x) (\<lambda>y. and_then (map_res f xs) (\<lambda>ys. Inr (y # ys)))"

lemma map_res_returns:
  assumes "\<And>x. x \<in> set xs \<Longrightarrow> \<exists>y. f x = Inr y"
  shows "\<exists>ys. map_res f xs = Inr ys"
  using assms
proof (induction xs)
  case Nil
  then show ?case by simp
next
  case (Cons x xs)
  then obtain y ys where "f x = Inr y" "map_res f xs = Inr ys" by (meson list.set_intros)
  then show ?case by simp
qed

lemma map_res_list_all:
  assumes "map_res f xs = Inr ys" and "list_all P xs"
    and "\<And>x y. P x \<Longrightarrow> f x = Inr y \<Longrightarrow> Q y"
  shows "list_all Q ys"
  using assms by (induction xs arbitrary: ys) (auto simp: and_then_eq_Inr)

lemma map_res_pure: "map_res (\<lambda>x. Inr (g x)) xs = Inr (map g xs)"
  by (induction xs) auto

section \<open>Dictionaries\<close>

text \<open>
  A Python dictionary keeps its keys in insertion order: an assignment to a key that is
  there keeps its place, a new key goes last. \<open>AList.update\<close> does exactly that on an
  association list, and \<open>AList.delete\<close> is \<open>dict.pop\<close>.
\<close>

locale dictionary =
  fixes lookup :: "'d \<Rightarrow> 'k \<Rightarrow> 'v option"
    and put :: "'k \<Rightarrow> 'v \<Rightarrow> 'd \<Rightarrow> 'd"
    and drop_key :: "'k \<Rightarrow> 'd \<Rightarrow> 'd"
    and keys_of :: "'d \<Rightarrow> 'k list"
    and ok :: "'d \<Rightarrow> bool"
  assumes lookup_put: "lookup (put k v d) = (lookup d)(k \<mapsto> v)"
    and lookup_drop: "lookup (drop_key k d) = (lookup d)(k := None)"
    and keys_lookup: "set (keys_of d) = dom (lookup d)"
    and ok_put: "ok d \<Longrightarrow> ok (put k v d)"
    and ok_drop: "ok d \<Longrightarrow> ok (drop_key k d)"
begin

lemma lookup_put_same: "lookup (put k v d) k = Some v"
  by (simp add: lookup_put)

lemma lookup_put_other: "k \<noteq> l \<Longrightarrow> lookup (put k v d) l = lookup d l"
  by (simp add: lookup_put)

lemma keys_put: "set (keys_of (put k v d)) = insert k (set (keys_of d))"
  by (auto simp: keys_lookup lookup_put)

lemma keys_drop: "set (keys_of (drop_key k d)) = set (keys_of d) - {k}"
  by (auto simp: keys_lookup lookup_drop)

lemma keys_put_mono: "set (keys_of d) \<subseteq> set (keys_of (put k v d))"
  by (auto simp: keys_put)

text \<open>\<open>d.setdefault(k, v)\<close>: an entry that is there stays.\<close>

definition put_default :: "'k \<Rightarrow> 'v \<Rightarrow> 'd \<Rightarrow> 'd" where
  "put_default k v d = (case lookup d k of None \<Rightarrow> put k v d | Some _ \<Rightarrow> d)"

lemma lookup_put_default:
  "lookup (put_default k v d) l =
     (if l = k \<and> lookup d k = None then Some v else lookup d l)"
  by (simp add: put_default_def lookup_put split: option.split)

lemma ok_put_default: "ok d \<Longrightarrow> ok (put_default k v d)"
  by (simp add: put_default_def ok_put split: option.split)

end

abbreviation dict_keys :: "('k \<times> 'v) list \<Rightarrow> 'k list" where
  "dict_keys d \<equiv> map fst d"

abbreviation dict_ok :: "('k \<times> 'v) list \<Rightarrow> bool" where
  "dict_ok d \<equiv> distinct (map fst d)"

interpretation dict: dictionary map_of AList.update AList.delete dict_keys dict_ok
  by unfold_locales
    (auto simp: update_conv' delete_conv' distinct_update distinct_delete dom_map_of_conv_image_fst)

lemmas dict_lookup [dict_simps] = dict.lookup_put dict.lookup_drop dict.lookup_put_default

definition setdefault :: "'k \<Rightarrow> 'v \<Rightarrow> ('k \<times> 'v) list \<Rightarrow> ('k \<times> 'v) list" where
  "setdefault k v d = (case map_of d k of None \<Rightarrow> AList.update k v d | Some _ \<Rightarrow> d)"

lemma setdefault_eq: "setdefault k v d = dict.put_default k v d"
  by (simp add: setdefault_def dict.put_default_def)

lemma lookup_setdefault [dict_simps]:
  "map_of (setdefault k v d) l = (if l = k \<and> map_of d k = None then Some v else map_of d l)"
  by (simp add: setdefault_eq dict.lookup_put_default)

text \<open>\<open>{**d, **e}\<close>: the entries of \<open>e\<close> assigned into \<open>d\<close> one after the other.\<close>

definition dict_merge :: "('k \<times> 'v) list \<Rightarrow> ('k \<times> 'v) list \<Rightarrow> ('k \<times> 'v) list" where
  "dict_merge d e = fold (\<lambda>(k, v). AList.update k v) e d"

lemma dict_merge_simps [simp]:
  "dict_merge d [] = d" "dict_merge d ((k, v) # e) = dict_merge (AList.update k v d) e"
  by (simp_all add: dict_merge_def)

section \<open>Decimal notation\<close>

text \<open>\<open>str(n)\<close> of a non-negative integer, and \<open>int(s)\<close> of a string of digits.\<close>

definition digit_char :: "nat \<Rightarrow> char" where
  "digit_char d = char_of (48 + d)"

definition digit_val :: "char \<Rightarrow> nat" where
  "digit_val c = of_char c - 48"

fun show_nat :: "nat \<Rightarrow> string" where
  "show_nat n =
     (if n < 10 then [digit_char n] else show_nat (n div 10) @ [digit_char (n mod 10)])"

declare show_nat.simps [simp del]

definition read_nat :: "string \<Rightarrow> nat" where
  "read_nat s = foldl (\<lambda>n c. 10 * n + digit_val c) 0 s"

definition show_int :: "int \<Rightarrow> string" where
  "show_int i = (if i < 0 then CHR ''-'' # show_nat (nat (- i)) else show_nat (nat i))"

lemma digit_val_char: "d < 10 \<Longrightarrow> digit_val (digit_char d) = d"
  by (simp add: digit_val_def digit_char_def)

lemma show_nat_nonempty [simp]: "show_nat n \<noteq> []"
  by (subst show_nat.simps) simp

lemma read_show_nat: "read_nat (show_nat n) = n"
proof (induction n rule: show_nat.induct)
  case (1 n)
  show ?case
  proof (cases "n < 10")
    case True
    then show ?thesis
      by (subst show_nat.simps) (simp add: read_nat_def digit_val_char)
  next
    case False
    have "read_nat (show_nat n) = 10 * read_nat (show_nat (n div 10)) + n mod 10"
      using False by (subst show_nat.simps) (simp add: read_nat_def digit_val_char)
    with False "1.IH" show ?thesis by simp
  qed
qed

lemma show_nat_inj: "show_nat m = show_nat n \<Longrightarrow> m = n"
  by (metis read_show_nat)

section \<open>Machines that keep an invariant\<close>

text \<open>
  Several components are a state and operations on it. What they promise has the same
  form: an invariant holds initially and every enabled step keeps it, so it holds in
  every state a run can reach.
\<close>

locale machine =
  fixes init :: "'s \<Rightarrow> bool"
    and step :: "'s \<Rightarrow> 'a \<Rightarrow> 's \<Rightarrow> bool"
    and inv :: "'s \<Rightarrow> bool"
  assumes inv_init: "init s \<Longrightarrow> inv s"
    and inv_step: "inv s \<Longrightarrow> step s a t \<Longrightarrow> inv t"
begin

inductive run :: "'s \<Rightarrow> 'a list \<Rightarrow> 's \<Rightarrow> bool" where
  run_nil: "run s [] s"
| run_cons: "step s a t \<Longrightarrow> run t as u \<Longrightarrow> run s (a # as) u"

lemma run_inv: "run s as t \<Longrightarrow> inv s \<Longrightarrow> inv t"
  by (induction rule: run.induct) (auto intro: inv_step)

lemma reachable_inv: "init s \<Longrightarrow> run s as t \<Longrightarrow> inv t"
  by (blast intro: run_inv inv_init)

lemma run_append: "run s as t \<Longrightarrow> run t bs u \<Longrightarrow> run s (as @ bs) u"
  by (induction rule: run.induct) (auto intro: run.intros)

lemma run_monotone:
  assumes "run s as t"
    and "\<And>s a t. step s a t \<Longrightarrow> f s \<le> (f t :: 'b :: preorder)"
  shows "f s \<le> f t"
  using assms by (induction rule: run.induct) (auto intro: order_trans)

end

end
