(* ===== verification/Request_Queue.thy ===== *)
theory Request_Queue
  imports Prelude
begin

text \<open>
  \<open>gateway/queue.py\<close>: one request at a time, a few waiting, the rest turned away. The
  object's attributes are a record and each method is a function on it. \<open>asyncio.Lock\<close>
  is modelled as CPython 3.14 implements it (a flag and a deque of futures), because the
  order in which requests run and the absence of lost wake-ups rest on it. The tasks that
  use a place are the steps of a transition system.
\<close>

section \<open>The queue object\<close>

text \<open>A waiter's future is pending, has its result set, or was cancelled.\<close>

datatype future = Pending | Woken | Cancelled

record request_queue =
  queue_size :: nat
  waiting :: int                        \<comment> \<open>accepted, not yet running\<close>
  active :: int
  locked :: bool                        \<comment> \<open>the lock's flag\<close>
  waiters :: "(nat \<times> future) list"      \<comment> \<open>the lock's deque\<close>
  place_waiting :: "nat \<Rightarrow> bool"         \<comment> \<open>\<open>Place.waiting\<close>, by place\<close>
  next_place :: nat                     \<comment> \<open>the next \<open>Place\<close> object\<close>
  reports :: "(int \<times> int) list"         \<comment> \<open>the calls of \<open>on_change\<close> so far\<close>

datatype queue_error = QueueFull

definition new_queue :: "nat \<Rightarrow> request_queue" where
  "new_queue n =
     \<lparr>queue_size = n, waiting = 0, active = 0, locked = False, waiters = [],
      place_waiting = (\<lambda>_. False), next_place = 0, reports = []\<rparr>"

definition changed :: "request_queue \<Rightarrow> request_queue" where
  "changed q = q\<lparr>reports := reports q @ [(active q, waiting q)]\<rparr>"

definition full :: "request_queue \<Rightarrow> bool" where
  "full q \<longleftrightarrow> active q + waiting q \<ge> 1 + int (queue_size q)"

definition leave :: "nat \<Rightarrow> bool \<Rightarrow> request_queue \<Rightarrow> request_queue" where
  "leave p start q =
     (let was = place_waiting q p;
          q1 = (if was then q\<lparr>place_waiting := (place_waiting q)(p := False),
                             waiting := waiting q - 1\<rparr> else q);
          q2 = (if start then q1\<lparr>active := active q1 + 1\<rparr> else q1)
      in if start \<or> was then changed q2 else q2)"

definition give_up :: "nat \<Rightarrow> request_queue \<Rightarrow> request_queue" where
  "give_up p q = leave p False q"

definition reserve :: "request_queue \<Rightarrow> queue_error + nat \<times> request_queue" where
  "reserve q =
     (if full q then Inl QueueFull
      else let q1 = changed (q\<lparr>waiting := waiting q + 1\<rparr>);
               p = next_place q1
           in Inr (p, q1\<lparr>next_place := Suc p, place_waiting := (place_waiting q1)(p := True)\<rparr>))"

section \<open>The lock\<close>

text \<open>
  \<open>acquire\<close> takes the lock at once when it is free and every waiter in the deque was
  cancelled, and otherwise queues a future. \<open>release\<close> and a cancelled waiter wake the
  first future, unless it is already done. A resumed waiter leaves the deque and holds the
  lock.
\<close>

definition lock_free_for :: "request_queue \<Rightarrow> bool" where
  "lock_free_for q \<longleftrightarrow> \<not> locked q \<and> list_all (\<lambda>w. snd w = Cancelled) (waiters q)"

fun wake_first :: "(nat \<times> future) list \<Rightarrow> (nat \<times> future) list" where
  "wake_first ((p, Pending) # ws) = (p, Woken) # ws"
| "wake_first ws = ws"

definition remove_waiter :: "nat \<Rightarrow> (nat \<times> future) list \<Rightarrow> (nat \<times> future) list" where
  "remove_waiter p ws = filter (\<lambda>w. fst w \<noteq> p) ws"

definition lock_enqueue :: "nat \<Rightarrow> request_queue \<Rightarrow> request_queue" where
  "lock_enqueue p q = q\<lparr>waiters := waiters q @ [(p, Pending)]\<rparr>"

definition lock_take :: "nat \<Rightarrow> request_queue \<Rightarrow> request_queue" where
  "lock_take p q = q\<lparr>waiters := remove_waiter p (waiters q), locked := True\<rparr>"

definition lock_abort :: "nat \<Rightarrow> request_queue \<Rightarrow> request_queue" where
  "lock_abort p q =
     (let ws = remove_waiter p (waiters q)
      in q\<lparr>waiters := (if locked q then ws else wake_first ws)\<rparr>)"

definition lock_release :: "request_queue \<Rightarrow> request_queue" where
  "lock_release q = q\<lparr>locked := False, waiters := wake_first (waiters q)\<rparr>"

section \<open>The slot context manager\<close>

text \<open>
  \<open>slot(place)\<close> up to its first suspension, after it, when its wait is cancelled, and when
  its block ends. Entering reports whether the block runs already.
\<close>

definition slot_enter :: "nat \<Rightarrow> request_queue \<Rightarrow> bool \<times> request_queue" where
  "slot_enter p q =
     (if lock_free_for q then (True, leave p True (q\<lparr>locked := True\<rparr>))
      else (False, lock_enqueue p q))"

definition slot_resume :: "nat \<Rightarrow> request_queue \<Rightarrow> request_queue" where
  "slot_resume p q = leave p True (lock_take p q)"

definition slot_cancelled :: "nat \<Rightarrow> request_queue \<Rightarrow> request_queue" where
  "slot_cancelled p q = give_up p (lock_abort p q)"

definition slot_exit :: "request_queue \<Rightarrow> request_queue" where
  "slot_exit q = changed (lock_release (q\<lparr>active := active q - 1\<rparr>))"

lemmas queue_defs = changed_def full_def leave_def give_up_def reserve_def lock_free_for_def
  remove_waiter_def lock_enqueue_def lock_take_def lock_abort_def lock_release_def
  slot_enter_def slot_resume_def slot_cancelled_def slot_exit_def Let_def

section \<open>Requests as tasks\<close>

text \<open>
  Where a request is: accepted (its place is taken, \<open>slot\<close> not yet called), queued on the
  lock, running, or gone. \<open>arrived\<close> and \<open>started\<close> record the order in which requests
  called \<open>slot\<close> and the order in which they ran.
\<close>

datatype phase = Absent | Accepted | Queued | Running | Gone

record system =
  queue :: request_queue
  phase_of :: "nat \<Rightarrow> phase"
  arrived :: "nat list"
  started :: "nat list"

datatype action =
    AReserve | ARefuse | AEnter nat | AResume nat | ACancel nat | AAbort nat | AExit nat
  | AGiveUp nat

definition set_phase :: "nat \<Rightarrow> phase \<Rightarrow> system \<Rightarrow> system" where
  "set_phase p ph s = s\<lparr>phase_of := (phase_of s)(p := ph)\<rparr>"

text \<open>
  \<open>ACancel\<close> is the request to cancel a waiting task, which cancels its pending future; the
  task itself runs later (\<open>AAbort\<close>), and a task whose future is already set may still be
  cancelled before it runs. \<open>ChatResponse\<close> gives a place up only after the task that uses
  it has ended, or when that task never called \<open>slot\<close>, so \<open>AGiveUp\<close> does not happen
  while the request is queued.
\<close>

inductive qstep :: "system \<Rightarrow> action \<Rightarrow> system \<Rightarrow> bool" where
  reserve_ok: "reserve (queue s) = Inr (p, q) \<Longrightarrow>
     qstep s AReserve (set_phase p Accepted (s\<lparr>queue := q\<rparr>))"
| refused: "reserve (queue s) = Inl QueueFull \<Longrightarrow> qstep s ARefuse s"
| enter_run: "phase_of s p = Accepted \<Longrightarrow> slot_enter p (queue s) = (True, q) \<Longrightarrow>
     qstep s (AEnter p)
       (set_phase p Running
         (s\<lparr>queue := q, arrived := arrived s @ [p], started := started s @ [p]\<rparr>))"
| enter_wait: "phase_of s p = Accepted \<Longrightarrow> slot_enter p (queue s) = (False, q) \<Longrightarrow>
     qstep s (AEnter p) (set_phase p Queued (s\<lparr>queue := q, arrived := arrived s @ [p]\<rparr>))"
| resume: "phase_of s p = Queued \<Longrightarrow> (p, Woken) \<in> set (waiters (queue s)) \<Longrightarrow>
     qstep s (AResume p)
       (set_phase p Running
         (s\<lparr>queue := slot_resume p (queue s), started := started s @ [p]\<rparr>))"
| cancel: "phase_of s p = Queued \<Longrightarrow> (p, Pending) \<in> set (waiters (queue s)) \<Longrightarrow>
     qstep s (ACancel p)
       (s\<lparr>queue := (queue s)\<lparr>waiters :=
          map (\<lambda>w. if fst w = p then (p, Cancelled) else w) (waiters (queue s))\<rparr>\<rparr>)"
| abort: "phase_of s p = Queued \<Longrightarrow> (p, f) \<in> set (waiters (queue s)) \<Longrightarrow> f \<noteq> Pending \<Longrightarrow>
     qstep s (AAbort p) (set_phase p Gone (s\<lparr>queue := slot_cancelled p (queue s)\<rparr>))"
| exit: "phase_of s p = Running \<Longrightarrow>
     qstep s (AExit p) (set_phase p Gone (s\<lparr>queue := slot_exit (queue s)\<rparr>))"
| give_up_accepted: "phase_of s p = Accepted \<Longrightarrow>
     qstep s (AGiveUp p) (set_phase p Gone (s\<lparr>queue := give_up p (queue s)\<rparr>))"
| give_up_late: "phase_of s p \<in> {Running, Gone} \<Longrightarrow>
     qstep s (AGiveUp p) (s\<lparr>queue := give_up p (queue s)\<rparr>)"

inductive_cases qstep_reserveE: "qstep s AReserve t"
inductive_cases qstep_enterE: "qstep s (AEnter p) t"
inductive_cases qstep_giveupE: "qstep s (AGiveUp p) t"
inductive_simps qstep_exit_simp: "qstep s (AExit p) t"
inductive_simps qstep_resume_simp: "qstep s (AResume p) t"

definition init_system :: "nat \<Rightarrow> system" where
  "init_system n =
     \<lparr>queue = new_queue n, phase_of = (\<lambda>_. Absent), arrived = [], started = []\<rparr>"


section \<open>What the operations do to each attribute\<close>

named_theorems queue_fields \<open>the attributes after an operation\<close>

lemma leave_fields [queue_fields]:
  "waiting (leave p st q) = waiting q - of_bool (place_waiting q p)"
  "active (leave p st q) = active q + of_bool st"
  "place_waiting (leave p st q) = (place_waiting q)(p := False)"
  "locked (leave p st q) = locked q"
  "waiters (leave p st q) = waiters q"
  "queue_size (leave p st q) = queue_size q"
  "next_place (leave p st q) = next_place q"
  by (auto simp: leave_def changed_def Let_def fun_eq_iff)

lemma lock_fields [queue_fields]:
  "waiters (lock_take p q) = remove_waiter p (waiters q)"
  "locked (lock_take p q) = True"
  "waiters (lock_abort p q) =
     (if locked q then remove_waiter p (waiters q) else wake_first (remove_waiter p (waiters q)))"
  "locked (lock_abort p q) = locked q"
  "waiters (lock_release q) = wake_first (waiters q)"
  "locked (lock_release q) = False"
  by (simp_all add: lock_take_def lock_abort_def lock_release_def Let_def)

lemma lock_frame [queue_fields]:
  "waiting (lock_take p q) = waiting q" "active (lock_take p q) = active q"
  "place_waiting (lock_take p q) = place_waiting q" "queue_size (lock_take p q) = queue_size q"
  "next_place (lock_take p q) = next_place q" "reports (lock_take p q) = reports q"
  "waiting (lock_abort p q) = waiting q" "active (lock_abort p q) = active q"
  "place_waiting (lock_abort p q) = place_waiting q" "queue_size (lock_abort p q) = queue_size q"
  "next_place (lock_abort p q) = next_place q" "reports (lock_abort p q) = reports q"
  "waiting (lock_release q) = waiting q" "active (lock_release q) = active q"
  "place_waiting (lock_release q) = place_waiting q" "queue_size (lock_release q) = queue_size q"
  "next_place (lock_release q) = next_place q" "reports (lock_release q) = reports q"
  by (simp_all add: lock_take_def lock_abort_def lock_release_def Let_def)

lemma changed_fields [queue_fields]:
  "waiting (changed q) = waiting q" "active (changed q) = active q"
  "place_waiting (changed q) = place_waiting q" "locked (changed q) = locked q"
  "waiters (changed q) = waiters q" "queue_size (changed q) = queue_size q"
  "next_place (changed q) = next_place q" "reports (changed q) = reports q @ [(active q, waiting q)]"
  by (simp_all add: changed_def)

lemma reserve_eq_Inr:
  "reserve q = Inr (p, q') \<longleftrightarrow> \<not> full q \<and> p = next_place q \<and>
     q' = changed (q\<lparr>waiting := waiting q + 1\<rparr>)
            \<lparr>next_place := Suc p, place_waiting := (place_waiting q)(p := True)\<rparr>"
  by (auto simp: reserve_def Let_def queue_fields)

lemma reserve_eq_Inl: "reserve q = Inl e \<longleftrightarrow> full q"
  by (cases e) (auto simp: reserve_def Let_def)

lemma slot_enter_eq:
  "slot_enter p q = (True, q') \<longleftrightarrow> lock_free_for q \<and> q' = leave p True (q\<lparr>locked := True\<rparr>)"
  "slot_enter p q = (False, q') \<longleftrightarrow> \<not> lock_free_for q \<and> q' = lock_enqueue p q"
  by (auto simp: slot_enter_def)

lemma set_phase_fields [simp]:
  "queue (set_phase p ph s) = queue s" "arrived (set_phase p ph s) = arrived s"
  "started (set_phase p ph s) = started s"
  "phase_of (set_phase p ph s) = (phase_of s)(p := ph)"
  by (simp_all add: set_phase_def)

lemmas op_defs = give_up_def slot_resume_def slot_cancelled_def slot_exit_def lock_enqueue_def

section \<open>The invariant\<close>

text \<open>The counters count, and together never exceed one running and \<open>queue_size\<close> waiting.\<close>

definition count :: "(nat \<Rightarrow> bool) \<Rightarrow> int" where
  "count f = int (card {p. f p})"

definition running :: "(nat \<Rightarrow> phase) \<Rightarrow> nat \<Rightarrow> bool" where
  "running ph p \<longleftrightarrow> ph p = Running"

definition waits :: "(nat \<Rightarrow> phase) \<Rightarrow> nat \<Rightarrow> bool" where
  "waits ph p \<longleftrightarrow> ph p = Accepted \<or> ph p = Queued"

definition counts_inv :: "system \<Rightarrow> bool" where
  "counts_inv s \<longleftrightarrow>
     place_waiting (queue s) = waits (phase_of s) \<and>
     (\<forall>p. next_place (queue s) \<le> p \<longrightarrow> phase_of s p = Absent) \<and>
     waiting (queue s) = count (waits (phase_of s)) \<and>
     active (queue s) = count (running (phase_of s)) \<and>
     active (queue s) + waiting (queue s) \<le> 1 + int (queue_size (queue s))"

text \<open>
  The lock is held exactly while a request runs; the deque holds the queued requests; only
  the first waiter can be woken, and only while the lock is free; and a free lock never
  leaves a pending first waiter behind.
\<close>

definition head_is :: "future \<Rightarrow> (nat \<times> future) list \<Rightarrow> bool" where
  "head_is f ws \<longleftrightarrow> ws \<noteq> [] \<and> snd (hd ws) = f"

definition lock_inv :: "system \<Rightarrow> bool" where
  "lock_inv s \<longleftrightarrow>
     (\<forall>p r. phase_of s p = Running \<longrightarrow> phase_of s r = Running \<longrightarrow> p = r) \<and>
     (locked (queue s) \<longleftrightarrow> (\<exists>p. phase_of s p = Running)) \<and>
     distinct (map fst (waiters (queue s))) \<and>
     (\<forall>p. p \<in> fst ` set (waiters (queue s)) \<longleftrightarrow> phase_of s p = Queued) \<and>
     Woken \<notin> snd ` set (tl (waiters (queue s))) \<and>
     (head_is Woken (waiters (queue s)) \<longrightarrow> \<not> locked (queue s)) \<and>
     (head_is Pending (waiters (queue s)) \<longrightarrow> locked (queue s))"

text \<open>Requests that are not cancelled start in the order in which they called \<open>slot\<close>.\<close>

definition live :: "(nat \<times> future) list \<Rightarrow> nat list" where
  "live ws = map fst (filter (\<lambda>w. snd w \<noteq> Cancelled) ws)"

definition fifo_inv :: "system \<Rightarrow> bool" where
  "fifo_inv s \<longleftrightarrow> subseq (started s @ live (waiters (queue s))) (arrived s)"

text \<open>The last report is the present state.\<close>

definition report_ok :: "request_queue \<Rightarrow> bool" where
  "report_ok q \<longleftrightarrow>
     (if reports q = [] then (active q, waiting q) = (0, 0)
      else last (reports q) = (active q, waiting q))"

definition report_inv :: "system \<Rightarrow> bool" where
  "report_inv s \<longleftrightarrow> report_ok (queue s)"

definition system_inv :: "system \<Rightarrow> bool" where
  "system_inv s \<longleftrightarrow> counts_inv s \<and> lock_inv s \<and> fifo_inv s \<and> report_inv s"

lemma no_phase: "waits (\<lambda>_. Absent) = (\<lambda>_. False)" "running (\<lambda>_. Absent) = (\<lambda>_. False)"
  by (auto simp: waits_def running_def)

lemma system_inv_init: "system_inv (init_system n)"
  by (simp add: system_inv_def counts_inv_def lock_inv_def head_is_def fifo_inv_def report_inv_def
      report_ok_def init_system_def count_def no_phase new_queue_def live_def)

subsection \<open>Lists of waiters\<close>

lemma wake_first_fst [simp]: "map fst (wake_first ws) = map fst ws"
  by (cases ws rule: wake_first.cases) auto

lemma live_wake_first [simp]: "live (wake_first ws) = live ws"
  by (cases ws rule: wake_first.cases) (auto simp: live_def)

lemma head_is_simps [simp]: "\<not> head_is f []" "head_is f (w # ws) \<longleftrightarrow> snd w = f"
  by (simp_all add: head_is_def)

lemma head_is_append [simp]: "ws \<noteq> [] \<Longrightarrow> head_is f (ws @ vs) = head_is f ws"
  by (cases ws) auto

lemma head_isD: "head_is f ws \<Longrightarrow> \<exists>p. (p, f) \<in> set ws"
  by (cases ws) auto

lemma wake_first_hd: "\<not> head_is Pending (wake_first ws)"
  by (cases ws rule: wake_first.cases) auto

lemma tl_wake_first [simp]: "tl (wake_first ws) = tl ws"
  by (cases ws rule: wake_first.cases) auto

lemma remove_waiter_simps [simp]:
  "map fst (remove_waiter p ws) = filter (\<lambda>x. x \<noteq> p) (map fst ws)"
  "set (remove_waiter p ws) = {w \<in> set ws. fst w \<noteq> p}"
  by (induction ws) (auto simp: remove_waiter_def)

lemma live_remove_waiter: "live (remove_waiter p ws) = filter (\<lambda>x. x \<noteq> p) (live ws)"
  by (induction ws) (auto simp: remove_waiter_def live_def)

lemma live_cancel:
  "live (map (\<lambda>w. if fst w = p then (p, Cancelled) else w) ws) = filter (\<lambda>x. x \<noteq> p) (live ws)"
  by (induction ws) (auto simp: live_def)

lemma fst_cancel: "map fst (map (\<lambda>w. if fst w = p then (p, Cancelled) else w) ws) = map fst ws"
  by (induction ws) auto

lemma remove_waiter_head:
  "distinct (map fst ((p, f) # ws)) \<Longrightarrow> remove_waiter p ((p, f) # ws) = ws"
  by (auto simp: remove_waiter_def image_iff intro!: filter_True)

lemma set_tl_subset: "set (tl xs) \<subseteq> set xs"
  by (cases xs) auto

lemma tl_remove_waiter: "set (tl (remove_waiter p ws)) \<subseteq> set (tl ws)"
  using set_tl_subset [of "filter (\<lambda>w. fst w \<noteq> p) (tl ws)"]
  by (cases ws) (auto simp: remove_waiter_def)

lemma subseq_filter_mid: "subseq (xs @ ys) zs \<Longrightarrow> subseq (xs @ filter P ys) zs"
  by (rule subseq_order.order_trans [of _ "xs @ ys"]) (auto intro: list_emb_append_mono subseq_filter_left)


subsection \<open>Every step keeps the counters\<close>

lemma phase_tests:
  "ph p = Absent \<Longrightarrow> waits ph p = False" "ph p = Absent \<Longrightarrow> running ph p = False"
  "ph p = Accepted \<Longrightarrow> waits ph p = True" "ph p = Accepted \<Longrightarrow> running ph p = False"
  "ph p = Queued \<Longrightarrow> waits ph p = True" "ph p = Queued \<Longrightarrow> running ph p = False"
  "ph p = Running \<Longrightarrow> waits ph p = False" "ph p = Running \<Longrightarrow> running ph p = True"
  "ph p = Gone \<Longrightarrow> waits ph p = False" "ph p = Gone \<Longrightarrow> running ph p = False"
  by (simp_all add: waits_def running_def)

lemma counts_finite:
  assumes "counts_inv s"
  shows "finite {p. waits (phase_of s) p}" and "finite {p. running (phase_of s) p}"
proof -
  have "{p. phase_of s p \<noteq> Absent} \<subseteq> {..<next_place (queue s)}"
    using assms by (auto simp: counts_inv_def not_le [symmetric])
  then have fin: "finite {p. phase_of s p \<noteq> Absent}" by (rule finite_subset) simp
  show "finite {p. waits (phase_of s) p}"
    by (rule finite_subset [OF _ fin]) (auto simp: waits_def)
  show "finite {p. running (phase_of s) p}"
    by (rule finite_subset [OF _ fin]) (auto simp: running_def)
qed

lemma count_upd:
  assumes fin: "finite {x. f x}"
  shows "count (f(p := b)) = count f - of_bool (f p) + of_bool b"
proof -
  have ins: "{x. (f(p := True)) x} = insert p {x. f x}" by auto
  have del: "{x. (f(p := False)) x} = {x. f x} - {p}" by auto
  have pos: "f p \<Longrightarrow> 0 < card {x. f x}" using fin by (auto simp: card_gt_0_iff)
  show ?thesis
  proof (cases b)
    case True
    then have "count (f(p := b)) = int (card (insert p {x. f x}))"
      by (simp only: count_def ins simp_thms)
    with fin True show ?thesis by (simp add: count_def insert_absorb card_insert_if)
  next
    case False
    then have "count (f(p := b)) = int (card ({x. f x} - {p}))"
      by (simp only: count_def del simp_thms)
    with fin False pos show ?thesis
      by (simp add: count_def card_Diff_singleton_if of_nat_diff Suc_leI)
  qed
qed

lemma running_upd: "running (ph(p := h)) = (running ph)(p := (h = Running))"
  by (rule ext) (simp add: running_def)

lemma waits_upd: "waits (ph(p := h)) = (waits ph)(p := (h = Accepted \<or> h = Queued))"
  by (rule ext) (simp add: waits_def)

lemma counts_inv_step:
  assumes "counts_inv s" and "qstep s a t"
  shows "counts_inv t"
proof -
  note fin = counts_finite [OF assms(1)]
  note cards = count_upd [OF fin(1)] count_upd [OF fin(2)] running_upd waits_upd
  note simps = cards reserve_eq_Inr slot_enter_eq op_defs queue_fields full_def phase_tests fun_upd_idem
  from assms(2) show ?thesis
  proof cases
    case (reserve_ok p q)
    from assms(1) have new: "phase_of s (next_place (queue s)) = Absent"
      by (auto simp: counts_inv_def)
    from reserve_ok show ?thesis using assms(1) new by (auto simp: counts_inv_def simps)
  next
    case (enter_run p q)
    then show ?thesis using assms(1) by (auto simp: counts_inv_def simps)
  next
    case (enter_wait p q)
    then show ?thesis using assms(1) by (auto simp: counts_inv_def simps)
  next
    case (resume p)
    then show ?thesis using assms(1) by (auto simp: counts_inv_def simps)
  next
    case (abort p f)
    then show ?thesis using assms(1) by (auto simp: counts_inv_def simps)
  next
    case (exit p)
    then show ?thesis using assms(1) by (auto simp: counts_inv_def simps)
  next
    case (give_up_accepted p)
    then show ?thesis using assms(1) by (auto simp: counts_inv_def simps)
  next
    case (give_up_late p)
    then show ?thesis using assms(1) by (auto simp: counts_inv_def simps)
  qed (use assms(1) in \<open>simp_all add: counts_inv_def\<close>)
qed

subsection \<open>Every step keeps the lock\<close>

lemma lock_invI:
  assumes "\<And>p r. phase_of s p = Running \<Longrightarrow> phase_of s r = Running \<Longrightarrow> p = r"
    and "locked (queue s) \<longleftrightarrow> (\<exists>p. phase_of s p = Running)"
    and "distinct (map fst (waiters (queue s)))"
    and "\<And>p. p \<in> set (map fst (waiters (queue s))) \<longleftrightarrow> phase_of s p = Queued"
    and "Woken \<notin> snd ` set (tl (waiters (queue s)))"
    and "head_is Woken (waiters (queue s)) \<Longrightarrow> \<not> locked (queue s)"
    and "head_is Pending (waiters (queue s)) \<Longrightarrow> locked (queue s)"
  shows "lock_inv s"
  using assms by (auto simp: lock_inv_def)

lemma lock_invD:
  assumes "lock_inv s"
  shows "\<And>p r. phase_of s p = Running \<Longrightarrow> phase_of s r = Running \<Longrightarrow> p = r"
    and "locked (queue s) \<longleftrightarrow> (\<exists>p. phase_of s p = Running)"
    and "distinct (map fst (waiters (queue s)))"
    and "\<And>p. p \<in> set (map fst (waiters (queue s))) \<longleftrightarrow> phase_of s p = Queued"
    and "Woken \<notin> snd ` set (tl (waiters (queue s)))"
    and "head_is Woken (waiters (queue s)) \<Longrightarrow> \<not> locked (queue s)"
    and "head_is Pending (waiters (queue s)) \<Longrightarrow> locked (queue s)"
  using assms by (auto simp: lock_inv_def)

text \<open>A woken waiter is the first one, and then the lock is free.\<close>

lemma woken_first:
  assumes "lock_inv s" and "(p, Woken) \<in> set (waiters (queue s))"
  obtains ws where "waiters (queue s) = (p, Woken) # ws" and "\<not> locked (queue s)"
proof (cases "waiters (queue s)")
  case Nil
  with assms(2) show ?thesis by simp
next
  case (Cons w ws)
  with lock_invD(5) [OF assms(1)] assms(2) have w: "w = (p, Woken)" by force
  with Cons lock_invD(6) [OF assms(1)] have "\<not> locked (queue s)" by simp
  with Cons w show ?thesis by (intro that [of ws]) simp_all
qed

text \<open>A step that leaves the deque and the lock alone and starts or ends no task.\<close>

lemma lock_inv_frame:
  assumes "lock_inv s" and "waiters (queue t) = waiters (queue s)"
    and "locked (queue t) = locked (queue s)"
    and "\<And>p. phase_of t p = Running \<longleftrightarrow> phase_of s p = Running"
    and "\<And>p. phase_of t p = Queued \<longleftrightarrow> phase_of s p = Queued"
  shows "lock_inv t"
  using assms(1) unfolding lock_inv_def assms(2-5) .

lemma no_holder: "lock_inv s \<Longrightarrow> \<not> locked (queue s) \<Longrightarrow> phase_of s p \<noteq> Running"
  by (auto simp: lock_inv_def)

lemma lock_inv_enter_run:
  assumes "lock_inv s" and "lock_free_for (queue s)" and "phase_of s p = Accepted"
    and "waiters (queue t) = waiters (queue s)" and "locked (queue t)"
    and "phase_of t = (phase_of s)(p := Running)"
  shows "lock_inv t"
proof (rule lock_invI)
  note D = lock_invD [OF assms(1)]
  have free: "\<not> locked (queue s)" and dead: "list_all (\<lambda>w. snd w = Cancelled) (waiters (queue s))"
    using assms(2) by (simp_all add: lock_free_for_def)
  show "\<not> locked (queue t)" if "head_is Woken (waiters (queue t))"
    using head_isD [OF that] dead assms(4) by (fastforce simp: list_all_iff)
  show "q = r" if "phase_of t q = Running" "phase_of t r = Running" for q r
    using that no_holder [OF assms(1) free] assms(6) by (auto split: if_splits)
  show "r \<in> set (map fst (waiters (queue t))) \<longleftrightarrow> phase_of t r = Queued" for r
    unfolding assms(4) using D(4) assms(3,6) by auto
qed (use lock_invD(3,5) [OF assms(1)] assms(4-6) in auto)

lemma lock_inv_enter_wait:
  assumes "lock_inv s" and "\<not> lock_free_for (queue s)" and "phase_of s p = Accepted"
    and "waiters (queue t) = waiters (queue s) @ [(p, Pending)]"
    and "locked (queue t) = locked (queue s)"
    and "phase_of t = (phase_of s)(p := Queued)"
  shows "lock_inv t"
proof (rule lock_invI)
  note D = lock_invD [OF assms(1)]
  have new: "p \<notin> set (map fst (waiters (queue s)))" using D(4) assms(3) by simp
  have run: "phase_of t r = Running \<longleftrightarrow> phase_of s r = Running" for r
    using assms(3,6) by simp
  have empty: "waiters (queue s) = [] \<Longrightarrow> locked (queue s)"
    using assms(2) by (simp add: lock_free_for_def)
  show "q = r" if "phase_of t q = Running" "phase_of t r = Running" for q r
    using that D(1) by (simp add: run)
  show "locked (queue t) \<longleftrightarrow> (\<exists>p. phase_of t p = Running)"
    using D(2) assms(5) by (simp add: run)
  show "distinct (map fst (waiters (queue t)))" using D(3) new assms(4) by simp
  show "r \<in> set (map fst (waiters (queue t))) \<longleftrightarrow> phase_of t r = Queued" for r
    using D(4) assms(4,6) by auto
  show "Woken \<notin> snd ` set (tl (waiters (queue t)))"
    using D(5) assms(4) by (cases "waiters (queue s)") auto
  show "\<not> locked (queue t)" if "head_is Woken (waiters (queue t))"
    using that D(6) assms(4,5) by (cases "waiters (queue s)") auto
  show "locked (queue t)" if "head_is Pending (waiters (queue t))"
    using that D(7) assms(4,5) empty by (cases "waiters (queue s) = []") auto
qed

lemma lock_inv_resume:
  assumes "lock_inv s" and "(p, Woken) \<in> set (waiters (queue s))"
    and "waiters (queue t) = remove_waiter p (waiters (queue s))" and "locked (queue t)"
    and "phase_of t = (phase_of s)(p := Running)"
  shows "lock_inv t"
proof (rule lock_invI)
  note D = lock_invD [OF assms(1)]
  from woken_first [OF assms(1,2)] obtain ws
    where ws: "waiters (queue s) = (p, Woken) # ws" and free: "\<not> locked (queue s)" .
  with D(3) assms(3) have t: "waiters (queue t) = ws" by (metis remove_waiter_head)
  show "\<not> locked (queue t)" if "head_is Woken (waiters (queue t))"
    using that head_isD [OF that] D(5) ws t by force
  show "q = r" if "phase_of t q = Running" "phase_of t r = Running" for q r
    using that no_holder [OF assms(1) free] assms(5) by (auto split: if_splits)
  show "distinct (map fst (waiters (queue t)))" using D(3) ws t by simp
  show "r \<in> set (map fst (waiters (queue t))) \<longleftrightarrow> phase_of t r = Queued" for r
    using D(3) D(4) [of r] ws t assms(5) by auto
  show "Woken \<notin> snd ` set (tl (waiters (queue t)))"
    using D(5) ws t set_tl_subset by fastforce
qed (use assms(4,5) in auto)

lemma lock_inv_remove:
  assumes "lock_inv s" and "phase_of s p = Queued"
    and "waiters (queue t) = (if locked (queue s) then remove_waiter p (waiters (queue s))
           else wake_first (remove_waiter p (waiters (queue s))))"
    and "locked (queue t) = locked (queue s)" and "phase_of t = (phase_of s)(p := Gone)"
  shows "lock_inv t"
proof (rule lock_invI)
  note D = lock_invD [OF assms(1)]
  let ?ws = "remove_waiter p (waiters (queue s))"
  have fst: "map fst (waiters (queue t)) = filter (\<lambda>x. x \<noteq> p) (map fst (waiters (queue s)))"
    using assms(3) by simp
  have run: "phase_of t r = Running \<longleftrightarrow> phase_of s r = Running" for r
    using assms(2,5) by simp
  show "q = r" if "phase_of t q = Running" "phase_of t r = Running" for q r
    using that D(1) by (simp add: run)
  show "locked (queue t) \<longleftrightarrow> (\<exists>p. phase_of t p = Running)"
    using D(2) assms(4) by (simp add: run)
  show "distinct (map fst (waiters (queue t)))" using D(3) by (simp add: fst)
  show "r \<in> set (map fst (waiters (queue t))) \<longleftrightarrow> phase_of t r = Queued" for r
    unfolding fst using D(4) assms(5) by auto
  have tl: "tl (waiters (queue t)) = tl ?ws" using assms(3) by simp
  show "Woken \<notin> snd ` set (tl (waiters (queue t)))"
    using D(5) tl_remove_waiter [of p "waiters (queue s)"] by (auto simp: tl)
  show "\<not> locked (queue t)" if "head_is Woken (waiters (queue t))"
  proof
    assume l: "locked (queue t)"
    with that assms(3,4) have "head_is Woken ?ws" by simp
    from head_isD [OF this] obtain r where "(r, Woken) \<in> set (waiters (queue s))" by auto
    from woken_first [OF assms(1) this] l assms(4) show False by metis
  qed
  show "locked (queue t)" if "head_is Pending (waiters (queue t))"
    using that assms(3,4) wake_first_hd by (auto split: if_splits)
qed

lemma lock_inv_cancel:
  assumes "lock_inv s"
    and "waiters (queue t) = map (\<lambda>w. if fst w = p then (p, Cancelled) else w) (waiters (queue s))"
    and "locked (queue t) = locked (queue s)" and "phase_of t = phase_of s"
  shows "lock_inv t"
proof (rule lock_invI)
  note D = lock_invD [OF assms(1)]
  have head: "head_is f (waiters (queue t)) \<Longrightarrow> f = Cancelled \<or> head_is f (waiters (queue s))" for f
    using assms(2) by (cases "waiters (queue s)") (auto split: if_splits)
  show "distinct (map fst (waiters (queue t)))" using D(3) by (simp only: assms(2) fst_cancel)
  show "r \<in> set (map fst (waiters (queue t))) \<longleftrightarrow> phase_of t r = Queued" for r
    using D(4) by (simp only: assms(2,4) fst_cancel)
  show "Woken \<notin> snd ` set (tl (waiters (queue t)))"
    using D(5) by (auto simp: assms(2) map_tl [symmetric] split: if_splits)
  show "\<not> locked (queue t)" if "head_is Woken (waiters (queue t))"
    using head [OF that] D(6) assms(3) by simp
  show "locked (queue t)" if "head_is Pending (waiters (queue t))"
    using head [OF that] D(7) assms(3) by simp
  show "q = r" if "phase_of t q = Running" "phase_of t r = Running" for q r
    using that D(1) assms(4) by simp
  show "locked (queue t) \<longleftrightarrow> (\<exists>p. phase_of t p = Running)" using D(2) assms(3,4) by simp
qed

lemma lock_inv_exit:
  assumes "lock_inv s" and "phase_of s p = Running"
    and "waiters (queue t) = wake_first (waiters (queue s))" and "\<not> locked (queue t)"
    and "phase_of t = (phase_of s)(p := Gone)"
  shows "lock_inv t"
proof (rule lock_invI)
  note D = lock_invD [OF assms(1)]
  have fst: "map fst (waiters (queue t)) = map fst (waiters (queue s))" using assms(3) by simp
  have none: "phase_of t q \<noteq> Running" for q
    using D(1) assms(2,5) by auto
  show "distinct (map fst (waiters (queue t)))" using D(3) by (simp add: fst)
  show "r \<in> set (map fst (waiters (queue t))) \<longleftrightarrow> phase_of t r = Queued" for r
    unfolding fst using D(4) assms(2,5) by auto
  show "Woken \<notin> snd ` set (tl (waiters (queue t)))" using D(5) assms(3) by simp
  show "locked (queue t)" if "head_is Pending (waiters (queue t))"
    using that assms(3) wake_first_hd by auto
qed (use assms(2,4,5) lock_invD(1) [OF assms(1)] in \<open>auto split: if_splits\<close>)

lemma lock_inv_step:
  assumes "lock_inv s" and "counts_inv s" and "qstep s a t"
  shows "lock_inv t"
  using assms(3)
proof cases
  case (reserve_ok p q)
  from assms(2) have "phase_of s (next_place (queue s)) = Absent" by (simp add: counts_inv_def)
  with reserve_ok show ?thesis
    by (intro lock_inv_frame [OF assms(1)]) (auto simp: reserve_eq_Inr queue_fields)
next
  case (enter_run p q)
  then show ?thesis
    by (intro lock_inv_enter_run [OF assms(1)]) (auto simp: slot_enter_eq queue_fields)
next
  case (enter_wait p q)
  then show ?thesis
    by (intro lock_inv_enter_wait [OF assms(1)]) (auto simp: slot_enter_eq lock_enqueue_def)
next
  case (resume p)
  then show ?thesis
    by (intro lock_inv_resume [OF assms(1)]) (auto simp: op_defs queue_fields)
next
  case (cancel p)
  then show ?thesis by (intro lock_inv_cancel [OF assms(1)]) auto
next
  case (abort p f)
  then show ?thesis
    by (intro lock_inv_remove [OF assms(1), of p]) (auto simp: op_defs queue_fields)
next
  case (exit p)
  then show ?thesis by (intro lock_inv_exit [OF assms(1)]) (auto simp: op_defs queue_fields)
next
  case (give_up_accepted p)
  then show ?thesis
    by (intro lock_inv_frame [OF assms(1)]) (auto simp: op_defs queue_fields)
next
  case (give_up_late p)
  then show ?thesis
    by (intro lock_inv_frame [OF assms(1)]) (auto simp: op_defs queue_fields)
qed (use assms(1) in simp)


subsection \<open>Every step keeps the order and the reports\<close>

lemma live_simps [simp]:
  "live [] = []" "live (ws @ vs) = live ws @ live vs"
  "live ((p, f) # ws) = (if f = Cancelled then live ws else p # live ws)"
  by (simp_all add: live_def)

lemma live_all_cancelled: "list_all (\<lambda>w. snd w = Cancelled) ws \<Longrightarrow> live ws = []"
  by (induction ws) auto

lemma fifo_inv_step:
  assumes "fifo_inv s" and "lock_inv s" and "qstep s a t"
  shows "fifo_inv t"
  using assms(3)
proof cases
  case (enter_run p q)
  then have "live (waiters (queue s)) = []"
    by (auto simp: slot_enter_eq lock_free_for_def live_all_cancelled)
  with enter_run assms(1) show ?thesis
    by (auto simp: fifo_inv_def slot_enter_eq queue_fields list_emb_append_mono)
next
  case (enter_wait p q)
  have "subseq ((started s @ live (waiters (queue s))) @ [p]) (arrived s @ [p])"
    using assms(1) unfolding fifo_inv_def by (intro list_emb_append_mono) auto
  with enter_wait show ?thesis by (auto simp: fifo_inv_def slot_enter_eq lock_enqueue_def)
next
  case (resume p)
  from woken_first [OF assms(2) resume(4)] obtain ws
    where ws: "waiters (queue s) = (p, Woken) # ws" .
  with lock_invD(3) [OF assms(2)] have "remove_waiter p (waiters (queue s)) = ws"
    by (metis remove_waiter_head)
  with resume ws assms(1) show ?thesis by (simp add: fifo_inv_def op_defs queue_fields)
next
  case (cancel p)
  with assms(1) show ?thesis by (simp add: fifo_inv_def live_cancel subseq_filter_mid)
next
  case (abort p f)
  with assms(1) show ?thesis
    by (simp add: fifo_inv_def op_defs queue_fields live_remove_waiter subseq_filter_mid)
qed (use assms(1) in \<open>auto simp: fifo_inv_def op_defs queue_fields reserve_eq_Inr\<close>)

lemma report_ok_changed: "report_ok (changed q)"
  by (simp add: report_ok_def queue_fields)

lemma report_ok_leave: "report_ok q \<Longrightarrow> report_ok (leave p st q)"
  by (auto simp: leave_def Let_def report_ok_changed)

lemma report_ok_frame:
  "report_ok q \<Longrightarrow> reports r = reports q \<Longrightarrow> active r = active q \<Longrightarrow> waiting r = waiting q
    \<Longrightarrow> report_ok r"
  by (simp add: report_ok_def)

lemma report_inv_step:
  assumes "report_inv s" and "qstep s a t"
  shows "report_inv t"
proof -
  note [simp] = report_inv_def
  from assms(2,1) show ?thesis
  proof cases
    case (reserve_ok p q)
    then show ?thesis
      by (auto simp: reserve_eq_Inr intro: report_ok_frame [OF report_ok_changed])
  next
    case (enter_run p q)
    with assms(1) show ?thesis
      by (auto simp: slot_enter_eq intro!: report_ok_leave elim: report_ok_frame)
  next
    case (enter_wait p q)
    with assms(1) show ?thesis
      by (auto simp: slot_enter_eq lock_enqueue_def elim: report_ok_frame)
  qed (use assms(1) in \<open>auto simp: op_defs queue_fields
        intro!: report_ok_leave report_ok_changed elim: report_ok_frame\<close>)
qed

lemma system_inv_step: "system_inv s \<Longrightarrow> qstep s a t \<Longrightarrow> system_inv t"
  unfolding system_inv_def
  by (blast intro: counts_inv_step lock_inv_step fifo_inv_step report_inv_step)

text \<open>The requests of one gateway are a machine with this invariant.\<close>

definition initial :: "system \<Rightarrow> bool" where
  "initial s \<longleftrightarrow> s = init_system (queue_size (queue s))"

interpretation requests: machine initial qstep system_inv
  by unfold_locales (metis initial_def system_inv_init, rule system_inv_step)

lemma initial_init [simp]: "initial (init_system n)"
  by (simp add: initial_def init_system_def new_queue_def)

lemma qstep_queue_size: "qstep s a t \<Longrightarrow> queue_size (queue t) = queue_size (queue s)"
  by (induction rule: qstep.induct)
    (auto simp: reserve_eq_Inr slot_enter_eq op_defs queue_fields)

lemma run_queue_size: "requests.run s as t \<Longrightarrow> queue_size (queue t) = queue_size (queue s)"
  by (induction rule: requests.run.induct) (auto dest: qstep_queue_size)

lemma run_system_inv: "requests.run (init_system n) as s \<Longrightarrow> system_inv s"
  by (rule requests.reachable_inv) simp_all

end
