(* ===== verification/Queue_Service.thy ===== *)
theory Queue_Service
  imports Request_Queue
begin

text \<open>
  What \<open>gateway/queue.py\<close> promises its users, over every run of requests: the executable
  form of the steps, the refinement to a server with a waiting line, and progress.
\<close>

section \<open>Running the steps\<close>

fun exec_step :: "system \<Rightarrow> action \<Rightarrow> system option" where
  "exec_step s AReserve =
     (case reserve (queue s) of
        Inr (p, q) \<Rightarrow> Some (set_phase p Accepted (s\<lparr>queue := q\<rparr>))
      | Inl QueueFull \<Rightarrow> None)"
| "exec_step s ARefuse = (if full (queue s) then Some s else None)"
| "exec_step s (AEnter p) =
     (if phase_of s p \<noteq> Accepted then None
      else case slot_enter p (queue s) of
        (True, q) \<Rightarrow> Some (set_phase p Running
            (s\<lparr>queue := q, arrived := arrived s @ [p], started := started s @ [p]\<rparr>))
      | (False, q) \<Rightarrow> Some (set_phase p Queued (s\<lparr>queue := q, arrived := arrived s @ [p]\<rparr>)))"
| "exec_step s (AResume p) =
     (if phase_of s p = Queued \<and> (p, Woken) \<in> set (waiters (queue s))
      then Some (set_phase p Running
             (s\<lparr>queue := slot_resume p (queue s), started := started s @ [p]\<rparr>))
      else None)"
| "exec_step s (ACancel p) =
     (if phase_of s p = Queued \<and> (p, Pending) \<in> set (waiters (queue s))
      then Some (s\<lparr>queue := (queue s)\<lparr>waiters :=
             map (\<lambda>w. if fst w = p then (p, Cancelled) else w) (waiters (queue s))\<rparr>\<rparr>)
      else None)"
| "exec_step s (AAbort p) =
     (if phase_of s p = Queued \<and>
         ((p, Woken) \<in> set (waiters (queue s)) \<or> (p, Cancelled) \<in> set (waiters (queue s)))
      then Some (set_phase p Gone (s\<lparr>queue := slot_cancelled p (queue s)\<rparr>))
      else None)"
| "exec_step s (AExit p) =
     (if phase_of s p = Running
      then Some (set_phase p Gone (s\<lparr>queue := slot_exit (queue s)\<rparr>)) else None)"
| "exec_step s (AGiveUp p) =
     (case phase_of s p of
        Accepted \<Rightarrow> Some (set_phase p Gone (s\<lparr>queue := give_up p (queue s)\<rparr>))
      | Running \<Rightarrow> Some (s\<lparr>queue := give_up p (queue s)\<rparr>)
      | Gone \<Rightarrow> Some (s\<lparr>queue := give_up p (queue s)\<rparr>)
      | _ \<Rightarrow> None)"

lemma exec_step_sound: "exec_step s a = Some t \<Longrightarrow> qstep s a t"
  by (cases a)
    (auto simp: reserve_eq_Inl intro: qstep.intros split: if_splits sum.splits prod.splits
      queue_error.splits bool.splits phase.splits)

lemma exec_step_complete: "qstep s a t \<Longrightarrow> exec_step s a = Some t"
proof (induction rule: qstep.induct)
  case (abort s p f)
  then show ?case by (cases f) auto
qed (auto simp: reserve_eq_Inl)

lemma qstep_iff_exec: "qstep s a t \<longleftrightarrow> exec_step s a = Some t"
  by (blast intro: exec_step_sound exec_step_complete)

fun exec_run :: "system \<Rightarrow> action list \<Rightarrow> system option" where
  "exec_run s [] = Some s"
| "exec_run s (a # as) = Option.bind (exec_step s a) (\<lambda>t. exec_run t as)"

lemma exec_run_sound: "exec_run s as = Some t \<Longrightarrow> requests.run s as t"
  by (induction as arbitrary: s)
    (auto simp: bind_eq_Some_conv intro: requests.run.intros exec_step_sound)

section \<open>The abstract service\<close>

text \<open>
  A server that serves at most one request and keeps a line: an arrival is served at once
  when the server is idle and the line empty, and otherwise joins the end of the line; only
  the head of the line is served next; anyone in the line may leave it.
\<close>

record service =
  serving :: "nat option"
  line :: "nat list"

inductive serve_step :: "service \<Rightarrow> service \<Rightarrow> bool" where
  idle_arrival: "serve_step \<lparr>serving = None, line = []\<rparr> \<lparr>serving = Some p, line = []\<rparr>"
| arrival: "serve_step \<lparr>serving = x, line = l\<rparr> \<lparr>serving = x, line = l @ [p]\<rparr>"
| next_served: "serve_step \<lparr>serving = None, line = p # l\<rparr> \<lparr>serving = Some p, line = l\<rparr>"
| served: "serve_step \<lparr>serving = Some p, line = l\<rparr> \<lparr>serving = None, line = l\<rparr>"
| left_line: "serve_step \<lparr>serving = x, line = l\<rparr> \<lparr>serving = x, line = filter (\<lambda>r. r \<noteq> p) l\<rparr>"
| unchanged: "serve_step a a"

text \<open>The service a state of the queue stands for.\<close>

definition represents :: "system \<Rightarrow> service \<Rightarrow> bool" where
  "represents s a \<longleftrightarrow>
     (\<forall>p. serving a = Some p \<longleftrightarrow> phase_of s p = Running) \<and> line a = live (waiters (queue s))"

lemma represents_init: "represents (init_system n) \<lparr>serving = None, line = []\<rparr>"
  by (simp add: represents_def init_system_def new_queue_def)

text \<open>The invariant gives every state exactly one service.\<close>

definition holder :: "system \<Rightarrow> nat option" where
  "holder s = List.find (\<lambda>p. phase_of s p = Running) [0..<next_place (queue s)]"

definition abstraction :: "system \<Rightarrow> service" where
  "abstraction s = \<lparr>serving = holder s, line = live (waiters (queue s))\<rparr>"

lemma holder_iff:
  assumes "system_inv s"
  shows "holder s = Some p \<longleftrightarrow> phase_of s p = Running"
proof -
  from assms have one: "\<And>q r. phase_of s q = Running \<Longrightarrow> phase_of s r = Running \<Longrightarrow> q = r"
    and small: "\<And>q. phase_of s q = Running \<Longrightarrow> q < next_place (queue s)"
    by (auto simp: system_inv_def lock_inv_def counts_inv_def not_le [symmetric])
  show ?thesis
  proof
    assume "holder s = Some p"
    then show "phase_of s p = Running" by (auto simp: holder_def find_Some_iff)
  next
    assume p: "phase_of s p = Running"
    with small have "holder s \<noteq> None" by (auto simp: holder_def find_None_iff)
    then obtain q where q: "holder s = Some q" by auto
    then have "phase_of s q = Running" by (auto simp: holder_def find_Some_iff)
    with q p one show "holder s = Some p" by blast
  qed
qed

lemma abstraction_represents: "system_inv s \<Longrightarrow> represents s (abstraction s)"
  by (simp add: represents_def abstraction_def holder_iff)

lemma represents_unique:
  "represents s a \<Longrightarrow> represents s b \<Longrightarrow> a = b"
proof -
  assume "represents s a" "represents s b"
  then have "\<And>p. serving a = Some p \<longleftrightarrow> serving b = Some p" "line a = line b"
    by (auto simp: represents_def)
  then show "a = b" by (cases a; cases b) (simp, metis not_Some_eq)
qed


section \<open>The queue refines the service\<close>

lemma representsI:
  "(\<And>p. x = Some p \<longleftrightarrow> phase_of s p = Running) \<Longrightarrow> l = live (waiters (queue s)) \<Longrightarrow>
    represents s \<lparr>serving = x, line = l\<rparr>"
  by (simp add: represents_def)

lemma represents_same:
  assumes "represents s a" and "live (waiters (queue t)) = live (waiters (queue s))"
    and "\<And>p. phase_of t p = Running \<longleftrightarrow> phase_of s p = Running"
  shows "\<exists>b. represents t b \<and> serve_step a b"
  using assms by (intro exI [of _ a]) (auto simp: represents_def intro: serve_step.unchanged)

lemma represents_left:
  assumes "represents s a"
    and "live (waiters (queue t)) = filter (\<lambda>r. r \<noteq> p) (live (waiters (queue s)))"
    and "\<And>p. phase_of t p = Running \<longleftrightarrow> phase_of s p = Running"
  shows "\<exists>b. represents t b \<and> serve_step a b"
proof (intro exI conjI)
  let ?b = "\<lparr>serving = serving a, line = filter (\<lambda>r. r \<noteq> p) (line a)\<rparr>"
  show "represents t ?b" using assms by (auto simp: represents_def)
  show "serve_step a ?b" by (cases a) (simp add: serve_step.left_line)
qed

lemma represents_idle:
  "represents s a \<Longrightarrow> lock_inv s \<Longrightarrow> \<not> locked (queue s) \<Longrightarrow> serving a = None"
  by (metis no_holder not_None_eq represents_def)

lemma simulation:
  assumes rep: "represents s a" and inv: "system_inv s" and step: "qstep s act t"
  shows "\<exists>b. represents t b \<and> serve_step a b"
proof -
  from inv have lock: "lock_inv s" and counts: "counts_inv s" by (simp_all add: system_inv_def)
  from step show ?thesis
  proof cases
    case (reserve_ok p q)
    from counts have "phase_of s (next_place (queue s)) = Absent" by (simp add: counts_inv_def)
    with reserve_ok show ?thesis
      by (intro represents_same [OF rep]) (auto simp: reserve_eq_Inr queue_fields)
  next
    case (enter_run p q)
    then have free: "\<not> locked (queue s)" and none: "live (waiters (queue s)) = []"
      by (auto simp: slot_enter_eq lock_free_for_def live_all_cancelled)
    have "a = \<lparr>serving = None, line = []\<rparr>"
      using rep represents_idle [OF rep lock free] none by (simp add: represents_def)
    moreover have "represents t \<lparr>serving = Some p, line = []\<rparr>"
      using enter_run none no_holder [OF lock free]
      by (intro representsI) (auto simp: slot_enter_eq queue_fields)
    ultimately show ?thesis by (auto intro: serve_step.idle_arrival)
  next
    case (enter_wait p q)
    have "represents t \<lparr>serving = serving a, line = line a @ [p]\<rparr>"
      using enter_wait rep
      by (intro representsI) (auto simp: slot_enter_eq represents_def lock_enqueue_def)
    moreover have "serve_step a \<lparr>serving = serving a, line = line a @ [p]\<rparr>"
      by (cases a) (simp add: serve_step.arrival)
    ultimately show ?thesis by blast
  next
    case (resume p)
    from woken_first [OF lock resume(4)] obtain ws
      where ws: "waiters (queue s) = (p, Woken) # ws" and free: "\<not> locked (queue s)" .
    have "remove_waiter p (waiters (queue s)) = ws"
      using ws lock_invD(3) [OF lock] by (metis remove_waiter_head)
    then have "represents t \<lparr>serving = Some p, line = live ws\<rparr>"
      using resume no_holder [OF lock free]
      by (intro representsI) (auto simp: op_defs queue_fields)
    moreover have "a = \<lparr>serving = None, line = p # live ws\<rparr>"
      using rep represents_idle [OF rep lock free] ws by (simp add: represents_def)
    ultimately show ?thesis by (auto intro: serve_step.next_served)
  next
    case (cancel p)
    then show ?thesis by (intro represents_left [OF rep, where p = p]) (auto simp: live_cancel)
  next
    case (abort p f)
    then show ?thesis
      by (intro represents_left [OF rep, where p = p])
        (auto simp: op_defs queue_fields live_remove_waiter)
  next
    case (exit p)
    have "a = \<lparr>serving = Some p, line = line a\<rparr>" using rep exit by (simp add: represents_def)
    moreover have "represents t \<lparr>serving = None, line = line a\<rparr>"
      using exit rep lock_invD(1) [OF lock]
      by (intro representsI) (auto simp: op_defs queue_fields represents_def)
    ultimately show ?thesis by (metis serve_step.served)
  qed (auto intro!: represents_same [OF rep] simp: op_defs queue_fields split: if_splits)
qed

lemma abstraction_step:
  assumes "system_inv s" and "qstep s act t"
  shows "serve_step (abstraction s) (abstraction t)"
proof -
  from simulation [OF abstraction_represents [OF assms(1)] assms] obtain b
    where b: "represents t b" "serve_step (abstraction s) b" by blast
  from assms have "system_inv t" by (rule system_inv_step)
  from represents_unique [OF b(1) abstraction_represents [OF this]] b(2) show ?thesis by simp
qed

section \<open>Progress\<close>

text \<open>
  Work that is left in front of a queued request: every waiter has to be served or to go,
  and the request that runs has to end. Each of these steps is possible as soon as it is
  due, so a queued request that is not cancelled can always be brought to run without any
  new arrival and without anyone in front being cancelled.
\<close>

definition backlog :: "system \<Rightarrow> nat" where
  "backlog s = 2 * length (waiters (queue s)) + of_bool (locked (queue s))"

fun serving_action :: "action \<Rightarrow> bool" where
  "serving_action (AExit _) = True"
| "serving_action (AResume _) = True"
| "serving_action (AAbort _) = True"
| "serving_action _ = False"

lemma length_wake_first [simp]: "length (wake_first ws) = length ws"
  by (cases ws rule: wake_first.cases) auto

text \<open>What has started once \<open>p\<close> is at the head of the line: nobody in front was skipped.\<close>

definition due :: "nat \<Rightarrow> system \<Rightarrow> nat list" where
  "due p s = started s @ takeWhile (\<lambda>r. r \<noteq> p) (live (waiters (queue s)))"

lemma progress:
  assumes inv: "system_inv s" and p: "p \<in> set (live (waiters (queue s)))"
  shows "\<exists>a t. qstep s a t \<and> serving_action a \<and> backlog t < backlog s \<and>
           (phase_of t p = Running \<and> started t = due p s @ [p] \<or>
            p \<in> set (live (waiters (queue t))) \<and> due p t = due p s)"
proof -
  from inv have lock: "lock_inv s" by (simp add: system_inv_def)
  note D = lock_invD [OF lock]
  from p obtain w ws where w: "waiters (queue s) = w # ws" by (cases "waiters (queue s)") auto
  obtain r f where rf: "w = (r, f)" by (cases w)
  have queued: "phase_of s r = Queued" using D(4) [of r] w rf by simp
  show ?thesis
  proof (cases "locked (queue s)")
    case True
    with D(2) obtain x where x: "phase_of s x = Running" by blast
    let ?t = "set_phase x Gone (s\<lparr>queue := slot_exit (queue s)\<rparr>)"
    have "qstep s (AExit x) ?t" using x by (rule qstep.exit)
    moreover have "backlog ?t < backlog s" using True
      by (simp add: backlog_def slot_exit_def queue_fields)
    moreover have "p \<in> set (live (waiters (queue ?t))) \<and> due p ?t = due p s" using p
      by (simp add: slot_exit_def queue_fields due_def)
    ultimately show ?thesis by (intro exI [of _ "AExit x"] exI [of _ ?t]) simp
  next
    case False
    have rest: "remove_waiter r (waiters (queue s)) = ws"
      using D(3) w rf by (metis remove_waiter_head)
    then have rest': "remove_waiter r ((r, f) # ws) = ws" by (simp add: w rf)
    show ?thesis
    proof (cases "f = Cancelled")
      case True
      let ?t = "set_phase r Gone (s\<lparr>queue := slot_cancelled r (queue s)\<rparr>)"
      have "qstep s (AAbort r) ?t" using queued w rf True by (intro qstep.abort [of _ _ f]) auto
      moreover have "backlog ?t < backlog s" using False w rf
        by (simp add: backlog_def op_defs queue_fields rest rest')
      moreover have "p \<in> set (live (waiters (queue ?t)))" "due p ?t = due p s"
        using p w rf True False rest' by (auto simp: op_defs queue_fields due_def)
      ultimately show ?thesis by (intro exI [of _ "AAbort r"] exI [of _ ?t]) simp
    next
      case f: False
      with False D(7) w rf have "f = Woken" by (cases f) auto
      let ?t = "set_phase r Running
         (s\<lparr>queue := slot_resume r (queue s), started := started s @ [r]\<rparr>)"
      have "qstep s (AResume r) ?t" using queued w rf \<open>f = Woken\<close> by (intro qstep.resume) auto
      moreover have "backlog ?t < backlog s" using False w rf
        by (simp add: backlog_def op_defs queue_fields rest rest')
      moreover have "phase_of ?t p = Running \<and> started ?t = due p s @ [p] \<or>
          p \<in> set (live (waiters (queue ?t))) \<and> due p ?t = due p s"
        using p w rf f rest' by (auto simp: op_defs queue_fields due_def)
      ultimately show ?thesis by (intro exI [of _ "AResume r"] exI [of _ ?t]) simp
    qed
  qed
qed

lemma can_run:
  assumes "system_inv s" and "p \<in> set (live (waiters (queue s)))"
  shows "\<exists>as t. requests.run s as t \<and> list_all serving_action as \<and> phase_of t p = Running
           \<and> started t = due p s @ [p] \<and> length as \<le> backlog s"
  using assms
proof (induction "backlog s" arbitrary: s rule: less_induct)
  case less
  from progress [OF less.prems] obtain a t where t: "qstep s a t" "serving_action a"
    "backlog t < backlog s" "phase_of t p = Running \<and> started t = due p s @ [p] \<or>
      p \<in> set (live (waiters (queue t))) \<and> due p t = due p s"
    by blast
  from less.prems(1) t(1) have inv: "system_inv t" by (rule system_inv_step)
  show ?case
  proof (cases "phase_of t p = Running \<and> started t = due p s @ [p]")
    case True
    with t show ?thesis
      by (intro exI [of _ "[a]"] exI [of _ t])
        (auto intro: requests.run.intros)
  next
    case False
    with t(4) less.hyps [OF t(3) inv] obtain as u where "requests.run t as u"
      "list_all serving_action as" "phase_of u p = Running" "started u = due p t @ [p]"
      "length as \<le> backlog t" by blast
    with t False show ?thesis
      by (intro exI [of _ "a # as"] exI [of _ u]) (auto intro: requests.run.intros)
  qed
qed


section \<open>A run\<close>

text \<open>
  Queue size one: two requests are accepted and enter, a third is refused, and the first
  one ends, which wakes the second.
\<close>

definition sample_trace :: "action list" where
  "sample_trace = [AReserve, AEnter 0, AReserve, AEnter 1, ARefuse, AExit 0]"

definition sample :: system where
  "sample = the (exec_run (init_system 1) sample_trace)"

lemmas run_eval = sample_trace_def init_system_def new_queue_def reserve_eq_Inr reserve_def
  changed_def full_def leave_def slot_enter_def slot_exit_def lock_free_for_def lock_enqueue_def
  lock_release_def set_phase_def Let_def

lemma sample_runs: "\<exists>s. exec_run (init_system 1) sample_trace = Some s"
  by (simp add: run_eval)

lemma sample_run: "requests.run (init_system 1) sample_trace sample"
  using sample_runs by (auto simp: sample_def intro: exec_run_sound)

lemma sample_state:
  "waiters (queue sample) = [(1, Woken)]" "locked (queue sample) = False"
  "phase_of sample 0 = Gone" "phase_of sample 1 = Queued" "active (queue sample) = 0"
  "waiting (queue sample) = 1" "arrived sample = [0, 1]" "started sample = [0]"
  "next_place (queue sample) = 2" "queue_size (queue sample) = 1"
  "reports (queue sample) = [(0, 1), (1, 0), (1, 1), (0, 1)]"
  by (simp_all add: sample_def run_eval)

section \<open>Properties\<close>

text \<open>
  C1: In every state the queue can reach, \<open>active\<close> and \<open>waiting\<close> are the numbers of requests
  that run and that wait, at most one request runs, and together they never exceed one
  running request plus \<open>queue_size\<close> waiting ones.
\<close>

theorem queue_never_overcommitted:
  assumes "requests.run (init_system n) as s"
  shows "active (queue s) = count (running (phase_of s)) \<and>
         waiting (queue s) = count (waits (phase_of s)) \<and>
         (\<exists>p. {r. phase_of s r = Running} \<subseteq> {p}) \<and>
         active (queue s) + waiting (queue s) \<le> 1 + int n"
proof -
  from run_system_inv [OF assms] have counts: "counts_inv s" and lock: "lock_inv s"
    by (simp_all add: system_inv_def)
  have one: "\<exists>p. {r. phase_of s r = Running} \<subseteq> {p}" using lock by (auto simp: lock_inv_def)
  have "queue_size (queue s) = n"
    using run_queue_size [OF assms] by (simp add: init_system_def new_queue_def)
  with counts have "active (queue s) + waiting (queue s) \<le> 1 + int n"
    and "active (queue s) = count (running (phase_of s))"
    and "waiting (queue s) = count (waits (phase_of s))"
    unfolding counts_inv_def by auto
  with one show ?thesis by blast
qed

lemma queue_never_overcommitted_witness:
  "waiting (queue sample) = 1 \<and> count (waits (phase_of sample)) = 1"
  using queue_never_overcommitted [OF sample_run] sample_state by simp

text \<open>
  C2: First come, first served: in every reachable state the requests that have started,
  followed by those still in line, are in the order in which they asked for the backend;
  only requests that left the line are missing.
\<close>

theorem queue_first_come_first_served:
  assumes "requests.run (init_system n) as s"
  shows "subseq (started s @ live (waiters (queue s))) (arrived s)"
  using run_system_inv [OF assms] by (simp add: system_inv_def fifo_inv_def)

lemma queue_first_come_first_served_witness:
  "started sample @ live (waiters (queue sample)) = [0, 1] \<and> subseq [0, 1] (arrived sample)"
  using queue_first_come_first_served [OF sample_run] sample_state by simp

text \<open>
  C3: The queue, with its lock, futures and counters, refines a server with a waiting line:
  every step from a reachable state is a step of the abstract service (or leaves it as it
  is), so only the head of the line is ever served and only while nobody else is.
\<close>

theorem queue_refines_service:
  assumes "requests.run (init_system n) as s" and "qstep s a t"
  shows "serve_step (abstraction s) (abstraction t)"
  by (rule abstraction_step [OF run_system_inv [OF assms(1)] assms(2)])

lemma queue_refines_service_witness:
  "serve_step (abstraction sample) (abstraction (the (exec_step sample (AResume 1))))"
proof (rule queue_refines_service [OF sample_run, of "AResume 1"])
  show "qstep sample (AResume 1) (the (exec_step sample (AResume 1)))"
    using sample_state by (simp add: qstep_iff_exec)
qed

text \<open>
  C4: No wake-up is lost: from every reachable state, a request in line that is not cancelled
  is brought to run by ends of running requests, resumptions and the departure of cancelled
  waiters alone, in at most \<open>backlog\<close> of these steps, after every live waiter in front of it.
\<close>

theorem queued_request_can_run:
  assumes "requests.run (init_system n) as s" and "p \<in> set (live (waiters (queue s)))"
  shows "\<exists>bs t. requests.run s bs t \<and> list_all serving_action bs \<and> phase_of t p = Running
           \<and> started t = due p s @ [p] \<and> length bs \<le> backlog s"
  by (rule can_run [OF run_system_inv [OF assms(1)] assms(2)])

lemma queued_request_can_run_witness:
  "\<exists>bs t. requests.run sample bs t \<and> list_all serving_action bs \<and> phase_of t 1 = Running
     \<and> started t = [0, 1] \<and> length bs \<le> 2"
  using queued_request_can_run [OF sample_run, of 1]
  by (simp add: sample_state backlog_def due_def)

text \<open>
  A new request is refused exactly when \<open>1 + queue_size\<close> requests hold a place, and the
  last report to \<open>on_change\<close> (the numbers in \<open>gateway.queue.json\<close>) is always the present
  state of the queue.
\<close>

lemma queue_refuses_only_when_full:
  assumes "requests.run (init_system n) as s"
  shows "(reserve (queue s) = Inl QueueFull) =
           (1 + n \<le> card {p. phase_of s p \<in> {Accepted, Queued, Running}}) \<and>
         (reports (queue s) \<noteq> [] \<longrightarrow>
           last (reports (queue s)) = (active (queue s), waiting (queue s)))"
proof -
  from run_system_inv [OF assms] have counts: "counts_inv s" and rep: "report_inv s"
    by (simp_all add: system_inv_def)
  note fin = counts_finite [OF counts]
  have split: "{p. phase_of s p \<in> {Accepted, Queued, Running}} =
      {p. waits (phase_of s) p} \<union> {p. running (phase_of s) p}"
    by (auto simp: waits_def running_def)
  have apart: "{p. waits (phase_of s) p} \<inter> {p. running (phase_of s) p} = {}"
    by (auto simp: waits_def running_def)
  have "int (card {p. phase_of s p \<in> {Accepted, Queued, Running}}) =
      active (queue s) + waiting (queue s)"
    using card_Un_disjoint [OF fin apart] counts
    unfolding split counts_inv_def count_def by simp
  moreover have "queue_size (queue s) = n"
    using run_queue_size [OF assms] by (simp add: init_system_def new_queue_def)
  ultimately show ?thesis using rep
    by (auto simp: reserve_eq_Inl full_def report_inv_def report_ok_def)
qed

lemma queue_refuses_only_when_full_witness:
  "reserve (queue sample) \<noteq> Inl QueueFull \<and> last (reports (queue sample)) = (0, 1)"
  using queue_refuses_only_when_full [OF sample_run] by (simp add: sample_state reserve_eq_Inl full_def)

end
