(* ===== verification/Py_Value.thy ===== *)
theory Py_Value
  imports Prelude
begin

text \<open>
  The values the Python code passes around: what \<open>json.loads\<close> and \<open>tomllib.load\<close>
  return, the operations the code applies to them without knowing their type, and the string
  methods it uses.

  Floats are their exact rational value or one of the three special values; Python compares
  an int with a float exactly, so comparison needs nothing else. Strings are lists of code
  points below 256: \<open>is_space\<close>, \<open>is_digit\<close> and \<open>lower_char\<close> are Python's
  \<open>isspace\<close>, \<open>isdigit\<close> and \<open>lower\<close> on that range.
\<close>

section \<open>Values\<close>

datatype pyfloat = Fin rat | PosInf | NegInf | NaN

datatype pyval =
    PNone
  | PBool bool
  | PInt int
  | PFloat pyfloat
  | PStr string
  | PList "pyval list"
  | PDict "(string \<times> pyval) list"
  | POther string  \<comment> \<open>a TOML date or time, by its text\<close>

type_synonym pydict = "(string \<times> pyval) list"

text \<open>The exceptions of the interpreter that the modelled code can meet.\<close>

datatype py_exn =
    TypeError | AttributeError | KeyError | ValueError | OverflowError | RecursionError

fun truthy :: "pyval \<Rightarrow> bool" where
  "truthy PNone = False"
| "truthy (PBool b) = b"
| "truthy (PInt i) = (i \<noteq> 0)"
| "truthy (PFloat f) = (f \<noteq> Fin 0)"
| "truthy (PStr s) = (s \<noteq> [])"
| "truthy (PList vs) = (vs \<noteq> [])"
| "truthy (PDict d) = (d \<noteq> [])"
| "truthy (POther _) = True"

fun is_dict :: "pyval \<Rightarrow> bool" where
  "is_dict (PDict _) = True" | "is_dict _ = False"

fun is_list :: "pyval \<Rightarrow> bool" where
  "is_list (PList _) = True" | "is_list _ = False"

fun is_str :: "pyval \<Rightarrow> bool" where
  "is_str (PStr _) = True" | "is_str _ = False"

text \<open>\<open>isinstance(v, int) and not isinstance(v, bool)\<close>\<close>

fun is_plain_int :: "pyval \<Rightarrow> bool" where
  "is_plain_int (PInt _) = True" | "is_plain_int _ = False"

lemma is_dict_iff: "is_dict v \<longleftrightarrow> (\<exists>d. v = PDict d)" by (cases v) auto
lemma is_list_iff: "is_list v \<longleftrightarrow> (\<exists>vs. v = PList vs)" by (cases v) auto
lemma is_str_iff: "is_str v \<longleftrightarrow> (\<exists>s. v = PStr s)" by (cases v) auto
lemma is_plain_int_iff: "is_plain_int v \<longleftrightarrow> (\<exists>i. v = PInt i)" by (cases v) auto

lemmas shape_iffs = is_dict_iff is_list_iff is_str_iff is_plain_int_iff

text \<open>A list, dictionary or other unhashable object raises when it is looked up in a set.\<close>

fun hashable :: "pyval \<Rightarrow> bool" where
  "hashable (PList _) = False" | "hashable (PDict _) = False" | "hashable _ = True"

text \<open>\<open>v == 1\<close>: true for the int, for \<open>True\<close> and for the float 1.0.\<close>

fun eq_one :: "pyval \<Rightarrow> bool" where
  "eq_one (PInt i) = (i = 1)"
| "eq_one (PBool b) = b"
| "eq_one (PFloat f) = (f = Fin 1)"
| "eq_one _ = False"

text \<open>\<open>a or b\<close> as a value.\<close>

definition or_else :: "pyval \<Rightarrow> pyval \<Rightarrow> pyval" where
  "or_else a b = (if truthy a then a else b)"

lemma or_else_dict [simp]: "is_dict (or_else v (PDict [])) \<longleftrightarrow> is_dict v \<or> \<not> truthy v"
  by (cases v) (auto simp: or_else_def)

text \<open>Dictionaries from JSON and TOML never repeat a key, at any depth.\<close>

fun wf_val :: "pyval \<Rightarrow> bool" where
  "wf_val (PList vs) = list_all wf_val vs"
| "wf_val (PDict d) = (dict_ok d \<and> list_all (\<lambda>kv. wf_val (snd kv)) d)"
| "wf_val _ = True"

section \<open>Access\<close>

text \<open>\<open>d.get(k)\<close> and \<open>d.get(k, default)\<close>\<close>

definition dget :: "pydict \<Rightarrow> string \<Rightarrow> pyval" where
  "dget d k = (case map_of d k of None \<Rightarrow> PNone | Some v \<Rightarrow> v)"

definition dget_default :: "pydict \<Rightarrow> string \<Rightarrow> pyval \<Rightarrow> pyval" where
  "dget_default d k v = (case map_of d k of None \<Rightarrow> v | Some w \<Rightarrow> w)"

lemma dget_update [dict_simps]:
  "dget (AList.update k v d) l = (if l = k then v else dget d l)"
  by (simp add: dget_def update_conv')

lemma dget_delete [dict_simps]:
  "dget (AList.delete k d) l = (if l = k then PNone else dget d l)"
  by (simp add: dget_def delete_conv')

lemma dget_Nil [simp]: "dget [] k = PNone"
  by (simp add: dget_def)

lemma dget_Cons [simp]: "dget ((k, v) # d) l = (if l = k then v else dget d l)"
  by (simp add: dget_def)

lemma dget_wf: "wf_val (PDict d) \<Longrightarrow> wf_val (dget d k)"
  by (auto simp: dget_def list_all_iff split: option.split dest!: map_of_SomeD)

text \<open>\<open>v.get(k)\<close> where nothing is known about \<open>v\<close>: only a dictionary has the method.\<close>

definition attr_get :: "pyval \<Rightarrow> string \<Rightarrow> py_exn + pyval" where
  "attr_get v k = (case v of PDict d \<Rightarrow> Inr (dget d k) | _ \<Rightarrow> Inl AttributeError)"

lemma attr_get_dict [simp]: "attr_get (PDict d) k = Inr (dget d k)"
  by (simp add: attr_get_def)

lemma attr_get_returns: "is_dict v \<Longrightarrow> \<exists>w. attr_get v k = Inr w"
  by (cases v) auto

text \<open>\<open>v[k]\<close> of a dictionary, where the key may be missing.\<close>

definition item_get :: "pyval \<Rightarrow> string \<Rightarrow> py_exn + pyval" where
  "item_get v k =
     (case v of
        PDict d \<Rightarrow> (case map_of d k of None \<Rightarrow> Inl KeyError | Some w \<Rightarrow> Inr w)
      | _ \<Rightarrow> Inl TypeError)"

text \<open>\<open>for x in v\<close>: the elements, the characters of a string, the keys of a dictionary.\<close>

fun iter_val :: "pyval \<Rightarrow> py_exn + pyval list" where
  "iter_val (PList vs) = Inr vs"
| "iter_val (PStr s) = Inr (map (\<lambda>c. PStr [c]) s)"
| "iter_val (PDict d) = Inr (map (\<lambda>kv. PStr (fst kv)) d)"
| "iter_val _ = Inl TypeError"

text \<open>\<open>"".join(vs)\<close>\<close>

definition join_strs :: "pyval list \<Rightarrow> py_exn + string" where
  "join_strs vs =
     and_then (map_res (\<lambda>v. case v of PStr s \<Rightarrow> Inr s | _ \<Rightarrow> Inl TypeError) vs)
       (\<lambda>ss. Inr (concat ss))"

lemma join_strs_PStr [simp]: "join_strs (map PStr ss) = Inr (concat ss)"
  by (induction ss) (auto simp: join_strs_def and_then_def split: sum.splits)

section \<open>Numbers\<close>

fun fle :: "pyfloat \<Rightarrow> pyfloat \<Rightarrow> bool" where
  "fle NaN _ = False"
| "fle _ NaN = False"
| "fle NegInf _ = True"
| "fle _ PosInf = True"
| "fle PosInf _ = False"
| "fle _ NegInf = False"
| "fle (Fin a) (Fin b) = (a \<le> b)"

text \<open>The numeric value of an int, a bool or a float; \<open>NaN\<close> for anything else.\<close>

fun num_val :: "pyval \<Rightarrow> pyfloat" where
  "num_val (PInt i) = Fin (of_int i)"
| "num_val (PBool b) = Fin (if b then 1 else 0)"
| "num_val (PFloat f) = f"
| "num_val _ = NaN"

definition num_between :: "pyfloat \<Rightarrow> pyval \<Rightarrow> pyfloat \<Rightarrow> bool" where
  "num_between lo v hi \<longleftrightarrow> fle lo (num_val v) \<and> fle (num_val v) hi"

lemma num_between_Fin:
  "num_between (Fin a) v (Fin b) \<longleftrightarrow> (\<exists>q. num_val v = Fin q \<and> a \<le> q \<and> q \<le> b)"
  by (cases "num_val v") (auto simp: num_between_def)

text \<open>A number, not a bool, within bounds.\<close>

definition number_in :: "rat \<Rightarrow> rat \<Rightarrow> pyval \<Rightarrow> bool" where
  "number_in lo hi v \<longleftrightarrow>
     (\<exists>i. v = PInt i \<and> lo \<le> of_int i \<and> of_int i \<le> hi) \<or>
     (\<exists>q. v = PFloat (Fin q) \<and> lo \<le> q \<and> q \<le> hi)"

lemma number_in_simps:
  "number_in lo hi (PInt i) \<longleftrightarrow> lo \<le> of_int i \<and> of_int i \<le> hi"
  "number_in lo hi (PFloat (Fin q)) \<longleftrightarrow> lo \<le> q \<and> q \<le> hi"
  by (simp_all add: number_in_def)

text \<open>
  Converting an int to a double overflows exactly when it rounds to \<open>2^1024\<close> or more, that
  is from the midpoint above the largest double on (ties go to the even \<open>2^1024\<close>).
\<close>

definition float_overflows :: "int \<Rightarrow> bool" where
  "float_overflows i \<longleftrightarrow> \<bar>i\<bar> \<ge> 2 ^ 1024 - 2 ^ 970"

text \<open>\<open>math.isfinite(v)\<close> of a number\<close>

fun math_isfinite :: "pyval \<Rightarrow> py_exn + bool" where
  "math_isfinite (PInt i) = (if float_overflows i then Inl OverflowError else Inr True)"
| "math_isfinite (PBool _) = Inr True"
| "math_isfinite (PFloat f) = Inr (case f of Fin _ \<Rightarrow> True | _ \<Rightarrow> False)"
| "math_isfinite _ = Inl TypeError"

section \<open>Strings\<close>

definition code :: "char \<Rightarrow> nat" where
  "code c = of_char c"

definition is_space :: "char \<Rightarrow> bool" where
  "is_space c \<longleftrightarrow> 9 \<le> code c \<and> code c \<le> 13 \<or> 28 \<le> code c \<and> code c \<le> 32
     \<or> code c = 133 \<or> code c = 160"

definition is_ascii_digit :: "char \<Rightarrow> bool" where
  "is_ascii_digit c \<longleftrightarrow> 48 \<le> code c \<and> code c \<le> 57"

text \<open>\<open>str.isdigit\<close> also accepts the superscripts one, two and three.\<close>

definition is_digit :: "char \<Rightarrow> bool" where
  "is_digit c \<longleftrightarrow> is_ascii_digit c \<or> code c = 178 \<or> code c = 179 \<or> code c = 185"

definition str_isdigit :: "string \<Rightarrow> bool" where
  "str_isdigit s \<longleftrightarrow> s \<noteq> [] \<and> list_all is_digit s"

text \<open>\<open>int(s)\<close> for a string that passed \<open>isdigit\<close>: a superscript is not accepted.\<close>

definition int_of_digits :: "string \<Rightarrow> py_exn + int" where
  "int_of_digits s =
     (if s \<noteq> [] \<and> list_all is_ascii_digit s then Inr (int (read_nat s)) else Inl ValueError)"

definition lower_char :: "char \<Rightarrow> char" where
  "lower_char c =
     (if 65 \<le> code c \<and> code c \<le> 90 \<or> 192 \<le> code c \<and> code c \<le> 222 \<and> code c \<noteq> 215
      then char_of (code c + 32) else c)"

definition str_lower :: "string \<Rightarrow> string" where
  "str_lower s = map lower_char s"

definition strip :: "string \<Rightarrow> string" where
  "strip s = rev (dropWhile is_space (rev (dropWhile is_space s)))"

text \<open>\<open>s.partition(c)\<close>: what is before the first \<open>c\<close>, whether there is one, what is after.\<close>

definition partition_at :: "char \<Rightarrow> string \<Rightarrow> string \<times> bool \<times> string" where
  "partition_at c s =
     (takeWhile (\<lambda>x. x \<noteq> c) s, c \<in> set s, drop 1 (dropWhile (\<lambda>x. x \<noteq> c) s))"

text \<open>\<open>s.split(c)\<close>\<close>

fun split_at :: "char \<Rightarrow> string \<Rightarrow> string list" where
  "split_at c [] = [[]]"
| "split_at c (x # xs) =
     (if x = c then [] # split_at c xs
      else case split_at c xs of [] \<Rightarrow> [[x]] | w # ws \<Rightarrow> (x # w) # ws)"

lemma split_at_nonempty [simp]: "split_at c s \<noteq> []"
  by (induction s) (auto split: list.splits)

lemma split_at_no_sep: "w \<in> set (split_at c s) \<Longrightarrow> c \<notin> set w"
proof (induction s arbitrary: w)
  case Nil
  then show ?case by simp
next
  case (Cons x s)
  then show ?case by (cases "split_at c s") (auto split: if_splits)
qed

text \<open>\<open>c.join(ws)\<close>\<close>

fun join_with :: "string \<Rightarrow> string list \<Rightarrow> string" where
  "join_with sep [] = []"
| "join_with sep [w] = w"
| "join_with sep (w # ws) = w @ sep @ join_with sep ws"

lemma join_with_Cons: "join_with sep ((x # w) # ws) = x # join_with sep (w # ws)"
  by (cases ws) auto

lemma join_split: "join_with [c] (split_at c s) = s"
proof (induction s)
  case Nil
  then show ?case by simp
next
  case (Cons x s)
  then show ?case by (cases "split_at c s") (auto simp: join_with_Cons)
qed

lemma split_at_free: "c \<notin> set s \<Longrightarrow> split_at c s = [s]"
  by (induction s) auto

lemma split_at_append: "c \<notin> set s \<Longrightarrow> split_at c (s @ c # t) = s # split_at c t"
  by (induction s) auto

lemma strip_id:
  assumes "s = [] \<or> \<not> is_space (hd s) \<and> \<not> is_space (last s)"
  shows "strip s = s"
proof (cases "s = []")
  case True
  then show ?thesis by (simp add: strip_def)
next
  case False
  with assms have "dropWhile is_space s = s" "dropWhile is_space (rev s) = rev s"
    by (simp_all add: dropWhile_eq_self_iff hd_rev)
  then show ?thesis by (simp add: strip_def)
qed

text \<open>
  Text with values in it: an f-string keeps its literal parts and says how each value is
  shown, by \<open>str\<close> or by \<open>repr\<close>. The digits of a float and the escapes of a \<open>repr\<close> are
  left to the interpreter.
\<close>

datatype part = Txt string | Str_of pyval | Repr_of pyval

type_synonym message = "part list"

end
