(* ===== verification/Translate.thy ===== *)
theory Translate
  imports Py_Value
begin

text \<open>
  \<open>gateway/translate.py\<close>: a client's chat request becomes the backend's. \<open>prepare\<close> is
  split at its paragraphs, in their order, so that the first error is the one the code
  raises. \<open>json.loads\<close>, used on the arguments of tool calls, is the parameter \<open>loads\<close>.
\<close>

section \<open>Errors for the client\<close>

record api_error =
  status :: int
  message_of :: message
  code_of :: "string option"
  param_of :: "string option"
  type_of :: string

text \<open>A call raises an \<open>ApiError\<close>, or an exception of the interpreter that nobody expects.\<close>

datatype raised = Api api_error | Py py_exn

definition py :: "py_exn + 'a \<Rightarrow> raised + 'a" where
  "py r = (case r of Inl e \<Rightarrow> Inl (Py e) | Inr x \<Rightarrow> Inr x)"

lemma py_simps [simp, res_simps]: "py (Inl e) = Inl (Py e)" "py (Inr x) = Inr x"
  by (simp_all add: py_def)

lemma py_eq_Inr [simp]: "py r = Inr x \<longleftrightarrow> r = Inr x"
  by (cases r) auto

definition api :: "int \<Rightarrow> message \<Rightarrow> string option \<Rightarrow> string option \<Rightarrow> raised" where
  "api st m c p =
     Api \<lparr>status = st, message_of = m, code_of = c, param_of = p,
          type_of = ''invalid_request_error''\<rparr>"

definition bad :: "message \<Rightarrow> string option \<Rightarrow> raised" where
  "bad m p =
     api 400 m (if p = None \<or> p = Some [] then None else Some ''invalid_value'') p"

definition opt_str :: "string option \<Rightarrow> pyval" where
  "opt_str s = (case s of None \<Rightarrow> PNone | Some t \<Rightarrow> PStr t)"

text \<open>The body keeps the message apart: its text is only known once its parts are shown.\<close>

definition error_body :: "(message \<Rightarrow> string) \<Rightarrow> api_error \<Rightarrow> pydict" where
  "error_body show_msg e =
     [(''error'', PDict
        [(''message'', PStr (show_msg (message_of e))), (''type'', PStr (type_of e)),
         (''param'', opt_str (param_of e)), (''code'', opt_str (code_of e))])]"

section \<open>The gateway's rules\<close>

record sampling =
  temperature :: pyfloat
  top_p :: pyfloat
  top_k :: int

definition sampling_dict :: "sampling \<Rightarrow> pydict" where
  "sampling_dict s =
     [(''temperature'', PFloat (temperature s)), (''top_p'', PFloat (top_p s)),
      (''top_k'', PInt (top_k s))]"

record limits =
  max_context :: int
  max_output_tokens :: int
  min_output_tokens :: int

record rules =
  model_name :: string
  limits_of :: limits
  default_thinking :: bool
  sampling_of :: sampling
  thinking_sampling :: sampling
  effort_variable :: "string option"

record prepared =
  body_of :: pydict
  messages_of :: "pydict list"
  tools_of :: "pyval option"
  template_args :: pydict
  requested_max_tokens :: "int option"
  stream_of :: bool
  include_usage :: bool
  thinking :: bool
  effort_of :: string

definition BACKEND_MODEL :: string where
  "BACKEND_MODEL = ''default_model''"

definition THINKING_SWITCH :: string where
  "THINKING_SWITCH = ''enable_thinking''"

definition EFFORT_LEVELS :: "(string \<times> string) list" where
  "EFFORT_LEVELS =
     [(''low'', ''low''), (''medium'', ''medium''), (''high'', ''xhigh''), (''xhigh'', ''xhigh'')]"

definition NO_THINKING :: "string list" where
  "NO_THINKING = [''none'', ''minimal'']"

definition MESSAGE_ROLES :: "string list" where
  "MESSAGE_ROLES = [''system'', ''developer'', ''user'', ''assistant'', ''tool'']"

definition NUMBER_FIELDS :: "(string \<times> rat \<times> rat) list" where
  "NUMBER_FIELDS =
     [(''temperature'', 0, 2), (''top_p'', 0, 1), (''min_p'', 0, 1),
      (''presence_penalty'', -2, 2), (''frequency_penalty'', -2, 2),
      (''repetition_penalty'', 0, 10)]"

section \<open>Messages\<close>

definition is_number :: "pyval \<Rightarrow> py_exn + bool" where
  "is_number v =
     (case v of PInt _ \<Rightarrow> math_isfinite v | PFloat _ \<Rightarrow> math_isfinite v | _ \<Rightarrow> Inr False)"

text \<open>\<open>x.get(k) if isinstance(x, dict) else None\<close>\<close>

definition get_if_dict :: "pyval \<Rightarrow> string \<Rightarrow> pyval" where
  "get_if_dict v k = (case v of PDict d \<Rightarrow> dget d k | _ \<Rightarrow> PNone)"

definition index_text :: "string \<Rightarrow> nat \<Rightarrow> string" where
  "index_text s i = s @ ''['' @ show_nat i @ '']''"

definition check_part :: "string \<Rightarrow> nat \<Rightarrow> pyval \<Rightarrow> raised + unit" where
  "check_part w j part =
     (let kind = get_if_dict part ''type'';
          here = index_text (w @ ''.content'') j;
          param = Some (w @ ''.content'')
      in if kind \<noteq> PStr ''text''
         then Inl (bad [Txt (here @ '' has type ''), Repr_of kind,
                Txt ('': only text is supported '' @
                     ''(this server does not accept images, audio or files in v1)'')] param)
         else and_then (py (attr_get part ''text''))
                (\<lambda>t. ensure (is_str t) (bad [Txt (here @ ''.text must be a string'')] param)))"

definition check_content :: "pyval \<Rightarrow> string \<Rightarrow> raised + unit" where
  "check_content content w =
     (if content = PNone \<or> is_str content then Inr ()
      else case content of
        PList parts \<Rightarrow> check_each (check_part w) parts
      | _ \<Rightarrow> Inl (bad [Txt (w @ ''.content must be a string or a list of parts'')]
                     (Some (w @ ''.content''))))"

definition check_call ::
    "(string \<Rightarrow> py_exn + pyval) \<Rightarrow> string \<Rightarrow> nat \<Rightarrow> pyval \<Rightarrow> raised + unit" where
  "check_call loads w j call =
     (let function = get_if_dict call ''function'';
          here = index_text (w @ ''.tool_calls'') j;
          param = Some (w @ ''.tool_calls'')
      in if \<not> is_dict function \<or> \<not> is_str (get_if_dict function ''name'')
         then Inl (bad [Txt (here @ '' needs a function name'')] param)
         else case get_if_dict function ''arguments'' of
             PNone \<Rightarrow> Inr ()
           | PStr s \<Rightarrow>
               if s = [] then Inr ()
               else (case loads s of
                   Inr _ \<Rightarrow> Inr ()
                 | Inl e \<Rightarrow>
                     if e = ValueError
                     then Inl (bad [Txt (here @ ''.function.arguments is not valid JSON'')] param)
                     else Inl (Py e))
           | _ \<Rightarrow> Inl (bad [Txt (here @ ''.function.arguments must be a JSON string'')] param))"

definition check_tool_calls ::
    "(string \<Rightarrow> py_exn + pyval) \<Rightarrow> pyval \<Rightarrow> string \<Rightarrow> raised + unit" where
  "check_tool_calls loads calls w =
     (case calls of
        PNone \<Rightarrow> Inr ()
      | PList cs \<Rightarrow> check_each (check_call loads w) cs
      | _ \<Rightarrow> Inl (bad [Txt (w @ ''.tool_calls must be a list'')] (Some (w @ ''.tool_calls''))))"

text \<open>One round of the loop of \<open>_messages\<close>; \<open>result\<close> is the list built so far.\<close>

definition check_message ::
    "(string \<Rightarrow> py_exn + pyval) \<Rightarrow> nat \<Rightarrow> pyval \<Rightarrow> pydict list \<Rightarrow> raised + pydict list" where
  "check_message loads i m result =
     (let w = index_text ''messages'' i
      in case m of
        PDict d \<Rightarrow>
          let role = dget d ''role''
          in if \<not> hashable role then Inl (Py TypeError)
             else if role \<notin> PStr ` set MESSAGE_ROLES
             then Inl (bad [Txt (w @ ''.role must be one of ''),
                    Str_of (PList (map PStr
                      [''assistant'', ''developer'', ''system'', ''tool'', ''user'']))]
                    (Some ''messages''))
             else and_then (check_content (dget d ''content'') w) (\<lambda>_.
                  and_then (check_tool_calls loads (dget d ''tool_calls'') w) (\<lambda>_.
                  Inr (result @
                    [if role = PStr ''developer''
                     then AList.update ''role'' (PStr ''system'') d else d])))
      | _ \<Rightarrow> Inl (bad [Txt (w @ '' must be an object'')] (Some ''messages'')))"

definition messages ::
    "(string \<Rightarrow> py_exn + pyval) \<Rightarrow> pyval \<Rightarrow> raised + pydict list" where
  "messages loads v =
     (case v of
        PList (m # ms) \<Rightarrow> for_each (check_message loads) 0 (m # ms) []
      | _ \<Rightarrow> Inl (bad [Txt ''messages must be a non-empty list''] (Some ''messages'')))"

section \<open>Tools and effort\<close>

definition check_tool :: "nat \<Rightarrow> pyval \<Rightarrow> raised + unit" where
  "check_tool i tool =
     (let function = get_if_dict tool ''function''
      in ensure (case tool of
            PDict d \<Rightarrow> dget_default d ''type'' (PStr ''function'') = PStr ''function''
              \<and> is_dict function \<and> is_str (get_if_dict function ''name'')
          | _ \<Rightarrow> False)
          (bad [Txt (index_text ''tools'' i @ '' must be a function with a name'')] (Some ''tools'')))"

definition tools :: "pyval \<Rightarrow> pyval \<Rightarrow> raised + pyval option" where
  "tools v tool_choice =
     (if v = PNone \<or> v = PList [] then Inr None
      else case v of
        PList ts \<Rightarrow> and_then (check_each check_tool ts)
            (\<lambda>_. Inr (if tool_choice = PStr ''none'' then None else Some v))
      | _ \<Rightarrow> Inl (bad [Txt ''tools must be a list''] (Some ''tools'')))"

definition bad_effort :: raised where
  "bad_effort = bad [Txt ''reasoning_effort must be one of none, low, medium or high'']
     (Some ''reasoning_effort'')"

definition effort :: "pyval \<Rightarrow> rules \<Rightarrow> raised + string \<times> bool \<times> pydict" where
  "effort v r =
     (case v of
        PNone \<Rightarrow> Inr (''default'', default_thinking r, [])
      | PStr s \<Rightarrow>
          if s \<in> set NO_THINKING
          then Inr (''none'', False,
                 if default_thinking r then [(THINKING_SWITCH, PBool False)] else [])
          else (case map_of EFFORT_LEVELS s of
              None \<Rightarrow> Inl bad_effort
            | Some level \<Rightarrow>
                let on = [(THINKING_SWITCH, PBool True)]
                in Inr (s, True,
                     case effort_variable r of
                       Some (c # x) \<Rightarrow> AList.update (c # x) (PStr level) on
                     | _ \<Rightarrow> on))
      | _ \<Rightarrow> Inl bad_effort)"


section \<open>The request\<close>

definition check_model :: "pydict \<Rightarrow> rules \<Rightarrow> raised + unit" where
  "check_model body r =
     (let model = dget body ''model''
      in ensure (model = PNone \<or> model = PStr (model_name r))
          (api 404 [Txt ''The model `'', Str_of model,
               Txt (''` does not exist; this server only has `'' @ model_name r @ ''`.'')]
             (Some ''model_not_found'') (Some ''model'')))"

definition read_stream :: "pydict \<Rightarrow> raised + bool" where
  "read_stream body =
     (case dget_default body ''stream'' (PBool False) of
        PNone \<Rightarrow> Inr False
      | PBool b \<Rightarrow> Inr b
      | _ \<Rightarrow> Inl (bad [Txt ''stream must be true or false''] (Some ''stream'')))"

definition read_include_usage :: "pydict \<Rightarrow> raised + bool" where
  "read_include_usage body =
     (case dget body ''stream_options'' of
        PDict options \<Rightarrow> Inr (dget options ''include_usage'' = PBool True)
      | PNone \<Rightarrow> Inr False
      | _ \<Rightarrow> Inl (bad [Txt ''stream_options must be an object''] (Some ''stream_options'')))"

definition check_n :: "pydict \<Rightarrow> raised + unit" where
  "check_n body =
     (let n = dget body ''n''
      in ensure (n = PNone \<or> eq_one n) (bad [Txt ''only n=1 is supported''] (Some ''n'')))"

definition forward_number ::
    "pydict \<Rightarrow> nat \<Rightarrow> string \<times> rat \<times> rat \<Rightarrow> pydict \<Rightarrow> raised + pydict" where
  "forward_number body i field fwd =
     (case field of (name, low, high) \<Rightarrow>
        let value = dget body name
        in if value = PNone then Inr fwd
           else and_then (py (is_number value)) (\<lambda>ok.
             if \<not> ok \<or> \<not> num_between (Fin low) value (Fin high)
             then Inl (bad [Txt (name @ '' must be a number between ''),
                    Str_of (PFloat (Fin low)), Txt '' and '', Str_of (PFloat (Fin high))]
                    (Some name))
             else Inr (AList.update name value fwd)))"

definition forward_numbers :: "pydict \<Rightarrow> pydict \<Rightarrow> raised + pydict" where
  "forward_numbers body fwd = for_each (forward_number body) 0 NUMBER_FIELDS fwd"

definition forward_top_k :: "pydict \<Rightarrow> pydict \<Rightarrow> raised + pydict" where
  "forward_top_k body fwd =
     (case dget body ''top_k'' of
        PNone \<Rightarrow> Inr fwd
      | PInt k \<Rightarrow> if k < 0 then Inl (bad [Txt ''top_k must be a non-negative integer''] (Some ''top_k''))
                 else Inr (AList.update ''top_k'' (PInt k) fwd)
      | _ \<Rightarrow> Inl (bad [Txt ''top_k must be a non-negative integer''] (Some ''top_k'')))"

definition forward_seed :: "pydict \<Rightarrow> pydict \<Rightarrow> raised + pydict" where
  "forward_seed body fwd =
     (case dget body ''seed'' of
        PNone \<Rightarrow> Inr fwd
      | PInt k \<Rightarrow> Inr (AList.update ''seed'' (PInt k) fwd)
      | _ \<Rightarrow> Inl (bad [Txt ''seed must be an integer''] (Some ''seed'')))"

definition forward_stop :: "pydict \<Rightarrow> pydict \<Rightarrow> raised + pydict" where
  "forward_stop body fwd =
     (let stop = dget body ''stop'';
          listed = (if is_str stop then PList [stop] else stop)
      in if stop = PNone then Inr fwd
         else case listed of
           PList ss \<Rightarrow>
             if list_all (\<lambda>s. is_str s \<and> truthy s) ss
             then Inr (if ss = [] then fwd else AList.update ''stop'' (PList ss) fwd)
             else Inl (bad [Txt ''stop must be a string or a list of strings''] (Some ''stop''))
         | _ \<Rightarrow> Inl (bad [Txt ''stop must be a string or a list of strings''] (Some ''stop'')))"

text \<open>\<open>all(...)\<close> over the entries: it stops at the first false one, and may raise.\<close>

fun bias_ok :: "pydict \<Rightarrow> py_exn + bool" where
  "bias_ok [] = Inr True"
| "bias_ok ((k, v) # d) =
     (if str_isdigit k
      then and_then (is_number v) (\<lambda>ok. if ok then bias_ok d else Inr False)
      else Inr False)"

definition forward_bias :: "pydict \<Rightarrow> pydict \<Rightarrow> raised + pydict" where
  "forward_bias body fwd =
     (case dget body ''logit_bias'' of
        PNone \<Rightarrow> Inr fwd
      | PDict d \<Rightarrow> and_then (py (bias_ok d)) (\<lambda>ok.
            if ok then Inr (if d = [] then fwd else AList.update ''logit_bias'' (PDict d) fwd)
            else Inl (bad [Txt ''logit_bias must map token ids to numbers''] (Some ''logit_bias'')))
      | _ \<Rightarrow> Inl (bad [Txt ''logit_bias must map token ids to numbers''] (Some ''logit_bias'')))"

text \<open>The loop over the two names ends at the first that is given.\<close>

fun read_max_tokens :: "pydict \<Rightarrow> string list \<Rightarrow> raised + int option" where
  "read_max_tokens body [] = Inr None"
| "read_max_tokens body (name # names) =
     (case dget body name of
        PNone \<Rightarrow> read_max_tokens body names
      | PInt k \<Rightarrow> if k < 1 then Inl (bad [Txt (name @ '' must be a positive integer'')] (Some name))
                 else Inr (Some k)
      | _ \<Rightarrow> Inl (bad [Txt (name @ '' must be a positive integer'')] (Some name)))"

definition set_defaults :: "pydict \<Rightarrow> pydict \<Rightarrow> pydict" where
  "set_defaults defaults fwd = fold (\<lambda>(name, value). setdefault name value) defaults fwd"

definition first_fields :: "pydict list \<Rightarrow> pyval option \<Rightarrow> pydict" where
  "first_fields ms ts =
     [(''model'', PStr BACKEND_MODEL), (''messages'', PList (map PDict ms))] @
     (case ts of Some t \<Rightarrow> if truthy t then [(''tools'', t)] else [] | None \<Rightarrow> [])"

definition forward_fields :: "pydict \<Rightarrow> pydict \<Rightarrow> raised + pydict" where
  "forward_fields body fwd0 =
     and_then (forward_numbers body fwd0) (\<lambda>fwd1.
     and_then (forward_top_k body fwd1) (\<lambda>fwd2.
     and_then (forward_seed body fwd2) (\<lambda>fwd3.
     and_then (forward_stop body fwd3) (\<lambda>fwd4.
     forward_bias body fwd4))))"

text \<open>The rest of the forwarded body: template arguments, defaults, and what is always set.\<close>

definition last_fields :: "rules \<Rightarrow> bool \<Rightarrow> pydict \<Rightarrow> pydict \<Rightarrow> pydict" where
  "last_fields r think args fwd =
     (let fwd1 = (if args = [] then fwd
                  else AList.update ''chat_template_kwargs'' (PDict args) fwd);
          fwd2 = set_defaults
                   (sampling_dict (if think then thinking_sampling r else sampling_of r)) fwd1;
          fwd3 = AList.update ''stream'' (PBool True) fwd2
      in AList.update ''stream_options'' (PDict [(''include_usage'', PBool True)]) fwd3)"

definition prepare :: "(string \<Rightarrow> py_exn + pyval) \<Rightarrow> pyval \<Rightarrow> rules \<Rightarrow> raised + prepared" where
  "prepare loads v r =
     (case v of
        PDict body \<Rightarrow>
          and_then (check_model body r) (\<lambda>_.
          and_then (messages loads (dget body ''messages'')) (\<lambda>ms.
          and_then (tools (dget body ''tools'') (dget body ''tool_choice'')) (\<lambda>ts.
          and_then (read_stream body) (\<lambda>str.
          and_then (read_include_usage body) (\<lambda>usage.
          and_then (check_n body) (\<lambda>_.
          and_then (forward_fields body (first_fields ms ts)) (\<lambda>fwd.
          and_then (read_max_tokens body [''max_completion_tokens'', ''max_tokens'']) (\<lambda>req.
          and_then (effort (dget body ''reasoning_effort'') r) (\<lambda>(name, think, args).
          Inr \<lparr>body_of = last_fields r think args fwd, messages_of = ms, tools_of = ts,
               template_args =
                 dict_merge [(THINKING_SWITCH, PBool (default_thinking r))] args,
               requested_max_tokens = req, stream_of = str, include_usage = usage,
               thinking = think, effort_of = name\<rparr>)))))))))
      | _ \<Rightarrow> Inl (bad [Txt ''the request body must be a JSON object''] None))"

definition limit :: "int \<Rightarrow> int option \<Rightarrow> limits \<Rightarrow> raised + int" where
  "limit prompt_tokens requested l =
     (let budget = max_context l - min_output_tokens l
      in if prompt_tokens > budget
         then Inl (api 400
           [Txt ''This model's maximum context length is '', Str_of (PInt (max_context l)),
            Txt '' tokens, of which '', Str_of (PInt (min_output_tokens l)),
            Txt '' are kept for the answer. Your messages resulted in '',
            Str_of (PInt prompt_tokens),
            Txt '' tokens; please shorten them or start a new conversation.'']
           (Some ''context_length_exceeded'') (Some ''messages''))
         else let allowed = min (max_output_tokens l) (max_context l - prompt_tokens)
              in Inr (case requested of None \<Rightarrow> allowed | Some n \<Rightarrow> min n allowed))"

end
