(* ===== verification/Request_Validity.thy ===== *)
theory Request_Validity
  imports Translate
begin

text \<open>
  What a chat request has to look like, stated without the order of the checks or the error
  messages of \<open>gateway/translate.py\<close>, and the proof that \<open>prepare\<close> accepts exactly
  these requests; then what the accepted request becomes.
\<close>

named_theorems accepts \<open>when a check of the translation returns, and with what\<close>

section \<open>Messages\<close>

definition valid_part :: "pyval \<Rightarrow> bool" where
  "valid_part v \<longleftrightarrow> (\<exists>d. v = PDict d \<and> dget d ''type'' = PStr ''text'' \<and> is_str (dget d ''text''))"

definition valid_content :: "pyval \<Rightarrow> bool" where
  "valid_content v \<longleftrightarrow> v = PNone \<or> is_str v \<or> (\<exists>ps. v = PList ps \<and> list_all valid_part ps)"

definition valid_arguments :: "(string \<Rightarrow> py_exn + pyval) \<Rightarrow> pyval \<Rightarrow> bool" where
  "valid_arguments loads v \<longleftrightarrow>
     v = PNone \<or> (\<exists>s. v = PStr s \<and> (s = [] \<or> (\<exists>x. loads s = Inr x)))"

definition valid_call :: "(string \<Rightarrow> py_exn + pyval) \<Rightarrow> pyval \<Rightarrow> bool" where
  "valid_call loads v \<longleftrightarrow>
     (\<exists>d f. v = PDict d \<and> dget d ''function'' = PDict f \<and> is_str (dget f ''name'') \<and>
       valid_arguments loads (dget f ''arguments''))"

definition valid_calls :: "(string \<Rightarrow> py_exn + pyval) \<Rightarrow> pyval \<Rightarrow> bool" where
  "valid_calls loads v \<longleftrightarrow> v = PNone \<or> (\<exists>cs. v = PList cs \<and> list_all (valid_call loads) cs)"

definition valid_message :: "(string \<Rightarrow> py_exn + pyval) \<Rightarrow> pyval \<Rightarrow> bool" where
  "valid_message loads v \<longleftrightarrow>
     (\<exists>d. v = PDict d \<and> dget d ''role'' \<in> PStr ` set MESSAGE_ROLES \<and>
       valid_content (dget d ''content'') \<and> valid_calls loads (dget d ''tool_calls''))"

definition valid_messages :: "(string \<Rightarrow> py_exn + pyval) \<Rightarrow> pyval \<Rightarrow> bool" where
  "valid_messages loads v \<longleftrightarrow> (\<exists>vs. v = PList vs \<and> vs \<noteq> [] \<and> list_all (valid_message loads) vs)"

text \<open>The message sent on: as it came, with the one new name of a role undone.\<close>

definition sent_message :: "pyval \<Rightarrow> pydict" where
  "sent_message v =
     (case v of
        PDict d \<Rightarrow> if dget d ''role'' = PStr ''developer''
                   then AList.update ''role'' (PStr ''system'') d else d
      | _ \<Rightarrow> [])"

definition elements :: "pyval \<Rightarrow> pyval list" where
  "elements v = (case v of PList vs \<Rightarrow> vs | _ \<Rightarrow> [])"

lemma api_not_py [simp]: "bad m p \<noteq> Py e" "api st m c p \<noteq> Py e"
  by (simp_all add: bad_def api_def)

lemma check_each_iff:
  assumes "\<And>i x. body i x = Inr () \<longleftrightarrow> P x"
  shows "check_each body xs = Inr u \<longleftrightarrow> list_all P xs"
  by (simp add: for_each_check_iff assms list_all_length)

lemma check_part_iff [accepts]: "check_part w j v = Inr u \<longleftrightarrow> valid_part v"
  by (cases v) (auto simp: check_part_def valid_part_def get_if_dict_def Let_def)

lemma check_content_iff [accepts]: "check_content v w = Inr u \<longleftrightarrow> valid_content v"
proof (cases v)
  case (PList ps)
  then show ?thesis
    using check_each_iff [of "check_part w" valid_part ps] check_part_iff [of w]
    by (simp add: check_content_def valid_content_def)
qed (auto simp: check_content_def valid_content_def)

lemma check_call_iff [accepts]: "check_call loads w j v = Inr u \<longleftrightarrow> valid_call loads v"
proof (cases "is_dict (get_if_dict v ''function'')")
  case True
  then obtain d f where "v = PDict d" "dget d ''function'' = PDict f"
    by (cases v) (auto simp: get_if_dict_def is_dict_iff)
  then show ?thesis
    by (auto simp: check_call_def valid_call_def valid_arguments_def get_if_dict_def Let_def
        split: pyval.splits sum.splits)
qed (auto simp: check_call_def valid_call_def get_if_dict_def)

lemma check_tool_calls_iff [accepts]:
  "check_tool_calls loads v w = Inr u \<longleftrightarrow> valid_calls loads v"
  using check_each_iff [of "check_call loads w" "valid_call loads"] check_call_iff [of loads w]
  by (cases v) (auto simp: check_tool_calls_def valid_calls_def)

lemma check_message_iff [accepts]:
  "check_message loads i v ms = Inr ms' \<longleftrightarrow>
     valid_message loads v \<and> ms' = ms @ [sent_message v]"
proof (cases v)
  case (PDict d)
  show ?thesis
  proof (cases "dget d ''role'' \<in> PStr ` set MESSAGE_ROLES")
    case True
    then have "hashable (dget d ''role'')" by auto
    with True PDict show ?thesis
      by (auto simp: check_message_def valid_message_def sent_message_def Let_def and_then_eq_Inr
          accepts)
  qed (use PDict in \<open>auto simp: check_message_def valid_message_def Let_def\<close>)
qed (auto simp: check_message_def valid_message_def Let_def)

lemma check_messages_iff:
  "for_each (check_message loads) n vs ms = Inr ms' \<longleftrightarrow>
     list_all (valid_message loads) vs \<and> ms' = ms @ map sent_message vs"
  by (induction vs arbitrary: n ms) (auto simp: and_then_eq_Inr check_message_iff)

lemma messages_iff [accepts]:
  "messages loads v = Inr ms \<longleftrightarrow>
     valid_messages loads v \<and> ms = map sent_message (elements v)"
proof (cases v)
  case (PList vs)
  then show ?thesis
    using check_messages_iff [of loads 0 vs "[]"]
    by (cases vs) (auto simp: messages_def valid_messages_def elements_def)
qed (auto simp: messages_def valid_messages_def)

section \<open>Tools and effort\<close>

definition valid_tool :: "pyval \<Rightarrow> bool" where
  "valid_tool v \<longleftrightarrow>
     (\<exists>d f. v = PDict d \<and> dget_default d ''type'' (PStr ''function'') = PStr ''function'' \<and>
       dget d ''function'' = PDict f \<and> is_str (dget f ''name''))"

definition valid_tools :: "pyval \<Rightarrow> bool" where
  "valid_tools v \<longleftrightarrow> v = PNone \<or> (\<exists>ts. v = PList ts \<and> list_all valid_tool ts)"

definition offered_tools :: "pydict \<Rightarrow> pyval option" where
  "offered_tools body =
     (if elements (dget body ''tools'') = [] \<or> dget body ''tool_choice'' = PStr ''none''
      then None else Some (dget body ''tools''))"

lemma check_tool_iff [accepts]: "check_tool i v = Inr u \<longleftrightarrow> valid_tool v"
  by (cases v) (auto simp: check_tool_def valid_tool_def get_if_dict_def Let_def is_dict_iff)

lemma tools_iff [accepts]:
  "tools (dget body ''tools'') (dget body ''tool_choice'') = Inr ts \<longleftrightarrow>
     valid_tools (dget body ''tools'') \<and> ts = offered_tools body"
  using check_each_iff [of check_tool valid_tool] check_tool_iff
  by (cases "dget body ''tools''")
    (auto simp: tools_def valid_tools_def offered_tools_def elements_def and_then_eq_Inr)

definition valid_effort :: "pyval \<Rightarrow> bool" where
  "valid_effort v \<longleftrightarrow>
     v = PNone \<or> v \<in> PStr ` (set NO_THINKING \<union> set (dict_keys EFFORT_LEVELS))"

definition wants_thinking :: "pyval \<Rightarrow> rules \<Rightarrow> bool" where
  "wants_thinking v r \<longleftrightarrow>
     (if v = PNone then default_thinking r else v \<notin> PStr ` set NO_THINKING)"

lemma effort_iff [accepts]: "(\<exists>x. effort v r = Inr x) \<longleftrightarrow> valid_effort v"
proof (cases v)
  case (PStr s)
  show ?thesis
  proof (cases "map_of EFFORT_LEVELS s")
    case None
    then have "s \<notin> set (dict_keys EFFORT_LEVELS)" by (simp add: map_of_eq_None_iff)
    with None PStr show ?thesis by (auto simp: effort_def valid_effort_def)
  next
    case (Some level)
    then have "s \<in> set (dict_keys EFFORT_LEVELS)" by (metis map_of_eq_None_iff option.simps(3) set_map)
    with Some PStr show ?thesis by (auto simp: effort_def valid_effort_def Let_def)
  qed
qed (auto simp: effort_def valid_effort_def)

lemma effort_thinking: "effort v r = Inr (name, think, args) \<Longrightarrow> think = wants_thinking v r"
  by (cases v)
    (auto simp: effort_def wants_thinking_def Let_def split: if_splits option.splits)

section \<open>Sampling and stopping fields\<close>

text \<open>A field that is given is copied; one that is missing or null leaves the target alone.\<close>

definition put_given :: "pydict \<Rightarrow> string \<Rightarrow> pydict \<Rightarrow> pydict" where
  "put_given body k fwd =
     (if dget body k = PNone then fwd else AList.update k (dget body k) fwd)"

definition valid_number :: "pydict \<Rightarrow> string \<times> rat \<times> rat \<Rightarrow> bool" where
  "valid_number body field \<longleftrightarrow>
     (case field of (name, lo, hi) \<Rightarrow>
        dget body name = PNone \<or> number_in lo hi (dget body name))"

text \<open>Every number within the bounds of the table fits a double.\<close>

lemma small_fits: "\<bar>i\<bar> \<le> 10 \<Longrightarrow> \<not> float_overflows i"
  by (simp add: float_overflows_def)

lemma between_fits:
  fixes lo hi :: rat
  assumes "- 10 \<le> lo" and "hi \<le> 10" and "lo \<le> of_int i" and "of_int i \<le> hi"
  shows "\<not> float_overflows i"
proof -
  from assms have "(of_int (- 10) :: rat) \<le> of_int i" "of_int i \<le> (of_int 10 :: rat)" by simp_all
  then have "\<bar>i\<bar> \<le> 10" unfolding of_int_le_iff by simp
  then show ?thesis by (rule small_fits)
qed

lemma forward_number_iff:
  assumes "- 10 \<le> lo" and "hi \<le> 10"
  shows "forward_number body i (name, lo, hi) fwd = Inr fwd' \<longleftrightarrow>
     valid_number body (name, lo, hi) \<and> fwd' = put_given body name fwd"
  using between_fits [OF assms]
  by (cases "dget body name")
    (auto simp: forward_number_def valid_number_def put_given_def number_in_def is_number_def
      and_then_eq_Inr num_between_Fin Let_def split: pyfloat.splits)

definition put_numbers :: "pydict \<Rightarrow> pydict \<Rightarrow> pydict" where
  "put_numbers body fwd = fold (\<lambda>(name, _). put_given body name) NUMBER_FIELDS fwd"

lemma forward_numbers_iff [accepts]:
  "forward_numbers body fwd = Inr fwd' \<longleftrightarrow>
     list_all (valid_number body) NUMBER_FIELDS \<and> fwd' = put_numbers body fwd"
proof -
  have "for_each (forward_number body) n fs fwd = Inr fwd' \<longleftrightarrow>
      list_all (valid_number body) fs \<and> fwd' = fold (\<lambda>(name, _). put_given body name) fs fwd"
    if "list_all (\<lambda>(_, lo, hi). - 10 \<le> lo \<and> hi \<le> 10) fs" for n fs
    using that
  proof (induction fs arbitrary: n fwd)
    case (Cons f fs)
    obtain name lo hi where f: "f = (name, lo, hi)" by (cases f)
    with Cons show ?case by (auto simp: and_then_eq_Inr forward_number_iff)
  qed auto
  moreover have "list_all (\<lambda>(_, lo, hi). - 10 \<le> lo \<and> hi \<le> 10) NUMBER_FIELDS"
    by (simp add: NUMBER_FIELDS_def)
  ultimately show ?thesis unfolding forward_numbers_def put_numbers_def by blast
qed

definition valid_top_k :: "pyval \<Rightarrow> bool" where
  "valid_top_k v \<longleftrightarrow> v = PNone \<or> (\<exists>k \<ge> 0. v = PInt k)"

lemma forward_top_k_iff [accepts]:
  "forward_top_k body fwd = Inr fwd' \<longleftrightarrow>
     valid_top_k (dget body ''top_k'') \<and> fwd' = put_given body ''top_k'' fwd"
  by (cases "dget body ''top_k''") (auto simp: forward_top_k_def valid_top_k_def put_given_def)

definition valid_seed :: "pyval \<Rightarrow> bool" where
  "valid_seed v \<longleftrightarrow> v = PNone \<or> is_plain_int v"

lemma forward_seed_iff [accepts]:
  "forward_seed body fwd = Inr fwd' \<longleftrightarrow>
     valid_seed (dget body ''seed'') \<and> fwd' = put_given body ''seed'' fwd"
  by (cases "dget body ''seed''") (auto simp: forward_seed_def valid_seed_def put_given_def)

definition valid_stop :: "pyval \<Rightarrow> bool" where
  "valid_stop v \<longleftrightarrow>
     v = PNone \<or> (\<exists>s. v = PStr s \<and> s \<noteq> []) \<or>
     (\<exists>ss. v = PList ss \<and> list_all (\<lambda>s. is_str s \<and> s \<noteq> PStr []) ss)"

definition put_stop :: "pyval \<Rightarrow> pydict \<Rightarrow> pydict" where
  "put_stop v fwd =
     (case v of
        PStr s \<Rightarrow> AList.update ''stop'' (PList [v]) fwd
      | PList (s # ss) \<Rightarrow> AList.update ''stop'' v fwd
      | _ \<Rightarrow> fwd)"

lemma forward_stop_iff [accepts]:
  "forward_stop body fwd = Inr fwd' \<longleftrightarrow>
     valid_stop (dget body ''stop'') \<and> fwd' = put_stop (dget body ''stop'') fwd"
proof -
  have "(\<lambda>s. is_str s \<and> truthy s) = (\<lambda>s. is_str s \<and> s \<noteq> PStr [])"
    by (auto simp: fun_eq_iff is_str_iff)
  then show ?thesis
    by (cases "dget body ''stop''")
      (auto simp: forward_stop_def valid_stop_def put_stop_def Let_def split: list.splits)
qed

definition fits_number :: "pyval \<Rightarrow> bool" where
  "fits_number v \<longleftrightarrow>
     (\<exists>i. v = PInt i \<and> \<not> float_overflows i) \<or> (\<exists>q. v = PFloat (Fin q))"

definition valid_bias :: "pyval \<Rightarrow> bool" where
  "valid_bias v \<longleftrightarrow>
     v = PNone \<or> (\<exists>d. v = PDict d \<and> list_all (\<lambda>(k, x). str_isdigit k \<and> fits_number x) d)"

lemma is_number_iff: "is_number v = Inr True \<longleftrightarrow> fits_number v"
  by (cases v) (auto simp: is_number_def fits_number_def split: pyfloat.splits)

lemma bias_ok_iff:
  "bias_ok d = Inr True \<longleftrightarrow> list_all (\<lambda>(k, x). str_isdigit k \<and> fits_number x) d"
  by (induction d rule: bias_ok.induct) (auto simp: and_then_eq_Inr is_number_iff)

definition put_bias :: "pyval \<Rightarrow> pydict \<Rightarrow> pydict" where
  "put_bias v fwd =
     (case v of PDict (e # d) \<Rightarrow> AList.update ''logit_bias'' v fwd | _ \<Rightarrow> fwd)"

lemma forward_bias_iff [accepts]:
  "forward_bias body fwd = Inr fwd' \<longleftrightarrow>
     valid_bias (dget body ''logit_bias'') \<and> fwd' = put_bias (dget body ''logit_bias'') fwd"
proof (cases "dget body ''logit_bias''")
  case (PDict d)
  then show ?thesis
    using bias_ok_iff [of d]
    by (auto simp: forward_bias_def valid_bias_def put_bias_def and_then_eq_Inr
        split: list.splits if_splits)
qed (auto simp: forward_bias_def valid_bias_def put_bias_def)

definition positive :: "pyval \<Rightarrow> bool" where
  "positive v \<longleftrightarrow> (\<exists>k \<ge> 1. v = PInt k)"

fun valid_max_tokens :: "pydict \<Rightarrow> string list \<Rightarrow> bool" where
  "valid_max_tokens body [] = True"
| "valid_max_tokens body (name # names) =
     (if dget body name = PNone then valid_max_tokens body names else positive (dget body name))"

lemma read_max_tokens_iff [accepts]:
  "(\<exists>m. read_max_tokens body names = Inr m) \<longleftrightarrow> valid_max_tokens body names"
  by (induction body names rule: valid_max_tokens.induct)
    (auto simp: positive_def not_less split: pyval.splits)

lemma read_max_tokens_positive:
  "read_max_tokens body names = Inr (Some k) \<Longrightarrow> 1 \<le> k"
  by (induction body names rule: valid_max_tokens.induct) (auto split: pyval.splits if_splits)

section \<open>The request\<close>

definition valid_request :: "(string \<Rightarrow> py_exn + pyval) \<Rightarrow> rules \<Rightarrow> pydict \<Rightarrow> bool" where
  "valid_request loads r body \<longleftrightarrow>
     dget body ''model'' \<in> {PNone, PStr (model_name r)} \<and>
     valid_messages loads (dget body ''messages'') \<and>
     valid_tools (dget body ''tools'') \<and>
     dget body ''stream'' \<in> {PNone, PBool True, PBool False} \<and>
     (dget body ''stream_options'' = PNone \<or> is_dict (dget body ''stream_options'')) \<and>
     (dget body ''n'' = PNone \<or> eq_one (dget body ''n'')) \<and>
     list_all (valid_number body) NUMBER_FIELDS \<and>
     valid_top_k (dget body ''top_k'') \<and> valid_seed (dget body ''seed'') \<and>
     valid_stop (dget body ''stop'') \<and> valid_bias (dget body ''logit_bias'') \<and>
     valid_max_tokens body [''max_completion_tokens'', ''max_tokens''] \<and>
     valid_effort (dget body ''reasoning_effort'')"

definition put_fields :: "pydict \<Rightarrow> pydict \<Rightarrow> pydict" where
  "put_fields body fwd =
     put_bias (dget body ''logit_bias'') (put_stop (dget body ''stop'')
       (put_given body ''seed'' (put_given body ''top_k'' (put_numbers body fwd))))"

lemma forward_fields_iff [accepts]:
  "forward_fields body fwd = Inr fwd' \<longleftrightarrow>
     list_all (valid_number body) NUMBER_FIELDS \<and> valid_top_k (dget body ''top_k'') \<and>
     valid_seed (dget body ''seed'') \<and> valid_stop (dget body ''stop'') \<and>
     valid_bias (dget body ''logit_bias'') \<and> fwd' = put_fields body fwd"
  by (auto simp: forward_fields_def put_fields_def and_then_eq_Inr accepts)

lemma check_model_iff [accepts]:
  "check_model body r = Inr u \<longleftrightarrow> dget body ''model'' \<in> {PNone, PStr (model_name r)}"
  by (auto simp: check_model_def Let_def)

lemma read_stream_iff [accepts]:
  "read_stream body = Inr b \<longleftrightarrow>
     dget body ''stream'' \<in> {PNone, PBool True, PBool False} \<and> b = (dget body ''stream'' = PBool True)"
  by (auto simp: read_stream_def dget_default_def dget_def split: option.splits pyval.splits)

lemma read_include_usage_iff [accepts]:
  "read_include_usage body = Inr b \<longleftrightarrow>
     (dget body ''stream_options'' = PNone \<or> is_dict (dget body ''stream_options'')) \<and>
     b = (get_if_dict (dget body ''stream_options'') ''include_usage'' = PBool True)"
  by (auto simp: read_include_usage_def get_if_dict_def split: pyval.splits)

lemma check_n_iff [accepts]:
  "check_n body = Inr u \<longleftrightarrow> dget body ''n'' = PNone \<or> eq_one (dget body ''n'')"
  by (simp add: check_n_def Let_def)

text \<open>\<open>prepare\<close> in one step: what a valid request becomes, and that no other is accepted.\<close>

definition prepared_from ::
    "rules \<Rightarrow> pydict \<Rightarrow> string \<times> bool \<times> pydict \<Rightarrow> prepared" where
  "prepared_from r body e =
     (case e of (name, think, args) \<Rightarrow>
       let ms = map sent_message (elements (dget body ''messages''));
           ts = offered_tools body
       in \<lparr>body_of = last_fields r think args (put_fields body (first_fields ms ts)),
           messages_of = ms, tools_of = ts,
           template_args = dict_merge [(THINKING_SWITCH, PBool (default_thinking r))] args,
           requested_max_tokens =
             (case read_max_tokens body [''max_completion_tokens'', ''max_tokens''] of
                Inr m \<Rightarrow> m | Inl _ \<Rightarrow> None),
           stream_of = (dget body ''stream'' = PBool True),
           include_usage =
             (get_if_dict (dget body ''stream_options'') ''include_usage'' = PBool True),
           thinking = think, effort_of = name\<rparr>)"

lemma prepare_iff:
  "prepare loads (PDict body) r = Inr p \<longleftrightarrow>
     valid_request loads r body \<and>
     (\<exists>e. effort (dget body ''reasoning_effort'') r = Inr e \<and> p = prepared_from r body e)"
  (is "?l \<longleftrightarrow> ?v \<and> ?e")
proof
  note [simp del] = read_max_tokens.simps valid_max_tokens.simps
  assume ?l
  then obtain m name think args where
    m: "read_max_tokens body [''max_completion_tokens'', ''max_tokens''] = Inr m"
    and e: "effort (dget body ''reasoning_effort'') r = Inr (name, think, args)"
    and rest: "dget body ''model'' \<in> {PNone, PStr (model_name r)}"
      "valid_messages loads (dget body ''messages'')" "valid_tools (dget body ''tools'')"
      "dget body ''stream'' \<in> {PNone, PBool True, PBool False}"
      "dget body ''stream_options'' = PNone \<or> is_dict (dget body ''stream_options'')"
      "dget body ''n'' = PNone \<or> eq_one (dget body ''n'')"
      "list_all (valid_number body) NUMBER_FIELDS" "valid_top_k (dget body ''top_k'')"
      "valid_seed (dget body ''seed'')" "valid_stop (dget body ''stop'')"
      "valid_bias (dget body ''logit_bias'')"
    and p: "p = prepared_from r body (name, think, args)"
    unfolding prepare_def pyval.case
    by (elim and_then_InrE) (auto simp: accepts prepared_from_def Let_def)
  from m have "valid_max_tokens body [''max_completion_tokens'', ''max_tokens'']"
    using read_max_tokens_iff by blast
  moreover from e have "valid_effort (dget body ''reasoning_effort'')"
    using effort_iff by blast
  ultimately have ?v unfolding valid_request_def using rest by blast
  with e p show "?v \<and> ?e" by blast
next
  note [simp del] = read_max_tokens.simps valid_max_tokens.simps
  assume v: "?v \<and> ?e"
  then obtain m where
    "read_max_tokens body [''max_completion_tokens'', ''max_tokens''] = Inr m"
    unfolding valid_request_def using read_max_tokens_iff by blast
  with v show ?l
    unfolding prepare_def valid_request_def pyval.case
    by (auto simp: and_then_eq_Inr accepts prepared_from_def Let_def)
qed

end
