(* ===== verification/Request_Properties.thy ===== *)
theory Request_Properties
  imports Request_Validity
begin

text \<open>
  What \<open>prepare\<close> and \<open>limit\<close> of \<open>gateway/translate.py\<close> promise: which requests are
  accepted, what the backend is sent, what the client is told, and how many tokens it gets.
\<close>

section \<open>The forwarded body, field by field\<close>

named_theorems field_of \<open>lookups in the forwarded body\<close>

lemma lookup_put_given [field_of]:
  "map_of (put_given body k fwd) l =
     (if l = k \<and> dget body k \<noteq> PNone then Some (dget body k) else map_of fwd l)"
  by (simp add: put_given_def update_conv')

lemma lookup_put_numbers [field_of]:
  "map_of (put_numbers body fwd) l =
     (if l \<in> set (dict_keys NUMBER_FIELDS) \<and> dget body l \<noteq> PNone then Some (dget body l)
      else map_of fwd l)"
proof -
  have "map_of (fold (\<lambda>(name, _). put_given body name) fs fwd) l =
      (if l \<in> set (dict_keys fs) \<and> dget body l \<noteq> PNone then Some (dget body l) else map_of fwd l)"
    for fs :: "(string \<times> rat \<times> rat) list"
    by (induction fs arbitrary: fwd) (auto simp: field_of)
  then show ?thesis unfolding put_numbers_def .
qed

lemma lookup_put_stop [field_of]:
  "l \<noteq> ''stop'' \<Longrightarrow> map_of (put_stop v fwd) l = map_of fwd l"
  by (auto simp: put_stop_def update_conv' split: pyval.split list.split)

lemma lookup_put_bias [field_of]:
  "l \<noteq> ''logit_bias'' \<Longrightarrow> map_of (put_bias v fwd) l = map_of fwd l"
  by (auto simp: put_bias_def update_conv' split: pyval.split list.split)

lemma lookup_set_defaults [field_of]:
  "dict_ok ds \<Longrightarrow> map_of (set_defaults ds fwd) l =
     (case map_of fwd l of None \<Rightarrow> map_of ds l | Some v \<Rightarrow> Some v)"
proof (induction ds arbitrary: fwd)
  case (Cons d ds)
  obtain k v where d: "d = (k, v)" by (cases d)
  from Cons.prems d have "map_of ds k = None" by (simp add: map_of_eq_None_iff)
  with Cons d show ?case
    by (auto simp: set_defaults_def lookup_setdefault split: option.splits)
qed (simp add: set_defaults_def split: option.split)

definition mode_sampling :: "rules \<Rightarrow> bool \<Rightarrow> pydict" where
  "mode_sampling r think = sampling_dict (if think then thinking_sampling r else sampling_of r)"

lemma mode_sampling_ok [simp]: "dict_ok (mode_sampling r think)"
  by (simp add: mode_sampling_def sampling_dict_def)

lemma lookup_last_fields [field_of]:
  "map_of (last_fields r think args fwd) l =
     (if l = ''stream_options'' then Some (PDict [(''include_usage'', PBool True)])
      else if l = ''stream'' then Some (PBool True)
      else if l = ''chat_template_kwargs'' \<and> args \<noteq> [] then Some (PDict args)
      else case map_of fwd l of None \<Rightarrow> map_of (mode_sampling r think) l | Some v \<Rightarrow> Some v)"
  using lookup_set_defaults [OF mode_sampling_ok [of r think]]
  by (auto simp: last_fields_def Let_def update_conv' mode_sampling_def split: option.split)

lemma lookup_first_fields [field_of]:
  "map_of (first_fields ms ts) l =
     (if l = ''model'' then Some (PStr BACKEND_MODEL)
      else if l = ''messages'' then Some (PList (map PDict ms))
      else if l = ''tools'' then (case ts of Some t \<Rightarrow> if truthy t then Some t else None | None \<Rightarrow> None)
      else None)"
  by (auto simp: first_fields_def split: option.split)

text \<open>The keys of the forwarded body, and that none comes twice.\<close>

definition FORWARDED :: "string list" where
  "FORWARDED =
     [''model'', ''messages'', ''tools'', ''temperature'', ''top_p'', ''min_p'',
      ''presence_penalty'', ''frequency_penalty'', ''repetition_penalty'', ''top_k'', ''seed'',
      ''stop'', ''logit_bias'', ''chat_template_kwargs'', ''stream'', ''stream_options'']"

definition body_ok :: "pydict \<Rightarrow> bool" where
  "body_ok fwd \<longleftrightarrow> dict_ok fwd \<and> set (dict_keys fwd) \<subseteq> set FORWARDED"

lemma body_ok_update: "body_ok fwd \<Longrightarrow> k \<in> set FORWARDED \<Longrightarrow> body_ok (AList.update k v fwd)"
  by (auto simp: body_ok_def dict.ok_put dict.keys_put simp del: set_map)

lemma body_ok_put_given: "body_ok fwd \<Longrightarrow> k \<in> set FORWARDED \<Longrightarrow> body_ok (put_given body k fwd)"
  by (simp add: put_given_def body_ok_update)

lemma number_fields_forwarded: "set (dict_keys NUMBER_FIELDS) \<subseteq> set FORWARDED"
  by (simp add: NUMBER_FIELDS_def FORWARDED_def)

lemma body_ok_put_numbers: "body_ok fwd \<Longrightarrow> body_ok (put_numbers body fwd)"
proof -
  have "body_ok fwd \<Longrightarrow> body_ok (fold (\<lambda>(name, _). put_given body name) fs fwd)"
    if "set (dict_keys fs) \<subseteq> set FORWARDED" for fs :: "(string \<times> rat \<times> rat) list"
    using that by (induction fs arbitrary: fwd) (auto simp: body_ok_put_given)
  then show "body_ok fwd \<Longrightarrow> ?thesis"
    unfolding put_numbers_def using number_fields_forwarded by blast
qed

lemma body_ok_setdefault: "body_ok fwd \<Longrightarrow> k \<in> set FORWARDED \<Longrightarrow> body_ok (setdefault k v fwd)"
  by (simp add: setdefault_def body_ok_update split: option.split)

lemma forwarded_keys [simp]:
  "''top_k'' \<in> set FORWARDED" "''seed'' \<in> set FORWARDED" "''stop'' \<in> set FORWARDED"
  "''logit_bias'' \<in> set FORWARDED" "''temperature'' \<in> set FORWARDED" "''top_p'' \<in> set FORWARDED"
  "''chat_template_kwargs'' \<in> set FORWARDED" "''stream'' \<in> set FORWARDED"
  "''stream_options'' \<in> set FORWARDED"
  by (simp_all add: FORWARDED_def)

lemma body_ok_put_fields: "body_ok fwd \<Longrightarrow> body_ok (put_fields body fwd)"
proof -
  assume "body_ok fwd"
  then have "body_ok (put_given body ''seed'' (put_given body ''top_k'' (put_numbers body fwd)))"
    by (simp add: body_ok_put_given body_ok_put_numbers)
  then have "body_ok (put_stop v (put_given body ''seed''
      (put_given body ''top_k'' (put_numbers body fwd))))" for v
    by (auto simp: put_stop_def body_ok_update split: pyval.split list.split)
  then show ?thesis
    by (auto simp: put_fields_def put_bias_def body_ok_update split: pyval.split list.split)
qed

lemma body_ok_first_fields: "body_ok (first_fields ms ts)"
  by (auto simp: body_ok_def first_fields_def FORWARDED_def split: option.split)

lemma body_ok_last_fields: "body_ok fwd \<Longrightarrow> body_ok (last_fields r think args fwd)"
proof -
  assume "body_ok fwd"
  then have "body_ok (set_defaults (mode_sampling r think)
      (if args = [] then fwd else AList.update ''chat_template_kwargs'' (PDict args) fwd))"
    by (simp add: mode_sampling_def sampling_dict_def set_defaults_def body_ok_setdefault
        body_ok_update)
  then show ?thesis
    by (simp add: last_fields_def mode_sampling_def Let_def body_ok_update)
qed

section \<open>A request and rules to try the properties on\<close>

definition sample_rules :: rules where
  "sample_rules =
     \<lparr>model_name = ''qwen'',
      limits_of = \<lparr>max_context = 1000, max_output_tokens = 400, min_output_tokens = 100\<rparr>,
      default_thinking = True,
      sampling_of = \<lparr>temperature = Fin (7/10), top_p = Fin (8/10), top_k = 20\<rparr>,
      thinking_sampling = \<lparr>temperature = Fin 1, top_p = Fin (95/100), top_k = 20\<rparr>,
      effort_variable = Some ''reasoning_effort''\<rparr>"

definition sample_body :: pydict where
  "sample_body =
     [(''model'', PStr ''qwen''), (''adapters'', PStr ''/tmp/evil''), (''temperature'', PInt 1),
      (''messages'', PList [PDict [(''role'', PStr ''developer''), (''content'', PStr ''be brief'')],
                          PDict [(''role'', PStr ''user''), (''content'',
                            PList [PDict [(''type'', PStr ''text''), (''text'', PStr ''hi'')]])]]),
      (''reasoning_effort'', PStr ''none''), (''max_tokens'', PInt 50), (''stream'', PBool True)]"

definition no_json :: "string \<Rightarrow> py_exn + pyval" where
  "no_json s = Inl ValueError"

lemmas request_eval = sample_body_def sample_rules_def no_json_def prepare_def messages_def
  check_model_def check_message_def check_content_def check_part_def check_tool_calls_def
  tools_def read_stream_def read_include_usage_def check_n_def forward_fields_def
  forward_numbers_def forward_number_def NUMBER_FIELDS_def forward_top_k_def forward_seed_def
  forward_stop_def forward_bias_def effort_def first_fields_def last_fields_def
  set_defaults_def setdefault_def sampling_dict_def BACKEND_MODEL_def THINKING_SWITCH_def
  NO_THINKING_def EFFORT_LEVELS_def MESSAGE_ROLES_def is_number_def num_between_def
  float_overflows_def dget_def dget_default_def get_if_dict_def Let_def

definition sample_prepared :: prepared where
  "sample_prepared =
     (case prepare no_json (PDict sample_body) sample_rules of Inr p \<Rightarrow> p | Inl _ \<Rightarrow> undefined)"

lemma sample_prepares: "\<exists>p. prepare no_json (PDict sample_body) sample_rules = Inr p"
  by (simp add: request_eval)

lemma sample_prepare:
  "prepare no_json (PDict sample_body) sample_rules = Inr sample_prepared"
  using sample_prepares by (auto simp: sample_prepared_def)

lemma sample_prepared_fields:
  "body_of sample_prepared =
     [(''model'', PStr ''default_model''),
      (''messages'', PList [PDict [(''role'', PStr ''system''), (''content'', PStr ''be brief'')],
                          PDict [(''role'', PStr ''user''), (''content'',
                            PList [PDict [(''type'', PStr ''text''), (''text'', PStr ''hi'')]])]]),
      (''temperature'', PInt 1),
      (''chat_template_kwargs'', PDict [(''enable_thinking'', PBool False)]),
      (''top_p'', PFloat (Fin (8/10))), (''top_k'', PInt 20), (''stream'', PBool True),
      (''stream_options'', PDict [(''include_usage'', PBool True)])]"
  "template_args sample_prepared = [(''enable_thinking'', PBool False)]"
  "requested_max_tokens sample_prepared = Some 50"
  by (simp_all add: sample_prepared_def request_eval)

lemma elements_truthy: "elements v \<noteq> [] \<Longrightarrow> truthy v"
  by (cases v) (auto simp: elements_def)

text \<open>The parameters a client may set and the gateway otherwise recommends.\<close>

definition sampling_names :: "string list" where
  "sampling_names = dict_keys NUMBER_FIELDS @ [''top_k'']"

lemma lookup_sampling:
  assumes "name \<in> set sampling_names"
  shows "dget (last_fields r think args (put_fields body (first_fields ms ts))) name =
     (if dget body name = PNone then dget (mode_sampling r think) name else dget body name)"
proof -
  from assms have "name \<notin> {''stream_options'', ''stream'', ''chat_template_kwargs'', ''stop'',
      ''logit_bias'', ''seed'', ''model'', ''messages'', ''tools''}"
    by (auto simp: sampling_names_def NUMBER_FIELDS_def)
  moreover from assms have "name \<noteq> ''top_k'' \<longrightarrow> name \<in> set (dict_keys NUMBER_FIELDS)"
    by (auto simp: sampling_names_def)
  ultimately show ?thesis
    by (cases "name = ''top_k''")
      (simp_all add: dget_def [of "last_fields r think args x" for x] field_of put_fields_def
        dget_def [of "mode_sampling r think"] split: option.split)
qed

section \<open>Only errors meant for the client\<close>

text \<open>
  Three things make \<open>prepare\<close> raise an exception of the interpreter: a role that cannot be
  hashed, a number no double can hold, and JSON nested too deep in a tool call's arguments.
\<close>

definition plain_numbers :: "pydict \<Rightarrow> bool" where
  "plain_numbers d \<longleftrightarrow> list_all (\<lambda>(_, v). case v of PInt i \<Rightarrow> \<not> float_overflows i | _ \<Rightarrow> True) d"

definition plain_role :: "pyval \<Rightarrow> bool" where
  "plain_role m = hashable (get_if_dict m ''role'')"

definition plain_request :: "pydict \<Rightarrow> bool" where
  "plain_request body \<longleftrightarrow>
     plain_numbers body \<and> (case dget body ''logit_bias'' of PDict d \<Rightarrow> plain_numbers d | _ \<Rightarrow> True)"

text \<open>The arguments of the tool calls in a message.\<close>

definition call_arguments :: "pyval \<Rightarrow> string set" where
  "call_arguments m =
     {s. \<exists>c \<in> set (elements (get_if_dict m ''tool_calls'')). get_if_dict (get_if_dict c ''function'') ''arguments'' = PStr s}"

text \<open>The exceptions of the interpreter that a request can cause, and what in it causes them.\<close>

definition crash :: "(string \<Rightarrow> py_exn + pyval) \<Rightarrow> pydict \<Rightarrow> py_exn \<Rightarrow> bool" where
  "crash loads body e \<longleftrightarrow>
     (let ms = elements (dget body ''messages'')
      in (e = TypeError \<and> \<not> list_all plain_role ms) \<or> (e = OverflowError \<and> \<not> plain_request body) \<or>
         (e \<noteq> ValueError \<and> (\<exists>m \<in> set ms. \<exists>s \<in> call_arguments m. loads s = Inl e)))"

definition clean :: "raised \<Rightarrow> bool" where
  "clean e \<longleftrightarrow> (\<exists>a. e = Api a \<and> status a \<in> {400, 404} \<and> type_of a = ''invalid_request_error'')"

lemma clean_bad [simp]: "clean (bad m p)" "clean (api 404 m c p)"
  by (simp_all add: clean_def bad_def api_def)

lemma check_part_clean: "check_part w j v = Inl e \<Longrightarrow> clean e"
  by (cases v) (auto simp: check_part_def get_if_dict_def Let_def split: if_splits)

lemma check_content_clean: "check_content v w = Inl e \<Longrightarrow> clean e"
  by (cases v) (auto simp: check_content_def dest!: for_each_raises check_part_clean)

text \<open>Where an exception of the interpreter comes from, if it is one.\<close>

lemma check_call_raises:
  "check_call loads w j c = Inl e \<Longrightarrow>
     clean e \<or> (\<exists>x s. e = Py x \<and> x \<noteq> ValueError \<and> loads s = Inl x \<and>
       get_if_dict (get_if_dict c ''function'') ''arguments'' = PStr s)"
  by (auto simp: check_call_def Let_def split: if_splits pyval.splits sum.splits)

lemma check_tool_calls_raises:
  "check_tool_calls loads v w = Inl e \<Longrightarrow>
     clean e \<or> (\<exists>x. e = Py x \<and> x \<noteq> ValueError \<and> (\<exists>c \<in> set (elements v). \<exists>s. loads s = Inl x \<and>
       get_if_dict (get_if_dict c ''function'') ''arguments'' = PStr s))"
  by (cases v) (auto simp: check_tool_calls_def elements_def dest!: for_each_raises check_call_raises split: if_splits)

lemma check_message_raises:
  "check_message loads i v ms = Inl e \<Longrightarrow>
     clean e \<or> e = Py TypeError \<and> \<not> plain_role v \<or>
     (\<exists>x. e = Py x \<and> x \<noteq> ValueError \<and> (\<exists>s \<in> call_arguments v. loads s = Inl x))"
  by (cases v)
    (auto simp: check_message_def plain_role_def get_if_dict_def [of "PDict _"] call_arguments_def Let_def and_then_eq_Inl
      dest: check_content_clean dest!: check_tool_calls_raises split: if_splits)

lemma messages_raises:
  assumes "messages loads v = Inl e"
  shows "clean e \<or> e = Py TypeError \<and> \<not> list_all plain_role (elements v) \<or>
    (\<exists>x. e = Py x \<and> x \<noteq> ValueError \<and> (\<exists>m \<in> set (elements v). \<exists>s \<in> call_arguments m. loads s = Inl x))"
proof (cases "\<exists>m ms. v = PList (m # ms)")
  case True
  then obtain m ms where v: "v = PList (m # ms)" by blast
  with assms have "for_each (check_message loads) 0 (m # ms) [] = Inl e"
    by (simp add: messages_def)
  from for_each_raises [OF this] obtain i x u
    where x: "x \<in> set (elements v)" "check_message loads i x u = Inl e" by (auto simp: v elements_def)
  from check_message_raises [OF x(2)] x(1) show ?thesis unfolding list_all_iff by blast
next
  case False
  with assms show ?thesis by (auto simp: messages_def split: pyval.splits list.splits)
qed

lemma tools_clean: "tools v c = Inl e \<Longrightarrow> clean e"
  by (cases v) (auto simp: tools_def and_then_eq_Inl check_tool_def Let_def split: if_splits
      dest!: for_each_raises)

lemma is_number_raises:
  "is_number v = Inl e \<Longrightarrow> e = OverflowError \<and> (case v of PInt i \<Rightarrow> float_overflows i | _ \<Rightarrow> False)"
  by (cases v) (auto simp: is_number_def split: if_splits)

lemma number_field_raises:
  "is_number (dget d k) = Inl e \<Longrightarrow> e = OverflowError \<and> \<not> plain_numbers d"
  by (force simp: plain_numbers_def dget_def list_all_iff dest!: is_number_raises map_of_SomeD
      split: option.splits pyval.splits)

lemma forward_numbers_raises:
  "forward_numbers body fwd = Inl e \<Longrightarrow> clean e \<or> e = Py OverflowError \<and> \<not> plain_numbers body"
  by (auto simp: forward_numbers_def forward_number_def Let_def and_then_eq_Inl py_def
      dest!: for_each_raises number_field_raises split: if_splits sum.splits)

lemma bias_ok_raises: "bias_ok d = Inl e \<Longrightarrow> e = OverflowError \<and> \<not> plain_numbers d"
proof (induction d)
  case (Cons x d)
  obtain k v where x: "x = (k, v)" by (cases x)
  show ?case
  proof (cases "is_number v")
    case (Inl y)
    with Cons.prems x is_number_raises [OF Inl] show ?thesis
      by (auto simp: plain_numbers_def split: if_splits pyval.splits)
  next
    case (Inr ok)
    with Cons x show ?thesis by (auto simp: plain_numbers_def split: if_splits)
  qed
qed simp

lemma forward_fields_raises:
  assumes "forward_fields body fwd = Inl e"
  shows "clean e \<or> e = Py OverflowError \<and> \<not> plain_request body"
proof -
  have "forward_top_k body f = Inl e \<Longrightarrow> clean e" "forward_seed body f = Inl e \<Longrightarrow> clean e"
    "forward_stop body f = Inl e \<Longrightarrow> clean e" for f
    by (auto simp: forward_top_k_def forward_seed_def forward_stop_def Let_def
        split: pyval.splits if_splits)
  moreover have "forward_bias body f = Inl e \<Longrightarrow> clean e \<or> e = Py OverflowError \<and> \<not> plain_request body" for f
    using bias_ok_raises
    by (cases "dget body ''logit_bias''")
      (auto simp: forward_bias_def plain_request_def and_then_eq_Inl py_def
        split: if_splits sum.splits)
  ultimately show ?thesis
    using assms
    by (auto simp: forward_fields_def and_then_eq_Inl plain_request_def dest!: forward_numbers_raises)
qed

lemma read_max_tokens_clean: "read_max_tokens body names = Inl e \<Longrightarrow> clean e"
  by (induction names) (auto split: pyval.splits if_splits)

lemma effort_clean: "effort v r = Inl e \<Longrightarrow> clean e"
  by (auto simp: effort_def bad_effort_def Let_def split: pyval.splits if_splits option.splits)

lemma small_checks_clean:
  "check_model body r = Inl e \<Longrightarrow> clean e" "read_stream body = Inl e \<Longrightarrow> clean e"
  "read_include_usage body = Inl e \<Longrightarrow> clean e" "check_n body = Inl e \<Longrightarrow> clean e"
  by (auto simp: check_model_def read_stream_def read_include_usage_def check_n_def Let_def
      split: pyval.splits)

section \<open>Properties\<close>

text \<open>
  C5: \<open>prepare\<close> accepts a request body exactly when it is a JSON object whose fields are all
  valid: known model, text-only messages with known roles, function tools, numbers in their
  ranges, and so on, independent of the order in which the code checks them.
\<close>

theorem prepare_accepts_exactly_valid:
  "(\<exists>p. prepare loads v r = Inr p) = (\<exists>body. v = PDict body \<and> valid_request loads r body)"
proof (cases v)
  case (PDict body)
  have "valid_request loads r body \<Longrightarrow> \<exists>e. effort (dget body ''reasoning_effort'') r = Inr e"
    unfolding effort_iff by (simp add: valid_request_def)
  with PDict show ?thesis by (auto simp: prepare_iff)
qed (simp_all add: prepare_def)

text \<open>
  C6: The backend is only ever sent the known fields, each once, with its own model name,
  always as a stream that reports usage, and with exactly the messages that were validated
  and are counted: a client cannot make it load other weights.
\<close>

theorem prepared_body_only_known_fields:
  assumes "prepare loads (PDict body) r = Inr p"
  shows "set (dict_keys (body_of p)) \<subseteq> set FORWARDED \<and> dict_ok (body_of p) \<and>
         dget (body_of p) ''model'' = PStr BACKEND_MODEL \<and>
         dget (body_of p) ''stream'' = PBool True \<and>
         dget (body_of p) ''stream_options'' = PDict [(''include_usage'', PBool True)] \<and>
         dget (body_of p) ''messages'' = PList (map PDict (messages_of p)) \<and>
         dget (body_of p) ''tools'' = (case tools_of p of None \<Rightarrow> PNone | Some t \<Rightarrow> t)"
proof -
  from assms obtain name think args where p: "p = prepared_from r body (name, think, args)"
    by (auto simp: prepare_iff)
  let ?ms = "map sent_message (elements (dget body ''messages''))"
  have b: "body_of p = last_fields r think args
      (put_fields body (first_fields ?ms (offered_tools body)))"
    by (simp add: p prepared_from_def Let_def)
  have "body_ok (body_of p)"
    unfolding b by (intro body_ok_last_fields body_ok_put_fields body_ok_first_fields)
  moreover have "truthy t" if "offered_tools body = Some t" for t
    using that elements_truthy by (auto simp: offered_tools_def split: if_splits)
  ultimately show ?thesis
    by (auto simp: body_ok_def b dget_def field_of put_fields_def NUMBER_FIELDS_def
        mode_sampling_def sampling_dict_def p prepared_from_def Let_def split: option.split)
qed

lemma prepared_body_only_known_fields_witness:
  "dget sample_body ''adapters'' \<noteq> PNone \<and> dget sample_body ''model'' = PStr ''qwen'' \<and>
   dget (body_of sample_prepared) ''model'' = PStr ''default_model'' \<and>
   set (dict_keys (body_of sample_prepared)) \<subseteq> set FORWARDED"
  using prepared_body_only_known_fields [OF sample_prepare]
  by (simp add: sample_body_def BACKEND_MODEL_def)

lemma sampling_value:
  assumes "prepare loads (PDict body) r = Inr p"
    and "name \<in> set sampling_names"
  shows "dget (body_of p) name =
           (if dget body name = PNone then dget (mode_sampling r (thinking p)) name
            else dget body name) \<and>
         (case map_of NUMBER_FIELDS name of
            None \<Rightarrow> valid_top_k (dget body name)
          | Some (lo, hi) \<Rightarrow> dget body name = PNone \<or> number_in lo hi (dget body name))"
proof -
  from assms(1) obtain n think args where p: "p = prepared_from r body (n, think, args)"
    and valid: "valid_request loads r body"
    by (auto simp: prepare_iff)
  from valid have num: "list_all (valid_number body) NUMBER_FIELDS"
    and top_k: "valid_top_k (dget body ''top_k'')"
    by (simp_all add: valid_request_def)
  have "case map_of NUMBER_FIELDS name of None \<Rightarrow> valid_top_k (dget body name)
      | Some (lo, hi) \<Rightarrow> dget body name = PNone \<or> number_in lo hi (dget body name)"
  proof (cases "map_of NUMBER_FIELDS name")
    case None
    then have "name = ''top_k''"
      using assms(2) by (auto simp: sampling_names_def map_of_eq_None_iff)
    with None top_k show ?thesis by simp
  next
    case (Some b)
    then have "(name, b) \<in> set NUMBER_FIELDS" by (rule map_of_SomeD)
    with num have "valid_number body (name, b)" by (auto simp: list_all_iff)
    with Some show ?thesis by (cases b) (simp add: valid_number_def)
  qed
  with lookup_sampling [OF assms(2)] show ?thesis by (simp add: p prepared_from_def Let_def)
qed

text \<open>
  A sampling parameter reaches the backend as the client gave it, within its range; one
  that is not given is the recommended value for the mode (thinking or not), or left out.
\<close>

lemma prepared_sampling_values:
  assumes "prepare loads (PDict body) r = Inr p"
    and "name \<in> set sampling_names"
  shows "dget (body_of p) name =
           (if dget body name = PNone then dget (mode_sampling r (thinking p)) name
            else dget body name) \<and>
         (case map_of NUMBER_FIELDS name of
            None \<Rightarrow> valid_top_k (dget body name)
          | Some (lo, hi) \<Rightarrow> dget body name = PNone \<or> number_in lo hi (dget body name))"
  by (rule sampling_value [OF assms])

lemma prepared_sampling_values_witness:
  "dget (body_of sample_prepared) ''temperature'' = PInt 1 \<and>
   dget (body_of sample_prepared) ''top_p'' = dget (mode_sampling sample_rules False) ''top_p''"
  using prepared_sampling_values [OF sample_prepare, of "''temperature''"]
    prepared_sampling_values [OF sample_prepare, of "''top_p''"] sample_prepared_fields
  by (simp add: sampling_names_def NUMBER_FIELDS_def sample_body_def mode_sampling_def
      sampling_dict_def sample_rules_def)

text \<open>The message \<open>m\<close> the template is given for the message \<open>v\<close> of the client.\<close>

definition sends :: "pyval \<Rightarrow> pydict \<Rightarrow> bool" where
  "sends v m \<longleftrightarrow>
     (\<exists>d. v = PDict d \<and>
       dget m ''role'' \<in> PStr ` {''system'', ''user'', ''assistant'', ''tool''} \<and>
       valid_content (dget m ''content'') \<and>
       (\<forall>k. dget m k = (if k = ''role'' \<and> dget d k = PStr ''developer''
          then PStr ''system'' else dget d k)))"

lemma sends_sent_message: "valid_message loads v \<Longrightarrow> sends v (sent_message v)"
  by (auto simp: valid_message_def sent_message_def MESSAGE_ROLES_def dget_update sends_def)

text \<open>
  The messages sent and counted are the client's, one for one and in order: text only,
  with a role the chat template knows (\<open>developer\<close> has become \<open>system\<close>), and otherwise
  unchanged.
\<close>

lemma prepared_messages_text_only:
  assumes "prepare loads (PDict body) r = Inr p"
  shows "list_all2 sends (elements (dget body ''messages'')) (messages_of p) \<and>
         messages_of p \<noteq> []"
proof -
  from assms obtain e where p: "p = prepared_from r body e"
    and valid: "valid_messages loads (dget body ''messages'')"
    by (auto simp: prepare_iff valid_request_def)
  have "messages_of p = map sent_message (elements (dget body ''messages''))"
    by (cases e) (simp add: p prepared_from_def Let_def)
  with valid show ?thesis
    by (auto simp: valid_messages_def elements_def list_all2_map2 list_all2_same list_all_iff
        intro: sends_sent_message)
qed

lemma prepared_messages_text_only_witness:
  "list_all2 sends (elements (dget sample_body ''messages'')) (messages_of sample_prepared)"
  using prepared_messages_text_only [OF sample_prepare] by blast

text \<open>
  The chat template is told one mode throughout: the arguments that are counted are the
  backend's default overridden by the arguments that are sent, their thinking switch is the
  request's mode, and that mode is the one \<open>reasoning_effort\<close> asks for.
\<close>

lemma prepared_template_arguments:
  assumes "prepare loads (PDict body) r = Inr p"
    and "effort_variable r \<noteq> Some THINKING_SWITCH"
  shows "template_args p =
           dict_merge [(THINKING_SWITCH, PBool (default_thinking r))]
             (case dget (body_of p) ''chat_template_kwargs'' of PDict a \<Rightarrow> a | _ \<Rightarrow> []) \<and>
         dget (template_args p) THINKING_SWITCH = PBool (thinking p) \<and>
         thinking p = wants_thinking (dget body ''reasoning_effort'') r"
proof -
  from assms(1) obtain n think args where p: "p = prepared_from r body (n, think, args)"
    and e: "effort (dget body ''reasoning_effort'') r = Inr (n, think, args)"
    by (auto simp: prepare_iff)
  have "dget (body_of p) ''chat_template_kwargs'' = (if args = [] then PNone else PDict args)"
    by (simp add: p prepared_from_def Let_def dget_def field_of put_fields_def NUMBER_FIELDS_def
        mode_sampling_def sampling_dict_def split: option.split)
  moreover have "template_args p = dict_merge [(THINKING_SWITCH, PBool (default_thinking r))] args"
    by (simp add: p prepared_from_def Let_def)
  moreover have "dget (dict_merge [(THINKING_SWITCH, PBool (default_thinking r))] args)
      THINKING_SWITCH = PBool think"
    using e assms(2)
    by (auto simp: effort_def Let_def dget_update split: pyval.splits if_splits option.splits
        list.splits)
  ultimately show ?thesis
    using effort_thinking [OF e] by (auto simp: p prepared_from_def Let_def)
qed

lemma prepared_template_arguments_witness:
  "dget (template_args sample_prepared) ''enable_thinking'' = PBool False \<and>
   \<not> wants_thinking (dget sample_body ''reasoning_effort'') sample_rules"
  using prepared_template_arguments [OF sample_prepare]
  by (simp add: sample_rules_def THINKING_SWITCH_def sample_body_def wants_thinking_def
      NO_THINKING_def sample_prepared_fields)

text \<open>
  C8: An invalid request is answered, not crashed on, but for three kinds of values: whatever \<open>prepare\<close> raises
  for a JSON object is an \<open>ApiError\<close> with status 400 or 404, or it is a \<open>TypeError\<close> and some message has a
  role that cannot be hashed, an \<open>OverflowError\<close> and some number of the request does not fit a double, or
  an exception other than \<open>ValueError\<close> that \<open>json.loads\<close> raised on the arguments of a tool call.
\<close>

theorem prepare_raises_api_errors:
  "case prepare loads (PDict body) r of
     Inr p \<Rightarrow> True
   | Inl (Api a) \<Rightarrow> status a \<in> {400, 404} \<and> type_of a = ''invalid_request_error''
   | Inl (Py e) \<Rightarrow> crash loads body e"
proof (cases "prepare loads (PDict body) r")
  case (Inl e)
  have "clean e \<or> (\<exists>x. e = Py x \<and> crash loads body x)"
    using Inl [unfolded prepare_def pyval.case and_then_eq_Inl]
    by (auto simp del: read_max_tokens.simps simp: crash_def Let_def
        dest: small_checks_clean messages_raises tools_clean forward_fields_raises read_max_tokens_clean effort_clean)
  then show ?thesis by (auto simp: Inl clean_def)
qed simp

text \<open>
  The exceptions of the interpreter do happen: a role that is a list, and a sampling value no
  double can hold, end in an exception of the interpreter instead of a 400.
\<close>

definition message_with_role :: "pyval \<Rightarrow> pyval" where
  "message_with_role role = PDict [(''role'', role), (''content'', PStr ''hi'')]"

lemma prepare_crashes_on_odd_values:
  "prepare no_json (PDict [(''messages'', PList [message_with_role (PList [])])]) sample_rules
     = Inl (Py TypeError) \<and>
   prepare no_json (PDict [(''messages'', PList [message_with_role (PStr ''user'')]),
       (''temperature'', PInt (2 ^ 1024))]) sample_rules = Inl (Py OverflowError)"
  by (simp add: request_eval message_with_role_def)

text \<open>
  The answer's limit always leaves room: it is refused exactly when the prompt leaves
  less than \<open>min_output_tokens\<close>; otherwise prompt and answer together fit the context, the
  answer is no longer than asked for or configured, and, if the request or the profile does
  not ask for less, at least \<open>min_output_tokens\<close>.
\<close>

theorem limit_fits_context:
  "case limit n requested l of
     Inl e \<Rightarrow> n + min_output_tokens l > max_context l \<and> clean e
   | Inr k \<Rightarrow> n + min_output_tokens l \<le> max_context l \<and> n + k \<le> max_context l \<and>
       k \<le> max_output_tokens l \<and>
       (case requested of
          None \<Rightarrow> min (min_output_tokens l) (max_output_tokens l) \<le> k
        | Some q \<Rightarrow> k \<le> q \<and> min q (min (min_output_tokens l) (max_output_tokens l)) \<le> k)"
  by (auto simp: limit_def Let_def clean_def api_def split: option.split)

end
