(* ===== verification/Request_Types.thy ===== *)
theory Request_Types
  imports Request_Properties
begin

text \<open>
  A type for each field of the body that \<open>gateway/translate.py\<close> sends to the backend: every step of
  \<open>prepare\<close> keeps the body well-typed, whatever the client sent.
\<close>

section \<open>Types of fields\<close>

definition typed_message :: "(string \<Rightarrow> py_exn + pyval) \<Rightarrow> pyval \<Rightarrow> bool" where
  "typed_message loads v \<longleftrightarrow>
     (\<exists>d. v = PDict d \<and> dget d ''role'' \<in> PStr ` {''system'', ''user'', ''assistant'', ''tool''} \<and>
       valid_content (dget d ''content'') \<and> valid_calls loads (dget d ''tool_calls''))"

definition list_of :: "(pyval \<Rightarrow> bool) \<Rightarrow> pyval \<Rightarrow> bool" where
  "list_of P v \<longleftrightarrow> (case v of PList vs \<Rightarrow> vs \<noteq> [] \<and> list_all P vs | _ \<Rightarrow> False)"

definition dict_of :: "(string \<Rightarrow> pyval \<Rightarrow> bool) \<Rightarrow> pyval \<Rightarrow> bool" where
  "dict_of P v \<longleftrightarrow> (case v of PDict d \<Rightarrow> d \<noteq> [] \<and> list_all (\<lambda>(k, x). P k x) d | _ \<Rightarrow> False)"

definition natural :: "pyval \<Rightarrow> bool" where
  "natural v \<longleftrightarrow> (case v of PInt k \<Rightarrow> 0 \<le> k | _ \<Rightarrow> False)"

definition nonempty_text :: "pyval \<Rightarrow> bool" where
  "nonempty_text v \<longleftrightarrow> is_str v \<and> v \<noteq> PStr []"

definition field_type :: "(string \<Rightarrow> py_exn + pyval) \<Rightarrow> string \<Rightarrow> pyval \<Rightarrow> bool" where
  "field_type loads k =
     (case map_of NUMBER_FIELDS k of
        Some (lo, hi) \<Rightarrow> number_in lo hi
      | None \<Rightarrow>
          (case map_of
             [(''model'', \<lambda>v. v = PStr BACKEND_MODEL), (''messages'', list_of (typed_message loads)),
              (''tools'', list_of valid_tool), (''top_k'', natural), (''seed'', is_plain_int),
              (''stop'', list_of nonempty_text), (''logit_bias'', dict_of (\<lambda>t x. str_isdigit t \<and> fits_number x)),
              (''chat_template_kwargs'', dict_of (\<lambda>_ _. True)), (''stream'', \<lambda>v. v = PBool True),
              (''stream_options'', \<lambda>v. v = PDict [(''include_usage'', PBool True)])] k of
             Some P \<Rightarrow> P
           | None \<Rightarrow> (\<lambda>_. False)))"

definition well_typed :: "(string \<Rightarrow> py_exn + pyval) \<Rightarrow> pydict \<Rightarrow> bool" where
  "well_typed loads d \<longleftrightarrow> dict_ok d \<and> list_all (\<lambda>(k, v). field_type loads k v) d"

section \<open>Preservation\<close>

lemma typed_update:
  assumes "well_typed loads d" and "field_type loads k v"
  shows "well_typed loads (AList.update k v d)"
proof -
  have "dict_ok (AList.update k v d)" using assms(1) by (simp add: well_typed_def dict.ok_put)
  moreover have "field_type loads j x" if "(j, x) \<in> set (AList.update k v d)" for j x
  proof -
    from that calculation have "map_of (AList.update k v d) j = Some x" by simp
    with assms show ?thesis
      by (auto simp: update_conv' well_typed_def list_all_iff split: if_splits dest: map_of_SomeD)
  qed
  ultimately show ?thesis by (auto simp: well_typed_def list_all_iff)
qed

lemma typed_put_given:
  "well_typed loads d \<Longrightarrow> dget body k = PNone \<or> field_type loads k (dget body k) \<Longrightarrow> well_typed loads (put_given body k d)"
  by (auto simp: put_given_def typed_update)

lemma number_field_type: "(k, lo, hi) \<in> set NUMBER_FIELDS \<Longrightarrow> field_type loads k = number_in lo hi"
proof -
  assume "(k, lo, hi) \<in> set NUMBER_FIELDS"
  moreover have "distinct (map fst NUMBER_FIELDS)" by (simp add: NUMBER_FIELDS_def)
  ultimately have "map_of NUMBER_FIELDS k = Some (lo, hi)" by (intro map_of_is_SomeI)
  then show ?thesis by (simp add: field_type_def)
qed

lemma typed_put_numbers:
  assumes "list_all (valid_number body) NUMBER_FIELDS" and "well_typed loads d"
  shows "well_typed loads (put_numbers body d)"
proof -
  have "well_typed loads (fold (\<lambda>(name, _). put_given body name) fs e)"
    if "set fs \<subseteq> set NUMBER_FIELDS" "well_typed loads e" for fs e
    using that
  proof (induction fs arbitrary: e)
    case Nil
    then show ?case by simp
  next
    case (Cons f fs)
    obtain k lo hi where f: "f = (k, lo, hi)" by (cases f)
    with Cons.prems(1) assms(1) have "dget body k = PNone \<or> field_type loads k (dget body k)"
      by (auto simp: number_field_type valid_number_def list_all_iff)
    with Cons f show ?case by (auto intro: typed_put_given)
  qed
  with assms(2) show ?thesis by (simp add: put_numbers_def)
qed

lemma typed_put_fields:
  assumes "list_all (valid_number body) NUMBER_FIELDS" and "valid_top_k (dget body ''top_k'')"
    and "valid_seed (dget body ''seed'')" and "valid_stop (dget body ''stop'')"
    and "valid_bias (dget body ''logit_bias'')" and "well_typed loads d"
  shows "well_typed loads (put_fields body d)"
proof -
  have 1: "well_typed loads (put_numbers body d)" by (rule typed_put_numbers [OF assms(1,6)])
  have 2: "well_typed loads (put_given body ''top_k'' e)" if "well_typed loads e" for e
    using assms(2) that by (intro typed_put_given) (auto simp: valid_top_k_def field_type_def NUMBER_FIELDS_def natural_def)
  have 3: "well_typed loads (put_given body ''seed'' e)" if "well_typed loads e" for e
    using assms(3) that by (intro typed_put_given) (auto simp: valid_seed_def field_type_def NUMBER_FIELDS_def)
  have 4: "well_typed loads (put_stop (dget body ''stop'') e)" if "well_typed loads e" for e
    using assms(4) that
    by (auto simp: put_stop_def valid_stop_def field_type_def NUMBER_FIELDS_def list_of_def nonempty_text_def [abs_def]
        intro!: typed_update split: list.splits pyval.splits)
  have 5: "well_typed loads (put_bias (dget body ''logit_bias'') e)" if "well_typed loads e" for e
    using assms(5) that
    by (auto simp: put_bias_def valid_bias_def field_type_def NUMBER_FIELDS_def dict_of_def
        intro!: typed_update split: list.splits pyval.splits)
  show ?thesis unfolding put_fields_def by (intro 1 2 3 4 5)
qed

lemma typed_setdefault: "well_typed loads d \<Longrightarrow> field_type loads k v \<Longrightarrow> well_typed loads (setdefault k v d)"
  by (simp add: setdefault_def typed_update split: option.split)

lemma typed_set_defaults:
  "well_typed loads d \<Longrightarrow> list_all (\<lambda>(k, v). field_type loads k v) ds \<Longrightarrow> well_typed loads (set_defaults ds d)"
  by (induction ds arbitrary: d) (auto simp: set_defaults_def typed_setdefault)

lemma typed_last_fields:
  assumes "well_typed loads d" and "list_all (\<lambda>(k, v). field_type loads k v) (mode_sampling r think)"
  shows "well_typed loads (last_fields r think args d)"
proof -
  have "args \<noteq> [] \<Longrightarrow> field_type loads ''chat_template_kwargs'' (PDict args)"
    by (simp add: field_type_def NUMBER_FIELDS_def dict_of_def list_all_iff)
  then have "well_typed loads (if args = [] then d else AList.update ''chat_template_kwargs'' (PDict args) d)"
    using assms(1) by (auto intro: typed_update)
  from typed_set_defaults [OF this assms(2)] show ?thesis
    unfolding last_fields_def mode_sampling_def Let_def
    by (intro typed_update) (auto simp: field_type_def NUMBER_FIELDS_def)
qed

lemma typed_sent_message: "valid_message loads v \<Longrightarrow> typed_message loads (PDict (sent_message v))"
  by (auto simp: valid_message_def typed_message_def sent_message_def MESSAGE_ROLES_def dget_update)

lemma typed_first_fields:
  assumes "valid_messages loads (dget body ''messages'')" and "valid_tools (dget body ''tools'')"
  shows "well_typed loads (first_fields (map sent_message (elements (dget body ''messages''))) (offered_tools body))"
proof -
  have "list_of (typed_message loads) (PList (map (PDict \<circ> sent_message) (elements (dget body ''messages''))))"
    using assms(1) typed_sent_message
    by (auto simp: valid_messages_def elements_def list_of_def list_all_iff)
  moreover have "list_of valid_tool t" if "offered_tools body = Some t" for t
    using that assms(2) by (auto simp: offered_tools_def valid_tools_def elements_def list_of_def split: if_splits)
  ultimately show ?thesis
    by (auto simp: first_fields_def well_typed_def field_type_def NUMBER_FIELDS_def split: option.split)
qed

text \<open>What the gateway recommends must itself be of the types: it is, for a profile that loads.\<close>

definition typed_rules :: "rules \<Rightarrow> bool" where
  "typed_rules r \<longleftrightarrow>
     list_all (\<lambda>s. (case temperature s of Fin q \<Rightarrow> 0 \<le> q \<and> q \<le> 2 | _ \<Rightarrow> False) \<and>
         (case top_p s of Fin q \<Rightarrow> 0 \<le> q \<and> q \<le> 1 | _ \<Rightarrow> False) \<and> 0 \<le> top_k s)
       [sampling_of r, thinking_sampling r]"

lemma typed_mode: "typed_rules r \<Longrightarrow> list_all (\<lambda>(k, v). field_type loads k v) (mode_sampling r think)"
  by (auto simp: typed_rules_def mode_sampling_def sampling_dict_def field_type_def NUMBER_FIELDS_def
      natural_def number_in_def split: pyfloat.splits)

text \<open>
  C7: Whatever JSON a client sends, the body that goes to the backend is well-typed: each field is there at
  most once, is one the backend knows, and has the type and range the backend expects of it - text-only
  messages with known roles, function tools, finite numbers in range, non-empty stop texts, a bias from
  token numbers to numbers.
\<close>

theorem forwarded_body_typed:
  assumes "prepare loads (PDict body) r = Inr p" and "typed_rules r"
  shows "well_typed loads (body_of p)"
proof -
  from assms(1) obtain name think args where p: "p = prepared_from r body (name, think, args)"
    and valid: "valid_request loads r body"
    by (auto simp: prepare_iff)
  have "body_of p = last_fields r think args
      (put_fields body (first_fields (map sent_message (elements (dget body ''messages''))) (offered_tools body)))"
    by (simp add: p prepared_from_def Let_def)
  with valid show ?thesis
    by (auto simp: valid_request_def intro!: typed_last_fields typed_put_fields typed_first_fields typed_mode assms(2))
qed

theorem forwarded_body_typed_witness: "well_typed no_json (body_of sample_prepared)"
  by (rule forwarded_body_typed [OF sample_prepare]) (simp add: typed_rules_def sample_rules_def)

end
