(* ===== verification/Doubles.thy ===== *)
theory Doubles
  imports Py_Value "HOL-Library.Log_Nat"
begin

text \<open>
  IEEE doubles as far as the code computes with them: a positive rational is rounded to 53
  bits, ties to even, and to infinity from \<open>2^1024\<close> on; \<open>float\<close>, \<open>*\<close>, \<open>/\<close> and \<open>int\<close> of
  non-negative values are exact arithmetic followed by that rounding.
\<close>

definition pow2 :: "int \<Rightarrow> rat" where
  "pow2 e = (if 0 \<le> e then 2 ^ nat e else 1 / 2 ^ nat (- e))"

text \<open>The exponent of the leading bit.\<close>

definition log2_floor :: "rat \<Rightarrow> int" where
  "log2_floor q =
     (case quotient_of q of (n, d) \<Rightarrow>
        let a = int (floorlog 2 (nat n)) - int (floorlog 2 (nat d))
        in if q < pow2 a then a - 1 else a)"

definition round_half_even :: "rat \<Rightarrow> int" where
  "round_half_even q =
     (let f = \<lfloor>q\<rfloor>; r = q - of_int f
      in if r < 1/2 \<or> r = 1/2 \<and> even f then f else f + 1)"

definition ulp_exponent :: "rat \<Rightarrow> int" where
  "ulp_exponent q = max (- 1074) (log2_floor q - 52)"

definition round_double :: "rat \<Rightarrow> pyfloat" where
  "round_double q =
     (if q \<le> 0 then Fin 0
      else let e = ulp_exponent q; m = of_int (round_half_even (q / pow2 e)) * pow2 e
           in if m \<ge> 2 ^ 1024 then PosInf else Fin m)"

text \<open>\<open>float * int\<close> and \<open>int(float)\<close> for what is never negative\<close>

definition float_mult :: "pyfloat \<Rightarrow> nat \<Rightarrow> pyfloat" where
  "float_mult f n =
     (case f of Fin q \<Rightarrow> round_double (q * of_nat n) | PosInf \<Rightarrow> PosInf | x \<Rightarrow> x)"

definition int_of_float :: "pyfloat \<Rightarrow> py_exn + int" where
  "int_of_float f =
     (case f of
        Fin q \<Rightarrow> Inr (if 0 \<le> q then \<lfloor>q\<rfloor> else \<lceil>q\<rceil>)
      | NaN \<Rightarrow> Inl ValueError
      | _ \<Rightarrow> Inl OverflowError)"

text \<open>\<open>float(i)\<close>\<close>

definition float_of_int :: "int \<Rightarrow> py_exn + pyfloat" where
  "float_of_int i =
     (if float_overflows i then Inl OverflowError
      else Inr (if 0 \<le> i then round_double (of_int i)
                else case round_double (of_int (- i)) of Fin q \<Rightarrow> Fin (- q) | x \<Rightarrow> x))"

section \<open>Short binary fractions are exact\<close>

lemma pow2_pos [simp]: "0 < pow2 e"
  by (simp add: pow2_def)

lemma pow2_nonzero [simp]: "pow2 e \<noteq> 0"
  using pow2_pos [of e] by linarith

lemma pow2_powi: "pow2 e = 2 powi e"
  by (auto simp: pow2_def power_int_def inverse_eq_divide power_one_over)

lemma pow2_less_iff: "pow2 a < pow2 b \<longleftrightarrow> a < b"
proof -
  have "x < y \<Longrightarrow> pow2 x < pow2 y" for x y
    by (simp add: pow2_powi power_int_strict_increasing)
  then show ?thesis by (metis less_asym linorder_less_linear)
qed

lemma pow2_nat: "pow2 (int k) = 2 ^ k"
  by (simp add: pow2_def)

lemma pow2_diff: "pow2 (a - b) = pow2 a / pow2 b"
  by (simp add: pow2_powi power_int_diff)

lemma floorlog_bounds:
  assumes "0 < n"
  shows "2 ^ (floorlog 2 n - 1) \<le> n" and "n < 2 ^ floorlog 2 n"
  using floorlog_bounds [of n 2] assms by auto

text \<open>The leading bit is not above the number.\<close>

lemma pow2_log2_floor:
  assumes "0 < q"
  shows "pow2 (log2_floor q) \<le> q"
proof -
  obtain n d where nd: "quotient_of q = (n, d)" by (cases "quotient_of q")
  then have d: "0 < d" and q: "q = of_int n / of_int d"
    by (auto dest: quotient_of_denom_pos quotient_of_div)
  with assms have n: "0 < n" by (simp add: zero_less_divide_iff)
  let ?a = "int (floorlog 2 (nat n)) - int (floorlog 2 (nat d))"
  have "(2 :: int) ^ (floorlog 2 (nat n) - 1) \<le> n"
  proof -
    have "int (2 ^ (floorlog 2 (nat n) - 1)) \<le> int (nat n)"
      using floorlog_bounds(1) [of "nat n"] n by (subst of_nat_le_iff) simp
    with n show ?thesis by simp
  qed
  moreover have "d < (2 :: int) ^ floorlog 2 (nat d)"
  proof -
    have "int (nat d) < int (2 ^ floorlog 2 (nat d))"
      using floorlog_bounds(2) [of "nat d"] d by (subst of_nat_less_iff) simp
    with d show ?thesis by simp
  qed
  ultimately have lo: "(of_int (2 ^ (floorlog 2 (nat n) - 1)) :: rat) \<le> of_int n"
    and hi: "(of_int d :: rat) < of_int (2 ^ floorlog 2 (nat d))"
    unfolding of_int_le_iff of_int_less_iff by simp_all
  have "0 < floorlog 2 (nat n)" using n by (simp add: floorlog_def)
  then have "pow2 (?a - 1) = 2 ^ (floorlog 2 (nat n) - 1) / 2 ^ floorlog 2 (nat d)"
    by (simp add: pow2_powi power_int_diff power_diff)
  also have "\<dots> \<le> of_int n / 2 ^ floorlog 2 (nat d)"
    using lo by (simp add: divide_right_mono)
  also have "\<dots> \<le> q"
    unfolding q using hi n d by (intro divide_left_mono) simp_all
  finally show ?thesis by (auto simp: log2_floor_def nd Let_def not_less)
qed

lemma round_half_even_int [simp]: "round_half_even (of_int i) = i"
  by (simp add: round_half_even_def)

text \<open>A fraction with at most 53 significant bits is its own rounding.\<close>

lemma round_double_exact:
  assumes q: "q = of_nat n / 2 ^ k" and n: "n < 2 ^ 53" and k: "k \<le> 1074"
  shows "round_double q = Fin q"
proof (cases "n = 0")
  case True
  then show ?thesis by (simp add: q round_double_def)
next
  case False
  then have pos: "0 < q" by (simp add: q)
  have "(of_nat n :: rat) < of_nat (2 ^ 53)" using n by (simp only: of_nat_less_iff)
  then have n': "(of_nat n :: rat) < 2 ^ 53" by simp
  then have "q < 2 ^ 53 / 2 ^ k" unfolding q by (intro divide_strict_right_mono) simp_all
  also have "\<dots> = pow2 (53 - int k)" using pow2_nat [of 53] by (simp add: pow2_diff pow2_nat)
  finally have "log2_floor q < 53 - int k"
    using pow2_log2_floor [OF pos] pow2_less_iff by (metis le_less_trans)
  with k have e: "ulp_exponent q \<le> - int k" by (simp add: ulp_exponent_def)
  let ?e = "ulp_exponent q"
  have "q / pow2 ?e = of_nat n * pow2 (- ?e - int k)"
    by (simp add: q pow2_powi power_int_diff power_int_minus divide_inverse)
  also have "pow2 (- ?e - int k) = of_int (2 ^ nat (- ?e - int k))" using e by (simp add: pow2_def)
  finally have m: "q / pow2 ?e = of_int (int n * 2 ^ nat (- ?e - int k))" by simp
  then have "of_int (round_half_even (q / pow2 ?e)) * pow2 ?e = q"
    by (metis nonzero_divide_eq_eq pow2_nonzero round_half_even_int)
  moreover have "q < 2 ^ 1024"
  proof -
    have "q \<le> of_nat n" unfolding q by (simp add: divide_le_eq mult_le_cancel_left1)
    also note n'
    also have "(2 :: rat) ^ 53 \<le> 2 ^ 1024" by (rule power_increasing) simp_all
    finally show ?thesis .
  qed
  ultimately show ?thesis using pos unfolding round_double_def Let_def by simp
qed

lemma round_double_nat: "n < 2 ^ 53 \<Longrightarrow> round_double (of_nat n) = Fin (of_nat n)"
  by (rule round_double_exact [of _ n 0]) simp_all

lemma float_of_int_small:
  assumes "0 \<le> i" and "i < 2 ^ 53"
  shows "float_of_int i = Inr (Fin (of_int i))"
proof -
  from assms obtain n where n: "i = int n" "n < 2 ^ 53"
    by (metis nonneg_int_cases of_nat_less_iff of_nat_numeral of_nat_power)
  have "(2 :: int) ^ 53 \<le> 2 ^ 1024 - 2 ^ 970" by simp
  with assms have "\<not> float_overflows i" by (simp add: float_overflows_def)
  with n show ?thesis by (simp add: float_of_int_def round_double_nat)
qed

end
