(* ===== verification/Regex.thy ===== *)
theory Regex
  imports Py_Value
begin

text \<open>
  The regular expressions the code hands to \<open>re.fullmatch\<close>, as data that mirrors the
  pattern (character classes, sequence, alternative, star, counted repetition and a
  lookahead at the start as an intersection), an executable matcher by derivatives, and the
  proof that it decides the language of the pattern.
\<close>

datatype rx =
    Never
  | Eps
  | Class "(char \<times> char) list"   \<comment> \<open>a bracket expression, as its ranges\<close>
  | Seq rx rx
  | Alt rx rx
  | Star rx
  | Both rx rx

definition in_class :: "(char \<times> char) list \<Rightarrow> char \<Rightarrow> bool" where
  "in_class rs c \<longleftrightarrow> list_ex (\<lambda>(a, b). code a \<le> code c \<and> code c \<le> code b) rs"

fun nullable :: "rx \<Rightarrow> bool" where
  "nullable Never = False"
| "nullable Eps = True"
| "nullable (Class _) = False"
| "nullable (Seq r s) = (nullable r \<and> nullable s)"
| "nullable (Alt r s) = (nullable r \<or> nullable s)"
| "nullable (Star _) = True"
| "nullable (Both r s) = (nullable r \<and> nullable s)"

fun seq' :: "rx \<Rightarrow> rx \<Rightarrow> rx" where
  "seq' Never _ = Never"
| "seq' Eps s = s"
| "seq' r s = Seq r s"

fun alt' :: "rx \<Rightarrow> rx \<Rightarrow> rx" where
  "alt' Never s = s"
| "alt' r s = (if s = Never \<or> r = s then r else Alt r s)"

fun deriv :: "char \<Rightarrow> rx \<Rightarrow> rx" where
  "deriv c Never = Never"
| "deriv c Eps = Never"
| "deriv c (Class rs) = (if in_class rs c then Eps else Never)"
| "deriv c (Seq r s) =
     (if nullable r then alt' (seq' (deriv c r) s) (deriv c s) else seq' (deriv c r) s)"
| "deriv c (Alt r s) = alt' (deriv c r) (deriv c s)"
| "deriv c (Star r) = seq' (deriv c r) (Star r)"
| "deriv c (Both r s) = Both (deriv c r) (deriv c s)"

fun fullmatch :: "rx \<Rightarrow> string \<Rightarrow> bool" where
  "fullmatch r [] = nullable r"
| "fullmatch r (c # s) = fullmatch (deriv c r) s"

text \<open>\<open>r{lo,hi}\<close>, \<open>r?\<close> and \<open>r+\<close>\<close>

fun rep :: "rx \<Rightarrow> nat \<Rightarrow> nat \<Rightarrow> rx" where
  "rep r 0 0 = Eps"
| "rep r 0 (Suc n) = Alt Eps (Seq r (rep r 0 n))"
| "rep r (Suc m) 0 = Never"
| "rep r (Suc m) (Suc n) = Seq r (rep r m n)"

definition opt :: "rx \<Rightarrow> rx" where
  "opt r = Alt Eps r"

definition plus_rx :: "rx \<Rightarrow> rx" where
  "plus_rx r = Seq r (Star r)"

definition lit :: "char \<Rightarrow> rx" where
  "lit c = Class [(c, c)]"

section \<open>The language of a pattern\<close>

inductive_set star_of :: "string set \<Rightarrow> string set" for A where
  star_nil: "[] \<in> star_of A"
| star_app: "u \<in> A \<Longrightarrow> v \<in> star_of A \<Longrightarrow> u @ v \<in> star_of A"

definition seq_of :: "string set \<Rightarrow> string set \<Rightarrow> string set" where
  "seq_of A B = {u @ v | u v. u \<in> A \<and> v \<in> B}"

fun lang :: "rx \<Rightarrow> string set" where
  "lang Never = {}"
| "lang Eps = {[]}"
| "lang (Class rs) = {[c] | c. in_class rs c}"
| "lang (Seq r s) = seq_of (lang r) (lang s)"
| "lang (Alt r s) = lang r \<union> lang s"
| "lang (Star r) = star_of (lang r)"
| "lang (Both r s) = lang r \<inter> lang s"

lemma seq_ofI [intro]: "u \<in> A \<Longrightarrow> v \<in> B \<Longrightarrow> u @ v \<in> seq_of A B"
  by (auto simp: seq_of_def)

lemma seq_of_empty [simp]: "seq_of {} B = {}" "seq_of {[]} B = B"
  by (auto simp: seq_of_def)

lemma nullable_lang: "nullable r \<longleftrightarrow> [] \<in> lang r"
  by (induction r) (auto simp: seq_of_def intro: star_of.intros)

lemma lang_seq' [simp]: "lang (seq' r s) = seq_of (lang r) (lang s)"
  by (cases r) auto

lemma lang_alt' [simp]: "lang (alt' r s) = lang r \<union> lang s"
  by (cases r) auto

lemma Cons_seq_of:
  "c # w \<in> seq_of A B \<longleftrightarrow>
     (\<exists>u v. w = u @ v \<and> c # u \<in> A \<and> v \<in> B) \<or> [] \<in> A \<and> c # w \<in> B"
  by (auto simp: seq_of_def Cons_eq_append_conv)

lemma Cons_star_of:
  "c # w \<in> star_of A \<longleftrightarrow> (\<exists>u v. w = u @ v \<and> c # u \<in> A \<and> v \<in> star_of A)"
proof
  have "x \<in> star_of A \<Longrightarrow> x = c # w \<Longrightarrow>
      \<exists>u v. w = u @ v \<and> c # u \<in> A \<and> v \<in> star_of A" for x
  proof (induction arbitrary: w rule: star_of.induct)
    case star_nil
    then show ?case by simp
  next
    case (star_app u v)
    then show ?case by (cases u) auto
  qed
  then show "c # w \<in> star_of A \<Longrightarrow> \<exists>u v. w = u @ v \<and> c # u \<in> A \<and> v \<in> star_of A"
    by blast
next
  assume "\<exists>u v. w = u @ v \<and> c # u \<in> A \<and> v \<in> star_of A"
  then show "c # w \<in> star_of A" using star_of.star_app [of "c # u" A v for u v] by auto
qed

lemma lang_deriv: "w \<in> lang (deriv c r) \<longleftrightarrow> c # w \<in> lang r"
proof (induction r arbitrary: w)
  case (Seq r s)
  then show ?case
    by (auto simp: Cons_seq_of nullable_lang) (auto simp: seq_of_def)
next
  case (Star r)
  then show ?case by (auto simp: Cons_star_of) (auto simp: seq_of_def)
qed auto

theorem fullmatch_lang: "fullmatch r s \<longleftrightarrow> s \<in> lang r"
  by (induction s arbitrary: r) (auto simp: nullable_lang lang_deriv)

section \<open>What a match tells about the string\<close>

text \<open>Every character of a match is in one of the pattern's classes.\<close>

fun classes :: "rx \<Rightarrow> (char \<times> char) list" where
  "classes (Class rs) = rs"
| "classes (Seq r s) = classes r @ classes s"
| "classes (Alt r s) = classes r @ classes s"
| "classes (Star r) = classes r"
| "classes (Both r s) = classes r"
| "classes _ = []"

lemma in_class_append [simp]: "in_class (rs @ ss) c \<longleftrightarrow> in_class rs c \<or> in_class ss c"
  by (simp add: in_class_def)

lemma lang_classes: "w \<in> lang r \<Longrightarrow> c \<in> set w \<Longrightarrow> in_class (classes r) c"
proof (induction r arbitrary: w)
  case (Star r)
  from Star.prems(1) have "w \<in> star_of (lang r)" by simp
  then show ?case using Star.prems(2)
    by (induction rule: star_of.induct) (auto dest: Star.IH)
next
  case (Seq r s)
  then show ?case by (simp add: seq_of_def) (metis Un_iff set_append)
qed auto

lemma fullmatch_chars: "fullmatch r s \<Longrightarrow> c \<in> set s \<Longrightarrow> in_class (classes r) c"
  by (simp add: fullmatch_lang lang_classes)

lemma lang_seq_class:
  "w \<in> lang (Seq (Class rs) r) \<longleftrightarrow> (\<exists>c v. w = c # v \<and> in_class rs c \<and> v \<in> lang r)"
proof -
  have "c # v \<in> lang (Seq (Class rs) r)" if "in_class rs c" and "v \<in> lang r" for c v
    using seq_ofI [of "[c]" "lang (Class rs)" v "lang r"] that by simp
  then show ?thesis by (auto simp: seq_of_def)
qed

lemma lang_rep_class:
  "w \<in> lang (rep (Class rs) m n) \<longleftrightarrow> m \<le> length w \<and> length w \<le> n \<and> list_all (in_class rs) w"
proof (induction "Class rs" m n arbitrary: w rule: rep.induct)
  case (2 n)
  then show ?case by (cases w) (auto simp: lang_seq_class simp del: lang.simps(4))
next
  case (4 m n)
  then show ?case by (cases w) (auto simp: lang_seq_class simp del: lang.simps(4))
qed auto

lemma lang_star_class: "w \<in> lang (Star (Class rs)) \<longleftrightarrow> list_all (in_class rs) w"
proof (induction w)
  case Nil
  then show ?case by (simp add: star_of.intros)
next
  case (Cons c w)
  then show ?case by (auto simp: Cons_star_of)
qed

text \<open>The patterns of names are a first character followed by a bounded or free tail.\<close>

lemma fullmatch_head_tail:
  "fullmatch (Seq (Class rs) (Star (Class ss))) w \<longleftrightarrow>
     w \<noteq> [] \<and> in_class rs (hd w) \<and> list_all (in_class ss) (tl w)"
  by (cases w) (auto simp: fullmatch_lang lang_seq_class lang_star_class simp del: lang.simps(4,6))

lemma fullmatch_head_rep:
  "fullmatch (Seq (Class rs) (rep (Class ss) 0 n)) w \<longleftrightarrow>
     w \<noteq> [] \<and> in_class rs (hd w) \<and> list_all (in_class ss) (tl w) \<and> length w \<le> Suc n"
  by (cases w) (auto simp: fullmatch_lang lang_seq_class lang_rep_class simp del: lang.simps(4))

lemma fullmatch_rep:
  "fullmatch (rep (Class rs) n n) w \<longleftrightarrow> length w = n \<and> list_all (in_class rs) w"
  by (auto simp: fullmatch_lang lang_rep_class simp del: lang.simps(4))

text \<open>The classes most patterns are built from.\<close>

abbreviation lower_digit :: "(char \<times> char) list" where
  "lower_digit \<equiv> [(CHR ''a'', CHR ''z''), (CHR ''0'', CHR ''9'')]"

abbreviation alnum :: "(char \<times> char) list" where
  "alnum \<equiv> [(CHR ''A'', CHR ''Z''), (CHR ''a'', CHR ''z''), (CHR ''0'', CHR ''9'')]"

abbreviation dot_under_dash :: "(char \<times> char) list" where
  "dot_under_dash \<equiv> [(CHR ''.'', CHR ''.''), (CHR ''_'', CHR ''_''), (CHR ''-'', CHR ''-'')]"

end
