(* ===== verification/Config.thy ===== *)
theory Config
  imports Doubles Regex
begin

text \<open>
  \<open>config.py\<close>: profiles. A section's reader carries the table, the keys it has read and the
  list of problems, and goes on after a problem, so that the message names all of them; only
  an exception of the interpreter stops it.
\<close>

section \<open>Sizes\<close>

definition SIZE_UNITS :: "(string \<times> nat) list" where
  "SIZE_UNITS =
     [(''B'', 1), (''KB'', 1024), (''MB'', 1024 ^ 2), (''GB'', 1024 ^ 3), (''TB'', 1024 ^ 4),
      (''KIB'', 1024), (''MIB'', 1024 ^ 2), (''GIB'', 1024 ^ 3), (''TIB'', 1024 ^ 4)]"

definition is_letter :: "char \<Rightarrow> bool" where
  "is_letter c \<longleftrightarrow> in_class [(CHR ''A'', CHR ''Z''), (CHR ''a'', CHR ''z'')] c"

definition upper_char :: "char \<Rightarrow> char" where
  "upper_char c = (if in_class [(CHR ''a'', CHR ''z'')] c then char_of (code c - 32) else c)"

text \<open>
  The groups of \<open>_SIZE_RE\<close>: whole digits, digits after the point, letters. Each part of the
  pattern ends where the next one starts with another kind of character, so there is at most
  one match.
\<close>

definition match_size :: "string \<Rightarrow> (string \<times> string \<times> string) option" where
  "match_size text =
     (let s = dropWhile is_space text;
          whole = takeWhile is_ascii_digit s; s1 = dropWhile is_ascii_digit s;
          decimals = (case s1 of c # r \<Rightarrow> if c = CHR ''.'' then takeWhile is_ascii_digit r else [] | [] \<Rightarrow> []);
          s2 = (case s1 of c # r \<Rightarrow> if c = CHR ''.'' \<and> decimals \<noteq> [] then dropWhile is_ascii_digit r else s1
                | [] \<Rightarrow> []);
          s3 = dropWhile is_space s2;
          unit = takeWhile is_letter s3; s4 = dropWhile is_letter s3
      in if whole \<noteq> [] \<and> unit \<noteq> [] \<and> dropWhile is_space s4 = [] then Some (whole, decimals, unit)
         else None)"

definition decimal_float :: "string \<Rightarrow> string \<Rightarrow> pyfloat" where
  "decimal_float whole decimals = round_double (of_nat (read_nat (whole @ decimals)) / 10 ^ length decimals)"

definition parse_size :: "string \<Rightarrow> py_exn + int" where
  "parse_size text =
     (case match_size text of
        None \<Rightarrow> Inl ValueError
      | Some (whole, decimals, unit) \<Rightarrow>
          (case map_of SIZE_UNITS (map upper_char unit) of
             None \<Rightarrow> Inl ValueError
           | Some factor \<Rightarrow> int_of_float (float_mult (decimal_float whole decimals) factor)))"

definition bad_size :: "string \<Rightarrow> message" where
  "bad_size text = [Txt (''invalid size '' @ [CHR 0x22] @ text @ [CHR 0x22] @
     '' (expected a number and a unit, e.g. '' @ [CHR 0x22] @ ''19.5GB'' @ [CHR 0x22] @ '')'')]"

section \<open>Profiles\<close>

record backend_config =
  backend_port :: int
  prefill_step_size :: int
  prompt_cache_size :: int
  prompt_cache_bytes :: int
  metal_memory_limit :: int
  tool_parser :: string
  enable_thinking :: bool
  temperature :: pyfloat
  top_p :: pyfloat
  top_k :: int
  thinking_temperature :: pyfloat
  thinking_top_p :: pyfloat
  thinking_top_k :: int
  start_timeout_seconds :: int

record gateway_config =
  gateway_port :: int
  model_name :: string
  max_context :: int
  max_output_tokens :: int
  min_output_tokens :: int
  queue_size :: int
  heartbeat_seconds :: int

record tunnel_config =
  enabled :: bool
  hostname :: string

record profile =
  profile_name :: string
  profile_path :: string
  model_id :: string
  backend :: backend_config
  gateway :: gateway_config
  tunnel :: tunnel_config
  gpu_wired_limit_mb :: int

section \<open>Reading a section\<close>

record section_state =
  sec_name :: string
  table :: pydict
  valid :: bool
  seen :: "string list"
  errors :: "message list"

definition open_section :: "string \<Rightarrow> pyval \<Rightarrow> message list \<Rightarrow> section_state" where
  "open_section name t es =
     (case t of
        PNone \<Rightarrow> \<lparr>sec_name = name, table = [], valid = False, seen = [],
                  errors = es @ [[Txt (''missing section ['' @ name @ '']'')]]\<rparr>
      | PDict d \<Rightarrow> \<lparr>sec_name = name, table = d, valid = True, seen = [], errors = es\<rparr>
      | _ \<Rightarrow> \<lparr>sec_name = name, table = [], valid = False, seen = [],
              errors = es @ [[Txt (''['' @ name @ ''] must be a table'')]]\<rparr>)"

definition field_error :: "string \<Rightarrow> string \<Rightarrow> message \<Rightarrow> message" where
  "field_error name key m = Txt (''['' @ name @ ''] '' @ key @ '': '') # m"

definition fail :: "string \<Rightarrow> message \<Rightarrow> section_state \<Rightarrow> section_state" where
  "fail key m s = s\<lparr>errors := errors s @ [field_error (sec_name s) key m]\<rparr>"

definition get_field :: "string \<Rightarrow> section_state \<Rightarrow> pyval \<times> section_state" where
  "get_field key s =
     (let s1 = s\<lparr>seen := key # seen s\<rparr>
      in case map_of (table s) key of
           None \<Rightarrow> (PNone, if valid s then fail key [Txt ''missing''] s1 else s1)
         | Some v \<Rightarrow> (v, s1))"

text \<open>A reader returns a value and the section it leaves behind.\<close>

type_synonym 'a reader = "section_state \<Rightarrow> py_exn + 'a \<times> section_state"

definition read_then :: "'a reader \<Rightarrow> ('a \<Rightarrow> 'b reader) \<Rightarrow> 'b reader" where
  "read_then r k s = and_then (r s) (\<lambda>(x, t). k x t)"

definition done_with :: "'a \<Rightarrow> 'a reader" where
  "done_with x s = Inr (x, s)"

definition int_bounds :: "string \<Rightarrow> int option \<Rightarrow> int option \<Rightarrow> int \<Rightarrow> section_state \<Rightarrow> section_state"
  where
  "int_bounds key lo hi i s =
     (let s1 = (case lo of Some l \<Rightarrow>
                  if i < l then fail key [Txt ''must be at least '', Str_of (PInt l), Txt '', got '',
                                          Str_of (PInt i)] s else s
                | None \<Rightarrow> s)
      in case hi of Some h \<Rightarrow>
           if i > h then fail key [Txt ''must be at most '', Str_of (PInt h), Txt '', got '',
                                   Str_of (PInt i)] s1 else s1
         | None \<Rightarrow> s1)"

definition integer :: "string \<Rightarrow> int option \<Rightarrow> int option \<Rightarrow> int reader" where
  "integer key lo hi s =
     (case get_field key s of (v, s1) \<Rightarrow>
        (case v of
           PNone \<Rightarrow> Inr (0, s1)
         | PInt i \<Rightarrow> Inr (i, int_bounds key lo hi i s1)
         | _ \<Rightarrow> Inr (0, fail key [Txt ''expected an integer, got '', Repr_of v] s1)))"

definition number :: "string \<Rightarrow> rat \<Rightarrow> rat \<Rightarrow> pyfloat reader" where
  "number key lo hi s =
     (case get_field key s of (v, s1) \<Rightarrow>
        let s2 = (if num_between (Fin lo) v (Fin hi) then s1
                  else fail key [Txt ''must be between '', Str_of (PFloat (Fin lo)), Txt '' and '',
                         Str_of (PFloat (Fin hi)), Txt '', got '', Str_of v] s1)
        in (case v of
              PNone \<Rightarrow> Inr (Fin 0, s1)
            | PInt i \<Rightarrow> and_then (float_of_int i) (\<lambda>f. Inr (f, s2))
            | PFloat f \<Rightarrow> Inr (f, s2)
            | _ \<Rightarrow> Inr (Fin 0, fail key [Txt ''expected a number, got '', Repr_of v] s1)))"

definition string_field :: "string \<Rightarrow> (string \<Rightarrow> message option) \<Rightarrow> string reader" where
  "string_field key check s =
     (case get_field key s of (v, s1) \<Rightarrow>
        (case v of
           PNone \<Rightarrow> Inr ([], s1)
         | PStr (c # x) \<Rightarrow> Inr (c # x, case check (c # x) of None \<Rightarrow> s1 | Some m \<Rightarrow> fail key m s1)
         | _ \<Rightarrow> Inr ([], fail key [Txt ''expected a non-empty string, got '', Repr_of v] s1)))"

definition boolean :: "string \<Rightarrow> bool reader" where
  "boolean key s =
     (case get_field key s of (v, s1) \<Rightarrow>
        (case v of
           PNone \<Rightarrow> Inr (False, s1)
         | PBool b \<Rightarrow> Inr (b, s1)
         | _ \<Rightarrow> Inr (False, fail key [Txt ''expected true or false, got '', Repr_of v] s1)))"

definition size_field :: "string \<Rightarrow> int reader" where
  "size_field key s =
     (case get_field key s of (v, s1) \<Rightarrow>
        (case v of
           PNone \<Rightarrow> Inr (0, s1)
         | PStr x \<Rightarrow>
             (case parse_size x of
                Inr n \<Rightarrow> Inr (n, if n \<le> 0 then fail key [Txt ''must be greater than zero, got '',
                                    Repr_of v] s1 else s1)
              | Inl e \<Rightarrow> if e = ValueError then Inr (0, fail key (bad_size x) s1) else Inl e)
         | _ \<Rightarrow> Inr (0, fail key [Txt (''expected a size string such as '' @ [CHR 0x22] @ ''2GB'' @
                        [CHR 0x22] @ '', got ''), Repr_of v] s1)))"

definition finish :: "section_state \<Rightarrow> section_state" where
  "finish s =
     fold (\<lambda>key. fail key [Txt ''unknown field''])
       (sort (filter (\<lambda>k. k \<notin> set (seen s)) (dict_keys (table s)))) s"

section \<open>Checks of names\<close>

definition quoted :: "string \<Rightarrow> string" where
  "quoted s = CHR 0x22 # s @ [CHR 0x22]"

definition CLOUDFLARE_IDLE_TIMEOUT_SECONDS :: int where
  "CLOUDFLARE_IDLE_TIMEOUT_SECONDS = 100"

text \<open>The lookahead of \<open>_HOSTNAME_RE\<close> bounds the length; \<open>.\<close> is any character but a newline.\<close>

definition HOSTNAME_LABEL :: rx where
  "HOSTNAME_LABEL =
     Seq (Class lower_digit)
       (Seq (opt (Seq (rep (Class ((CHR ''-'', CHR ''-'') # lower_digit)) 0 61) (Class lower_digit)))
         (lit (CHR ''.'')))"

definition HOSTNAME_RE :: rx where
  "HOSTNAME_RE = Seq (plus_rx HOSTNAME_LABEL) (rep (Class [(CHR ''a'', CHR ''z'')]) 2 63)"

definition hostname_ok :: "string \<Rightarrow> bool" where
  "hostname_ok s \<longleftrightarrow>
     1 \<le> length s \<and> length s \<le> 253 \<and> CHR 0x0A \<notin> set s \<and> fullmatch HOSTNAME_RE s"

definition PROFILE_NAME_RE :: rx where
  "PROFILE_NAME_RE = Seq (Class alnum) (Star (Class (alnum @ dot_under_dash)))"

definition TOOL_PARSER_RE :: rx where
  "TOOL_PARSER_RE =
     Seq (Class [(CHR ''a'', CHR ''z'')]) (Star (Class ((CHR ''_'', CHR ''_'') # lower_digit)))"

definition MODEL_NAME_RE :: rx where
  "MODEL_NAME_RE = Seq (Class alnum) (rep (Class (alnum @ dot_under_dash)) 0 63)"

definition check_hostname :: "string \<Rightarrow> message option" where
  "check_hostname s =
     (if hostname_ok s then None
      else Some [Txt (quoted s @ '' is not a valid hostname (expected something like '' @
                      quoted ''api.example.com'' @ '')'')])"

definition check_model_name :: "string \<Rightarrow> message option" where
  "check_model_name s =
     (if fullmatch MODEL_NAME_RE s then None
      else Some [Txt (quoted s @ '' is not a model name (letters, digits, '' @ quoted ''.'' @
                      '', '' @ quoted ''-'' @ '' and '' @ quoted ''_'' @ '', e.g. '' @
                      quoted ''qwen3.8-27b'' @ '')'')])"

definition check_tool_parser :: "string \<Rightarrow> message option" where
  "check_tool_parser s =
     (if fullmatch TOOL_PARSER_RE s then None
      else Some [Txt (quoted s @ '' is not a tool parser name (expected e.g. '' @
                      quoted ''qwen3_coder'' @ '' or '' @ quoted ''auto'' @ '')'')])"

section \<open>The profile\<close>

definition read_backend :: "backend_config reader" where
  "read_backend =
     read_then (integer ''port'' (Some 1024) (Some 65535)) (\<lambda>port.
     read_then (integer ''prefill_step_size'' (Some 1) None) (\<lambda>prefill.
     read_then (integer ''prompt_cache_size'' (Some 0) None) (\<lambda>cache_size.
     read_then (size_field ''prompt_cache_bytes'') (\<lambda>cache_bytes.
     read_then (size_field ''metal_memory_limit'') (\<lambda>metal.
     read_then (string_field ''tool_parser'' check_tool_parser) (\<lambda>parser.
     read_then (boolean ''enable_thinking'') (\<lambda>think.
     read_then (number ''temperature'' 0 2) (\<lambda>temp.
     read_then (number ''top_p'' 0 1) (\<lambda>p.
     read_then (integer ''top_k'' (Some 0) None) (\<lambda>k.
     read_then (number ''thinking_temperature'' 0 2) (\<lambda>ttemp.
     read_then (number ''thinking_top_p'' 0 1) (\<lambda>tp.
     read_then (integer ''thinking_top_k'' (Some 0) None) (\<lambda>tk.
     read_then (integer ''start_timeout_seconds'' (Some 1) None) (\<lambda>timeout.
     done_with \<lparr>backend_port = port, prefill_step_size = prefill, prompt_cache_size = cache_size,
       prompt_cache_bytes = cache_bytes, metal_memory_limit = metal, tool_parser = parser,
       enable_thinking = think, temperature = temp, top_p = p, top_k = k,
       thinking_temperature = ttemp, thinking_top_p = tp, thinking_top_k = tk,
       start_timeout_seconds = timeout\<rparr>))))))))))))))"

definition read_gateway :: "gateway_config reader" where
  "read_gateway =
     read_then (integer ''port'' (Some 1024) (Some 65535)) (\<lambda>port.
     read_then (string_field ''model_name'' check_model_name) (\<lambda>name.
     read_then (integer ''max_context'' (Some 1) None) (\<lambda>context.
     read_then (integer ''max_output_tokens'' (Some 1) None) (\<lambda>most.
     read_then (integer ''min_output_tokens'' (Some 1) None) (\<lambda>least.
     read_then (integer ''queue_size'' (Some 0) None) (\<lambda>queue.
     read_then (integer ''heartbeat_seconds'' (Some 1)
                  (Some (CLOUDFLARE_IDLE_TIMEOUT_SECONDS - 1))) (\<lambda>heartbeat.
     done_with \<lparr>gateway_port = port, model_name = name, max_context = context,
       max_output_tokens = most, min_output_tokens = least, queue_size = queue,
       heartbeat_seconds = heartbeat\<rparr>)))))))"

definition read_tunnel :: "tunnel_config reader" where
  "read_tunnel =
     read_then (boolean ''enabled'') (\<lambda>on.
     read_then (string_field ''hostname'' check_hostname) (\<lambda>host.
     done_with \<lparr>enabled = on, hostname = host\<rparr>))"

text \<open>One section of the file: open it, read it, and report the fields nobody read.\<close>

definition read_section ::
    "string \<Rightarrow> 'a reader \<Rightarrow> pydict \<Rightarrow> message list \<Rightarrow> py_exn + 'a \<times> message list" where
  "read_section name r data es =
     and_then (r (open_section name (dget data name) es)) (\<lambda>(x, s). Inr (x, errors (finish s)))"

definition known_sections :: "string list" where
  "known_sections = [''model'', ''backend'', ''gateway'', ''tunnel'', ''system'']"

definition unknown_sections :: "pydict \<Rightarrow> message list" where
  "unknown_sections data =
     map (\<lambda>name. [Txt (''unknown section ['' @ name @ '']'')])
       (sort (filter (\<lambda>k. k \<notin> set known_sections) (dict_keys data)))"

definition cross_errors :: "backend_config \<Rightarrow> gateway_config \<Rightarrow> int \<Rightarrow> message list" where
  "cross_errors b g wired =
     (if backend_port b = gateway_port g
      then [[Txt ''[backend] port and [gateway] port must differ (both '',
             Str_of (PInt (gateway_port g)), Txt '')'']] else []) @
     (if min_output_tokens g \<ge> max_context g
      then [[Txt ''[gateway] min_output_tokens ('', Str_of (PInt (min_output_tokens g)),
             Txt '') must be less than max_context ('', Str_of (PInt (max_context g)), Txt '')'']]
      else []) @
     (if min_output_tokens g > max_output_tokens g
      then [[Txt ''[gateway] min_output_tokens ('', Str_of (PInt (min_output_tokens g)),
             Txt '') must not exceed max_output_tokens ('', Str_of (PInt (max_output_tokens g)),
             Txt '')'']]
      else []) @
     (if max_output_tokens g > max_context g
      then [[Txt ''[gateway] max_output_tokens ('', Str_of (PInt (max_output_tokens g)),
             Txt '') must not exceed max_context ('', Str_of (PInt (max_context g)), Txt '')'']]
      else []) @
     (if metal_memory_limit b \<ge> wired * 1024 ^ 2
      then [[Txt ''[backend] metal_memory_limit must be below [system] gpu_wired_limit_mb ('',
             Str_of (PInt wired), Txt '' MB)'']]
      else [])"

text \<open>
  \<open>ConfigError\<close> with its path and its list of problems, or with a message of its own, or an
  exception nobody expects.
\<close>

datatype config_failure = ConfigError string "message list" | ProfileError message | Crash py_exn

definition crash :: "py_exn + 'a \<Rightarrow> config_failure + 'a" where
  "crash r = (case r of Inl e \<Rightarrow> Inl (Crash e) | Inr x \<Rightarrow> Inr x)"

text \<open>The five sections, read one after the other into one list of problems.\<close>

definition read_sections ::
    "pydict \<Rightarrow> config_failure +
       (string \<times> backend_config \<times> gateway_config \<times> tunnel_config \<times> int) \<times> message list" where
  "read_sections data =
     and_then (crash (read_section ''model'' (string_field ''id'' (\<lambda>_. None)) data
       (unknown_sections data))) (\<lambda>(id, es1).
     and_then (crash (read_section ''backend'' read_backend data es1)) (\<lambda>(b, es2).
     and_then (crash (read_section ''gateway'' read_gateway data es2)) (\<lambda>(g, es3).
     and_then (crash (read_section ''tunnel'' read_tunnel data es3)) (\<lambda>(t, es4).
     and_then (crash (read_section ''system''
       (integer ''gpu_wired_limit_mb'' (Some 1) None) data es4)) (\<lambda>(wired, es5).
     Inr ((id, b, g, t, wired), es5))))))"

definition parse_profile :: "string \<Rightarrow> string \<Rightarrow> pydict \<Rightarrow> config_failure + profile" where
  "parse_profile name path data =
     and_then (read_sections data) (\<lambda>((id, b, g, t, wired), es5).
     let es = (if es5 = [] then cross_errors b g wired else es5)
     in if es \<noteq> [] then Inl (ConfigError path es)
        else Inr \<lparr>profile_name = name, profile_path = path, model_id = id, backend = b,
                  gateway = g, tunnel = t, gpu_wired_limit_mb = wired\<rparr>)"

section \<open>Profile files\<close>

text \<open>What a path is: no file, one that cannot be read or parsed, or a parsed table.\<close>

datatype toml_file = NoFile | Unreadable string | Malformed string | Parsed pydict

definition toml_suffix :: string where
  "toml_suffix = ''.toml''"

definition ends_with :: "string \<Rightarrow> string \<Rightarrow> bool" where
  "ends_with s suf \<longleftrightarrow> length suf \<le> length s \<and> drop (length s - length suf) s = suf"

text \<open>\<open>Path.stem\<close> of a name that ends in \<open>.toml\<close>\<close>

definition stem :: "string \<Rightarrow> string" where
  "stem s = (if s = toml_suffix then s else take (length s - length toml_suffix) s)"

definition profile_names :: "string list \<Rightarrow> string list" where
  "profile_names entries = sort (map stem (filter (\<lambda>s. ends_with s toml_suffix) entries))"

definition load_profile ::
    "string \<Rightarrow> string list \<Rightarrow> (string \<Rightarrow> toml_file) \<Rightarrow> string \<Rightarrow> config_failure + profile" where
  "load_profile dir entries file name =
     (if \<not> fullmatch PROFILE_NAME_RE name
      then Inl (ProfileError [Txt (''invalid profile name '' @ quoted name)])
      else let path = dir @ ''/'' @ name @ toml_suffix
           in case file path of
                NoFile \<Rightarrow>
                  let names = join_with '', '' (profile_names entries);
                      available = (if names = [] then ''none'' else names)
                  in Inl (ProfileError [Txt (''profile '' @ quoted name @ '' not found at '' @ path @
                       '' (available: '' @ available @ '')'')])
              | Malformed e \<Rightarrow> Inl (ProfileError [Txt (''cannot parse '' @ path @ '': '' @ e)])
              | Unreadable e \<Rightarrow> Inl (ProfileError [Txt (''cannot read '' @ path @ '': '' @ e)])
              | Parsed data \<Rightarrow> parse_profile name path data)"

end
