(* ===== verification/Config_Contract.thy ===== *)
theory Config_Contract
  imports Config
begin

text \<open>
  The contract of a field reader, the format of a profile as a table of fields, and the proof
  that \<open>parse_profile\<close> of \<open>config.py\<close> accepts exactly the files of that format and reports
  every field that is not.
\<close>

section \<open>Field readers\<close>

text \<open>A TOML table has no null.\<close>

definition no_null :: "pydict \<Rightarrow> bool" where
  "no_null d \<longleftrightarrow> PNone \<notin> snd ` set d"

definition has_field :: "pydict \<Rightarrow> string \<times> (pyval \<Rightarrow> bool) \<Rightarrow> bool" where
  "has_field d f \<longleftrightarrow> (\<exists>v. map_of d (fst f) = Some v \<and> snd f v)"

text \<open>A field that a section should have, and the problems its reader added.\<close>

definition reported :: "section_state \<Rightarrow> string \<times> (pyval \<Rightarrow> bool) \<Rightarrow> message list \<Rightarrow> bool" where
  "reported s f ps \<longleftrightarrow>
     (\<forall>m \<in> set ps. \<exists>m'. m = field_error (sec_name s) (fst f) m') \<and>
     (map_of (table s) (fst f) = None \<longrightarrow>
        ps = (if valid s then [field_error (sec_name s) (fst f) [Txt ''missing'']] else [])) \<and>
     (valid s \<longrightarrow> (ps = [] \<longleftrightarrow> has_field (table s) f))"

text \<open>The values that no double can hold: reading them can raise \<open>OverflowError\<close>.\<close>

definition overflowing :: "pyval \<Rightarrow> bool" where
  "overflowing v \<longleftrightarrow>
     (case v of PInt i \<Rightarrow> float_overflows i | PStr x \<Rightarrow> parse_size x = Inl OverflowError | _ \<Rightarrow> False)"

definition overflows_in :: "pydict \<Rightarrow> string \<Rightarrow> bool" where
  "overflows_in d key \<longleftrightarrow> (\<exists>v. map_of d key = Some v \<and> overflowing v)"

locale field_reader =
  fixes read :: "'a reader" and key :: string and good :: "pyval \<Rightarrow> bool"
    and holds :: "pyval \<Rightarrow> 'a \<Rightarrow> bool"
  assumes reads: "no_null (table s) \<Longrightarrow> read s = Inr (x, t) \<Longrightarrow>
      \<exists>ps. t = s\<lparr>seen := key # seen s, errors := errors s @ ps\<rparr> \<and> reported s (key, good) ps"
    and reads_value: "no_null (table s) \<Longrightarrow> read s = Inr (x, t) \<Longrightarrow>
      map_of (table s) key = Some v \<Longrightarrow> good v \<Longrightarrow> holds v x"
    and reads_good: "map_of (table s) key = Some v \<Longrightarrow> good v \<Longrightarrow> \<exists>x t. read s = Inr (x, t)"
    and reads_raises: "read s = Inl e \<Longrightarrow> e = OverflowError \<and> overflows_in (table s) key"

text \<open>A reader of several fields, in their order.\<close>

definition follows :: "'a reader \<Rightarrow> (string \<times> (pyval \<Rightarrow> bool)) list \<Rightarrow> bool" where
  "follows r fs \<longleftrightarrow>
     (\<forall>s x t. no_null (table s) \<longrightarrow> r s = Inr (x, t) \<longrightarrow>
        (\<exists>pss. t = s\<lparr>seen := rev (map fst fs) @ seen s, errors := errors s @ concat pss\<rparr> \<and>
               list_all2 (reported s) fs pss)) \<and>
     (\<forall>s. no_null (table s) \<longrightarrow> list_all (has_field (table s)) fs \<longrightarrow> (\<exists>x t. r s = Inr (x, t))) \<and>
     (\<forall>s e. no_null (table s) \<longrightarrow> r s = Inl e \<longrightarrow>
        e = OverflowError \<and> (\<exists>f \<in> set fs. overflows_in (table s) (fst f)))"

text \<open>What a reader returns once no problem was found.\<close>

definition yields :: "'a reader \<Rightarrow> (pydict \<Rightarrow> 'a \<Rightarrow> bool) \<Rightarrow> bool" where
  "yields r P \<longleftrightarrow>
     (\<forall>s x t. no_null (table s) \<longrightarrow> r s = Inr (x, t) \<longrightarrow>
        table t = table s \<and> valid t = valid s \<and>
        (\<exists>ps. errors t = errors s @ ps \<and> (ps = [] \<longrightarrow> valid s \<longrightarrow> P (table s) x)))"

definition field_holds :: "string \<Rightarrow> (pyval \<Rightarrow> bool) \<Rightarrow> (pyval \<Rightarrow> 'a \<Rightarrow> bool) \<Rightarrow> pydict \<Rightarrow> 'a \<Rightarrow> bool" where
  "field_holds key good holds d x \<longleftrightarrow> (\<exists>v. map_of d key = Some v \<and> good v \<and> holds v x)"

lemma follows_done: "follows (done_with x) []"
  by (simp add: follows_def done_with_def)

lemma yields_done: "yields (done_with x) (\<lambda>_ y. y = x)"
  by (simp add: yields_def done_with_def)

lemma yields_then:
  assumes "yields r P" and "\<And>x. yields (k x) (Q x)"
  shows "yields (read_then r k) (\<lambda>d y. \<exists>x. P d x \<and> Q x d y)"
  unfolding yields_def
proof (intro allI impI)
  fix s y u
  assume nn: "no_null (table s)" and "read_then r k s = Inr (y, u)"
  then obtain x t where r: "r s = Inr (x, t)" and kx: "k x t = Inr (y, u)"
    by (auto simp: read_then_def and_then_eq_Inr)
  from assms(1) nn r obtain ps where t: "table t = table s" "valid t = valid s"
    and ps: "errors t = errors s @ ps" "ps = [] \<longrightarrow> valid s \<longrightarrow> P (table s) x"
    unfolding yields_def by blast
  with nn have "no_null (table t)" by simp
  with assms(2) [of x] kx obtain qs where u: "table u = table t" "valid u = valid t"
    and qs: "errors u = errors t @ qs" "qs = [] \<longrightarrow> valid t \<longrightarrow> Q x (table t) y"
    unfolding yields_def by blast
  from t u ps qs show "table u = table s \<and> valid u = valid s \<and>
      (\<exists>ps. errors u = errors s @ ps \<and>
        (ps = [] \<longrightarrow> valid s \<longrightarrow> (\<exists>x. P (table s) x \<and> Q x (table s) y)))"
    by (intro conjI exI [of _ "ps @ qs"]) auto
qed

context field_reader
begin

lemma yields_field: "yields read (field_holds key good holds)"
  unfolding yields_def
proof (intro allI impI)
  fix s x t
  assume nn: "no_null (table s)" and r: "read s = Inr (x, t)"
  from reads [OF this] obtain ps
    where t: "t = s\<lparr>seen := key # seen s, errors := errors s @ ps\<rparr>"
      and ps: "reported s (key, good) ps" by blast
  have "ps = [] \<longrightarrow> valid s \<longrightarrow> field_holds key good holds (table s) x"
    using ps reads_value [OF nn r] by (auto simp: reported_def has_field_def field_holds_def)
  with t show "table t = table s \<and> valid t = valid s \<and>
      (\<exists>ps. errors t = errors s @ ps \<and>
        (ps = [] \<longrightarrow> valid s \<longrightarrow> field_holds key good holds (table s) x))"
    by simp
qed

lemma follows_then:
  assumes k: "\<And>x. follows (k x) fs"
  shows "follows (read_then read k) ((key, good) # fs)"
  unfolding follows_def
proof (intro conjI allI impI)
  fix s y u
  assume nn: "no_null (table s)" and "read_then read k s = Inr (y, u)"
  then obtain x t where r: "read s = Inr (x, t)" and kx: "k x t = Inr (y, u)"
    by (auto simp: read_then_def and_then_eq_Inr)
  from reads [OF nn r] obtain ps
    where t: "t = s\<lparr>seen := key # seen s, errors := errors s @ ps\<rparr>"
      and ps: "reported s (key, good) ps" by blast
  with nn have "no_null (table t)" by simp
  with k [of x] kx obtain pss
    where u: "u = t\<lparr>seen := rev (map fst fs) @ seen t, errors := errors t @ concat pss\<rparr>"
      and pss: "list_all2 (reported t) fs pss"
    unfolding follows_def by blast
  have "reported t = reported s" by (auto simp: fun_eq_iff reported_def t)
  with ps pss t u show "\<exists>pss. u = s\<lparr>seen := rev (map fst ((key, good) # fs)) @ seen s,
        errors := errors s @ concat pss\<rparr> \<and> list_all2 (reported s) ((key, good) # fs) pss"
    by (intro exI [of _ "ps # pss"]) simp
next
  fix s :: section_state
  assume nn: "no_null (table s)" and all: "list_all (has_field (table s)) ((key, good) # fs)"
  then obtain x t where r: "read s = Inr (x, t)"
    using reads_good [of s] by (auto simp: has_field_def)
  with reads [OF nn] have t: "table t = table s" by fastforce
  from nn all have "no_null (table t)" "list_all (has_field (table t)) fs" by (simp_all add: t)
  with k [of x] obtain y u where "k x t = Inr (y, u)" unfolding follows_def by blast
  with r show "\<exists>y u. read_then read k s = Inr (y, u)" by (simp add: read_then_def)
next
  fix s e
  assume nn: "no_null (table s)" and raised: "read_then read k s = Inl e"
  have "e = OverflowError \<and> (\<exists>f \<in> set ((key, good) # fs). overflows_in (table s) (fst f))"
  proof (cases "read s")
    case (Inl e')
    with raised reads_raises show ?thesis by (simp add: read_then_def)
  next
    case (Inr y)
    obtain x t where y: "y = (x, t)" by (cases y)
    with Inr reads [OF nn] have t: "table t = table s" by fastforce
    from raised Inr y have "k x t = Inl e" by (simp add: read_then_def)
    moreover have "\<forall>s e. no_null (table s) \<longrightarrow> k x s = Inl e \<longrightarrow>
        e = OverflowError \<and> (\<exists>f \<in> set fs. overflows_in (table s) (fst f))"
      using k [of x] unfolding follows_def by blast
    ultimately have "e = OverflowError \<and> (\<exists>f \<in> set fs. overflows_in (table s) (fst f))" using nn t by metis
    then show ?thesis by auto
  qed
  then show "e = OverflowError" "\<exists>f \<in> set ((key, good) # fs). overflows_in (table s) (fst f)" by blast+
qed

lemma follows_single: "follows read [(key, good)]"
proof -
  have "read_then read done_with = read"
    by (auto simp: fun_eq_iff read_then_def done_with_def and_then_def split: sum.split)
  with follows_then [of done_with "[]", OF follows_done] show ?thesis by simp
qed

end

section \<open>The five kinds of field\<close>

definition at_least :: "int option \<Rightarrow> int \<Rightarrow> bool" where
  "at_least lo i \<longleftrightarrow> (case lo of None \<Rightarrow> True | Some l \<Rightarrow> l \<le> i)"

definition at_most :: "int option \<Rightarrow> int \<Rightarrow> bool" where
  "at_most hi i \<longleftrightarrow> (case hi of None \<Rightarrow> True | Some h \<Rightarrow> i \<le> h)"

definition is_int :: "int option \<Rightarrow> int option \<Rightarrow> pyval \<Rightarrow> bool" where
  "is_int lo hi v \<longleftrightarrow> (\<exists>i. v = PInt i \<and> at_least lo i \<and> at_most hi i)"

definition is_text :: "(string \<Rightarrow> message option) \<Rightarrow> pyval \<Rightarrow> bool" where
  "is_text check v \<longleftrightarrow> (\<exists>s. v = PStr s \<and> s \<noteq> [] \<and> check s = None)"

definition is_bool :: "pyval \<Rightarrow> bool" where
  "is_bool v \<longleftrightarrow> (\<exists>b. v = PBool b)"

definition is_size :: "pyval \<Rightarrow> bool" where
  "is_size v \<longleftrightarrow> (\<exists>s n. v = PStr s \<and> parse_size s = Inr n \<and> 0 < n)"

definition size_is :: "pyval \<Rightarrow> int \<Rightarrow> bool" where
  "size_is v n \<longleftrightarrow> (\<exists>s. v = PStr s \<and> parse_size s = Inr n)"

lemma get_field_cases:
  assumes "get_field key s = (v, s1)" and "no_null (table s)"
  obtains "map_of (table s) key = None" "v = PNone" "\<not> valid s" "s1 = s\<lparr>seen := key # seen s\<rparr>"
  | "map_of (table s) key = None" "v = PNone" "valid s"
    "s1 = s\<lparr>seen := key # seen s, errors := errors s @ [field_error (sec_name s) key [Txt ''missing'']]\<rparr>"
  | "map_of (table s) key = Some v" "v \<noteq> PNone" "s1 = s\<lparr>seen := key # seen s\<rparr>"
proof (cases "map_of (table s) key")
  case None
  with assms(1) that(1,2) show ?thesis
    by (auto simp: get_field_def fail_def Let_def split: if_splits)
next
  case (Some w)
  then have "w \<noteq> PNone" using assms(2) by (force simp: no_null_def dest: map_of_SomeD)
  with Some assms(1) that(3) show ?thesis by (auto simp: get_field_def Let_def)
qed

text \<open>Several failures of one field.\<close>

definition fails :: "string \<Rightarrow> message list \<Rightarrow> section_state \<Rightarrow> section_state" where
  "fails key ms s = s\<lparr>errors := errors s @ map (field_error (sec_name s) key) ms\<rparr>"

lemma fail_fails: "fail key m s = fails key [m] s"
  by (simp add: fail_def fails_def)

lemma fails_fails [simp]: "fails key ms (fails key ns s) = fails key (ns @ ms) s"
  by (simp add: fails_def)

lemma fails_Nil [simp]: "fails key [] s = s"
  by (simp add: fails_def)

text \<open>Every field reader gets the field and then looks at its value.\<close>

lemma reader_reads:
  assumes nn: "no_null (table s)"
    and r: "(case get_field key s of (v, s1) \<Rightarrow> body v s1) = Inr (x, t)"
    and none: "\<And>s1 x t. body PNone s1 = Inr (x, t) \<Longrightarrow> t = s1"
    and some: "\<And>v s1 x t. v \<noteq> PNone \<Longrightarrow> body v s1 = Inr (x, t) \<Longrightarrow>
      \<exists>ms. t = fails key ms s1 \<and> (ms = [] \<longleftrightarrow> good v)"
  shows "\<exists>ps. t = s\<lparr>seen := key # seen s, errors := errors s @ ps\<rparr> \<and> reported s (key, good) ps"
proof -
  obtain v s1 where g: "get_field key s = (v, s1)" by (cases "get_field key s")
  with r have b: "body v s1 = Inr (x, t)" by simp
  from g nn show ?thesis
  proof (cases rule: get_field_cases)
    case 1
    with none b have "t = s1" by blast
    with 1 show ?thesis by (intro exI [of _ "[]"]) (auto simp: reported_def)
  next
    case 2
    with none b have "t = s1" by blast
    with 2 show ?thesis by (fastforce simp: reported_def has_field_def)
  next
    case 3
    with some b obtain ms where "t = fails key ms s1" "ms = [] \<longleftrightarrow> good v" by blast
    with 3 show ?thesis
      by (intro exI [of _ "map (field_error (sec_name s) key) ms"])
        (auto simp: fails_def reported_def has_field_def)
  qed
qed

lemma reader_value:
  assumes nn: "no_null (table s)" and found: "map_of (table s) key = Some v"
  shows "(case get_field key s of (v, s1) \<Rightarrow> body v s1) = body v (s\<lparr>seen := key # seen s\<rparr>)"
    and "v \<noteq> PNone"
proof -
  from found have g: "get_field key s = (v, s\<lparr>seen := key # seen s\<rparr>)" by (simp add: get_field_def)
  then show "(case get_field key s of (v, s1) \<Rightarrow> body v s1) = body v (s\<lparr>seen := key # seen s\<rparr>)"
    by simp
  show "v \<noteq> PNone" using found nn by (force simp: no_null_def dest: map_of_SomeD)
qed

text \<open>If it raises, it is on a value it got.\<close>

lemma reader_raises:
  assumes r: "(case get_field key s of (v, s1) \<Rightarrow> body v s1) = Inl e"
    and raises: "\<And>v s1. body v s1 = Inl e \<Longrightarrow> e = OverflowError \<and> overflowing v"
  shows "e = OverflowError \<and> overflows_in (table s) key"
proof -
  obtain v s1 where g: "get_field key s = (v, s1)" by (cases "get_field key s")
  with r have b: "e = OverflowError" "overflowing v" using raises by auto
  then have "map_of (table s) key = Some v"
    using g by (auto simp: get_field_def overflowing_def Let_def split: option.splits)
  with b show ?thesis by (auto simp: overflows_in_def)
qed

lemma int_bounds_fails:
  "\<exists>ms. int_bounds key lo hi i s = fails key ms s \<and> (ms = [] \<longleftrightarrow> at_least lo i \<and> at_most hi i)"
  by (cases lo; cases hi)
    (auto simp: int_bounds_def at_least_def at_most_def fail_fails intro: fails_Nil [symmetric])

text \<open>The five kinds keep the contract.\<close>

interpretation int_field: field_reader "integer key lo hi" key "is_int lo hi" "\<lambda>v x. v = PInt x"
  for key lo hi
proof
  fix s x t
  assume nn: "no_null (table s)" and r: "integer key lo hi s = Inr (x, t)"
  note body = r [unfolded integer_def]
  show "\<exists>ps. t = s\<lparr>seen := key # seen s, errors := errors s @ ps\<rparr> \<and>
      reported s (key, is_int lo hi) ps"
  proof (rule reader_reads [OF nn body], goal_cases)
    case (2 v s1 x t)
    then show ?case using int_bounds_fails [of key lo hi _ s1]
      by (cases v) (auto simp: is_int_def fail_fails)
  qed simp
  fix v
  assume f: "map_of (table s) key = Some v" and "is_int lo hi v"
  with body show "v = PInt x" unfolding reader_value(1) [OF nn f] by (auto simp: is_int_def)
next
  fix s :: section_state and v
  assume "map_of (table s) key = Some v" "is_int lo hi v"
  then show "\<exists>x t. integer key lo hi s = Inr (x, t)"
    by (auto simp: integer_def get_field_def is_int_def)
next
  fix s e
  assume raised: "integer key lo hi s = Inl e"
  show "e = OverflowError \<and> overflows_in (table s) key"
    by (rule reader_raises [OF raised [unfolded integer_def]]) (auto split: pyval.splits)
qed

text \<open>A number within bounds that fits a double; the bounds of the profile ensure that.\<close>

definition num_within :: "rat \<Rightarrow> rat \<Rightarrow> pyval \<Rightarrow> bool" where
  "num_within lo hi v \<longleftrightarrow> number_in lo hi v \<and> (\<forall>i. v = PInt i \<longrightarrow> \<not> float_overflows i)"

lemma num_within_small:
  assumes "0 \<le> lo" and "hi \<le> 10"
  shows "num_within lo hi v \<longleftrightarrow> number_in lo hi v"
proof -
  have "\<not> float_overflows i" if "lo \<le> of_int i" "of_int i \<le> hi" for i
  proof -
    from that assms have "(of_int 0 :: rat) \<le> of_int i" "of_int i \<le> (of_int 10 :: rat)"
      by simp_all
    then have "\<bar>i\<bar> \<le> 10" unfolding of_int_le_iff by simp
    then show ?thesis by (simp add: float_overflows_def)
  qed
  then show ?thesis by (auto simp: num_within_def number_in_def)
qed

lemma number_in_iff:
  "number_in lo hi v \<longleftrightarrow>
     (is_plain_int v \<or> (\<exists>f. v = PFloat f)) \<and> num_between (Fin lo) v (Fin hi)"
  by (cases v) (auto simp: number_in_def num_between_Fin)

interpretation num_field: field_reader "number key lo hi" key "num_within lo hi"
    "\<lambda>v x. case v of PInt i \<Rightarrow> float_of_int i = Inr x | _ \<Rightarrow> v = PFloat x"
  for key lo hi
proof
  fix s x t
  assume nn: "no_null (table s)" and r: "number key lo hi s = Inr (x, t)"
  note body = r [unfolded number_def Let_def]
  show "\<exists>ps. t = s\<lparr>seen := key # seen s, errors := errors s @ ps\<rparr> \<and>
      reported s (key, num_within lo hi) ps"
  proof (rule reader_reads [OF nn body], goal_cases)
    case (2 v s1 x t)
    then show ?case
      by (cases v)
        (auto simp: num_within_def number_in_iff fail_fails and_then_eq_Inr float_of_int_def
          split: if_splits intro: fails_Nil [symmetric])
  qed simp
  fix v
  assume f: "map_of (table s) key = Some v" and "num_within lo hi v"
  with body show "case v of PInt i \<Rightarrow> float_of_int i = Inr x | _ \<Rightarrow> v = PFloat x"
    unfolding reader_value(1) [OF nn f] by (auto simp: num_within_def number_in_def and_then_eq_Inr)
next
  fix s :: section_state and v
  assume "map_of (table s) key = Some v" "num_within lo hi v"
  then show "\<exists>x t. number key lo hi s = Inr (x, t)"
    by (auto simp: number_def get_field_def num_within_def number_in_def float_of_int_def Let_def)
next
  fix s e
  assume raised: "number key lo hi s = Inl e"
  show "e = OverflowError \<and> overflows_in (table s) key"
    by (rule reader_raises [OF raised [unfolded number_def Let_def]]) (auto simp: and_then_eq_Inl overflowing_def float_of_int_def split: if_splits split: pyval.splits)
qed

interpretation text_field: field_reader "string_field key check" key "is_text check"
    "\<lambda>v x. v = PStr x"
  for key check
proof
  fix s x t
  assume nn: "no_null (table s)" and r: "string_field key check s = Inr (x, t)"
  note body = r [unfolded string_field_def]
  show "\<exists>ps. t = s\<lparr>seen := key # seen s, errors := errors s @ ps\<rparr> \<and>
      reported s (key, is_text check) ps"
  proof (rule reader_reads [OF nn body], goal_cases)
    case (2 v s1 x t)
    then show ?case
      by (cases v)
        (auto simp: is_text_def fail_fails split: list.splits option.splits
          intro: fails_Nil [symmetric])
  qed simp
  fix v
  assume f: "map_of (table s) key = Some v" and "is_text check v"
  with body show "v = PStr x"
    unfolding reader_value(1) [OF nn f] by (auto simp: is_text_def split: list.splits)
next
  fix s :: section_state and v
  assume "map_of (table s) key = Some v" "is_text check v"
  then show "\<exists>x t. string_field key check s = Inr (x, t)"
    by (auto simp: string_field_def get_field_def is_text_def split: list.split)
next
  fix s e
  assume raised: "string_field key check s = Inl e"
  show "e = OverflowError \<and> overflows_in (table s) key"
    by (rule reader_raises [OF raised [unfolded string_field_def]]) (auto split: pyval.splits list.splits)
qed

interpretation bool_field: field_reader "boolean key" key is_bool "\<lambda>v x. v = PBool x"
  for key
proof
  fix s x t
  assume nn: "no_null (table s)" and r: "boolean key s = Inr (x, t)"
  note body = r [unfolded boolean_def]
  show "\<exists>ps. t = s\<lparr>seen := key # seen s, errors := errors s @ ps\<rparr> \<and> reported s (key, is_bool) ps"
  proof (rule reader_reads [OF nn body], goal_cases)
    case (2 v s1 x t)
    then show ?case
      by (cases v) (auto simp: is_bool_def fail_fails intro: fails_Nil [symmetric])
  qed simp
  fix v
  assume f: "map_of (table s) key = Some v" and "is_bool v"
  with body show "v = PBool x" unfolding reader_value(1) [OF nn f] by (auto simp: is_bool_def)
next
  fix s :: section_state and v
  assume "map_of (table s) key = Some v" "is_bool v"
  then show "\<exists>x t. boolean key s = Inr (x, t)"
    by (auto simp: boolean_def get_field_def is_bool_def)
next
  fix s e
  assume raised: "boolean key s = Inl e"
  show "e = OverflowError \<and> overflows_in (table s) key"
    by (rule reader_raises [OF raised [unfolded boolean_def]]) (auto split: pyval.splits)
qed

lemma parse_size_raises: "parse_size x = Inl e \<Longrightarrow> e \<noteq> ValueError \<Longrightarrow> e = OverflowError"
  by (auto simp: parse_size_def int_of_float_def split: option.splits prod.splits pyfloat.splits)

interpretation size_field: field_reader "size_field key" key is_size size_is
  for key
proof
  fix s x t
  assume nn: "no_null (table s)" and r: "size_field key s = Inr (x, t)"
  note body = r [unfolded size_field_def]
  show "\<exists>ps. t = s\<lparr>seen := key # seen s, errors := errors s @ ps\<rparr> \<and> reported s (key, is_size) ps"
  proof (rule reader_reads [OF nn body], goal_cases)
    case (2 v s1 x t)
    then show ?case
      by (cases v)
        (auto simp: is_size_def fail_fails split: sum.splits if_splits
          intro: fails_Nil [symmetric])
  qed simp
  fix v
  assume f: "map_of (table s) key = Some v" and "is_size v"
  with body show "size_is v x"
    unfolding reader_value(1) [OF nn f] by (auto simp: is_size_def size_is_def split: if_splits)
next
  fix s :: section_state and v
  assume "map_of (table s) key = Some v" "is_size v"
  then show "\<exists>x t. size_field key s = Inr (x, t)"
    by (auto simp: size_field_def get_field_def is_size_def)
next
  fix s e
  assume raised: "size_field key s = Inl e"
  show "e = OverflowError \<and> overflows_in (table s) key"
    by (rule reader_raises [OF raised [unfolded size_field_def]]) (auto simp: overflowing_def dest: parse_size_raises split: sum.splits if_splits split: pyval.splits)
qed

end
