(* ===== verification/Profile_Format.thy ===== *)
theory Profile_Format
  imports Config_Contract
begin

text \<open>
  The format of a profile file, as a table of sections and fields, and what
  \<open>parse_profile\<close> does with a file of that format and with any other.
\<close>

section \<open>The format\<close>

definition MODEL_FIELDS :: "(string \<times> (pyval \<Rightarrow> bool)) list" where
  "MODEL_FIELDS = [(''id'', is_text (\<lambda>_. None))]"

definition BACKEND_FIELDS :: "(string \<times> (pyval \<Rightarrow> bool)) list" where
  "BACKEND_FIELDS =
     [(''port'', is_int (Some 1024) (Some 65535)), (''prefill_step_size'', is_int (Some 1) None),
      (''prompt_cache_size'', is_int (Some 0) None), (''prompt_cache_bytes'', is_size),
      (''metal_memory_limit'', is_size), (''tool_parser'', is_text check_tool_parser),
      (''enable_thinking'', is_bool), (''temperature'', num_within 0 2), (''top_p'', num_within 0 1),
      (''top_k'', is_int (Some 0) None), (''thinking_temperature'', num_within 0 2),
      (''thinking_top_p'', num_within 0 1), (''thinking_top_k'', is_int (Some 0) None),
      (''start_timeout_seconds'', is_int (Some 1) None)]"

definition GATEWAY_FIELDS :: "(string \<times> (pyval \<Rightarrow> bool)) list" where
  "GATEWAY_FIELDS =
     [(''port'', is_int (Some 1024) (Some 65535)), (''model_name'', is_text check_model_name),
      (''max_context'', is_int (Some 1) None), (''max_output_tokens'', is_int (Some 1) None),
      (''min_output_tokens'', is_int (Some 1) None), (''queue_size'', is_int (Some 0) None),
      (''heartbeat_seconds'', is_int (Some 1) (Some 99))]"

definition TUNNEL_FIELDS :: "(string \<times> (pyval \<Rightarrow> bool)) list" where
  "TUNNEL_FIELDS = [(''enabled'', is_bool), (''hostname'', is_text check_hostname)]"

definition SYSTEM_FIELDS :: "(string \<times> (pyval \<Rightarrow> bool)) list" where
  "SYSTEM_FIELDS = [(''gpu_wired_limit_mb'', is_int (Some 1) None)]"

definition SCHEMA :: "(string \<times> (string \<times> (pyval \<Rightarrow> bool)) list) list" where
  "SCHEMA =
     [(''model'', MODEL_FIELDS), (''backend'', BACKEND_FIELDS), (''gateway'', GATEWAY_FIELDS),
      (''tunnel'', TUNNEL_FIELDS), (''system'', SYSTEM_FIELDS)]"

text \<open>A table with exactly these fields, and a file with exactly these tables.\<close>

definition table_ok :: "(string \<times> (pyval \<Rightarrow> bool)) list \<Rightarrow> pyval \<Rightarrow> bool" where
  "table_ok fs v \<longleftrightarrow>
     (\<exists>d. v = PDict d \<and> set (dict_keys d) \<subseteq> set (map fst fs) \<and> list_all (has_field d) fs)"

definition format_ok :: "pydict \<Rightarrow> bool" where
  "format_ok data \<longleftrightarrow>
     set (dict_keys data) \<subseteq> set known_sections \<and>
     list_all (\<lambda>(name, fs). table_ok fs (dget data name)) SCHEMA"

definition tables_of_toml :: "pydict \<Rightarrow> bool" where
  "tables_of_toml data \<longleftrightarrow> (\<forall>name d. dget data name = PDict d \<longrightarrow> no_null d)"

section \<open>The readers follow it\<close>

lemmas field_follows = int_field.follows_then num_field.follows_then text_field.follows_then
  bool_field.follows_then size_field.follows_then follows_done

lemmas field_yields = yields_then [OF int_field.yields_field] yields_then [OF num_field.yields_field]
  yields_then [OF text_field.yields_field] yields_then [OF bool_field.yields_field]
  yields_then [OF size_field.yields_field] yields_done

lemma read_backend_follows: "follows read_backend BACKEND_FIELDS"
  unfolding read_backend_def BACKEND_FIELDS_def by (intro field_follows)

lemma longest_heartbeat: "CLOUDFLARE_IDLE_TIMEOUT_SECONDS - 1 = 99"
  by (simp add: CLOUDFLARE_IDLE_TIMEOUT_SECONDS_def)

lemma read_gateway_follows: "follows read_gateway GATEWAY_FIELDS"
  unfolding read_gateway_def GATEWAY_FIELDS_def longest_heartbeat by (intro field_follows)

lemma read_tunnel_follows: "follows read_tunnel TUNNEL_FIELDS"
  unfolding read_tunnel_def TUNNEL_FIELDS_def by (intro field_follows)

lemma read_model_follows: "follows (string_field ''id'' (\<lambda>_. None)) MODEL_FIELDS"
  unfolding MODEL_FIELDS_def by (rule text_field.follows_single)

lemma read_system_follows:
  "follows (integer ''gpu_wired_limit_mb'' (Some 1) None) SYSTEM_FIELDS"
  unfolding SYSTEM_FIELDS_def by (rule int_field.follows_single)

section \<open>One section\<close>

lemma errors_finish:
  "errors (finish s) = errors s @ map (\<lambda>k. field_error (sec_name s) k [Txt ''unknown field''])
     (sort (filter (\<lambda>k. k \<notin> set (seen s)) (dict_keys (table s))))"
proof -
  have "errors (fold (\<lambda>key. fail key [Txt ''unknown field'']) ks s) =
      errors s @ map (\<lambda>k. field_error (sec_name s) k [Txt ''unknown field'']) ks" for ks
    by (induction ks arbitrary: s) (simp_all add: fail_def)
  then show ?thesis by (simp add: finish_def)
qed

text \<open>
  What a section's problems say about its value: each field that is not there or not as it should be is named,
  each field that has no business there is, and nothing else is.
\<close>

definition names_problems :: "string \<Rightarrow> (string \<times> (pyval \<Rightarrow> bool)) list \<Rightarrow> pydict \<Rightarrow> message list \<Rightarrow> bool"
  where
  "names_problems name fs d es \<longleftrightarrow>
     (\<forall>f \<in> set fs. \<not> has_field d f \<longrightarrow> (\<exists>m. field_error name (fst f) m \<in> set es)) \<and>
     (\<forall>f \<in> set fs. map_of d (fst f) = None \<longrightarrow> field_error name (fst f) [Txt ''missing''] \<in> set es) \<and>
     (\<forall>k \<in> set (dict_keys d) - set (map fst fs).
        field_error name k [Txt ''unknown field''] \<in> set es) \<and>
     (\<forall>e \<in> set es. (\<exists>f \<in> set fs. \<not> has_field d f \<and> (\<exists>m. e = field_error name (fst f) m)) \<or>
        (\<exists>k \<in> set (dict_keys d) - set (map fst fs). e = field_error name k [Txt ''unknown field'']))"

definition section_report :: "string \<Rightarrow> (string \<times> (pyval \<Rightarrow> bool)) list \<Rightarrow> pyval \<Rightarrow> message list \<Rightarrow> bool" where
  "section_report name fs v es \<longleftrightarrow>
     (case v of
        PNone \<Rightarrow> es = [[Txt (''missing section ['' @ name @ '']'')]]
      | PDict d \<Rightarrow> names_problems name fs d es
      | _ \<Rightarrow> es = [[Txt (''['' @ name @ ''] must be a table'')]])"

lemma reported_all:
  assumes "list_all2 (reported s) fs pss" and "valid s"
  shows "concat pss = [] \<longleftrightarrow> list_all (has_field (table s)) fs"
    and "f \<in> set fs \<Longrightarrow> \<not> has_field (table s) f \<Longrightarrow>
      \<exists>m. field_error (sec_name s) (fst f) m \<in> set (concat pss)"
    and "f \<in> set fs \<Longrightarrow> map_of (table s) (fst f) = None \<Longrightarrow>
      field_error (sec_name s) (fst f) [Txt ''missing''] \<in> set (concat pss)"
    and "e \<in> set (concat pss) \<Longrightarrow>
      \<exists>f \<in> set fs. \<not> has_field (table s) f \<and> (\<exists>m. e = field_error (sec_name s) (fst f) m)"
proof -
  have one: "ps = [] \<longleftrightarrow> has_field (table s) f"
    "\<not> has_field (table s) f \<Longrightarrow> \<exists>m. field_error (sec_name s) (fst f) m \<in> set ps"
    if "reported s f ps" for f ps
  proof -
    from that assms(2) show eq: "ps = [] \<longleftrightarrow> has_field (table s) f" by (simp add: reported_def)
    assume "\<not> has_field (table s) f"
    with eq obtain m where "m \<in> set ps" by (cases ps) auto
    with that show "\<exists>m. field_error (sec_name s) (fst f) m \<in> set ps"
      unfolding reported_def by metis
  qed
  have of_field: "\<exists>ps \<in> set pss. reported s f ps" if "f \<in> set fs" for f
    using that assms(1) by (metis in_set_conv_nth list_all2_conv_all_nth)
  from assms(1) show "concat pss = [] \<longleftrightarrow> list_all (has_field (table s)) fs"
    by (induction fs pss rule: list_all2_induct) (auto simp: one(1))
  show "\<exists>m. field_error (sec_name s) (fst f) m \<in> set (concat pss)"
    if "f \<in> set fs" "\<not> has_field (table s) f"
    using of_field [OF that(1)] one(2) that(2) by fastforce
  show "field_error (sec_name s) (fst f) [Txt ''missing''] \<in> set (concat pss)"
    if "f \<in> set fs" "map_of (table s) (fst f) = None"
  proof -
    from of_field [OF that(1)] obtain ps where ps: "ps \<in> set pss" "reported s f ps" by blast
    then have "ps = [field_error (sec_name s) (fst f) [Txt ''missing'']]"
      unfolding reported_def using that(2) assms(2) by presburger
    with ps(1) show ?thesis by (auto intro!: bexI [of _ ps])
  qed
  assume "e \<in> set (concat pss)"
  then obtain ps where ps: "ps \<in> set pss" "e \<in> set ps" by auto
  with assms(1) obtain f where f: "f \<in> set fs" "reported s f ps"
    by (metis in_set_conv_nth list_all2_conv_all_nth)
  with ps(2) one(1) have "\<not> has_field (table s) f" by fastforce
  with f ps(2) show "\<exists>f \<in> set fs. \<not> has_field (table s) f \<and> (\<exists>m. e = field_error (sec_name s) (fst f) m)"
    by (auto simp: reported_def)
qed

text \<open>A section that is no table is read as an empty one, and only that is said of it.\<close>

lemma reported_invalid:
  assumes "list_all2 (reported s) fs pss" and "\<not> valid s" and "table s = []"
  shows "concat pss = []"
  using assms(1) by (induction fs pss rule: list_all2_induct) (auto simp: reported_def assms(2,3))

lemma read_section_problems:
  assumes r: "follows r fs" and toml: "tables_of_toml data"
    and sec: "read_section name r data es = Inr (x, es')"
  shows "\<exists>ds. es' = es @ ds \<and> (ds = [] \<longleftrightarrow> table_ok fs (dget data name)) \<and>
    section_report name fs (dget data name) ds"
proof -
  let ?s = "open_section name (dget data name) es"
  from sec obtain t where t: "r ?s = Inr (x, t)" and es': "es' = errors (finish t)"
    by (auto simp: read_section_def and_then_eq_Inr)
  show ?thesis
  proof (cases "is_dict (dget data name)")
    case True
    then obtain d where d: "dget data name = PDict d" by (auto simp: is_dict_iff)
    have s: "sec_name ?s = name" "table ?s = d" "valid ?s" "errors ?s = es" "seen ?s = []"
      by (simp_all add: d open_section_def)
    from toml d have "no_null (table ?s)" unfolding s by (auto simp: tables_of_toml_def)
    with r t obtain pss where
      t': "t = ?s\<lparr>seen := rev (map fst fs) @ seen ?s, errors := errors ?s @ concat pss\<rparr>"
      and pss: "list_all2 (reported ?s) fs pss" unfolding follows_def by blast
    let ?u = "filter (\<lambda>k. k \<notin> set (map fst fs)) (dict_keys d)"
    let ?us = "map (\<lambda>k. field_error name k [Txt ''unknown field'']) (sort ?u)"
    have "es' = es @ concat pss @ ?us"
      unfolding es' errors_finish t' by (simp add: s)
    moreover have "?us = [] \<longleftrightarrow> set (dict_keys d) \<subseteq> set (map fst fs)"
    proof -
      have "?us = [] \<longleftrightarrow> set (sort ?u) = {}" by (simp only: set_empty map_is_Nil_conv)
      also have "\<dots> \<longleftrightarrow> set (dict_keys d) \<subseteq> set (map fst fs)" by auto
      finally show ?thesis .
    qed
    moreover note all = reported_all [OF pss s(3), unfolded s(1,2)]
    moreover have "names_problems name fs d (concat pss @ ?us)"
      unfolding names_problems_def set_append Un_iff
    proof (intro conjI ballI impI)
      fix e
      assume "e \<in> set (concat pss) \<union> set ?us"
      then show "(\<exists>f \<in> set fs. \<not> has_field d f \<and> (\<exists>m. e = field_error name (fst f) m)) \<or>
          (\<exists>k \<in> set (dict_keys d) - set (map fst fs). e = field_error name k [Txt ''unknown field''])"
        using all(4) [of e] by auto
    qed (use all(2,3) in blast, use all(3) in blast, auto)
    ultimately show ?thesis
      by (intro exI [of _ "concat pss @ ?us"] conjI)
        (simp_all only: d table_ok_def append_is_Nil_conv pyval.inject ex_simps simp_thms section_report_def pyval.case, blast+)
  next
    case False
    then have s: "table ?s = []" "\<not> valid ?s" "\<exists>m. errors ?s = es @ [m] \<and> section_report name fs (dget data name) [m]"
      by (cases "dget data name"; simp add: open_section_def section_report_def)+
    have "no_null (table ?s)" unfolding s by (simp add: no_null_def)
    with r t obtain pss where
      t': "t = ?s\<lparr>seen := rev (map fst fs) @ seen ?s, errors := errors ?s @ concat pss\<rparr>"
      and pss: "list_all2 (reported ?s) fs pss"
      unfolding follows_def by blast
    have "es' = errors ?s" using reported_invalid [OF pss s(2,1)] s(1) by (simp add: es' errors_finish t')
    with s(3) False show ?thesis by (auto simp: table_ok_def is_dict_iff)
  qed
qed

text \<open>Only a value that no double can hold stops a section.\<close>

lemma read_section_raises:
  assumes "follows r fs" and "tables_of_toml data" and "read_section name r data es = Inl e"
  shows "e = OverflowError \<and> (\<exists>d. dget data name = PDict d \<and> (\<exists>f \<in> set fs. overflows_in d (fst f)))"
proof -
  let ?s = "open_section name (dget data name) es"
  have "no_null (table ?s)"
    using assms(2) by (auto simp: open_section_def tables_of_toml_def no_null_def split: pyval.split)
  moreover from assms(3) have "r ?s = Inl e" by (auto simp: read_section_def and_then_eq_Inl)
  ultimately have e: "e = OverflowError" "\<exists>f \<in> set fs. overflows_in (table ?s) (fst f)"
    using assms(1) unfolding follows_def by blast+
  then show ?thesis
    by (cases "dget data name") (auto simp: open_section_def overflows_in_def)
qed

lemma read_section_good:
  assumes "follows r fs" and "tables_of_toml data" and "table_ok fs (dget data name)"
  shows "\<exists>x es'. read_section name r data es = Inr (x, es')"
proof -
  from assms(3) obtain d where d: "dget data name = PDict d" "list_all (has_field d) fs"
    by (auto simp: table_ok_def)
  let ?s = "open_section name (dget data name) es"
  have "table ?s = d" by (simp add: d open_section_def)
  moreover from assms(2) d have "no_null d" by (auto simp: tables_of_toml_def)
  ultimately obtain x t where "r ?s = Inr (x, t)"
    using assms(1) d(2) unfolding follows_def by metis
  then show ?thesis by (simp add: read_section_def)
qed

end
