(* ===== verification/Profile_Properties.thy ===== *)
theory Profile_Properties
  imports Profile_Format
begin

text \<open>
  What \<open>config.py\<close> promises: a profile that loads is within every bound the rest of the
  program relies on, and a file that does not load is answered with every one of its problems.
\<close>

section \<open>All sections\<close>

lemma crash_eq [simp]: "crash r = Inr x \<longleftrightarrow> r = Inr x" "crash r = Inl f \<longleftrightarrow> (\<exists>e. r = Inl e \<and> f = Crash e)"
  by (auto simp: crash_def split: sum.splits)

lemma unknown_sections_Nil:
  "unknown_sections data = [] \<longleftrightarrow> set (dict_keys data) \<subseteq> set known_sections"
proof -
  have "unknown_sections data = [] \<longleftrightarrow>
      set (sort (filter (\<lambda>k. k \<notin> set known_sections) (dict_keys data))) = {}"
    by (simp only: unknown_sections_def set_empty map_is_Nil_conv)
  then show ?thesis by auto
qed

text \<open>The problems of a file: the unknown sections, then the report of each section in order.\<close>

definition all_named :: "pydict \<Rightarrow> message list \<Rightarrow> bool" where
  "all_named data es \<longleftrightarrow>
     (\<exists>reports. es = unknown_sections data @ concat reports \<and>
        list_all2 (\<lambda>(name, fs). section_report name fs (dget data name)) SCHEMA reports)"

lemma read_sections_problems:
  assumes toml: "tables_of_toml data" and r: "read_sections data = Inr (x, es)"
  shows "(es = [] \<longleftrightarrow> format_ok data) \<and> all_named data es"
proof -
  from r obtain id b g t w es1 es2 es3 es4 where
    s: "read_section ''model'' (string_field ''id'' (\<lambda>_. None)) data (unknown_sections data) = Inr (id, es1)"
      "read_section ''backend'' read_backend data es1 = Inr (b, es2)"
      "read_section ''gateway'' read_gateway data es2 = Inr (g, es3)"
      "read_section ''tunnel'' read_tunnel data es3 = Inr (t, es4)"
      "read_section ''system'' (integer ''gpu_wired_limit_mb'' (Some 1) None) data es4 = Inr (w, es)"
    unfolding read_sections_def by (auto elim!: and_then_InrE)
  note problems = read_section_problems [OF _ toml]
  obtain d1 where d1: "es1 = unknown_sections data @ d1" "d1 = [] \<longleftrightarrow> table_ok MODEL_FIELDS (dget data ''model'')"
      "section_report ''model'' MODEL_FIELDS (dget data ''model'') d1"
    using problems [OF read_model_follows s(1)] by blast
  obtain d2 where d2: "es2 = es1 @ d2" "d2 = [] \<longleftrightarrow> table_ok BACKEND_FIELDS (dget data ''backend'')"
      "section_report ''backend'' BACKEND_FIELDS (dget data ''backend'') d2"
    using problems [OF read_backend_follows s(2)] by blast
  obtain d3 where d3: "es3 = es2 @ d3" "d3 = [] \<longleftrightarrow> table_ok GATEWAY_FIELDS (dget data ''gateway'')"
      "section_report ''gateway'' GATEWAY_FIELDS (dget data ''gateway'') d3"
    using problems [OF read_gateway_follows s(3)] by blast
  obtain d4 where d4: "es4 = es3 @ d4" "d4 = [] \<longleftrightarrow> table_ok TUNNEL_FIELDS (dget data ''tunnel'')"
      "section_report ''tunnel'' TUNNEL_FIELDS (dget data ''tunnel'') d4"
    using problems [OF read_tunnel_follows s(4)] by blast
  obtain d5 where d5: "es = es4 @ d5" "d5 = [] \<longleftrightarrow> table_ok SYSTEM_FIELDS (dget data ''system'')"
      "section_report ''system'' SYSTEM_FIELDS (dget data ''system'') d5"
    using problems [OF read_system_follows s(5)] by blast
  have es: "es = unknown_sections data @ concat [d1, d2, d3, d4, d5]"
    by (simp add: d1(1) d2(1) d3(1) d4(1) d5(1))
  have "es = [] \<longleftrightarrow> format_ok data"
    using d1(2) d2(2) d3(2) d4(2) d5(2) unknown_sections_Nil [of data]
    by (simp add: es format_ok_def SCHEMA_def)
  moreover have "all_named data es"
    unfolding all_named_def SCHEMA_def
    using d1(3) d2(3) d3(3) d4(3) d5(3) es by (intro exI [of _ "[d1, d2, d3, d4, d5]"]) simp
  ultimately show ?thesis by blast
qed

text \<open>An exception of the interpreter has its cause in the file.\<close>

lemma read_sections_raises:
  assumes toml: "tables_of_toml data" and r: "read_sections data = Inl f"
  shows "f = Crash OverflowError \<and>
    (\<exists>(name, fs) \<in> set SCHEMA. \<exists>d. dget data name = PDict d \<and> (\<exists>f \<in> set fs. overflows_in d (fst f)))"
proof -
  note raises = read_section_raises [OF read_model_follows toml] read_section_raises [OF read_backend_follows toml]
    read_section_raises [OF read_gateway_follows toml] read_section_raises [OF read_tunnel_follows toml]
    read_section_raises [OF read_system_follows toml]
  from r show ?thesis
    unfolding read_sections_def SCHEMA_def by (auto simp: and_then_eq_Inl dest!: raises)
qed

lemma read_sections_good:
  assumes toml: "tables_of_toml data" and ok: "format_ok data"
  shows "\<exists>x es. read_sections data = Inr (x, es)"
proof -
  from ok have t: "table_ok MODEL_FIELDS (dget data ''model'')"
      "table_ok BACKEND_FIELDS (dget data ''backend'')" "table_ok GATEWAY_FIELDS (dget data ''gateway'')"
      "table_ok TUNNEL_FIELDS (dget data ''tunnel'')" "table_ok SYSTEM_FIELDS (dget data ''system'')"
    by (simp_all add: format_ok_def SCHEMA_def)
  note good = read_section_good [OF read_model_follows toml t(1)]
    read_section_good [OF read_backend_follows toml t(2)]
    read_section_good [OF read_gateway_follows toml t(3)]
    read_section_good [OF read_tunnel_follows toml t(4)]
    read_section_good [OF read_system_follows toml t(5)]
  obtain id es1 where 1: "read_section ''model'' (string_field ''id'' (\<lambda>_. None)) data
      (unknown_sections data) = Inr (id, es1)" using good(1) by blast
  obtain b es2 where 2: "read_section ''backend'' read_backend data es1 = Inr (b, es2)"
    using good(2) by blast
  obtain g es3 where 3: "read_section ''gateway'' read_gateway data es2 = Inr (g, es3)"
    using good(3) by blast
  obtain tn es4 where 4: "read_section ''tunnel'' read_tunnel data es3 = Inr (tn, es4)"
    using good(4) by blast
  obtain w es5 where 5: "read_section ''system'' (integer ''gpu_wired_limit_mb'' (Some 1) None) data es4
      = Inr (w, es5)" using good(5) by blast
  show ?thesis by (simp add: read_sections_def 1 2 3 4 5 crash_def)
qed

section \<open>Values\<close>

lemma yields_mono: "yields r P \<Longrightarrow> (\<And>d x. P d x \<Longrightarrow> Q d x) \<Longrightarrow> yields r Q"
  unfolding yields_def by metis

definition float_within :: "rat \<Rightarrow> rat \<Rightarrow> pyfloat \<Rightarrow> bool" where
  "float_within lo hi f \<longleftrightarrow> (\<exists>q. f = Fin q \<and> lo \<le> q \<and> q \<le> hi)"

definition backend_ok :: "backend_config \<Rightarrow> bool" where
  "backend_ok b \<longleftrightarrow>
     1024 \<le> backend_port b \<and> backend_port b \<le> 65535 \<and> 1 \<le> prefill_step_size b \<and>
     0 \<le> prompt_cache_size b \<and> 0 < prompt_cache_bytes b \<and> 0 < metal_memory_limit b \<and>
     fullmatch TOOL_PARSER_RE (tool_parser b) \<and>
     float_within 0 2 (temperature b) \<and> float_within 0 1 (top_p b) \<and> 0 \<le> top_k b \<and>
     float_within 0 2 (thinking_temperature b) \<and> float_within 0 1 (thinking_top_p b) \<and>
     0 \<le> thinking_top_k b \<and> 1 \<le> start_timeout_seconds b"

definition gateway_ok :: "gateway_config \<Rightarrow> bool" where
  "gateway_ok g \<longleftrightarrow>
     1024 \<le> gateway_port g \<and> gateway_port g \<le> 65535 \<and> fullmatch MODEL_NAME_RE (model_name g) \<and>
     1 \<le> max_context g \<and> 1 \<le> max_output_tokens g \<and> 1 \<le> min_output_tokens g \<and>
     0 \<le> queue_size g \<and> 1 \<le> heartbeat_seconds g \<and>
     heartbeat_seconds g < CLOUDFLARE_IDLE_TIMEOUT_SECONDS"

lemma int_holds:
  "field_holds key (is_int lo hi) (\<lambda>v x. v = PInt x) d x \<Longrightarrow> at_least lo x \<and> at_most hi x"
  by (auto simp: field_holds_def is_int_def)

lemma size_holds: "field_holds key is_size size_is d x \<Longrightarrow> 0 < x"
  by (auto simp: field_holds_def is_size_def size_is_def)

lemma text_holds:
  "field_holds key (is_text check) (\<lambda>v x. v = PStr x) d x \<Longrightarrow> x \<noteq> [] \<and> check x = None"
  by (auto simp: field_holds_def is_text_def)

lemma num_holds:
  assumes "field_holds key (num_within lo hi)
      (\<lambda>v x. case v of PInt i \<Rightarrow> float_of_int i = Inr x | _ \<Rightarrow> v = PFloat x) d x"
    and "0 \<le> lo" and "hi \<le> 2"
  shows "float_within lo hi x"
proof -
  from assms(1) obtain v where v: "number_in lo hi v"
    "case v of PInt i \<Rightarrow> float_of_int i = Inr x | _ \<Rightarrow> v = PFloat x"
    by (auto simp: field_holds_def num_within_def)
  show ?thesis
  proof (cases v)
    case (PInt i)
    with v have i: "lo \<le> of_int i" "of_int i \<le> hi" and x: "float_of_int i = Inr x"
      by (auto simp: number_in_def)
    with assms have "(of_int 0 :: rat) \<le> of_int i" "of_int i \<le> (of_int 2 :: rat)" by simp_all
    then have "0 \<le> i" "i \<le> 2" unfolding of_int_le_iff by simp_all
    then have "float_of_int i = Inr (Fin (of_int i))" by (intro float_of_int_small) simp_all
    with x i show ?thesis by (auto simp: float_within_def)
  qed (use v in \<open>auto simp: number_in_def float_within_def\<close>)
qed

lemma check_None [simp]:
  "check_hostname s = None \<longleftrightarrow> hostname_ok s"
  "check_model_name s = None \<longleftrightarrow> fullmatch MODEL_NAME_RE s"
  "check_tool_parser s = None \<longleftrightarrow> fullmatch TOOL_PARSER_RE s"
  by (simp_all add: check_hostname_def check_model_name_def check_tool_parser_def)

text \<open>The profile says what the file says, field by field.\<close>

definition num_at :: "pydict \<Rightarrow> string \<Rightarrow> pyfloat \<Rightarrow> bool" where
  "num_at d key f \<longleftrightarrow>
     (case map_of d key of Some (PInt i) \<Rightarrow> float_of_int i = Inr f | v \<Rightarrow> v = Some (PFloat f))"

definition size_at :: "pydict \<Rightarrow> string \<Rightarrow> int \<Rightarrow> bool" where
  "size_at d key n \<longleftrightarrow> (\<exists>s. map_of d key = Some (PStr s) \<and> parse_size s = Inr n)"

definition backend_from :: "pydict \<Rightarrow> backend_config \<Rightarrow> bool" where
  "backend_from d b \<longleftrightarrow>
     map_of d ''port'' = Some (PInt (backend_port b)) \<and>
     map_of d ''prefill_step_size'' = Some (PInt (prefill_step_size b)) \<and>
     map_of d ''prompt_cache_size'' = Some (PInt (prompt_cache_size b)) \<and>
     size_at d ''prompt_cache_bytes'' (prompt_cache_bytes b) \<and>
     size_at d ''metal_memory_limit'' (metal_memory_limit b) \<and>
     map_of d ''tool_parser'' = Some (PStr (tool_parser b)) \<and>
     map_of d ''enable_thinking'' = Some (PBool (enable_thinking b)) \<and>
     num_at d ''temperature'' (temperature b) \<and> num_at d ''top_p'' (top_p b) \<and>
     map_of d ''top_k'' = Some (PInt (top_k b)) \<and>
     num_at d ''thinking_temperature'' (thinking_temperature b) \<and>
     num_at d ''thinking_top_p'' (thinking_top_p b) \<and>
     map_of d ''thinking_top_k'' = Some (PInt (thinking_top_k b)) \<and>
     map_of d ''start_timeout_seconds'' = Some (PInt (start_timeout_seconds b))"

definition gateway_from :: "pydict \<Rightarrow> gateway_config \<Rightarrow> bool" where
  "gateway_from d g \<longleftrightarrow>
     map_of d ''port'' = Some (PInt (gateway_port g)) \<and>
     map_of d ''model_name'' = Some (PStr (model_name g)) \<and>
     map_of d ''max_context'' = Some (PInt (max_context g)) \<and>
     map_of d ''max_output_tokens'' = Some (PInt (max_output_tokens g)) \<and>
     map_of d ''min_output_tokens'' = Some (PInt (min_output_tokens g)) \<and>
     map_of d ''queue_size'' = Some (PInt (queue_size g)) \<and>
     map_of d ''heartbeat_seconds'' = Some (PInt (heartbeat_seconds g))"

definition tunnel_from :: "pydict \<Rightarrow> tunnel_config \<Rightarrow> bool" where
  "tunnel_from d t \<longleftrightarrow>
     map_of d ''enabled'' = Some (PBool (enabled t)) \<and>
     map_of d ''hostname'' = Some (PStr (hostname t))"

definition profile_from :: "pydict \<Rightarrow> profile \<Rightarrow> bool" where
  "profile_from data p \<longleftrightarrow>
     (\<exists>m b g t s. dget data ''model'' = PDict m \<and> dget data ''backend'' = PDict b \<and>
        dget data ''gateway'' = PDict g \<and> dget data ''tunnel'' = PDict t \<and>
        dget data ''system'' = PDict s \<and>
        map_of m ''id'' = Some (PStr (model_id p)) \<and> backend_from b (backend p) \<and>
        gateway_from g (gateway p) \<and> tunnel_from t (tunnel p) \<and>
        map_of s ''gpu_wired_limit_mb'' = Some (PInt (gpu_wired_limit_mb p)))"

lemma values_at:
  "field_holds key (is_int lo hi) (\<lambda>v x. v = PInt x) d i \<Longrightarrow> map_of d key = Some (PInt i)"
  "field_holds key is_bool (\<lambda>v x. v = PBool x) d y \<Longrightarrow> map_of d key = Some (PBool y)"
  "field_holds key (is_text check) (\<lambda>v x. v = PStr x) d z \<Longrightarrow> map_of d key = Some (PStr z)"
  "field_holds key is_size size_is d n \<Longrightarrow> size_at d key n"
  by (auto simp: field_holds_def size_is_def size_at_def)

lemma num_value_at [intro]:
  assumes "field_holds key (num_within lo hi)
     (\<lambda>v x. case v of PInt i \<Rightarrow> float_of_int i = Inr x | _ \<Rightarrow> v = PFloat x) d f"
  shows "num_at d key f"
proof -
  from assms obtain v where "map_of d key = Some v"
    "case v of PInt i \<Rightarrow> float_of_int i = Inr f | _ \<Rightarrow> v = PFloat f"
    by (auto simp: field_holds_def)
  then show ?thesis by (cases v) (auto simp: num_at_def)
qed

lemma read_backend_yields: "yields read_backend (\<lambda>d b. backend_ok b \<and> backend_from d b)"
  unfolding read_backend_def
  by (rule yields_mono, (rule field_yields)+)
    (auto simp: backend_ok_def at_least_def at_most_def backend_from_def values_at
      dest: int_holds size_holds text_holds num_holds)

lemma read_gateway_yields: "yields read_gateway (\<lambda>d g. gateway_ok g \<and> gateway_from d g)"
  unfolding read_gateway_def
  by (rule yields_mono, (rule field_yields)+)
    (auto simp: gateway_ok_def at_least_def at_most_def gateway_from_def values_at
      dest: int_holds text_holds)

lemma read_tunnel_yields: "yields read_tunnel (\<lambda>d t. hostname_ok (hostname t) \<and> tunnel_from d t)"
  unfolding read_tunnel_def
  by (rule yields_mono, (rule field_yields)+) (auto simp: tunnel_from_def values_at dest: text_holds)

lemma read_section_yields:
  assumes y: "yields r P" and f: "follows r fs" and toml: "tables_of_toml data"
    and sec: "read_section name r data es = Inr (x, [])"
  shows "es = [] \<and> (\<exists>d. dget data name = PDict d \<and> P d x)"
proof -
  from read_section_problems [OF f toml sec] have es: "es = []"
    and ok: "table_ok fs (dget data name)" by auto
  then obtain d where d: "dget data name = PDict d" by (auto simp: table_ok_def)
  let ?s = "open_section name (dget data name) es"
  have s: "table ?s = d" "valid ?s" "errors ?s = []" by (simp_all add: d es open_section_def)
  from sec obtain t where t: "r ?s = Inr (x, t)" and fin: "errors (finish t) = []"
    by (auto simp: read_section_def and_then_eq_Inr)
  from fin have "errors t = []" by (simp add: errors_finish)
  moreover from toml d s(1) have "no_null (table ?s)" by (auto simp: tables_of_toml_def)
  ultimately have "P d x" using y t s unfolding yields_def by (metis append_is_Nil_conv)
  with d es show ?thesis by blast
qed

lemma read_sections_values:
  assumes toml: "tables_of_toml data" and r: "read_sections data = Inr ((mid, b, g, t, w), [])"
  shows "mid \<noteq> [] \<and> backend_ok b \<and> gateway_ok g \<and> hostname_ok (hostname t) \<and> 1 \<le> w \<and>
    profile_from data \<lparr>profile_name = n, profile_path = q, model_id = mid, backend = b, gateway = g,
      tunnel = t, gpu_wired_limit_mb = w\<rparr>"
proof -
  from r obtain es1 es2 es3 es4 where
    s: "read_section ''model'' (string_field ''id'' (\<lambda>_. None)) data (unknown_sections data) = Inr (mid, es1)"
      "read_section ''backend'' read_backend data es1 = Inr (b, es2)"
      "read_section ''gateway'' read_gateway data es2 = Inr (g, es3)"
      "read_section ''tunnel'' read_tunnel data es3 = Inr (t, es4)"
      "read_section ''system'' (integer ''gpu_wired_limit_mb'' (Some 1) None) data es4 = Inr (w, [])"
    unfolding read_sections_def by (auto elim!: and_then_InrE)
  from read_section_yields [OF int_field.yields_field read_system_follows toml s(5)]
  have 5: "es4 = []" and w: "\<exists>d. dget data ''system'' = PDict d \<and> at_least (Some 1) w \<and>
      map_of d ''gpu_wired_limit_mb'' = Some (PInt w)"
    by (auto dest: values_at int_holds)
  from read_section_yields [OF read_tunnel_yields read_tunnel_follows toml s(4) [unfolded 5]]
  have 4: "es3 = []" and t: "\<exists>d. dget data ''tunnel'' = PDict d \<and> hostname_ok (hostname t) \<and> tunnel_from d t"
    by auto
  from read_section_yields [OF read_gateway_yields read_gateway_follows toml s(3) [unfolded 4]]
  have 3: "es2 = []" and g: "\<exists>d. dget data ''gateway'' = PDict d \<and> gateway_ok g \<and> gateway_from d g"
    by auto
  from read_section_yields [OF read_backend_yields read_backend_follows toml s(2) [unfolded 3]]
  have 2: "es1 = []" and b: "\<exists>d. dget data ''backend'' = PDict d \<and> backend_ok b \<and> backend_from d b"
    by auto
  from read_section_yields [OF text_field.yields_field read_model_follows toml s(1) [unfolded 2]]
  have "\<exists>d. dget data ''model'' = PDict d \<and> mid \<noteq> [] \<and> map_of d ''id'' = Some (PStr mid)"
    by (auto dest: values_at text_holds)
  with w t g b show ?thesis by (auto simp: profile_from_def at_least_def)
qed

section \<open>A profile to try the properties on\<close>

definition sample_file :: pydict where
  "sample_file =
     [(''model'', PDict [(''id'', PStr ''m'')]),
      (''backend'', PDict
        [(''port'', PInt 8081), (''prefill_step_size'', PInt 512), (''prompt_cache_size'', PInt 2),
         (''prompt_cache_bytes'', PStr ''2GB''), (''metal_memory_limit'', PStr ''19.5GB''),
         (''tool_parser'', PStr ''auto''), (''enable_thinking'', PBool True),
         (''temperature'', PFloat (Fin (7/10))), (''top_p'', PFloat (Fin (8/10))),
         (''top_k'', PInt 20), (''thinking_temperature'', PInt 1),
         (''thinking_top_p'', PFloat (Fin (95/100))), (''thinking_top_k'', PInt 20),
         (''start_timeout_seconds'', PInt 300)]),
      (''gateway'', PDict
        [(''port'', PInt 8080), (''model_name'', PStr ''qwen''), (''max_context'', PInt 65536),
         (''max_output_tokens'', PInt 32768), (''min_output_tokens'', PInt 1024),
         (''queue_size'', PInt 2), (''heartbeat_seconds'', PInt 15)]),
      (''tunnel'', PDict [(''enabled'', PBool True), (''hostname'', PStr ''a.de'')]),
      (''system'', PDict [(''gpu_wired_limit_mb'', PInt 20480)])]"

text \<open>
  A size is exact as long as its number is a short binary fraction and the result is
  below \<open>2^53\<close>: no byte is lost to the rounding of doubles.
\<close>

lemma parse_size_exact:
  assumes "match_size text = Some (whole, decimals, unit)"
    and "map_of SIZE_UNITS (map upper_char unit) = Some factor"
    and "of_nat (read_nat (whole @ decimals)) / 10 ^ length decimals = (of_nat m / 2 ^ k :: rat)"
    and "m * factor < 2 ^ 53" and "0 < factor" and "k \<le> 1074"
  shows "parse_size text = Inr \<lfloor>of_nat (m * factor) / (2 ^ k :: rat)\<rfloor>"
proof -
  have "m \<le> m * factor" using assms(5) by simp
  then have "m < 2 ^ 53" using assms(4) by (rule le_less_trans)
  with assms(3,6) have "decimal_float whole decimals = Fin (of_nat m / 2 ^ k)"
    by (simp add: decimal_float_def round_double_exact [OF _ _ assms(6)])
  moreover have "round_double (of_nat m / 2 ^ k * of_nat factor) = Fin (of_nat (m * factor) / 2 ^ k)"
    using round_double_exact [OF refl assms(4,6)] by simp
  ultimately have "float_mult (decimal_float whole decimals) factor = Fin (of_nat (m * factor) / 2 ^ k)"
    by (simp add: float_mult_def)
  moreover have "(0 :: rat) \<le> of_nat (m * factor) / 2 ^ k" by simp
  ultimately show ?thesis by (simp add: parse_size_def assms(1,2) int_of_float_def)
qed

lemma match_samples:
  "match_size ''19.5GB'' = Some (''19'', ''5'', ''GB'')" "match_size ''2GB'' = Some (''2'', [], ''GB'')"
  "map_of SIZE_UNITS (map upper_char ''GB'') = Some (1024 ^ 3)"
  by (simp_all add: match_size_def SIZE_UNITS_def upper_char_def is_space_def is_ascii_digit_def
      is_letter_def in_class_def code_def Let_def)

lemma parse_size_exact_witness: "parse_size ''19.5GB'' = Inr 20937965568"
  using parse_size_exact [OF match_samples(1,3), of 39 1]
  by (simp add: read_nat_def digit_val_def)

lemma sample_sizes: "parse_size ''2GB'' = Inr 2147483648" "parse_size ''19.5GB'' = Inr 20937965568"
proof -
  show "parse_size ''2GB'' = Inr 2147483648"
    by (simp add: parse_size_def match_samples decimal_float_def float_mult_def int_of_float_def
        read_nat_def digit_val_def SIZE_UNITS_def upper_char_def in_class_def code_def
        round_double_exact [of _ 2 0]
        round_double_exact [of _ 2147483648 0])
  show "parse_size ''19.5GB'' = Inr 20937965568"
    by (simp add: parse_size_def match_samples decimal_float_def float_mult_def int_of_float_def
        read_nat_def digit_val_def SIZE_UNITS_def upper_char_def in_class_def code_def
        round_double_exact [of _ 39 1]
        round_double_exact [of _ 20937965568 0])
qed

lemma sample_names:
  "check_hostname ''a.de'' = None" "check_model_name ''qwen'' = None"
  "check_tool_parser ''auto'' = None"
  by code_simp+

lemma parse_profile_of_format:
  assumes toml: "tables_of_toml data" and ok: "format_ok data"
  shows "\<exists>p. profile_from data p \<and> model_id p \<noteq> [] \<and> backend_ok (backend p) \<and>
    gateway_ok (gateway p) \<and> hostname_ok (hostname (tunnel p)) \<and> 1 \<le> gpu_wired_limit_mb p \<and>
    parse_profile name path data =
      (let es = cross_errors (backend p) (gateway p) (gpu_wired_limit_mb p)
       in if es = [] then Inr p else Inl (ConfigError path es))"
proof -
  from read_sections_good [OF assms] obtain x es where r: "read_sections data = Inr (x, es)"
    by blast
  with read_sections_problems [OF toml] ok have "es = []" by blast
  moreover obtain mid b g t w where "x = (mid, b, g, t, w)" by (cases x)
  ultimately have r': "read_sections data = Inr ((mid, b, g, t, w), [])" using r by simp
  from read_sections_values [OF toml r', of name path] r' show ?thesis
    by (intro exI [of _ "\<lparr>profile_name = name, profile_path = path, model_id = mid, backend = b,
        gateway = g, tunnel = t, gpu_wired_limit_mb = w\<rparr>"]) (simp add: parse_profile_def Let_def)
qed

lemma sample_toml: "tables_of_toml sample_file"
  by (auto simp: tables_of_toml_def sample_file_def no_null_def split: if_splits)

lemma sample_format: "format_ok sample_file"
  by (auto simp: format_ok_def sample_file_def known_sections_def SCHEMA_def MODEL_FIELDS_def
      BACKEND_FIELDS_def GATEWAY_FIELDS_def TUNNEL_FIELDS_def SYSTEM_FIELDS_def table_ok_def
      has_field_def is_int_def at_least_def at_most_def is_size_def sample_sizes is_text_def
      sample_names is_bool_def num_within_def number_in_simps float_overflows_def
      simp del: check_None)

lemma sample_parses:
  "\<exists>p. parse_profile name path sample_file = Inr p \<and> profile_from sample_file p"
proof -
  obtain p where vals: "profile_from sample_file p" and
    parse: "parse_profile name path sample_file =
      (let es = cross_errors (backend p) (gateway p) (gpu_wired_limit_mb p)
       in if es = [] then Inr p else Inl (ConfigError path es))"
    using parse_profile_of_format [OF sample_toml sample_format, where name = name and path = path]
    by blast
  from vals have "backend_port (backend p) = 8081" "gateway_port (gateway p) = 8080"
    "max_context (gateway p) = 65536" "max_output_tokens (gateway p) = 32768"
    "min_output_tokens (gateway p) = 1024" "gpu_wired_limit_mb p = 20480"
    "metal_memory_limit (backend p) = 20937965568"
    by (simp_all add: profile_from_def sample_file_def backend_from_def gateway_from_def size_at_def
        sample_sizes)
  then have "cross_errors (backend p) (gateway p) (gpu_wired_limit_mb p) = []"
    by (simp add: cross_errors_def)
  with parse vals show ?thesis by simp
qed

lemma parse_profile_outcomes:
  assumes "tables_of_toml data"
  shows "case parse_profile name path data of
           Inr p \<Rightarrow> format_ok data \<and> profile_from data p
         | Inl (ConfigError q es) \<Rightarrow> q = path \<and> es \<noteq> [] \<and>
             (if format_ok data
              then \<exists>p. profile_from data p \<and>
                     es = cross_errors (backend p) (gateway p) (gpu_wired_limit_mb p)
              else all_named data es)
         | Inl (ProfileError m) \<Rightarrow> False
         | Inl (Crash e) \<Rightarrow> \<not> format_ok data \<and> e = OverflowError \<and>
             (\<exists>(section_name, fs) \<in> set SCHEMA. \<exists>d. dget data section_name = PDict d \<and>
                (\<exists>f \<in> set fs. overflows_in d (fst f)))"
proof (cases "format_ok data")
  case True
  from parse_profile_of_format [OF assms True, where name = name and path = path] True show ?thesis
    by (auto simp: Let_def)
next
  case False
  show ?thesis
  proof (cases "read_sections data")
    case (Inl f)
    from read_sections_raises [OF assms Inl] False Inl show ?thesis by (simp add: parse_profile_def)
  next
    case (Inr y)
    obtain x es where y: "y = (x, es)" by (cases y)
    with read_sections_problems [OF assms] Inr False have "es \<noteq> []" "all_named data es" by blast+
    with Inr y False show ?thesis by (auto simp: parse_profile_def split_def Let_def)
  qed
qed



lemma parsed_profile_bounds:
  assumes "tables_of_toml data" and "parse_profile name path data = Inr p"
  shows "backend_ok (backend p) \<and> gateway_ok (gateway p) \<and> hostname_ok (hostname (tunnel p)) \<and>
         backend_port (backend p) \<noteq> gateway_port (gateway p) \<and>
         min_output_tokens (gateway p) < max_context (gateway p) \<and>
         min_output_tokens (gateway p) \<le> max_output_tokens (gateway p) \<and>
         max_output_tokens (gateway p) \<le> max_context (gateway p) \<and>
         metal_memory_limit (backend p) < gpu_wired_limit_mb p * 1024 ^ 2"
proof -
  from parse_profile_outcomes [OF assms(1), where name = name and path = path] assms(2) have "format_ok data" by simp
  from parse_profile_of_format [OF assms(1) this, where name = name and path = path] obtain p'
    where ok: "backend_ok (backend p')" "gateway_ok (gateway p')" "hostname_ok (hostname (tunnel p'))"
      and parse: "parse_profile name path data =
        (let es = cross_errors (backend p') (gateway p') (gpu_wired_limit_mb p')
         in if es = [] then Inr p' else Inl (ConfigError path es))" by blast
  from parse assms(2) have "p' = p" "cross_errors (backend p) (gateway p) (gpu_wired_limit_mb p) = []"
    by (auto simp: Let_def split: if_splits)
  with ok show ?thesis by (auto simp: cross_errors_def not_le split: if_splits)
qed

text \<open>
  A profile that loads is within every bound the program relies on: two different
  unprivileged ports, a heartbeat below the tunnel's idle timeout, room for an answer of
  \<open>min_output_tokens\<close> in the context, sampling values in range, and a memory limit below the
  wired limit.
\<close>

lemma parsed_profile_in_bounds:
  assumes "tables_of_toml data" and "parse_profile name path data = Inr p"
  shows "backend_ok (backend p) \<and> gateway_ok (gateway p) \<and> hostname_ok (hostname (tunnel p)) \<and>
         backend_port (backend p) \<noteq> gateway_port (gateway p) \<and>
         min_output_tokens (gateway p) < max_context (gateway p) \<and>
         min_output_tokens (gateway p) \<le> max_output_tokens (gateway p) \<and>
         max_output_tokens (gateway p) \<le> max_context (gateway p) \<and>
         metal_memory_limit (backend p) < gpu_wired_limit_mb p * 1024 ^ 2"
  by (rule parsed_profile_bounds [OF assms])

lemma parsed_profile_in_bounds_witness:
  "\<exists>p. parse_profile ''mac'' ''mac.toml'' sample_file = Inr p \<and> gateway_ok (gateway p) \<and>
     min_output_tokens (gateway p) < max_context (gateway p)"
  using sample_parses parsed_profile_in_bounds [OF sample_toml, where name = "''mac''" and path = "''mac.toml''"]
  by metis

end
