(* ===== verification/Tokens.thy ===== *)
theory Tokens
  imports Request_Properties Regex
begin

text \<open>
  \<open>gateway/tokens.py\<close>: the messages as the backend hands them to its chat template, and the
  names a template reads. The tokenizer itself is a library the source only calls.
\<close>

section \<open>Normalised messages\<close>

definition join_parts :: "pyval list \<Rightarrow> py_exn + string" where
  "join_parts parts = and_then (map_res (\<lambda>p. item_get p ''text'') parts) join_strs"

definition normalize_content :: "pydict \<Rightarrow> py_exn + pydict" where
  "normalize_content m =
     (case dget m ''content'' of
        PList parts \<Rightarrow> and_then (join_parts parts)
          (\<lambda>s. Inr (AList.update ''content'' (PStr s) m))
      | PNone \<Rightarrow> Inr (AList.update ''content'' (PStr []) m)
      | _ \<Rightarrow> Inr m)"

text \<open>\<open>json.loads\<close> of anything but a string raises \<open>TypeError\<close>.\<close>

definition normalize_call :: "(string \<Rightarrow> py_exn + pyval) \<Rightarrow> pyval \<Rightarrow> py_exn + pyval" where
  "normalize_call loads call =
     (case call of
        PDict d \<Rightarrow> (case dget d ''function'' of
            PDict f \<Rightarrow>
              if truthy (dget f ''arguments'')
              then and_then (case dget f ''arguments'' of PStr s \<Rightarrow> loads s | _ \<Rightarrow> Inl TypeError)
                (\<lambda>v. Inr (PDict (AList.update ''function''
                               (PDict (AList.update ''arguments'' v f)) d)))
              else Inr call
          | _ \<Rightarrow> Inr call)
      | _ \<Rightarrow> Inr call)"

definition normalize_calls :: "(string \<Rightarrow> py_exn + pyval) \<Rightarrow> pydict \<Rightarrow> py_exn + pydict" where
  "normalize_calls loads m =
     (let calls = dget m ''tool_calls''
      in if \<not> truthy calls then Inr m
         else case calls of
           PList cs \<Rightarrow> and_then (map_res (normalize_call loads) cs)
             (\<lambda>cs'. Inr (AList.update ''tool_calls'' (PList cs') m))
         | _ \<Rightarrow> and_then (iter_val calls) (\<lambda>_. Inr m))"

definition normalize_message :: "(string \<Rightarrow> py_exn + pyval) \<Rightarrow> pydict \<Rightarrow> py_exn + pydict" where
  "normalize_message loads m = and_then (normalize_content m) (normalize_calls loads)"

definition normalize_messages ::
    "(string \<Rightarrow> py_exn + pyval) \<Rightarrow> pydict list \<Rightarrow> py_exn + pydict list" where
  "normalize_messages loads ms = map_res (normalize_message loads) ms"

section \<open>Template variables\<close>

text \<open>\<open>\w\<close> on the code points below 256.\<close>

definition word_char :: "char \<Rightarrow> bool" where
  "word_char c \<longleftrightarrow>
     in_class ((CHR ''_'', CHR ''_'') # alnum) c \<or> code c \<in> {170, 178, 179, 181, 185, 186, 188, 189, 190} \<or>
     192 \<le> code c \<and> code c \<noteq> 215 \<and> code c \<noteq> 247"

text \<open>The maximal runs of word characters; \<open>\b\<close> holds exactly at their ends.\<close>

function word_runs :: "string \<Rightarrow> string list" where
  "word_runs [] = []"
| "word_runs (c # s) =
     (if word_char c then (c # takeWhile word_char s) # word_runs (dropWhile word_char s)
      else word_runs s)"
  by pat_completeness auto

termination
  by (relation "measure length") (auto simp: le_imp_less_Suc length_dropWhile_le)

definition IDENTIFIER :: rx where
  "IDENTIFIER =
     Seq (Class [(CHR ''A'', CHR ''Z''), (CHR ''a'', CHR ''z''), (CHR ''_'', CHR ''_'')])
       (Star (Class ((CHR ''_'', CHR ''_'') # alnum)))"

definition template_variables :: "string \<Rightarrow> string set" where
  "template_variables t = set (filter (fullmatch IDENTIFIER) (word_runs t))"

text \<open>
  The template a counter keeps: a tokenizer may also have none, or several under names, and then
  the gateway takes the model for one without switches.
\<close>

definition kept_template :: "pyval \<Rightarrow> string" where
  "kept_template t = (case t of PStr s \<Rightarrow> s | _ \<Rightarrow> [])"

lemma template_variables_kept:
  "template_variables (kept_template t) = (case t of PStr s \<Rightarrow> template_variables s | _ \<Rightarrow> {})"
  by (simp add: kept_template_def template_variables_def split: pyval.split)

section \<open>Counting never fails on an accepted request\<close>

definition content_text :: "pyval \<Rightarrow> string" where
  "content_text v =
     (case v of
        PStr s \<Rightarrow> s
      | PList ps \<Rightarrow> concat (map (\<lambda>p. case get_if_dict p ''text'' of PStr s \<Rightarrow> s | _ \<Rightarrow> []) ps)
      | _ \<Rightarrow> [])"

lemma item_get_dget: "dget d k \<noteq> PNone \<Longrightarrow> item_get (PDict d) k = Inr (dget d k)"
  by (auto simp: item_get_def dget_def split: option.splits)

lemma map_res_all:
  assumes "\<And>x. x \<in> set xs \<Longrightarrow> f x = Inr (g x)"
  shows "map_res f xs = Inr (map g xs)"
  using assms by (induction xs) auto

lemma join_parts_valid:
  assumes "list_all valid_part ps"
  shows "join_parts ps = Inr (content_text (PList ps))"
proof -
  let ?t = "\<lambda>p. case get_if_dict p ''text'' of PStr s \<Rightarrow> s | _ \<Rightarrow> []"
  have "map_res (\<lambda>p. item_get p ''text'') ps = Inr (map (\<lambda>p. PStr (?t p)) ps)"
    using assms
    by (intro map_res_all)
      (auto simp: list_all_iff valid_part_def get_if_dict_def is_str_iff item_get_dget)
  moreover have "map (\<lambda>p. PStr (?t p)) ps = map PStr (map ?t ps)" by simp
  ultimately show ?thesis
    by (simp only: join_parts_def and_then_Inr join_strs_PStr content_text_def pyval.case)
qed

lemma normalize_content_valid:
  assumes "valid_content (dget m ''content'')"
  shows "\<exists>m'. normalize_content m = Inr m' \<and>
    dget m' ''content'' = PStr (content_text (dget m ''content'')) \<and>
    (\<forall>k. k \<noteq> ''content'' \<longrightarrow> dget m' k = dget m k)"
  using assms
  by (cases "dget m ''content''")
    (auto simp: valid_content_def normalize_content_def join_parts_valid dget_update
      content_text_def)

lemma normalize_call_valid:
  "valid_call loads v \<Longrightarrow> \<exists>w. normalize_call loads v = Inr w"
  by (auto simp: valid_call_def valid_arguments_def normalize_call_def)

lemma normalize_calls_valid:
  assumes "valid_calls loads (dget m ''tool_calls'')"
  shows "\<exists>m'. normalize_calls loads m = Inr m' \<and>
    (\<forall>k. k \<noteq> ''tool_calls'' \<longrightarrow> dget m' k = dget m k)"
proof (cases "dget m ''tool_calls''")
  case (PList cs)
  with assms have "\<exists>cs'. map_res (normalize_call loads) cs = Inr cs'"
    by (intro map_res_returns normalize_call_valid) (auto simp: valid_calls_def list_all_iff)
  with PList show ?thesis by (auto simp: normalize_calls_def Let_def dget_update)
qed (use assms in \<open>auto simp: valid_calls_def normalize_calls_def Let_def\<close>)

text \<open>What the template sees of a message: one string, under the same role.\<close>

definition shown_as :: "pydict \<Rightarrow> pydict \<Rightarrow> bool" where
  "shown_as m m' \<longleftrightarrow>
     dget m' ''content'' = PStr (content_text (dget m ''content'')) \<and>
     (\<forall>k. k \<notin> {''content'', ''tool_calls''} \<longrightarrow> dget m' k = dget m k)"

lemma normalize_message_valid:
  assumes "valid_content (dget m ''content'')" and "valid_calls loads (dget m ''tool_calls'')"
  shows "\<exists>m'. normalize_message loads m = Inr m' \<and> shown_as m m'"
proof -
  from normalize_content_valid [OF assms(1)] obtain m1
    where m1: "normalize_content m = Inr m1"
      "dget m1 ''content'' = PStr (content_text (dget m ''content''))"
      "\<forall>k. k \<noteq> ''content'' \<longrightarrow> dget m1 k = dget m k" by blast
  with assms(2) have "valid_calls loads (dget m1 ''tool_calls'')" by simp
  from normalize_calls_valid [OF this] m1 show ?thesis
    by (auto simp: normalize_message_def shown_as_def)
qed

lemma sent_message_valid:
  assumes "valid_message loads v"
  shows "valid_content (dget (sent_message v) ''content'') \<and>
    valid_calls loads (dget (sent_message v) ''tool_calls'')"
  using assms by (auto simp: valid_message_def sent_message_def dget_update)

lemma map_res_list_all2:
  assumes "\<And>x. x \<in> set xs \<Longrightarrow> \<exists>y. f x = Inr y \<and> R x y"
  shows "\<exists>ys. map_res f xs = Inr ys \<and> list_all2 R xs ys"
  using assms
proof (induction xs)
  case (Cons x xs)
  then obtain y ys where "f x = Inr y" "R x y" "map_res f xs = Inr ys" "list_all2 R xs ys"
    by (meson list.set_intros)
  then show ?case by simp
qed simp

text \<open>
  A request that was accepted can always be counted: its messages normalise without an
  exception, one for one, the text parts of each joined into one string.
\<close>

lemma accepted_messages_normalize:
  assumes "prepare loads (PDict body) r = Inr p"
  shows "\<exists>ms. normalize_messages loads (messages_of p) = Inr ms \<and>
           list_all2 shown_as (messages_of p) ms"
proof -
  from assms obtain e where p: "p = prepared_from r body e"
    and valid: "valid_messages loads (dget body ''messages'')"
    by (auto simp: prepare_iff valid_request_def)
  have "messages_of p = map sent_message (elements (dget body ''messages''))"
    by (cases e) (simp add: p prepared_from_def Let_def)
  with valid have "valid_content (dget m ''content'') \<and> valid_calls loads (dget m ''tool_calls'')"
    if "m \<in> set (messages_of p)" for m
    using that
    by (auto simp: valid_messages_def elements_def list_all_iff
        intro: sent_message_valid [of loads, THEN conjunct1] sent_message_valid [THEN conjunct2])
  then show ?thesis unfolding normalize_messages_def
    by (intro map_res_list_all2 normalize_message_valid) blast+
qed

lemma accepted_messages_normalize_witness:
  "\<exists>ms. normalize_messages no_json (messages_of sample_prepared) = Inr ms"
  using accepted_messages_normalize [OF sample_prepare] by blast

section \<open>Whole words\<close>

text \<open>A word boundary on either side of an occurrence.\<close>

definition edges :: "string \<Rightarrow> string \<Rightarrow> bool" where
  "edges u v \<longleftrightarrow> (u = [] \<or> \<not> word_char (last u)) \<and> (v = [] \<or> \<not> word_char (hd v))"

definition whole_word :: "string \<Rightarrow> string \<Rightarrow> bool" where
  "whole_word w t \<longleftrightarrow> w \<noteq> [] \<and> list_all word_char w \<and> (\<exists>u v. t = u @ w @ v \<and> edges u v)"

lemma run_unique:
  assumes "list_all P w" and "v = [] \<or> \<not> P (hd v)"
  shows "takeWhile P (w @ v) = w" and "dropWhile P (w @ v) = v"
  using assms by (induction w) (cases v; auto)+

lemma runs_are_whole_words: "w \<in> set (word_runs t) \<Longrightarrow> whole_word w t"
proof (induction t rule: word_runs.induct)
  case (2 c s)
  show ?case
  proof (cases "word_char c")
    case True
    let ?r = "dropWhile word_char s"
    have t: "c # s = (c # takeWhile word_char s) @ ?r" by simp
    have hd: "?r = [] \<or> \<not> word_char (hd ?r)" using hd_dropWhile by blast
    from 2(3) True consider "w = c # takeWhile word_char s" | "w \<in> set (word_runs ?r)" by auto
    then show ?thesis
    proof cases
      case 1
      moreover have "edges [] ?r" using hd by (simp add: edges_def)
      moreover have "list_all word_char (c # takeWhile word_char s)"
        using True by (auto simp: list_all_iff dest: set_takeWhileD)
      ultimately show ?thesis unfolding whole_word_def using t
        by (intro conjI exI [of _ "[]"] exI [of _ ?r]) auto
    next
      case w: 2
      from 2(1) [OF True w] obtain u v where uv: "?r = u @ w @ v" "edges u v"
        and ws: "w \<noteq> []" "list_all word_char w" by (auto simp: whole_word_def)
      have "u \<noteq> []" using hd uv ws by (cases w) auto
      with uv have "edges ((c # takeWhile word_char s) @ u) v" by (auto simp: edges_def)
      moreover have "c # s = ((c # takeWhile word_char s) @ u) @ w @ v" using t uv by simp
      ultimately show ?thesis unfolding whole_word_def using ws by blast
    qed
  next
    case False
    with 2 obtain u v where "s = u @ w @ v" "edges u v" "w \<noteq> []" "list_all word_char w"
      by (auto simp: whole_word_def)
    moreover from this False have "edges (c # u) v" by (auto simp: edges_def)
    ultimately show ?thesis unfolding whole_word_def by (metis append_Cons)
  qed
qed simp

lemma whole_words_are_runs:
  "whole_word w t \<Longrightarrow> w \<in> set (word_runs t)"
proof (induction t rule: word_runs.induct)
  case (2 c s)
  then obtain u v where t: "c # s = u @ w @ v" and e: "edges u v"
    and ws: "w \<noteq> []" "list_all word_char w" by (auto simp: whole_word_def)
  show ?case
  proof (cases u)
    case Nil
    with t ws obtain w' where w: "w = c # w'" by (cases w) auto
    with Nil t have s: "s = w' @ v" by simp
    from e ws w show ?thesis
      by (auto simp: s edges_def run_unique)
  next
    case (Cons d u')
    with t have d: "d = c" and s: "s = u' @ w @ v" by simp_all
    show ?thesis
    proof (cases "word_char c")
      case True
      with e Cons d have "u' \<noteq> []" and last: "\<not> word_char (last u')" by (auto simp: edges_def split: if_splits)
      then have ex: "last u' \<in> set u'" by simp
      then have dw: "dropWhile word_char s = dropWhile word_char u' @ w @ v"
        using last unfolding s by (simp add: dropWhile_append1)
      have ne: "dropWhile word_char u' \<noteq> []" using ex last by (auto simp: dropWhile_eq_Nil_conv)
      have "u' = takeWhile word_char u' @ dropWhile word_char u'" by simp
      with ne have "last (dropWhile word_char u') = last u'" by (metis last_appendR)
      with last e have "edges (dropWhile word_char u') v" by (auto simp: edges_def)
      with dw ws have "whole_word w (dropWhile word_char s)" by (auto simp: whole_word_def)
      with 2(1) [OF True] True show ?thesis by simp
    next
      case False
      have "edges u' v" using e Cons by (auto simp: edges_def split: if_splits)
      with s ws have "whole_word w s" by (auto simp: whole_word_def)
      with 2(2) [OF False] False show ?thesis by simp
    qed
  qed
qed (auto simp: whole_word_def)

lemma identifier_word:
  assumes "fullmatch IDENTIFIER w"
  shows "w \<noteq> [] \<and> list_all word_char w"
proof -
  have head: "in_class [(CHR ''A'', CHR ''Z''), (CHR ''a'', CHR ''z''), (CHR ''_'', CHR ''_'')] c
      \<Longrightarrow> in_class ((CHR ''_'', CHR ''_'') # alnum) c" for c
    unfolding in_class_def list_ex_iff set_simps by blast
  obtain c v where w: "w = c # v"
    using assms unfolding IDENTIFIER_def fullmatch_head_tail by (cases w) auto
  have "word_char c"
    using assms head unfolding w IDENTIFIER_def fullmatch_head_tail word_char_def list.sel by blast
  moreover have "list_all word_char v"
    using assms unfolding w IDENTIFIER_def fullmatch_head_tail list.sel list_all_iff word_char_def
    by blast
  ultimately show ?thesis by (simp add: w)
qed

text \<open>
  The names found in a chat template are exactly the identifiers that stand in it as
  whole words, with no word character on either side.
\<close>

lemma template_variables_whole_words:
  "(w \<in> template_variables t) =
     (fullmatch IDENTIFIER w \<and> (\<exists>u v. t = u @ w @ v \<and> edges u v))"
proof -
  have "w \<in> set (word_runs t) \<longleftrightarrow> whole_word w t"
    using runs_are_whole_words whole_words_are_runs by blast
  then have "w \<in> template_variables t \<longleftrightarrow> fullmatch IDENTIFIER w \<and> whole_word w t"
    unfolding template_variables_def set_filter by blast
  then show ?thesis using identifier_word unfolding whole_word_def by blast
qed

end
