(* ===== verification/Server.thy ===== *)
theory Server
  imports Profile_Properties Tokens
begin

text \<open>
  \<open>gateway/server.py\<close>: the rules of translation that a profile and a chat template give, and
  what holds of them for every profile that loads.
\<close>

definition EFFORT_VARIABLE :: string where
  "EFFORT_VARIABLE = ''reasoning_effort''"

definition rules_for :: "profile \<Rightarrow> string \<Rightarrow> rules" where
  "rules_for p chat_template =
     (let b = backend p; g = gateway p;
          has_effort = (EFFORT_VARIABLE \<in> template_variables chat_template)
      in \<lparr>rules.model_name = gateway_config.model_name g,
          limits_of = \<lparr>limits.max_context = gateway_config.max_context g,
                       max_output_tokens = gateway_config.max_output_tokens g,
                       min_output_tokens = gateway_config.min_output_tokens g\<rparr>,
          default_thinking = enable_thinking b,
          sampling_of = \<lparr>sampling.temperature = backend_config.temperature b,
                         top_p = backend_config.top_p b, top_k = backend_config.top_k b\<rparr>,
          thinking_sampling = \<lparr>sampling.temperature = thinking_temperature b,
                         top_p = thinking_top_p b, top_k = thinking_top_k b\<rparr>,
          effort_variable = (if has_effort then Some EFFORT_VARIABLE else None)\<rparr>)"

lemma rules_effort_variable: "effort_variable (rules_for p t) \<noteq> Some THINKING_SWITCH"
  by (simp add: rules_for_def Let_def EFFORT_VARIABLE_def THINKING_SWITCH_def)

lemma profile_name_safe:
  assumes "fullmatch PROFILE_NAME_RE name"
  shows "CHR ''/'' \<notin> set name" and "name \<noteq> []" and "hd name \<noteq> CHR ''.''"
proof -
  have "\<not> in_class (classes PROFILE_NAME_RE) (CHR ''/'')"
    by (simp add: PROFILE_NAME_RE_def in_class_def code_def)
  with fullmatch_chars [OF assms] show "CHR ''/'' \<notin> set name" by blast
  have h: "name \<noteq> [] \<and> in_class alnum (hd name)"
    using assms unfolding PROFILE_NAME_RE_def fullmatch_head_tail by blast
  then show "name \<noteq> []" by blast
  have "\<not> in_class alnum (CHR ''.'')" by (simp add: in_class_def code_def)
  with h show "hd name \<noteq> CHR ''.''" by metis
qed

text \<open>A sampling value that reaches the backend is in the range of its field.\<close>

lemma recommended_in_range:
  assumes "backend_ok (backend p)"
  shows "number_in 0 2 (dget (mode_sampling (rules_for p t) think) ''temperature'')"
    and "number_in 0 1 (dget (mode_sampling (rules_for p t) think) ''top_p'')"
  using assms
  by (auto simp: backend_ok_def float_within_def mode_sampling_def sampling_dict_def rules_for_def
      Let_def number_in_def)

lemma sent_in_range:
  assumes "prepare loads (PDict body) (rules_for p t) = Inr q" and "backend_ok (backend p)"
    and "f \<in> set [''temperature'', ''top_p'']"
  shows "\<exists>lo hi. map_of NUMBER_FIELDS f = Some (lo, hi) \<and> number_in lo hi (dget (body_of q) f)"
proof -
  from assms(3) have "f \<in> set sampling_names" by (auto simp: sampling_names_def NUMBER_FIELDS_def)
  from sampling_value [OF assms(1) this] recommended_in_range [OF assms(2), of t "thinking q"] assms(3)
  show ?thesis by (auto simp: NUMBER_FIELDS_def split: if_splits)
qed

text \<open>
  C10: The rules of a profile that loads are consistent: the file that was read is the named
  one in the profiles directory, the limits nest, the recommended sampling values are in the
  range clients are held to, and every accepted request with a prompt of \<open>n\<close> tokens gets a
  positive \<open>max_tokens\<close> that fits the context next to the prompt.
\<close>

theorem loaded_rules_leave_room:
  assumes "load_profile dir entries file name = Inr p"
    and "\<And>data. file (dir @ ''/'' @ name @ toml_suffix) = Parsed data \<Longrightarrow> tables_of_toml data"
    and "r = rules_for p chat_template"
    and "prepare loads (PDict body) r = Inr q"
    and "limit n (requested_max_tokens q) (limits_of r) = Inr k"
  shows "profile_path p = dir @ ''/'' @ name @ toml_suffix \<and> CHR ''/'' \<notin> set name \<and>
         1 \<le> k \<and> n + k \<le> limits.max_context (limits_of r) \<and>
         (\<forall>f \<in> set [''temperature'', ''top_p''].
            \<exists>lo hi. map_of NUMBER_FIELDS f = Some (lo, hi) \<and>
              number_in lo hi (dget (body_of q) f))"
proof -
  let ?path = "dir @ ''/'' @ name @ toml_suffix"
  from assms(1) obtain data where data: "file ?path = Parsed data"
    and parse: "parse_profile name ?path data = Inr p" and name: "fullmatch PROFILE_NAME_RE name"
    by (auto simp: load_profile_def Let_def split: if_splits toml_file.splits)
  note toml = assms(2) [OF data]
  from parsed_profile_bounds [OF toml parse]
  have g: "gateway_ok (gateway p)" and b: "backend_ok (backend p)" by simp_all
  have "profile_path p = ?path"
    using parse by (auto simp: parse_profile_def and_then_eq_Inr Let_def split: if_splits)
  moreover have "1 \<le> k"
  proof -
    have "requested_max_tokens q = Some m \<Longrightarrow> 1 \<le> m" for m
      using assms(4) read_max_tokens_positive
      by (auto simp: prepare_iff prepared_from_def Let_def simp del: read_max_tokens.simps
          split: sum.splits)
    moreover have "1 \<le> limits.min_output_tokens (limits_of r)" "1 \<le> limits.max_output_tokens (limits_of r)"
      using g by (simp_all add: assms(3) rules_for_def Let_def gateway_ok_def)
    ultimately show ?thesis
      using assms(5) by (auto simp: limit_def Let_def split: if_splits option.splits)
  qed
  moreover have "n + k \<le> limits.max_context (limits_of r)"
    using assms(5) by (auto simp: limit_def Let_def split: if_splits option.splits)
  moreover have "\<forall>f \<in> set [''temperature'', ''top_p''].
      \<exists>lo hi. map_of NUMBER_FIELDS f = Some (lo, hi) \<and> number_in lo hi (dget (body_of q) f)"
    using sent_in_range [OF assms(4) [unfolded assms(3)] b] by blast
  ultimately show ?thesis using profile_name_safe(1) [OF name] by blast
qed

definition sample_disk :: "string \<Rightarrow> toml_file" where
  "sample_disk path = (if path = ''etc/mac.toml'' then Parsed sample_file else NoFile)"

lemma sample_loads:
  "\<exists>p. load_profile ''etc'' [] sample_disk ''mac'' = Inr p \<and> profile_from sample_file p"
proof -
  have "fullmatch PROFILE_NAME_RE ''mac''" by code_simp
  then show ?thesis
    using sample_parses [of "''mac''" "''etc/mac.toml''"]
    by (simp add: load_profile_def sample_disk_def toml_suffix_def Let_def)
qed

lemma sample_valid: "rules.model_name r = ''qwen'' \<Longrightarrow> valid_request no_json r sample_body"
  by (auto simp: valid_request_def sample_body_def valid_messages_def valid_message_def
      MESSAGE_ROLES_def valid_content_def valid_part_def valid_calls_def valid_tools_def
      NUMBER_FIELDS_def valid_number_def number_in_simps valid_top_k_def valid_seed_def
      valid_stop_def valid_bias_def positive_def valid_effort_def NO_THINKING_def)

lemma sample_requested:
  assumes "prepare no_json (PDict sample_body) r = Inr q"
  shows "requested_max_tokens q = Some 50"
proof -
  have "read_max_tokens sample_body [''max_completion_tokens'', ''max_tokens''] = Inr (Some 50)"
    by (simp add: sample_body_def)
  with assms show ?thesis
    by (auto simp: prepare_iff prepared_from_def Let_def simp del: read_max_tokens.simps)
qed

lemma loaded_rules_leave_room_witness:
  "\<exists>p q k. load_profile ''etc'' [] sample_disk ''mac'' = Inr p \<and>
     prepare no_json (PDict sample_body) (rules_for p ''x'') = Inr q \<and>
     limit 1000 (requested_max_tokens q) (limits_of (rules_for p ''x'')) = Inr k \<and>
     1 \<le> k \<and> 1000 + k \<le> limits.max_context (limits_of (rules_for p ''x''))"
proof -
  from sample_loads obtain p where p: "load_profile ''etc'' [] sample_disk ''mac'' = Inr p"
    and from_file: "profile_from sample_file p" by blast
  let ?r = "rules_for p ''x''"
  from from_file have g: "gateway_config.model_name (gateway p) = ''qwen''"
    "gateway_config.max_context (gateway p) = 65536"
    "gateway_config.min_output_tokens (gateway p) = 1024"
    by (simp_all add: profile_from_def sample_file_def gateway_from_def)
  then have "valid_request no_json ?r sample_body"
    by (intro sample_valid) (simp add: rules_for_def Let_def)
  moreover from this obtain e where "effort (dget sample_body ''reasoning_effort'') ?r = Inr e"
    unfolding valid_request_def by (metis effort_iff)
  ultimately obtain q where q: "prepare no_json (PDict sample_body) ?r = Inr q"
    using prepare_iff by blast
  have "\<exists>k. limit 1000 (requested_max_tokens q) (limits_of ?r) = Inr k"
    by (simp add: sample_requested [OF q] limit_def rules_for_def Let_def g)
  then obtain k where k: "limit 1000 (requested_max_tokens q) (limits_of ?r) = Inr k" by blast
  have "data = sample_file" if "sample_disk (''etc'' @ ''/'' @ ''mac'' @ toml_suffix) = Parsed data" for data
    using that by (simp add: sample_disk_def toml_suffix_def split: if_splits)
  with sample_toml have "tables_of_toml data"
    if "sample_disk (''etc'' @ ''/'' @ ''mac'' @ toml_suffix) = Parsed data" for data
    using that by blast
  from loaded_rules_leave_room [OF p this refl q k] p q k show ?thesis by blast
qed

end
