(* ===== verification/Keys.thy ===== *)
theory Keys
  imports Config
begin

text \<open>
  \<open>gateway/keys.py\<close>: the file of key hashes, the commands that change it, and the gateway's
  view of it. The TOML parser and SHA-256 are arguments; what is asked of the parser is that
  it reads plain text of the form the file is written in (\<open>read_plain\<close>) as TOML says.
\<close>

section \<open>Entries\<close>

definition KEY_PREFIX :: string where
  "KEY_PREFIX = ''sk-alab-''"

definition NAME_RE :: rx where
  "NAME_RE =
     Seq (Class lower_digit)
       (rep (Class ([(CHR ''_'', CHR ''_''), (CHR ''-'', CHR ''-'')] @ lower_digit)) 0 63)"

text \<open>A pattern that is a fixed text.\<close>

fun text_rx :: "string \<Rightarrow> rx" where
  "text_rx [] = Eps"
| "text_rx (c # s) = Seq (lit c) (text_rx s)"

abbreviation hex_digit :: "(char \<times> char) list" where
  "hex_digit \<equiv> [(CHR ''0'', CHR ''9''), (CHR ''a'', CHR ''f'')]"

definition HASH_PREFIX :: string where
  "HASH_PREFIX = ''sha256:''"

definition HASH_RE :: rx where
  "HASH_RE = Seq (text_rx HASH_PREFIX) (rep (Class hex_digit) 64 64)"

record key_entry =
  entry_name :: string
  entry_hash :: string
  entry_created :: string

text \<open>Bytes and their hexadecimal notation.\<close>

definition hex_char :: "nat \<Rightarrow> char" where
  "hex_char n = (if n < 10 then char_of (48 + n) else char_of (87 + n))"

definition hex_val :: "char \<Rightarrow> nat" where
  "hex_val c = (if code c < 97 then code c - 48 else code c - 87)"

definition hexdigest :: "nat list \<Rightarrow> string" where
  "hexdigest bs = concat (map (\<lambda>b. [hex_char (b div 16), hex_char (b mod 16)]) bs)"

fun fromhex :: "string \<Rightarrow> nat list" where
  "fromhex (a # b # s) = (16 * hex_val a + hex_val b) # fromhex s"
| "fromhex _ = []"

definition hash_key :: "(string \<Rightarrow> nat list) \<Rightarrow> string \<Rightarrow> string" where
  "hash_key sha256 key = HASH_PREFIX @ hexdigest (sha256 key)"

definition removeprefix :: "string \<Rightarrow> string \<Rightarrow> string" where
  "removeprefix p s = (if take (length p) s = p then drop (length p) s else s)"

section \<open>Reading the file\<close>

datatype keys_error = KeysError message

text \<open>\<open>str(v)\<close>: a string is itself; \<open>show_other\<close> is how the interpreter shows anything else.\<close>

definition str_of :: "(pyval \<Rightarrow> string) \<Rightarrow> pyval \<Rightarrow> string" where
  "str_of show_other v = (case v of PStr s \<Rightarrow> s | _ \<Rightarrow> show_other v)"

definition load_entry ::
    "(pyval \<Rightarrow> string) \<Rightarrow> string \<Rightarrow> string \<times> pyval \<Rightarrow> keys_error + key_entry" where
  "load_entry show_other path e =
     (let name = fst e; invalid = KeysError [Txt (path @ '': invalid entry [keys.'' @ name @ '']'')]
      in if \<not> fullmatch NAME_RE name then Inl invalid
         else case snd e of
           PDict d \<Rightarrow> (case dget d ''hash'' of
               PStr h \<Rightarrow>
                 if fullmatch HASH_RE h
                 then Inr \<lparr>entry_name = name, entry_hash = h,
                        entry_created = str_of show_other (dget_default d ''created'' (PStr []))\<rparr>
                 else Inl invalid
             | _ \<Rightarrow> Inl invalid)
         | _ \<Rightarrow> Inl invalid)"

definition load ::
    "(pyval \<Rightarrow> string) \<Rightarrow> string \<Rightarrow> toml_file \<Rightarrow> keys_error + key_entry list" where
  "load show_other path file =
     (case file of
        NoFile \<Rightarrow> Inr []
      | Unreadable e \<Rightarrow> Inl (KeysError [Txt (''cannot read '' @ path @ '': '' @ e)])
      | Malformed e \<Rightarrow> Inl (KeysError [Txt (''cannot read '' @ path @ '': '' @ e)])
      | Parsed data \<Rightarrow>
          (case dget_default data ''keys'' (PDict []) of
             PDict keys \<Rightarrow> map_res (load_entry show_other path) keys
           | _ \<Rightarrow> Inl (KeysError [Txt (path @ '': [keys] must be a table'')])))"

section \<open>Writing the file\<close>

definition render_entry :: "key_entry \<Rightarrow> string list" where
  "render_entry e =
     [''[keys.'' @ entry_name e @ '']'', ''hash = '' @ quoted (entry_hash e),
      ''created = '' @ quoted (entry_created e), []]"

definition render_lines :: "key_entry list \<Rightarrow> string list" where
  "render_lines es =
     [''# API keys for the gateway, managed by `alab keys`. Only hashes are stored.'', []] @
     concat (map render_entry es)"

definition render :: "key_entry list \<Rightarrow> string" where
  "render es = join_with [CHR 0x0A] (render_lines es)"

text \<open>
  The directory of the key file: each file's text and mode. \<open>_save\<close> makes four calls that can
  fail; the states it passes through are listed, the last one being what it leaves behind, and
  a failed call runs the \<open>except\<close> branch. A write may have got any number of characters to
  the file when it fails.
\<close>

record stored =
  content :: string
  mode :: nat

type_synonym directory = "string \<rightharpoonup> stored"

datatype failure = At_mkstemp | At_chmod | At_write nat | At_replace

definition FILE_MODE :: nat where
  "FILE_MODE = 384"  \<comment> \<open>0o600\<close>

definition save_states ::
    "failure option \<Rightarrow> string \<Rightarrow> string \<Rightarrow> string \<Rightarrow> directory \<Rightarrow> directory list" where
  "save_states fails_at tmp path text d =
     (let d1 = d(tmp \<mapsto> \<lparr>content = [], mode = 384\<rparr>);
          d2 = d1(tmp \<mapsto> \<lparr>content = [], mode = FILE_MODE\<rparr>);
          d3 = (\<lambda>n. d2(tmp \<mapsto> \<lparr>content = take n text, mode = FILE_MODE\<rparr>));
          d4 = d2(tmp \<mapsto> \<lparr>content = text, mode = FILE_MODE\<rparr>);
          d5 = (d4(path := d4 tmp))(tmp := None);
          undo = (\<lambda>x. x(tmp := None))
      in case fails_at of
           Some At_mkstemp \<Rightarrow> [d]
         | Some At_chmod \<Rightarrow> [d, d1, undo d1]
         | Some (At_write n) \<Rightarrow> [d, d1, d2, d3 n, undo (d3 n)]
         | Some At_replace \<Rightarrow> [d, d1, d2, d4, undo d4]
         | None \<Rightarrow> [d, d1, d2, d4, d5])"

definition save ::
    "failure option \<Rightarrow> string \<Rightarrow> key_entry list \<Rightarrow> string \<Rightarrow> directory \<Rightarrow> bool \<times> directory" where
  "save fails_at tmp es path d = (fails_at = None, last (save_states fails_at tmp path (render es) d))"

section \<open>The commands\<close>

definition check_name :: "string \<Rightarrow> keys_error + unit" where
  "check_name name =
     ensure (fullmatch NAME_RE name)
       (KeysError [Txt (''invalid key name '' @ quoted name @ '': use lowercase letters, digits, '' @
          quoted ''-'' @ '' and '' @ quoted ''_'' @ '' (up to 64 characters), e.g. cursor or opencode'')])"

text \<open>
  The outcome of a command: its own error, an \<open>OSError\<close> of the save, or its result. \<open>token\<close>
  is what \<open>secrets.token_urlsafe\<close> returns and \<open>now\<close> the time of day.
\<close>

datatype 'a outcome = Refused keys_error | OS_Error | Returned 'a

record key_env =
  parse_toml :: "string \<Rightarrow> string + pydict"
  show_other :: "pyval \<Rightarrow> string"
  sha256 :: "string \<Rightarrow> nat list"
  keys_path :: string

definition read_file :: "key_env \<Rightarrow> directory \<Rightarrow> toml_file" where
  "read_file env d =
     (case d (keys_path env) of
        None \<Rightarrow> NoFile
      | Some f \<Rightarrow> (case parse_toml env (content f) of Inl e \<Rightarrow> Malformed e | Inr data \<Rightarrow> Parsed data))"

definition load_keys :: "key_env \<Rightarrow> directory \<Rightarrow> keys_error + key_entry list" where
  "load_keys env d = load (show_other env) (keys_path env) (read_file env d)"

definition create ::
    "key_env \<Rightarrow> failure option \<Rightarrow> string \<Rightarrow> string \<Rightarrow> string \<Rightarrow> string \<Rightarrow> directory \<Rightarrow>
     string outcome \<times> directory" where
  "create env fails_at tmp token now name d =
     (case and_then (check_name name) (\<lambda>_. load_keys env d) of
        Inl e \<Rightarrow> (Refused e, d)
      | Inr es \<Rightarrow>
          if name \<in> entry_name ` set es
          then (Refused (KeysError [Txt (''a key named '' @ quoted name @
                  '' already exists; revoke it first'')]), d)
          else let key = KEY_PREFIX @ token;
                   entry = \<lparr>entry_name = name, entry_hash = hash_key (sha256 env) key,
                            entry_created = now\<rparr>
               in case save fails_at tmp (es @ [entry]) (keys_path env) d of
                    (ok, d') \<Rightarrow> (if ok then Returned key else OS_Error, d'))"

definition revoke ::
    "key_env \<Rightarrow> failure option \<Rightarrow> string \<Rightarrow> string \<Rightarrow> directory \<Rightarrow> unit outcome \<times> directory" where
  "revoke env fails_at tmp name d =
     (case load_keys env d of
        Inl e \<Rightarrow> (Refused e, d)
      | Inr es \<Rightarrow>
          let kept = filter (\<lambda>e. entry_name e \<noteq> name) es
          in if length kept = length es
             then (Refused (KeysError [Txt (''no key named '' @ quoted name)]), d)
             else case save fails_at tmp kept (keys_path env) d of
                    (ok, d') \<Rightarrow> (if ok then Returned () else OS_Error, d'))"

section \<open>The gateway's view\<close>

text \<open>A file's stamp is its inode, modification time and size.\<close>

type_synonym stamp = "nat \<times> int \<times> nat"

record key_store =
  last_stamp :: "stamp option"
  hashes :: "(string \<times> nat list) list"

definition new_store :: key_store where
  "new_store = \<lparr>last_stamp = None, hashes = []\<rparr>"

definition stored_hash :: "key_entry \<Rightarrow> string \<times> nat list" where
  "stored_hash e = (entry_name e, fromhex (removeprefix HASH_PREFIX (entry_hash e)))"

text \<open>
  \<open>_refresh\<close> looks at the file twice: at its stamp, and, if that has changed, at what is in
  it; another process may write in between, so the two observations are separate arguments.
\<close>

definition refresh :: "key_env \<Rightarrow> stamp option \<Rightarrow> toml_file \<Rightarrow> key_store \<Rightarrow> key_store" where
  "refresh env seen_stamp file st =
     (if seen_stamp = last_stamp st \<and> seen_stamp \<noteq> None then st
      else let es = (case load (show_other env) (keys_path env) file of Inl _ \<Rightarrow> [] | Inr es \<Rightarrow> es)
           in \<lparr>last_stamp = seen_stamp, hashes = map stored_hash es\<rparr>)"

fun find_key :: "nat list \<Rightarrow> (string \<times> nat list) list \<Rightarrow> string option \<Rightarrow> string option" where
  "find_key digest [] found = found"
| "find_key digest ((name, stored) # hs) found =
     find_key digest hs (if digest = stored then Some name else found)"

definition check_key ::
    "key_env \<Rightarrow> stamp option \<Rightarrow> toml_file \<Rightarrow> string \<Rightarrow> key_store \<Rightarrow> string option \<times> key_store" where
  "check_key env seen_stamp file key st =
     (let st' = refresh env seen_stamp file st
      in (find_key (sha256 env key) (hashes st') None, st'))"

end
