(* ===== verification/Key_File.thy ===== *)
theory Key_File
  imports Keys
begin

text \<open>
  The text of \<open>keys.toml\<close>: what TOML makes of the lines \<open>render\<close> writes, the round trip of
  rendering and loading, and hashes in hexadecimal.
\<close>

section \<open>Plain TOML\<close>

text \<open>
  TOML of the form the file is written in: comments, blank lines, headers \<open>[keys.NAME]\<close> with
  a bare name, and basic strings without escapes. \<open>None\<close> is any other text.
\<close>

definition bare_char :: "char \<Rightarrow> bool" where
  "bare_char c \<longleftrightarrow> in_class (alnum @ [(CHR ''_'', CHR ''_''), (CHR ''-'', CHR ''-'')]) c"

definition text_char :: "char \<Rightarrow> bool" where
  "text_char c \<longleftrightarrow> 32 \<le> code c \<and> code c \<noteq> 34 \<and> code c \<noteq> 92 \<and> code c \<noteq> 127"

definition bare :: "string \<Rightarrow> bool" where
  "bare s \<longleftrightarrow> s \<noteq> [] \<and> list_all bare_char s"

text \<open>\<open>strip_ends p q s\<close> is the middle of \<open>p m q\<close>.\<close>

definition strip_ends :: "string \<Rightarrow> string \<Rightarrow> string \<Rightarrow> string option" where
  "strip_ends p q s =
     (let m = take (length s - length p - length q) (drop (length p) s)
      in if s = p @ m @ q then Some m else None)"

type_synonym tables = "(string \<times> pydict) list"

definition add_table :: "string \<Rightarrow> tables \<Rightarrow> tables option" where
  "add_table name ts = (if name \<in> fst ` set ts \<or> \<not> bare name then None else Some (ts @ [(name, [])]))"

definition add_field :: "string \<Rightarrow> string \<Rightarrow> tables \<Rightarrow> tables option" where
  "add_field key v ts =
     (if ts = [] \<or> \<not> bare key \<or> \<not> list_all text_char v \<or> key \<in> fst ` set (snd (last ts)) then None
      else Some (butlast ts @ [(fst (last ts), snd (last ts) @ [(key, PStr v)])]))"

definition read_line :: "string \<Rightarrow> tables \<Rightarrow> tables option" where
  "read_line l ts =
     (if l = [] \<or> hd l = CHR ''#'' then Some ts
      else case strip_ends ''[keys.'' '']'' l of
        Some name \<Rightarrow> add_table name ts
      | None \<Rightarrow>
          let key = takeWhile bare_char l
          in (case strip_ends ('' = '' @ [CHR 0x22]) [CHR 0x22] (dropWhile bare_char l) of
                Some v \<Rightarrow> add_field key v ts
              | None \<Rightarrow> None))"

fun read_lines :: "string list \<Rightarrow> tables \<Rightarrow> tables option" where
  "read_lines [] ts = Some ts"
| "read_lines (l # ls) ts = Option.bind (read_line l ts) (read_lines ls)"

definition tables_dict :: "tables \<Rightarrow> pydict" where
  "tables_dict ts = (if ts = [] then [] else [(''keys'', PDict (map (\<lambda>(n, d). (n, PDict d)) ts))])"

definition read_plain :: "string \<Rightarrow> pydict option" where
  "read_plain text = map_option tables_dict (read_lines (split_at (CHR 0x0A) text) [])"

section \<open>Entries that can be written and read back\<close>

definition wf_entry :: "key_entry \<Rightarrow> bool" where
  "wf_entry e \<longleftrightarrow>
     fullmatch NAME_RE (entry_name e) \<and> fullmatch HASH_RE (entry_hash e) \<and>
     list_all text_char (entry_created e)"

definition wf_entries :: "key_entry list \<Rightarrow> bool" where
  "wf_entries es \<longleftrightarrow> list_all wf_entry es \<and> distinct (map entry_name es)"

definition entry_table :: "key_entry \<Rightarrow> string \<times> pydict" where
  "entry_table e =
     (entry_name e, [(''hash'', PStr (entry_hash e)), (''created'', PStr (entry_created e))])"

subsection \<open>Lines\<close>

lemma split_join:
  assumes "\<And>l. l \<in> set ls \<Longrightarrow> c \<notin> set l" and "ls \<noteq> []"
  shows "split_at c (join_with [c] ls) = ls"
  using assms
proof (induction ls)
  case (Cons w ls)
  then show ?case by (cases ls) (simp_all add: split_at_free split_at_append)
qed simp

lemma strip_ends_middle [simp]: "strip_ends p q (p @ m @ q) = Some m"
  by (simp add: strip_ends_def Let_def)

lemma strip_ends_None: "hd s \<noteq> hd p \<Longrightarrow> p \<noteq> [] \<Longrightarrow> strip_ends p q s = None"
  by (cases p; cases s) (auto simp: strip_ends_def Let_def)

lemma read_header: "bare n \<Longrightarrow> n \<notin> fst ` set ts \<Longrightarrow>
    read_line (''[keys.'' @ n @ '']'') ts = Some (ts @ [(n, [])])"
  using strip_ends_middle [of "''[keys.''" "'']''" n]
  by (simp add: read_line_def add_table_def)

lemma read_field:
  assumes "bare k" and "list_all text_char v" and "k \<notin> fst ` set d"
  shows "read_line (k @ '' = '' @ quoted v) (ts @ [(n, d)]) = Some (ts @ [(n, d @ [(k, PStr v)])])"
proof -
  from assms(1) obtain c k' where k: "k = c # k'" and c: "bare_char c"
    by (cases k) (auto simp: bare_def)
  from c have ne: "c \<noteq> CHR ''#''" "c \<noteq> CHR ''[''"
    by (auto simp: bare_char_def in_class_def code_def)
  have sp: "\<not> bare_char (CHR '' '')" by (simp add: bare_char_def in_class_def code_def)
  have "takeWhile bare_char (k @ '' = '' @ quoted v) = k"
    "dropWhile bare_char (k @ '' = '' @ quoted v) = '' = '' @ quoted v"
    using assms(1) sp by (simp_all add: bare_def list_all_iff takeWhile_append2 dropWhile_append2)
  moreover have "'' = '' @ quoted v = ('' = '' @ [CHR 0x22]) @ v @ [CHR 0x22]"
    by (simp add: quoted_def)
  then have "strip_ends ('' = '' @ [CHR 0x22]) [CHR 0x22] ('' = '' @ quoted v) = Some v"
    using strip_ends_middle by metis
  moreover have "strip_ends ''[keys.'' '']'' (k @ '' = '' @ quoted v) = None"
    using ne by (intro strip_ends_None) (simp_all add: k)
  ultimately show ?thesis
    using assms ne by (simp add: read_line_def add_field_def Let_def k)
qed

subsection \<open>Patterns\<close>

lemma in_class_single [simp]: "in_class [(c, c)] d \<longleftrightarrow> d = c"
proof -
  have "code d = code c \<Longrightarrow> d = c" by (metis char_of_char code_def)
  then show ?thesis by (auto simp: in_class_def dest: order_antisym)
qed

lemma lang_text_rx: "lang (text_rx s) = {s}"
proof (induction s)
  case (Cons c s)
  then show ?case by (simp add: lit_def seq_of_def)
qed simp

lemma hash_pattern:
  "fullmatch HASH_RE h \<longleftrightarrow>
     (\<exists>x. h = HASH_PREFIX @ x \<and> length x = 64 \<and> list_all (in_class hex_digit) x)"
  by (auto simp: HASH_RE_def fullmatch_lang lang_text_rx lang_rep_class seq_of_def)

lemma name_bare: "fullmatch NAME_RE n \<Longrightarrow> bare n"
proof -
  assume n: "fullmatch NAME_RE n"
  then have "n \<noteq> []" unfolding NAME_RE_def fullmatch_head_rep by blast
  moreover have "bare_char c" if "c \<in> set n" for c
  proof -
    have "classes (rep r 0 k) = concat (replicate k (classes r))" for r k
      by (induction k) auto
    then have "classes NAME_RE = lower_digit @ concat (replicate 63
        ([(CHR ''_'', CHR ''_''), (CHR ''-'', CHR ''-'')] @ lower_digit))"
      by (simp add: NAME_RE_def)
    with fullmatch_chars [OF n that] show ?thesis
      by (auto simp: bare_char_def in_class_def list_ex_iff)
  qed
  ultimately show ?thesis by (simp add: bare_def list_all_iff)
qed

lemma hash_text: "fullmatch HASH_RE h \<Longrightarrow> list_all text_char h"
proof -
  have "text_char c" if "in_class hex_digit c" for c
    using that by (auto simp: in_class_def text_char_def code_def)
  then show "fullmatch HASH_RE h \<Longrightarrow> ?thesis"
    by (auto simp: hash_pattern HASH_PREFIX_def list_all_iff text_char_def code_def)
qed

subsection \<open>The round trip\<close>

lemma read_entry:
  assumes "wf_entry e" and "entry_name e \<notin> fst ` set ts"
  shows "read_lines (render_entry e @ ls) ts = read_lines ls (ts @ [entry_table e])"
proof -
  have b: "bare ''hash''" "bare ''created''"
    by (simp_all add: bare_def bare_char_def in_class_def code_def)
  from assms have n: "bare (entry_name e)" and h: "list_all text_char (entry_hash e)"
    and c: "list_all text_char (entry_created e)"
    by (simp_all add: wf_entry_def name_bare hash_text)
  have blank: "read_line [] ts' = Some ts'" for ts' by (simp add: read_line_def)
  note fields = read_field [OF b(1) h, where d = "[]"] read_field [OF b(2) c]
  show ?thesis
    using read_header [OF n assms(2)] fields
    by (simp add: render_entry_def entry_table_def blank)
qed

lemma read_entries:
  assumes "list_all wf_entry es" and "distinct (map entry_name es)"
    and "set (map entry_name es) \<inter> fst ` set ts = {}"
  shows "read_lines (concat (map render_entry es)) ts = Some (ts @ map entry_table es)"
  using assms
proof (induction es arbitrary: ts)
  case (Cons e es)
  then have "read_lines (concat (map render_entry es)) (ts @ [entry_table e]) =
      Some ((ts @ [entry_table e]) @ map entry_table es)"
    by (intro Cons.IH) (auto simp: entry_table_def)
  with Cons.prems show ?case by (simp add: read_entry)
qed simp

lemma newline_free:
  assumes "list_all wf_entry es" and "l \<in> set (render_lines es)"
  shows "CHR 0x0A \<notin> set l"
proof -
  have t: "CHR 0x0A \<notin> set s" if "list_all text_char s" for s
    using that by (auto simp: list_all_iff text_char_def code_def)
  have b: "CHR 0x0A \<notin> set s" if "bare s" for s
    using that by (auto simp: bare_def list_all_iff bare_char_def in_class_def code_def)
  consider "l = hd (render_lines es)" | "l = []" | e where "e \<in> set es" "l \<in> set (render_entry e)"
    using assms(2) by (auto simp: render_lines_def)
  then show ?thesis
  proof cases
    case 3
    with assms(1) have e: "wf_entry e" by (simp add: list_all_iff)
    then have "CHR 0x0A \<notin> set (entry_name e)" "CHR 0x0A \<notin> set (entry_hash e)"
      "CHR 0x0A \<notin> set (entry_created e)"
      using b [OF name_bare] t [OF hash_text] t by (simp_all add: wf_entry_def)
    with 3 show ?thesis by (auto simp: render_entry_def quoted_def)
  qed (simp_all add: render_lines_def)
qed

lemma read_render:
  assumes "wf_entries es"
  shows "read_plain (render es) = Some (tables_dict (map entry_table es))"
proof -
  have "split_at (CHR 0x0A) (render es) = render_lines es"
    unfolding render_def
    using assms by (intro split_join) (auto simp: wf_entries_def newline_free, simp add: render_lines_def)
  moreover have "read_lines (render_lines es) [] = Some (map entry_table es)"
    using assms read_entries [of es "[]"]
    by (simp add: render_lines_def read_line_def wf_entries_def)
  ultimately show ?thesis by (simp add: read_plain_def)
qed

lemma load_entry_table:
  assumes "wf_entry e"
  shows "load_entry show path (entry_name e, PDict (snd (entry_table e))) = Inr e"
  using assms
  by (simp add: load_entry_def wf_entry_def entry_table_def str_of_def dget_default_def Let_def)

lemma load_tables:
  assumes "wf_entries es"
  shows "load show path (Parsed (tables_dict (map entry_table es))) = Inr es"
proof -
  have "map_res (load_entry show path) (map (\<lambda>(n, d). (n, PDict d)) (map entry_table es)) = Inr es"
    if "list_all wf_entry es" for es
    using that
  proof (induction es)
    case (Cons e es)
    moreover have "(case entry_table e of (n, d) \<Rightarrow> (n, PDict d)) =
        (entry_name e, PDict (snd (entry_table e)))" by (simp add: entry_table_def)
    ultimately show ?case by (simp add: load_entry_table)
  qed simp
  with assms show ?thesis
    by (cases "es = []") (simp_all add: load_def tables_dict_def dget_default_def wf_entries_def)
qed

section \<open>Hexadecimal\<close>

lemma hex_round [simp]: "n < 16 \<Longrightarrow> hex_val (hex_char n) = n"
  by (auto simp: hex_val_def hex_char_def code_def)

lemma hex_char_class: "n < 16 \<Longrightarrow> in_class hex_digit (hex_char n)"
  by (auto simp: hex_char_def in_class_def code_def)

definition is_digest :: "nat list \<Rightarrow> bool" where
  "is_digest bs \<longleftrightarrow> length bs = 32 \<and> list_all (\<lambda>b. b < 256) bs"

lemma fromhex_hexdigest: "list_all (\<lambda>b. b < 256) bs \<Longrightarrow> fromhex (hexdigest bs) = bs"
  by (induction bs) (auto simp: hexdigest_def)

lemma hexdigest_chars: "list_all (\<lambda>b. b < 256) bs \<Longrightarrow> list_all (in_class hex_digit) (hexdigest bs)"
  by (induction bs) (auto simp: hexdigest_def hex_char_class)

lemma length_hexdigest: "length (hexdigest bs) = 2 * length bs"
  by (induction bs) (auto simp: hexdigest_def)

lemma hash_key_matches: "is_digest (sha key) \<Longrightarrow> fullmatch HASH_RE (hash_key sha key)"
  by (auto simp: hash_pattern hash_key_def is_digest_def hexdigest_chars length_hexdigest)

lemma stored_hash_key:
  "is_digest (sha key) \<Longrightarrow> entry_hash e = hash_key sha key \<Longrightarrow>
    stored_hash e = (entry_name e, sha key)"
  by (simp add: stored_hash_def hash_key_def removeprefix_def is_digest_def fromhex_hexdigest)

end
