(* ===== verification/Key_Properties.thy ===== *)
theory Key_Properties
  imports Key_File
begin

text \<open>
  What \<open>gateway/keys.py\<close> promises: the file always stands for a set of named hashes, changed
  only as a whole; and the gateway's answer to a key is the one the present file gives.
\<close>

section \<open>The file stands for a keyring\<close>

text \<open>What the code relies on of the TOML parser and of SHA-256.\<close>

definition env_ok :: "key_env \<Rightarrow> bool" where
  "env_ok env \<longleftrightarrow>
     (\<forall>text d. read_plain text = Some d \<longrightarrow> parse_toml env text = Inr d) \<and>
     (\<forall>key. is_digest (sha256 env key))"

definition holds_keys :: "key_env \<Rightarrow> directory \<Rightarrow> key_entry list \<Rightarrow> bool" where
  "holds_keys env d es \<longleftrightarrow>
     wf_entries es \<and>
     (case d (keys_path env) of
        None \<Rightarrow> es = []
      | Some f \<Rightarrow> content f = render es \<and> mode f = FILE_MODE)"

type_synonym keyring = "string \<rightharpoonup> nat list"

definition keyring_of :: "key_entry list \<Rightarrow> keyring" where
  "keyring_of es = map_of (map stored_hash es)"

lemma load_keys_holds:
  assumes "env_ok env" and "holds_keys env d es"
  shows "load_keys env d = Inr es"
proof (cases "d (keys_path env)")
  case None
  with assms(2) show ?thesis by (simp add: holds_keys_def load_keys_def read_file_def load_def)
next
  case (Some f)
  with assms(2) have es: "wf_entries es" and f: "content f = render es" by (simp_all add: holds_keys_def)
  from assms(1) read_render [OF es] have "parse_toml env (content f) = Inr (tables_dict (map entry_table es))"
    by (simp add: env_ok_def f)
  with Some load_tables [OF es] show ?thesis by (simp add: load_keys_def read_file_def)
qed

lemma save_states_last:
  assumes "tmp \<noteq> path"
  shows "last (save_states None tmp path text d) = d(path \<mapsto> \<lparr>content = text, mode = FILE_MODE\<rparr>, tmp := None)"
    and "last (save_states (Some f) tmp path text d) = (if f = At_mkstemp then d else d(tmp := None))"
  using assms by (cases f; simp add: save_states_def Let_def fun_upd_twist)+

lemma save_done:
  "tmp \<noteq> path \<Longrightarrow> save None tmp es path d =
     (True, d(path \<mapsto> \<lparr>content = render es, mode = FILE_MODE\<rparr>, tmp := None))"
  by (simp add: save_def save_states_last)

lemma holds_saved:
  "wf_entries es \<Longrightarrow> tmp \<noteq> keys_path env \<Longrightarrow>
    holds_keys env (d(keys_path env \<mapsto> \<lparr>content = render es, mode = FILE_MODE\<rparr>, tmp := None)) es"
  by (simp add: holds_keys_def)

lemma keyring_dom: "name \<in> dom (keyring_of es) \<longleftrightarrow> name \<in> entry_name ` set es"
  by (force simp: keyring_of_def dom_map_of_conv_image_fst stored_hash_def)

lemma keyring_add:
  assumes "name \<notin> entry_name ` set es" and "stored_hash e = (name, digest)"
  shows "keyring_of (es @ [e]) = (keyring_of es)(name \<mapsto> digest)"
proof
  fix x
  from assms(1) have "name \<notin> dom (keyring_of es)" by (simp add: keyring_dom)
  then have "keyring_of es name = None" by auto
  with assms(2) show "keyring_of (es @ [e]) x = ((keyring_of es)(name \<mapsto> digest)) x"
    by (auto simp: keyring_of_def map_of_append map_add_def split: option.split)
qed

lemma keyring_remove:
  "keyring_of (filter (\<lambda>e. entry_name e \<noteq> name) es) = (keyring_of es)(name := None)"
  by (induction es) (auto simp: keyring_of_def stored_hash_def fun_eq_iff)

lemma wf_filter: "wf_entries es \<Longrightarrow> wf_entries (filter P es)"
  by (auto simp: wf_entries_def list_all_iff distinct_map_filter)

lemma wf_add:
  "wf_entries es \<Longrightarrow> wf_entry e \<Longrightarrow> entry_name e \<notin> entry_name ` set es \<Longrightarrow> wf_entries (es @ [e])"
  by (auto simp: wf_entries_def)

lemma create_keyring:
  assumes env: "env_ok env" and d: "holds_keys env d es" and now: "list_all text_char now"
    and tmp: "tmp \<noteq> keys_path env"
  shows "case create env None tmp token now name d of
      (Returned key, d') \<Rightarrow> key = KEY_PREFIX @ token \<and> name \<notin> dom (keyring_of es) \<and>
        (\<exists>es'. holds_keys env d' es' \<and>
          keyring_of es' = (keyring_of es)(name \<mapsto> sha256 env key))
    | (Refused e, d') \<Rightarrow> d' = d \<and> (\<not> fullmatch NAME_RE name \<or> name \<in> dom (keyring_of es))
    | (OS_Error, d') \<Rightarrow> False"
proof -
  note load = load_keys_holds [OF env d]
  show ?thesis
  proof (cases "fullmatch NAME_RE name \<and> name \<notin> entry_name ` set es")
    case True
    let ?e = "\<lparr>entry_name = name, entry_hash = hash_key (sha256 env) (KEY_PREFIX @ token),
               entry_created = now\<rparr>"
    from env have "is_digest (sha256 env (KEY_PREFIX @ token))" by (simp add: env_ok_def)
    then have e: "wf_entry ?e" "stored_hash ?e = (name, sha256 env (KEY_PREFIX @ token))"
      using True now by (auto simp: wf_entry_def hash_key_matches stored_hash_key)
    with True d have "wf_entries (es @ [?e])" by (intro wf_add) (auto simp: holds_keys_def)
    from holds_saved [OF this tmp, of d] keyring_add [OF _ e(2)] True show ?thesis
      by (auto simp: create_def load check_name_def save_done [OF tmp] keyring_dom Let_def)
  next
    case False
    then show ?thesis
      by (auto simp: create_def load check_name_def keyring_dom Let_def ensure_def)
  qed
qed

lemma filter_all_iff: "length (filter P xs) = length xs \<longleftrightarrow> (\<forall>x \<in> set xs. P x)"
  by (metis filter_True less_irrefl length_filter_less)

lemma revoke_keyring:
  assumes env: "env_ok env" and d: "holds_keys env d es" and tmp: "tmp \<noteq> keys_path env"
  shows "case revoke env None tmp name d of
      (Returned u, d') \<Rightarrow> name \<in> dom (keyring_of es) \<and>
        (\<exists>es'. holds_keys env d' es' \<and> keyring_of es' = (keyring_of es)(name := None))
    | (Refused e, d') \<Rightarrow> d' = d \<and> name \<notin> dom (keyring_of es)
    | (OS_Error, d') \<Rightarrow> False"
proof -
  let ?kept = "filter (\<lambda>e. entry_name e \<noteq> name) es"
  have len: "length ?kept = length es \<longleftrightarrow> name \<notin> dom (keyring_of es)"
    by (auto simp: keyring_dom filter_all_iff)
  from d have "wf_entries ?kept" by (intro wf_filter) (simp add: holds_keys_def)
  from holds_saved [OF this tmp, of d] len show ?thesis
    by (auto simp: revoke_def load_keys_holds [OF env d] save_done [OF tmp] keyring_remove Let_def)
qed

section \<open>The gateway's view of a file that changes\<close>

text \<open>
  The file as other processes see it, the stamps it has had, the store, and the stamp a check
  has just seen (\<open>looked\<close>). A write gives the file a stamp it never had; checks look and load
  in two steps, and writes may come in between.
\<close>

record view =
  present :: "(stamp \<times> toml_file) option"
  used :: "stamp set"
  store :: key_store
  looked :: "stamp option option"

datatype view_action = Write stamp toml_file | Remove | Look | Reload

definition present_stamp :: "view \<Rightarrow> stamp option" where
  "present_stamp v = map_option fst (present v)"

definition present_file :: "view \<Rightarrow> toml_file" where
  "present_file v = (case present v of None \<Rightarrow> NoFile | Some (_, f) \<Rightarrow> f)"

inductive view_step :: "key_env \<Rightarrow> view \<Rightarrow> view_action \<Rightarrow> view \<Rightarrow> bool" for env where
  written: "s \<notin> used v \<Longrightarrow>
     view_step env v (Write s f) (v\<lparr>present := Some (s, f), used := insert s (used v)\<rparr>)"
| removed: "view_step env v Remove (v\<lparr>present := None\<rparr>)"
| look_now: "looked v = None \<Longrightarrow> view_step env v Look (v\<lparr>looked := Some (present_stamp v)\<rparr>)"
| reload_now: "looked v = Some s \<Longrightarrow>
     view_step env v Reload
       (v\<lparr>store := refresh env s (present_file v) (store v), looked := None\<rparr>)"

definition file_hashes :: "key_env \<Rightarrow> toml_file \<Rightarrow> (string \<times> nat list) list" where
  "file_hashes env f =
     (case load (show_other env) (keys_path env) f of Inl _ \<Rightarrow> [] | Inr es \<Rightarrow> map stored_hash es)"

definition view_init :: "view \<Rightarrow> bool" where
  "view_init v \<longleftrightarrow> store v = new_store \<and> looked v = None \<and> set_option (present_stamp v) \<subseteq> used v"

definition view_inv :: "key_env \<Rightarrow> view \<Rightarrow> bool" where
  "view_inv env v \<longleftrightarrow>
     set_option (present_stamp v) \<subseteq> used v \<and> set_option (last_stamp (store v)) \<subseteq> used v \<and>
     (\<forall>s. looked v = Some s \<longrightarrow> set_option s \<subseteq> used v) \<and>
     (\<forall>s f. present v = Some (s, f) \<longrightarrow> last_stamp (store v) = Some s \<longrightarrow>
        hashes (store v) = file_hashes env f)"

lemma refresh_cases:
  "refresh env s f st = st \<and> s = last_stamp st \<or>
   refresh env s f st = \<lparr>last_stamp = s, hashes = file_hashes env f\<rparr>"
  by (auto simp: refresh_def file_hashes_def Let_def split: sum.split)

lemma view_inv_init: "view_init v \<Longrightarrow> view_inv env v"
  by (simp add: view_init_def view_inv_def new_store_def)

lemma view_inv_step: "view_inv env v \<Longrightarrow> view_step env v a w \<Longrightarrow> view_inv env w"
proof (erule view_step.cases, goal_cases)
  case (4 v s)
  then show ?case
    using refresh_cases [of env s "present_file v" "store v"]
    by (auto simp: view_inv_def present_file_def present_stamp_def)
qed (auto simp: view_inv_def present_stamp_def)

interpretation key_view: machine view_init "view_step env" "view_inv env" for env
  by unfold_locales (rule view_inv_init, assumption, rule view_inv_step)

text \<open>A check that nothing interrupts sees the present file.\<close>

lemma refresh_present:
  assumes "view_inv env v"
  shows "hashes (refresh env (present_stamp v) (present_file v) (store v)) =
    file_hashes env (present_file v)"
proof (cases "present v")
  case None
  then show ?thesis
    using refresh_cases [of env None NoFile "store v"]
    by (auto simp: present_stamp_def present_file_def refresh_def file_hashes_def load_def)
next
  case (Some sf)
  then obtain s f where "present v = Some (s, f)" by (cases sf) auto
  with assms refresh_cases [of env "Some s" f "store v"] show ?thesis
    by (auto simp: view_inv_def present_stamp_def present_file_def)
qed

lemma find_key_Some: "find_key dg hs r = Some n \<Longrightarrow> (n, dg) \<in> set hs \<or> r = Some n"
  by (induction dg hs r rule: find_key.induct) (auto split: if_splits)

lemma find_key_None: "find_key dg hs r = None \<longleftrightarrow> r = None \<and> dg \<notin> snd ` set hs"
  by (induction dg hs r rule: find_key.induct) auto

lemma find_key_unique:
  assumes "(n, dg) \<in> set hs" and "\<And>m. (m, dg) \<in> set hs \<Longrightarrow> m = n"
  shows "find_key dg hs None = Some n"
proof -
  from assms(1) have "find_key dg hs None \<noteq> None" unfolding find_key_None by (metis image_eqI snd_conv)
  then obtain m where m: "find_key dg hs None = Some m" by auto
  from find_key_Some [OF m] assms(2) m show ?thesis by auto
qed

lemma file_hashes_holds:
  assumes "env_ok env" and "holds_keys env d es"
  shows "file_hashes env (read_file env d) = map stored_hash es"
  using load_keys_holds [OF assms] by (simp add: file_hashes_def load_keys_def)

lemma keyring_SomeI:
  assumes "wf_entries es"
  shows "keyring_of es n = Some dg \<longleftrightarrow> (n, dg) \<in> set (map stored_hash es)"
proof -
  have "map fst (map stored_hash es) = map entry_name es" by (simp add: stored_hash_def comp_def)
  with assms have "distinct (map fst (map stored_hash es))" by (simp only: wf_entries_def)
  then show ?thesis unfolding keyring_of_def by (rule map_of_eq_Some_iff)
qed

section \<open>An environment to try the properties on\<close>

text \<open>A parser that knows plain text only, and a hash that is not one (any digest will do).\<close>

definition sample_env :: key_env where
  "sample_env =
     \<lparr>parse_toml = (\<lambda>t. case read_plain t of Some d \<Rightarrow> Inr d | None \<Rightarrow> Inl ''not plain''),
      show_other = (\<lambda>_. []), sha256 = (\<lambda>s. replicate 32 (length s)), keys_path = ''keys.toml''\<rparr>"

definition short_env :: key_env where
  "short_env = sample_env\<lparr>sha256 := (\<lambda>s. replicate 32 (length s mod 256))\<rparr>"

lemma short_env_ok: "env_ok short_env"
  by (simp add: env_ok_def short_env_def sample_env_def is_digest_def list_all_iff)

lemma short_env_path [simp]: "keys_path short_env = ''keys.toml''"
  by (simp add: short_env_def sample_env_def)

lemma empty_holds: "holds_keys env Map.empty []"
  by (simp add: holds_keys_def wf_entries_def)

lemma sample_name: "fullmatch NAME_RE ''cursor''"
  unfolding NAME_RE_def fullmatch_head_rep by (simp add: in_class_def code_def)

section \<open>Properties\<close>

text \<open>
  C11: The commands act on the file as on a set of named hashes: \<open>create\<close> adds exactly the
  named hash of the key it returns and refuses a bad or taken name, \<open>revoke\<close> removes exactly
  the named hash and refuses an unknown name, a refusal changes nothing, and the file can be
  read back afterwards.
\<close>

theorem key_commands_refine_keyring:
  assumes "env_ok env" and "holds_keys env d es" and "list_all text_char now"
    and "tmp \<noteq> keys_path env"
  shows "(case create env None tmp token now name d of
            (Returned key, d') \<Rightarrow> key = KEY_PREFIX @ token \<and> name \<notin> dom (keyring_of es) \<and>
              (\<exists>es'. holds_keys env d' es' \<and>
                keyring_of es' = (keyring_of es)(name \<mapsto> sha256 env key))
          | (Refused e, d') \<Rightarrow> d' = d \<and> (\<not> fullmatch NAME_RE name \<or> name \<in> dom (keyring_of es))
          | (OS_Error, d') \<Rightarrow> False) \<and>
         (case revoke env None tmp name d of
            (Returned u, d') \<Rightarrow> name \<in> dom (keyring_of es) \<and>
              (\<exists>es'. holds_keys env d' es' \<and> keyring_of es' = (keyring_of es)(name := None))
          | (Refused e, d') \<Rightarrow> d' = d \<and> name \<notin> dom (keyring_of es)
          | (OS_Error, d') \<Rightarrow> False)"
  by (rule conjI [OF create_keyring [OF assms] revoke_keyring [OF assms(1,2,4)]])

lemma key_commands_refine_keyring_witness:
  "\<exists>d es. create short_env None ''t'' ''abc'' ''now'' ''cursor'' Map.empty = (Returned ''sk-alab-abc'', d) \<and>
     holds_keys short_env d es \<and> dom (keyring_of es) = {''cursor''}"
proof -
  have now: "list_all text_char ''now''" by (simp add: text_char_def code_def)
  have "load_keys short_env Map.empty = Inr []"
    using load_keys_holds [OF short_env_ok empty_holds] .
  then obtain d where d: "create short_env None ''t'' ''abc'' ''now'' ''cursor'' Map.empty =
      (Returned ''sk-alab-abc'', d)"
    using sample_name by (simp add: create_def check_name_def save_done Let_def KEY_PREFIX_def)
  from key_commands_refine_keyring [OF short_env_ok empty_holds now,
      where tmp = "''t''" and token = "''abc''" and name = "''cursor''"] d
  obtain es where "holds_keys short_env d es"
    "keyring_of es = (keyring_of [])(''cursor'' \<mapsto> sha256 short_env ''sk-alab-abc'')" by auto
  moreover from this have "dom (keyring_of es) = {''cursor''}" by (simp add: keyring_of_def)
  ultimately show ?thesis using d by blast
qed

text \<open>
  C12: The key file is changed as a whole or not at all: at every moment of a save, whatever
  call fails, it has its old text or the complete new text, which only the owner may read;
  after a failure it is untouched and the temporary file is gone.
\<close>

theorem key_file_changes_atomically:
  assumes "tmp \<noteq> path" and "d tmp = None" and "s \<in> set (save_states failure tmp path text d)"
  shows "(s path = d path \<or> s path = Some \<lparr>content = text, mode = FILE_MODE\<rparr>) \<and>
         (\<forall>f. s tmp = Some f \<longrightarrow> mode f = FILE_MODE) \<and>
         last (save_states failure tmp path text d) =
           (if failure = None then d(path \<mapsto> \<lparr>content = text, mode = FILE_MODE\<rparr>) else d)"
proof -
  have undone: "(d(path \<mapsto> x))(tmp := None) = d(path \<mapsto> x)" "d(tmp := None) = d" for x
    using assms(1,2) by auto
  have "last (save_states failure tmp path text d) =
      (if failure = None then d(path \<mapsto> \<lparr>content = text, mode = FILE_MODE\<rparr>) else d)"
    using save_states_last [OF assms(1)] undone by (cases failure) auto
  moreover have "s path = d path \<or> s path = Some \<lparr>content = text, mode = FILE_MODE\<rparr>"
    and "\<forall>f. s tmp = Some f \<longrightarrow> mode f = FILE_MODE"
    using assms by (auto simp: save_states_def FILE_MODE_def Let_def split: option.splits failure.splits)
  ultimately show ?thesis by blast
qed

lemma key_file_changes_atomically_witness:
  "last (save_states (Some At_replace) ''t'' ''k'' ''new''
     [''k'' \<mapsto> \<lparr>content = ''old'', mode = 384\<rparr>]) = [''k'' \<mapsto> \<lparr>content = ''old'', mode = 384\<rparr>]"
  using key_file_changes_atomically [of "''t''" "''k''" "[''k'' \<mapsto> \<lparr>content = ''old'', mode = 384\<rparr>]"
      "[''k'' \<mapsto> \<lparr>content = ''old'', mode = 384\<rparr>]" "Some At_replace" "''new''"]
  by (simp add: save_states_def Let_def)

text \<open>
  C13: The gateway's answer is the present file's answer: whatever writes came before, and in
  between the steps of earlier checks, a check that nothing interrupts accepts a key exactly
  when its digest is in the file as it is now (and no key when the file is broken).
\<close>

theorem checks_follow_the_file:
  assumes "view_init v0" and "key_view.run env v0 as v"
  shows "case fst (check_key env (present_stamp v) (present_file v) key (store v)) of
           Some n \<Rightarrow> (n, sha256 env key) \<in> set (file_hashes env (present_file v))
         | None \<Rightarrow> sha256 env key \<notin> snd ` set (file_hashes env (present_file v))"
proof -
  from key_view.reachable_inv [OF assms] have "view_inv env v" .
  from refresh_present [OF this] show ?thesis
    by (auto simp: check_key_def Let_def find_key_None split: option.split dest: find_key_Some)
qed

definition empty_view :: view where
  "empty_view = \<lparr>present = None, used = {}, store = new_store, looked = None\<rparr>"

lemma empty_view_init: "view_init empty_view"
  by (simp add: view_init_def empty_view_def present_stamp_def)

lemma checks_follow_the_file_witness:
  "fst (check_key short_env (present_stamp empty_view) (present_file empty_view) ''sk''
     (store empty_view)) = None \<and> ''x'' \<notin> fst ` set (file_hashes short_env (present_file empty_view))"
  using checks_follow_the_file [OF empty_view_init key_view.run_nil [of short_env], of "''sk''"]
  by (simp add: check_key_def refresh_def file_hashes_def load_def present_file_def empty_view_def
      present_stamp_def new_store_def Let_def)

text \<open>
  A created key opens and a revoked key does not: from the moment \<open>create\<close> has returned a
  key (whose digest no other entry has), every check that begins answers with its name, and
  from the moment \<open>revoke\<close> has returned, with nothing.
\<close>

lemma created_key_opens_until_revoked:
  assumes env: "env_ok env" and d: "holds_keys env d es" and now: "list_all text_char now"
    and tmp: "tmp \<noteq> keys_path env"
    and create: "create env None tmp token now name d = (Returned key, d1)"
    and fresh: "sha256 env key \<notin> ran (keyring_of es)"
    and revoke: "revoke env None tmp name d1 = (r, d2)"
    and v: "view_init v0" "key_view.run env v0 as v" "present_file v = read_file env d1"
    and w: "key_view.run env v bs w" "present_file w = read_file env d2"
  shows "r = Returned () \<and>
         fst (check_key env (present_stamp v) (present_file v) key (store v)) = Some name \<and>
         fst (check_key env (present_stamp w) (present_file w) key (store w)) = None"
proof -
  from create_keyring [OF env d now tmp, where token = token and name = name] create obtain es1
    where es1: "holds_keys env d1 es1" "keyring_of es1 = (keyring_of es)(name \<mapsto> sha256 env key)"
    by auto
  from revoke_keyring [OF env es1(1) tmp, where name = name] revoke es1(2) obtain es2
    where r: "r = Returned ()"
      and es2: "holds_keys env d2 es2" "keyring_of es2 = (keyring_of es1)(name := None)"
    by (auto split: outcome.splits)
  have inv: "view_inv env v" "view_inv env w"
    using key_view.reachable_inv [OF v(1)] v(2) key_view.run_append [OF v(2) w(1)] by blast+
  have wf: "wf_entries es1" "wf_entries es2" using es1(1) es2(1) by (simp_all add: holds_keys_def)
  have 1: "hashes (refresh env (present_stamp v) (present_file v) (store v)) = map stored_hash es1"
    using refresh_present [OF inv(1)] file_hashes_holds [OF env es1(1)] v(3) by simp
  have 2: "hashes (refresh env (present_stamp w) (present_file w) (store w)) = map stored_hash es2"
    using refresh_present [OF inv(2)] file_hashes_holds [OF env es2(1)] w(2) by simp
  have "find_key (sha256 env key) (map stored_hash es1) None = Some name"
  proof (rule find_key_unique)
    show "(name, sha256 env key) \<in> set (map stored_hash es1)"
      using keyring_SomeI [OF wf(1)] es1(2) by (metis fun_upd_same)
    show "m = name" if "(m, sha256 env key) \<in> set (map stored_hash es1)" for m
      using that keyring_SomeI [OF wf(1)] es1(2) fresh by (metis fun_upd_other ranI)
  qed
  moreover have "find_key (sha256 env key) (map stored_hash es2) None = None"
    unfolding find_key_None
  proof (intro conjI notI refl)
    assume "sha256 env key \<in> snd ` set (map stored_hash es2)"
    then obtain m where "(m, sha256 env key) \<in> set (map stored_hash es2)"
      by (metis imageE prod.collapse)
    then have "keyring_of es2 m = Some (sha256 env key)" using keyring_SomeI [OF wf(2)] by blast
    with es1(2) es2(2) fresh show False by (auto simp: ran_def split: if_splits)
  qed
  ultimately show ?thesis using r 1 2 by (simp add: check_key_def Let_def)
qed

text \<open>A write is seen by the next check: one step from any view.\<close>

definition written_view :: "stamp \<Rightarrow> toml_file \<Rightarrow> view \<Rightarrow> view" where
  "written_view s f v = v\<lparr>present := Some (s, f), used := insert s (used v)\<rparr>"

lemma run_write: "s \<notin> used v \<Longrightarrow> key_view.run env v [Write s f] (written_view s f v)"
  unfolding written_view_def by (intro key_view.run_cons [OF view_step.written] key_view.run_nil)

lemma written_file [simp]: "present_file (written_view s f v) = f"
  by (simp add: written_view_def present_file_def)

lemma created_key_opens_until_revoked_witness:
  "\<exists>v w. fst (check_key short_env (present_stamp v) (present_file v) ''sk-alab-abc'' (store v)) = Some ''cursor'' \<and>
         fst (check_key short_env (present_stamp w) (present_file w) ''sk-alab-abc'' (store w)) = None"
proof -
  have now: "list_all text_char ''now''" by (simp add: text_char_def code_def)
  have "load_keys short_env Map.empty = Inr []"
    using load_keys_holds [OF short_env_ok empty_holds] .
  then obtain d1 where c: "create short_env None ''t'' ''abc'' ''now'' ''cursor'' Map.empty =
      (Returned ''sk-alab-abc'', d1)"
    using sample_name by (simp add: create_def check_name_def save_done Let_def KEY_PREFIX_def)
  obtain r d2 where r: "revoke short_env None ''t'' ''cursor'' d1 = (r, d2)"
    by (cases "revoke short_env None ''t'' ''cursor'' d1")
  let ?v = "written_view (1, 0, 0) (read_file short_env d1) empty_view"
  let ?w = "written_view (2, 0, 0) (read_file short_env d2) ?v"
  have v: "key_view.run short_env empty_view [Write (1, 0, 0) (read_file short_env d1)] ?v"
    by (rule run_write) (simp add: empty_view_def)
  have w: "key_view.run short_env ?v [Write (2, 0, 0) (read_file short_env d2)] ?w"
    by (rule run_write) (simp add: empty_view_def written_view_def)
  have tmp: "''t'' \<noteq> keys_path short_env" by simp
  have fresh: "sha256 short_env ''sk-alab-abc'' \<notin> ran (keyring_of [])" by (simp add: keyring_of_def)
  from created_key_opens_until_revoked [OF short_env_ok empty_holds now tmp c fresh r
      empty_view_init v written_file w written_file]
  show ?thesis by blast
qed

end
