(* ===== verification/Chunks.thy ===== *)
theory Chunks
  imports Translate
begin

text \<open>
  \<open>gateway/app.py\<close>, the backend's chunks: the shape that is checked (\<open>_well_formed\<close>), what
  the log record takes from them, how they are made public, and how a whole answer is put
  together from them (\<open>_collect\<close>). Every \<open>.get\<close> and loop keeps the exception Python raises on
  a value of another shape, so that what the check rules out is a theorem.
\<close>

section \<open>The request record\<close>

record request_record =
  rec_key :: string
  rec_status :: int
  rec_stream :: "bool option"
  rec_effort :: string
  rec_prompt_tokens :: "int option"
  rec_max_tokens :: "int option"
  backend_prompt_tokens :: pyval
  cached_tokens :: pyval
  completion_tokens :: pyval
  finish_reason :: pyval

definition new_record :: request_record where
  "new_record =
     \<lparr>rec_key = ''-'', rec_status = 0, rec_stream = None, rec_effort = ''-'',
      rec_prompt_tokens = None, rec_max_tokens = None, backend_prompt_tokens = PNone,
      cached_tokens = PNone, completion_tokens = PNone, finish_reason = PNone\<rparr>"

text \<open>
  The log line: a missing value is a dash, a bool is in lower case, anything else as \<open>str\<close>
  shows it. The two durations are left out: they come from the clock.
\<close>

definition fmt :: "pyval \<Rightarrow> part" where
  "fmt v =
     (case v of PNone \<Rightarrow> Txt ''-'' | PBool b \<Rightarrow> Txt (if b then ''true'' else ''false'') | _ \<Rightarrow> Str_of v)"

definition opt_int :: "int option \<Rightarrow> pyval" where
  "opt_int i = (case i of None \<Rightarrow> PNone | Some n \<Rightarrow> PInt n)"

definition log_fields :: "request_record \<Rightarrow> (string \<times> part) list" where
  "log_fields r =
     map (\<lambda>(k, v). (k, fmt v))
       [(''key'', PStr (rec_key r)), (''status'', PInt (rec_status r)),
        (''stream'', case rec_stream r of None \<Rightarrow> PNone | Some b \<Rightarrow> PBool b),
        (''effort'', PStr (rec_effort r)), (''prompt_tokens'', opt_int (rec_prompt_tokens r)),
        (''backend_prompt_tokens'', backend_prompt_tokens r),
        (''cached_tokens'', cached_tokens r), (''completion_tokens'', completion_tokens r),
        (''max_tokens'', opt_int (rec_max_tokens r)), (''finish'', finish_reason r)]"

definition count_mismatch :: "request_record \<Rightarrow> bool" where
  "count_mismatch r \<longleftrightarrow>
     rec_prompt_tokens r \<noteq> None \<and> backend_prompt_tokens r \<noteq> PNone \<and>
     opt_int (rec_prompt_tokens r) \<noteq> backend_prompt_tokens r"

section \<open>The shape of a chunk\<close>

definition get_or :: "pydict \<Rightarrow> string \<Rightarrow> pyval \<Rightarrow> pyval" where
  "get_or d k v = or_else (dget d k) v"

definition count_ok :: "pyval \<Rightarrow> bool" where
  "count_ok v \<longleftrightarrow> v = PNone \<or> is_plain_int v"

definition usage_ok :: "pyval \<Rightarrow> bool" where
  "usage_ok usage =
     (case usage of
        PNone \<Rightarrow> True
      | PDict u \<Rightarrow>
          (case get_or u ''prompt_tokens_details'' (PDict []) of
             PDict details \<Rightarrow>
               list_all count_ok
                 [dget u ''prompt_tokens'', dget u ''completion_tokens'', dget details ''cached_tokens'']
           | _ \<Rightarrow> False)
      | _ \<Rightarrow> False)"

definition choice_ok :: "pyval \<Rightarrow> bool" where
  "choice_ok choice =
     (case choice of
        PDict c \<Rightarrow>
          (case get_or c ''delta'' (PDict []) of
             PDict delta \<Rightarrow>
               list_all (\<lambda>key. is_str (get_or delta key (PStr []))) [''content'', ''reasoning''] \<and>
               (case get_or delta ''tool_calls'' (PList []) of
                  PList calls \<Rightarrow> list_all is_dict calls
                | _ \<Rightarrow> False)
           | _ \<Rightarrow> False)
      | _ \<Rightarrow> False)"

definition well_formed :: "pyval \<Rightarrow> bool" where
  "well_formed chunk =
     (case chunk of
        PDict d \<Rightarrow>
          usage_ok (dget d ''usage'') \<and>
          (case get_or d ''choices'' (PList []) of
             PList choices \<Rightarrow> list_all choice_ok choices
           | _ \<Rightarrow> False)
      | _ \<Rightarrow> False)"

section \<open>What the record takes from a chunk\<close>

text \<open>\<open>v.get(k) or default\<close> of a value whose type is not known\<close>

definition attr_or :: "pyval \<Rightarrow> string \<Rightarrow> pyval \<Rightarrow> py_exn + pyval" where
  "attr_or v k w = and_then (attr_get v k) (\<lambda>x. Inr (or_else x w))"

definition note_usage :: "pydict \<Rightarrow> request_record \<Rightarrow> py_exn + request_record" where
  "note_usage chunk r =
     (let usage = dget chunk ''usage''
      in if \<not> truthy usage then Inr r
         else and_then (attr_get usage ''prompt_tokens'') (\<lambda>p.
              and_then (attr_get usage ''completion_tokens'') (\<lambda>c.
              and_then (attr_or usage ''prompt_tokens_details'' (PDict [])) (\<lambda>details.
              and_then (attr_get details ''cached_tokens'') (\<lambda>k.
              Inr (r\<lparr>backend_prompt_tokens := p, completion_tokens := c, cached_tokens := k\<rparr>))))))"

definition note_choice :: "nat \<Rightarrow> pyval \<Rightarrow> request_record \<Rightarrow> py_exn + request_record" where
  "note_choice i choice r =
     and_then (attr_get choice ''finish_reason'') (\<lambda>f.
       Inr (if truthy f then r\<lparr>finish_reason := f\<rparr> else r))"

definition note_chunk :: "pydict \<Rightarrow> request_record \<Rightarrow> py_exn + request_record" where
  "note_chunk chunk r =
     and_then (note_usage chunk r) (\<lambda>r1.
     and_then (iter_val (get_or chunk ''choices'' (PList []))) (\<lambda>choices.
     for_each note_choice 0 choices r1))"

section \<open>The public chunk\<close>

definition public_choice :: "pyval \<Rightarrow> py_exn + pyval" where
  "public_choice choice =
     and_then (attr_get choice ''delta'') (\<lambda>delta.
       Inr (case (choice, delta) of
              (PDict c, PDict d) \<Rightarrow>
                (case map_of d ''reasoning'' of
                   Some r \<Rightarrow> PDict (AList.update ''delta''
                               (PDict (AList.update ''reasoning_content'' r d)) c)
                 | None \<Rightarrow> choice)
            | _ \<Rightarrow> choice))"

text \<open>
  The loop changes the choices in place. Only a list can hold a choice that has \<open>.get\<close>; the
  items of any other non-empty value are strings, and the first one raises.
\<close>

definition public_chunk :: "string \<Rightarrow> pydict \<Rightarrow> py_exn + pydict" where
  "public_chunk model chunk =
     (let c1 = AList.update ''model'' (PStr model) chunk;
          c2 = AList.update ''object'' (PStr ''chat.completion.chunk'') c1;
          c3 = AList.delete ''system_fingerprint'' c2
      in case get_or c3 ''choices'' (PList []) of
           PList choices \<Rightarrow>
             and_then (map_res public_choice choices) (\<lambda>cs.
               Inr (if cs = [] then c3 else AList.update ''choices'' (PList cs) c3))
         | v \<Rightarrow> and_then (iter_val v) (\<lambda>items. and_then (map_res public_choice items) (\<lambda>_. Inr c3)))"

section \<open>The whole answer\<close>

record collected =
  first_chunk :: "pydict option"
  contents :: "pyval list"
  reasonings :: "pyval list"
  calls :: "pyval list"
  finished_with :: pyval
  last_usage :: pyval

definition nothing_collected :: collected where
  "nothing_collected =
     \<lparr>first_chunk = None, contents = [], reasonings = [], calls = [], finished_with = PNone,
      last_usage = PNone\<rparr>"

text \<open>\<open>dict(call)\<close> without \<open>index\<close>; only dictionaries pass the check.\<close>

definition collect_call :: "pyval \<Rightarrow> py_exn + pyval" where
  "collect_call call =
     (case call of PDict d \<Rightarrow> Inr (PDict (AList.delete ''index'' d)) | _ \<Rightarrow> Inl TypeError)"

definition append_truthy :: "pyval \<Rightarrow> pyval list \<Rightarrow> pyval list" where
  "append_truthy v vs = (if truthy v then vs @ [v] else vs)"

definition collect_choice :: "nat \<Rightarrow> pyval \<Rightarrow> collected \<Rightarrow> py_exn + collected" where
  "collect_choice i choice s =
     and_then (attr_or choice ''delta'' (PDict [])) (\<lambda>delta.
     and_then (attr_get delta ''content'') (\<lambda>c.
     and_then (attr_get delta ''reasoning'') (\<lambda>r.
     and_then (attr_or delta ''tool_calls'' (PList [])) (\<lambda>tcs.
     and_then (iter_val tcs) (\<lambda>items.
     and_then (map_res collect_call items) (\<lambda>new.
     and_then (attr_get choice ''finish_reason'') (\<lambda>f.
     Inr (s\<lparr>contents := append_truthy c (contents s), reasonings := append_truthy r (reasonings s),
            calls := calls s @ new, finished_with := or_else f (finished_with s)\<rparr>))))))))"

definition collect_chunk :: "nat \<Rightarrow> pydict \<Rightarrow> collected \<Rightarrow> py_exn + collected" where
  "collect_chunk i chunk s =
     (let s1 = s\<lparr>first_chunk := (case first_chunk s of Some d \<Rightarrow> if d = [] then Some chunk else Some d
                                | None \<Rightarrow> Some chunk)\<rparr>;
          s2 = (if truthy (dget chunk ''usage'') then s1\<lparr>last_usage := dget chunk ''usage''\<rparr> else s1)
      in and_then (iter_val (get_or chunk ''choices'' (PList []))) (\<lambda>choices.
         for_each collect_choice 0 choices s2))"

text \<open>The result, or \<open>None\<close> for \<open>the model server sent no answer\<close>.\<close>

definition answer_of :: "string \<Rightarrow> collected \<Rightarrow> py_exn + pydict option" where
  "answer_of model s =
     (case first_chunk s of
        None \<Rightarrow> Inr None
      | Some first \<Rightarrow>
          and_then (join_strs (contents s)) (\<lambda>content.
          and_then (join_strs (reasonings s)) (\<lambda>reasoning.
          let m0 = [(''role'', PStr ''assistant''), (''content'', or_else (PStr content) PNone)];
              m1 = (if reasonings s = [] then m0
                    else m0 @ [(''reasoning'', PStr reasoning), (''reasoning_content'', PStr reasoning)]);
              m2 = (if calls s = [] then m1 else m1 @ [(''tool_calls'', PList (calls s))]);
              result = [(''id'', dget first ''id''), (''object'', PStr ''chat.completion''),
                        (''created'', dget first ''created''), (''model'', PStr model),
                        (''choices'', PList [PDict [(''index'', PInt 0), (''message'', PDict m2),
                                                  (''finish_reason'', finished_with s)]])]
          in Inr (Some (if truthy (last_usage s) then result @ [(''usage'', last_usage s)]
                        else result)))))"

definition collect :: "string \<Rightarrow> pydict list \<Rightarrow> py_exn + pydict option" where
  "collect model chunks =
     and_then (for_each collect_chunk 0 chunks nothing_collected) (answer_of model)"

end
