(* ===== verification/Chunk_Laws.thy ===== *)
theory Chunk_Laws
  imports Chunks
begin

text \<open>
  A well-formed chunk never raises, wherever the gateway reads it; and the answer collected
  for a client that does not stream is the one a streaming client puts together.
\<close>

section \<open>Reading a choice\<close>

definition choices_of :: "pydict \<Rightarrow> pyval list" where
  "choices_of chunk = (case dget chunk ''choices'' of PList cs \<Rightarrow> cs | _ \<Rightarrow> [])"

definition str_text :: "pyval \<Rightarrow> string" where
  "str_text v = (case v of PStr s \<Rightarrow> s | _ \<Rightarrow> [])"

definition texts :: "pyval list \<Rightarrow> string" where
  "texts vs = concat (map str_text vs)"

definition delta_field :: "string \<Rightarrow> pyval \<Rightarrow> pyval" where
  "delta_field key choice = get_if_dict (get_if_dict choice ''delta'') key"

definition choice_calls :: "pyval \<Rightarrow> pyval list" where
  "choice_calls choice =
     (case delta_field ''tool_calls'' choice of
        PList cs \<Rightarrow> map (\<lambda>c. case c of PDict d \<Rightarrow> PDict (AList.delete ''index'' d) | v \<Rightarrow> v) cs
      | _ \<Rightarrow> [])"

lemma or_else_simps [simp]:
  "truthy a \<Longrightarrow> or_else a b = a" "\<not> truthy a \<Longrightarrow> or_else a b = b"
  by (simp_all add: or_else_def)

lemma or_else_is_dict: "or_else v (PDict []) = PDict d \<longleftrightarrow> v = PDict d \<or> \<not> truthy v \<and> d = []"
  by (cases v) (auto simp: or_else_def)

lemma or_else_is_list: "or_else v (PList []) = PList d \<longleftrightarrow> v = PList d \<or> \<not> truthy v \<and> d = []"
  by (cases v) (auto simp: or_else_def)

lemma or_else_is_str: "is_str (or_else v (PStr [])) \<longleftrightarrow> is_str v \<or> \<not> truthy v"
  by (cases v) (auto simp: or_else_def)

lemma str_text_falsy: "\<not> truthy v \<Longrightarrow> str_text v = []"
  by (cases v) (auto simp: str_text_def)

lemma choice_ok_dict: "choice_ok c \<Longrightarrow> is_dict c"
  by (cases c) (simp_all add: choice_ok_def)

text \<open>The shape of a choice, opened up.\<close>

lemma choice_okE:
  assumes "choice_ok choice"
  obtains c d cs where "choice = PDict c" "or_else (dget c ''delta'') (PDict []) = PDict d"
    "is_str (dget d ''content'') \<or> \<not> truthy (dget d ''content'')"
    "is_str (dget d ''reasoning'') \<or> \<not> truthy (dget d ''reasoning'')"
    "or_else (dget d ''tool_calls'') (PList []) = PList cs" "list_all is_dict cs"
    "\<And>k. get_if_dict (dget c ''delta'') k = dget d k"
proof -
  from assms obtain c d cs where *: "choice = PDict c" "or_else (dget c ''delta'') (PDict []) = PDict d"
    "is_str (dget d ''content'') \<or> \<not> truthy (dget d ''content'')"
    "is_str (dget d ''reasoning'') \<or> \<not> truthy (dget d ''reasoning'')"
    "or_else (dget d ''tool_calls'') (PList []) = PList cs" "list_all is_dict cs"
    by (auto simp: choice_ok_def get_or_def or_else_is_str split: pyval.splits)
  moreover from *(2) have "get_if_dict (dget c ''delta'') k = dget d k" for k
    by (cases "dget c ''delta''") (auto simp: or_else_def get_if_dict_def split: if_splits)
  ultimately show thesis using that by blast
qed

lemma well_formedE:
  assumes "well_formed v"
  obtains d where "v = PDict d" "usage_ok (dget d ''usage'')"
    "or_else (dget d ''choices'') (PList []) = PList (choices_of d)" "list_all choice_ok (choices_of d)"
proof -
  from assms obtain d cs where d: "v = PDict d" "usage_ok (dget d ''usage'')"
    and cs: "or_else (dget d ''choices'') (PList []) = PList cs" "list_all choice_ok cs"
    by (auto simp: well_formed_def get_or_def split: pyval.splits)
  from cs(1) have "cs = choices_of d"
    by (cases "dget d ''choices''") (auto simp: choices_of_def or_else_def split: if_splits)
  with d cs that show thesis by blast
qed

section \<open>Collecting\<close>

definition only_strs :: "collected \<Rightarrow> bool" where
  "only_strs s \<longleftrightarrow> list_all is_str (contents s) \<and> list_all is_str (reasonings s)"

text \<open>What a list of choices adds to what is collected.\<close>

definition adds :: "pyval list \<Rightarrow> collected \<Rightarrow> collected \<Rightarrow> bool" where
  "adds cs s t \<longleftrightarrow>
     only_strs t \<and>
     texts (contents t) = texts (contents s) @ concat (map (str_text \<circ> delta_field ''content'') cs) \<and>
     texts (reasonings t) = texts (reasonings s) @ concat (map (str_text \<circ> delta_field ''reasoning'') cs) \<and>
     calls t = calls s @ concat (map choice_calls cs) \<and>
     finished_with t =
       foldl (\<lambda>f c. or_else (get_if_dict c ''finish_reason'') f) (finished_with s) cs \<and>
     last_usage t = last_usage s \<and> first_chunk t = first_chunk s"

lemma adds_Nil: "only_strs s \<Longrightarrow> adds [] s s"
  by (simp add: adds_def)

lemma adds_Cons: "adds [c] s t \<Longrightarrow> adds cs t u \<Longrightarrow> adds (c # cs) s u"
  by (auto simp: adds_def)

lemma texts_append_truthy:
  "texts (append_truthy v vs) = texts vs @ str_text v"
  by (auto simp: append_truthy_def texts_def str_text_falsy)

lemma is_str_append_truthy:
  "is_str v \<or> \<not> truthy v \<Longrightarrow> list_all is_str vs \<Longrightarrow> list_all is_str (append_truthy v vs)"
  by (auto simp: append_truthy_def)

lemma collect_calls:
  "list_all is_dict cs \<Longrightarrow>
    map_res collect_call cs =
      Inr (map (\<lambda>c. case c of PDict d \<Rightarrow> PDict (AList.delete ''index'' d) | v \<Rightarrow> v) cs)"
  by (induction cs) (auto simp: collect_call_def is_dict_iff)

lemma collect_choice_adds:
  assumes ok: "choice_ok choice" and strs: "only_strs s"
  shows "\<exists>t. collect_choice i choice s = Inr t \<and> adds [choice] s t"
proof -
  from ok obtain c d cs where c: "choice = PDict c" and d: "or_else (dget c ''delta'') (PDict []) = PDict d"
    and str: "is_str (dget d ''content'') \<or> \<not> truthy (dget d ''content'')"
      "is_str (dget d ''reasoning'') \<or> \<not> truthy (dget d ''reasoning'')"
    and cs: "or_else (dget d ''tool_calls'') (PList []) = PList cs" "list_all is_dict cs"
    and f: "\<And>k. get_if_dict (dget c ''delta'') k = dget d k"
    using choice_okE [OF ok] by metis
  have field: "delta_field k choice = dget d k" for k
    by (simp add: delta_field_def c get_if_dict_def f [unfolded get_if_dict_def])
  have calls: "choice_calls choice =
      map (\<lambda>c. case c of PDict d \<Rightarrow> PDict (AList.delete ''index'' d) | v \<Rightarrow> v) cs"
    using cs by (cases "dget d ''tool_calls''") (auto simp: choice_calls_def field or_else_def split: if_splits)
  show ?thesis
    using strs str collect_calls [OF cs(2)]
    by (simp add: collect_choice_def attr_or_def c d cs adds_def only_strs_def is_str_append_truthy
        texts_append_truthy field [unfolded c] calls [unfolded c]) (simp add: get_if_dict_def)
qed

lemma collect_choices_adds:
  assumes "list_all choice_ok cs" and "only_strs s"
  shows "\<exists>t. for_each collect_choice n cs s = Inr t \<and> adds cs s t"
  using assms
proof (induction cs arbitrary: n s)
  case (Cons c cs)
  then obtain t where t: "collect_choice n c s = Inr t" "adds [c] s t"
    using collect_choice_adds [of c s n] by auto
  moreover from t(2) have "only_strs t" by (simp add: adds_def)
  ultimately obtain u where "for_each collect_choice (Suc n) cs t = Inr u" "adds cs t u"
    using Cons.IH Cons.prems(1) by auto
  with t show ?case by (auto intro: adds_Cons)
qed (simp add: adds_Nil)

text \<open>What is collected from a list of chunks.\<close>

definition all_choices :: "pydict list \<Rightarrow> pyval list" where
  "all_choices chunks = concat (map choices_of chunks)"

definition streamed_text :: "string \<Rightarrow> pydict list \<Rightarrow> string" where
  "streamed_text key chunks = concat (map (str_text \<circ> delta_field key) (all_choices chunks))"

definition streamed_calls :: "pydict list \<Rightarrow> pyval list" where
  "streamed_calls chunks = concat (map choice_calls (all_choices chunks))"

definition streamed_finish :: "pydict list \<Rightarrow> pyval" where
  "streamed_finish chunks =
     foldl (\<lambda>f c. or_else (get_if_dict c ''finish_reason'') f) PNone (all_choices chunks)"

definition streamed_usage :: "pydict list \<Rightarrow> pyval" where
  "streamed_usage chunks = foldl (\<lambda>u c. or_else (dget c ''usage'') u) PNone chunks"

definition summary :: "pydict list \<Rightarrow> collected \<Rightarrow> bool" where
  "summary chunks s \<longleftrightarrow>
     only_strs s \<and> texts (contents s) = streamed_text ''content'' chunks \<and>
     texts (reasonings s) = streamed_text ''reasoning'' chunks \<and>
     calls s = streamed_calls chunks \<and> finished_with s = streamed_finish chunks \<and>
     last_usage s = streamed_usage chunks \<and> (first_chunk s = None \<longleftrightarrow> chunks = [])"

lemma collect_chunk_summary:
  assumes wf: "well_formed (PDict chunk)" and s: "summary chunks s"
  shows "\<exists>t. collect_chunk i chunk s = Inr t \<and> summary (chunks @ [chunk]) t"
proof -
  from wf have cs: "or_else (dget chunk ''choices'') (PList []) = PList (choices_of chunk)"
    and ok: "list_all choice_ok (choices_of chunk)" by (auto elim!: well_formedE)
  let ?s = "let s1 = s\<lparr>first_chunk := (case first_chunk s of Some d \<Rightarrow> if d = [] then Some chunk else Some d
                                | None \<Rightarrow> Some chunk)\<rparr>
     in if truthy (dget chunk ''usage'') then s1\<lparr>last_usage := dget chunk ''usage''\<rparr> else s1"
  have "only_strs ?s" using s by (simp add: summary_def only_strs_def Let_def)
  from collect_choices_adds [OF ok this] obtain t
    where t: "for_each collect_choice 0 (choices_of chunk) ?s = Inr t" "adds (choices_of chunk) ?s t"
    by blast
  have "collect_chunk i chunk s = Inr t"
    using t(1) by (simp add: collect_chunk_def get_or_def cs Let_def)
  moreover have "summary (chunks @ [chunk]) t"
    using s t(2)
    by (auto simp: summary_def adds_def Let_def streamed_text_def streamed_calls_def
        streamed_finish_def streamed_usage_def all_choices_def or_else_def split: if_splits option.splits)
  ultimately show ?thesis by blast
qed

lemma collect_chunks_summary:
  assumes "list_all (well_formed \<circ> PDict) chunks"
  shows "\<exists>s. for_each collect_chunk 0 chunks nothing_collected = Inr s \<and> summary chunks s"
proof -
  have "\<exists>s. for_each collect_chunk n chunks s0 = Inr s \<and> summary (past @ chunks) s"
    if "summary past s0" for n s0 past
    using assms that
  proof (induction chunks arbitrary: n s0 past)
    case (Cons c cs)
    then obtain t where "collect_chunk n c s0 = Inr t" "summary (past @ [c]) t"
      using collect_chunk_summary [of c past s0 n] by auto
    with Cons.IH [of "past @ [c]" t "Suc n"] Cons.prems(1) show ?case by auto
  qed auto
  moreover have "summary [] nothing_collected"
    by (simp add: summary_def nothing_collected_def only_strs_def texts_def streamed_text_def
        all_choices_def streamed_calls_def streamed_finish_def streamed_usage_def)
  ultimately show ?thesis by fastforce
qed

section \<open>The record\<close>

lemma note_usage_ok:
  assumes "usage_ok (dget chunk ''usage'')"
  shows "\<exists>r'. note_usage chunk r = Inr r' \<and>
    (truthy (dget chunk ''usage'') \<longrightarrow>
       count_ok (backend_prompt_tokens r') \<and> count_ok (completion_tokens r') \<and> count_ok (cached_tokens r'))"
proof (cases "truthy (dget chunk ''usage'')")
  case True
  with assms obtain u d where u: "dget chunk ''usage'' = PDict u"
    "or_else (dget u ''prompt_tokens_details'') (PDict []) = PDict d"
    "count_ok (dget u ''prompt_tokens'')" "count_ok (dget u ''completion_tokens'')"
    "count_ok (dget d ''cached_tokens'')"
    by (auto simp: usage_ok_def get_or_def split: pyval.splits)
  with True show ?thesis by (simp add: note_usage_def attr_or_def Let_def)
qed (simp add: note_usage_def)

lemma note_chunk_ok:
  assumes "well_formed (PDict chunk)"
  shows "\<exists>r'. note_chunk chunk r = Inr r'"
proof -
  from assms have u: "usage_ok (dget chunk ''usage'')"
    and cs: "or_else (dget chunk ''choices'') (PList []) = PList (choices_of chunk)"
    and ok: "list_all choice_ok (choices_of chunk)" by (auto elim!: well_formedE)
  from note_usage_ok [OF u] obtain r1 where "note_usage chunk r = Inr r1" by blast
  moreover have "\<exists>r2. for_each note_choice 0 (choices_of chunk) r1 = Inr r2"
  proof (rule for_each_returns)
    fix i c r
    assume "c \<in> set (choices_of chunk)"
    with ok have "is_dict c" by (simp add: list_all_iff choice_ok_dict)
    then show "\<exists>v. note_choice i c r = Inr v" by (auto simp: is_dict_iff note_choice_def)
  qed
  ultimately show ?thesis by (auto simp: note_chunk_def get_or_def cs)
qed

section \<open>The public chunk\<close>

text \<open>What is kept of a choice, and the reasoning under its second name.\<close>

definition shown_choice :: "pyval \<Rightarrow> pyval \<Rightarrow> bool" where
  "shown_choice c c' \<longleftrightarrow>
     delta_field ''content'' c' = delta_field ''content'' c \<and>
     delta_field ''reasoning'' c' = delta_field ''reasoning'' c \<and>
     delta_field ''tool_calls'' c' = delta_field ''tool_calls'' c \<and>
     get_if_dict c' ''finish_reason'' = get_if_dict c ''finish_reason'' \<and>
     (delta_field ''reasoning'' c \<noteq> PNone \<longrightarrow>
        delta_field ''reasoning_content'' c' = delta_field ''reasoning'' c)"

lemma public_choice_shown:
  assumes "is_dict c"
  shows "\<exists>c'. public_choice c = Inr c' \<and> shown_choice c c'"
proof -
  from assms obtain d where c: "c = PDict d" by (auto simp: is_dict_iff)
  show ?thesis
  proof (cases "dget d ''delta''")
    case (PDict e)
    show ?thesis
    proof (cases "map_of e ''reasoning''")
      case None
      then have "dget e ''reasoning'' = PNone" by (simp add: dget_def)
      with None PDict show ?thesis
        by (simp add: c public_choice_def shown_choice_def delta_field_def get_if_dict_def)
    next
      case (Some r)
      then have "dget e ''reasoning'' = r" by (simp add: dget_def)
      with Some PDict show ?thesis
        by (simp add: c public_choice_def shown_choice_def delta_field_def get_if_dict_def dget_update)
    qed
  qed (simp_all add: c public_choice_def shown_choice_def delta_field_def get_if_dict_def)
qed

lemma map_res_all2:
  assumes "\<And>x. x \<in> set xs \<Longrightarrow> \<exists>y. f x = Inr y \<and> R x y"
  shows "\<exists>ys. map_res f xs = Inr ys \<and> list_all2 R xs ys"
  using assms
proof (induction xs)
  case (Cons x xs)
  then obtain y ys where "f x = Inr y" "R x y" "map_res f xs = Inr ys" "list_all2 R xs ys"
    by (meson list.set_intros)
  then show ?case by simp
qed simp

definition shown_chunk :: "string \<Rightarrow> pydict \<Rightarrow> pydict \<Rightarrow> bool" where
  "shown_chunk model chunk p \<longleftrightarrow>
     dget p ''model'' = PStr model \<and> dget p ''object'' = PStr ''chat.completion.chunk'' \<and>
     ''system_fingerprint'' \<notin> set (dict_keys p) \<and> dget p ''usage'' = dget chunk ''usage'' \<and>
     dget p ''id'' = dget chunk ''id'' \<and> list_all2 shown_choice (choices_of chunk) (choices_of p)"

lemma public_chunk_shown:
  assumes wf: "well_formed (PDict chunk)"
  shows "\<exists>p. public_chunk model chunk = Inr p \<and> shown_chunk model chunk p"
proof -
  from wf have cs: "or_else (dget chunk ''choices'') (PList []) = PList (choices_of chunk)"
    and ok: "list_all choice_ok (choices_of chunk)" by (auto elim!: well_formedE)
  let ?c = "AList.delete ''system_fingerprint'' (AList.update ''object'' (PStr ''chat.completion.chunk'')
      (AList.update ''model'' (PStr model) chunk))"
  have "\<exists>c'. public_choice c = Inr c' \<and> shown_choice c c'" if "c \<in> set (choices_of chunk)" for c
    using that ok by (intro public_choice_shown) (simp add: list_all_iff choice_ok_dict)
  then obtain cs' where cs': "map_res public_choice (choices_of chunk) = Inr cs'"
    "list_all2 shown_choice (choices_of chunk) cs'" using map_res_all2 by blast
  have same: "dget ?c k = dget chunk k" if "k \<notin> {''model'', ''object'', ''system_fingerprint''}" for k
    using that by (auto simp: dget_update dget_delete)
  have p: "public_chunk model chunk = Inr (if cs' = [] then ?c else AList.update ''choices'' (PList cs') ?c)"
    using cs cs'(1) same [of "''choices''"] by (simp add: public_chunk_def get_or_def Let_def)
  have fp: "''system_fingerprint'' \<notin> set (dict_keys ?c)"
    using dict.keys_drop [of "''system_fingerprint''"] by auto
  show ?thesis
  proof (cases "cs' = []")
    case True
    with cs'(2) have "choices_of chunk = []" by simp
    moreover have "choices_of ?c = choices_of chunk"
      using same [of "''choices''"] by (simp add: choices_of_def)
    ultimately show ?thesis
      using True p fp by (auto simp: shown_chunk_def dget_update dget_delete)
  next
    case False
    have "choices_of (AList.update ''choices'' (PList cs') ?c) = cs'"
      by (simp add: choices_of_def dget_update)
    with False p fp cs'(2) show ?thesis
      by (auto simp: shown_chunk_def dget_update dget_delete dict.keys_put simp del: set_map)
  qed
qed

text \<open>Public chunks carry the same answer.\<close>

lemma shown_all_choices:
  "list_all2 (shown_chunk model) chunks ps \<Longrightarrow>
    list_all2 shown_choice (all_choices chunks) (all_choices ps)"
  by (induction rule: list_all2_induct)
    (auto simp: all_choices_def shown_chunk_def intro: list_all2_appendI)

lemma shown_texts:
  assumes "list_all2 shown_choice cs cs'"
  shows "map (delta_field ''content'') cs' = map (delta_field ''content'') cs"
    and "map (delta_field ''reasoning'') cs' = map (delta_field ''reasoning'') cs"
    and "map choice_calls cs' = map choice_calls cs"
    and "map (\<lambda>c. get_if_dict c ''finish_reason'') cs' = map (\<lambda>c. get_if_dict c ''finish_reason'') cs"
proof -
  have "choice_calls c' = choice_calls c" if "shown_choice c c'" for c c'
    using that by (simp only: shown_choice_def choice_calls_def)
  with assms show "map choice_calls cs' = map choice_calls cs"
    by (induction rule: list_all2_induct) simp_all
  from assms show "map (delta_field ''content'') cs' = map (delta_field ''content'') cs"
    "map (delta_field ''reasoning'') cs' = map (delta_field ''reasoning'') cs"
    "map (\<lambda>c. get_if_dict c ''finish_reason'') cs' = map (\<lambda>c. get_if_dict c ''finish_reason'') cs"
    by (induction rule: list_all2_induct) (simp_all add: shown_choice_def)
qed

lemma shown_streamed:
  assumes "list_all2 (shown_chunk model) chunks ps"
  shows "streamed_text ''content'' ps = streamed_text ''content'' chunks"
    and "streamed_text ''reasoning'' ps = streamed_text ''reasoning'' chunks"
    and "streamed_calls ps = streamed_calls chunks"
    and "streamed_finish ps = streamed_finish chunks"
    and "streamed_usage ps = streamed_usage chunks"
proof -
  note s = shown_texts [OF shown_all_choices [OF assms]]
  show "streamed_text ''content'' ps = streamed_text ''content'' chunks"
    "streamed_text ''reasoning'' ps = streamed_text ''reasoning'' chunks"
    "streamed_calls ps = streamed_calls chunks"
    using s by (simp_all add: streamed_text_def streamed_calls_def flip: map_map)
  have f: "foldl (\<lambda>f c. or_else (get_if_dict c ''finish_reason'') f) z cs =
      foldl (\<lambda>f v. or_else v f) z (map (\<lambda>c. get_if_dict c ''finish_reason'') cs)" for z cs
    by (induction cs arbitrary: z) auto
  show "streamed_finish ps = streamed_finish chunks" by (simp only: streamed_finish_def f s(4))
  have "foldl (\<lambda>u c. or_else (dget c ''usage'') u) z ps = foldl (\<lambda>u c. or_else (dget c ''usage'') u) z chunks"
    for z using assms by (induction arbitrary: z rule: list_all2_induct) (auto simp: shown_chunk_def)
  then show "streamed_usage ps = streamed_usage chunks" by (simp add: streamed_usage_def)
qed

lemma list_all_is_str: "list_all is_str vs \<Longrightarrow> vs = map PStr (map str_text vs)"
  by (induction vs) (auto simp: is_str_iff str_text_def)

lemma join_only_strs: "list_all is_str vs \<Longrightarrow> join_strs vs = Inr (texts vs)"
  by (metis join_strs_PStr list_all_is_str texts_def)

section \<open>Properties\<close>

text \<open>
  A chunk that passes the shape check never raises: the log record, the public form and
  the collected answer all take it, whatever else is in it, and the public form carries the
  gateway's model name and no server fingerprint.
\<close>

lemma well_formed_chunk_never_raises:
  assumes "well_formed (PDict chunk)" and "summary chunks s"
  shows "(\<exists>r'. note_chunk chunk r = Inr r') \<and>
         (\<exists>p. public_chunk model chunk = Inr p \<and> shown_chunk model chunk p) \<and>
         (\<exists>t. collect_chunk i chunk s = Inr t)"
  using note_chunk_ok [OF assms(1)] public_chunk_shown [OF assms(1)] collect_chunk_summary [OF assms]
  by blast

definition sample_chunk :: pydict where
  "sample_chunk =
     [(''id'', PStr ''c1''), (''model'', PStr ''/models/q''), (''system_fingerprint'', PStr ''fp''),
      (''choices'', PList [PDict [(''delta'', PDict [(''content'', PStr ''hi''), (''reasoning'', PStr ''hm'')]),
                                (''finish_reason'', PStr ''stop'')]])]"

lemma sample_chunk_ok: "well_formed (PDict sample_chunk)"
  by (simp add: well_formed_def sample_chunk_def usage_ok_def get_or_def choice_ok_def or_else_def)

lemma summary_Nil: "summary [] nothing_collected"
  by (simp add: summary_def nothing_collected_def only_strs_def texts_def streamed_text_def
      all_choices_def streamed_calls_def streamed_finish_def streamed_usage_def)

lemma well_formed_chunk_never_raises_witness:
  "\<exists>p. public_chunk ''qwen'' sample_chunk = Inr p \<and> dget p ''model'' = PStr ''qwen''"
  using well_formed_chunk_never_raises [OF sample_chunk_ok summary_Nil, where model = "''qwen''"]
  unfolding shown_chunk_def by blast

text \<open>
  C15: Streaming or not, the answer is the same: the message collected from the backend's
  chunks has the content, reasoning, tool calls, finish reason and usage that a client
  putting the public chunks together gets.
\<close>

theorem collected_is_streamed:
  assumes "list_all (well_formed \<circ> PDict) chunks" and "chunks \<noteq> []"
    and "map_res (public_chunk model) chunks = Inr ps"
  shows "\<exists>answer m. collect model chunks = Inr (Some answer) \<and>
           dget answer ''choices'' =
             PList [PDict [(''index'', PInt 0), (''message'', PDict m),
                           (''finish_reason'', streamed_finish ps)]] \<and>
           dget m ''content'' = or_else (PStr (streamed_text ''content'' ps)) PNone \<and>
           str_text (dget m ''reasoning'') = streamed_text ''reasoning'' ps \<and>
           dget m ''reasoning_content'' = dget m ''reasoning'' \<and>
           dget m ''tool_calls'' = or_else (PList (streamed_calls ps)) PNone \<and>
           or_else (dget answer ''usage'') PNone = or_else (streamed_usage ps) PNone"
proof -
  from map_res_all2 [of chunks "public_chunk model" "shown_chunk model"] assms(1,3)
  have "list_all2 (shown_chunk model) chunks ps" by (auto simp: list_all_iff dest: public_chunk_shown)
  note st = shown_streamed [OF this]
  from collect_chunks_summary [OF assms(1)] obtain s
    where s: "for_each collect_chunk 0 chunks nothing_collected = Inr s" and sum: "summary chunks s"
    by blast
  from sum assms(2) obtain first where first: "first_chunk s = Some first" by (auto simp: summary_def)
  from sum have strs: "join_strs (contents s) = Inr (texts (contents s))"
    "join_strs (reasonings s) = Inr (texts (reasonings s))"
    by (simp_all add: summary_def only_strs_def join_only_strs)
  have "reasonings s = [] \<Longrightarrow> texts (reasonings s) = []" by (simp add: texts_def)
  with sum show ?thesis
    by (simp add: collect_def s answer_of_def first strs st summary_def Let_def or_else_def)
      (auto simp: str_text_def)
qed

lemma collected_is_streamed_witness:
  "\<exists>ps answer. map_res (public_chunk ''qwen'') [sample_chunk] = Inr ps \<and>
     collect ''qwen'' [sample_chunk] = Inr (Some answer) \<and> streamed_text ''content'' ps = ''hi''"
proof -
  obtain p where p: "public_chunk ''qwen'' sample_chunk = Inr p" "shown_chunk ''qwen'' sample_chunk p"
    using public_chunk_shown [OF sample_chunk_ok] by blast
  then have "map_res (public_chunk ''qwen'') [sample_chunk] = Inr [p]" by simp
  moreover from this obtain answer where "collect ''qwen'' [sample_chunk] = Inr (Some answer)"
    using collected_is_streamed [of "[sample_chunk]" "''qwen''" "[p]"] sample_chunk_ok by auto
  moreover have "streamed_text ''content'' [p] = ''hi''"
    using shown_streamed(1) [of "''qwen''" "[sample_chunk]" "[p]"] p(2)
    by (simp add: streamed_text_def all_choices_def choices_of_def sample_chunk_def delta_field_def
        get_if_dict_def str_text_def)
  ultimately show ?thesis by blast
qed

end
