(* ===== verification/Backend_Stream.thy ===== *)
theory Backend_Stream
  imports Chunk_Laws
begin

text \<open>
  \<open>gateway/app.py\<close>, the backend's side: its answer as \<open>httpx\<close> delivers it, the generator
  \<open>backend_chunks\<close> that turns it into chunks, and the errors a client is told. What
  \<open>httpx\<close> and the network do is a value (\<open>backend_reply\<close>); \<open>json.loads\<close> is the parameter
  \<open>loads\<close>. Waiting for the queue's slot, around all this, is in \<open>Request_Queue\<close>.
\<close>

section \<open>Errors and responses\<close>

record backend_error =
  failed_status :: int
  failed_message :: string

definition api_error_of :: "backend_error \<Rightarrow> api_error" where
  "api_error_of e =
     \<lparr>status = failed_status e, message_of = [Txt (failed_message e)], code_of = None,
      param_of = None,
      type_of = (if failed_status e \<ge> 500 then ''server_error'' else ''invalid_request_error'')\<rparr>"

datatype payload = Json pydict | Plain string | Empty

record response =
  resp_status :: int
  resp_headers :: "(string \<times> string) list"
  resp_payload :: payload

definition RETRY_AFTER_SECONDS :: int where
  "RETRY_AFTER_SECONDS = 30"

definition error_response :: "(message \<Rightarrow> string) \<Rightarrow> api_error \<Rightarrow> response" where
  "error_response show_msg e =
     \<lparr>resp_status = status e,
      resp_headers =
        (if status e = 401 then [(''WWW-Authenticate'', ''Bearer'')]
         else if status e = 429 then [(''Retry-After'', show_int RETRY_AFTER_SECONDS)]
         else []),
      resp_payload = Json (error_body show_msg e)\<rparr>"

section \<open>What the connection delivers\<close>

text \<open>
  \<open>Backend_exn\<close> is the gateway's own exception; the others come from \<open>httpx\<close> or the
  interpreter. A reply is an exception before any answer, or a status, the lines that
  arrived, and the exception that cut them off, if one did.
\<close>

datatype http_error = Connect_Error | Connect_Timeout | Http_Error

datatype stream_exn = Http http_error | Interp py_exn | Backend_exn backend_error

datatype backend_reply =
    Unreachable stream_exn
  | Replied int "string list" "stream_exn option"

fun handle :: "stream_exn \<Rightarrow> stream_exn" where
  "handle (Http Connect_Error) =
     Backend_exn \<lparr>failed_status = 503, failed_message = ''the model server is not running''\<rparr>"
| "handle (Http Connect_Timeout) =
     Backend_exn \<lparr>failed_status = 503, failed_message = ''the model server is not answering''\<rparr>"
| "handle (Http Http_Error) =
     Backend_exn \<lparr>failed_status = 502, failed_message = ''the model server failed while answering''\<rparr>"
| "handle (Interp e) =
     (if e = ValueError \<or> e = RecursionError
      then Backend_exn \<lparr>failed_status = 502,
             failed_message = ''the model server failed while answering''\<rparr>
      else Interp e)"
| "handle (Backend_exn e) = Backend_exn e"

definition rejected :: "int \<Rightarrow> backend_error" where
  "rejected st =
     \<lparr>failed_status = (if st \<ge> 500 then 502 else 400),
      failed_message = ''the model server rejected the request (HTTP '' @ show_int st @ '')''\<rparr>"

definition invalid_chunk :: backend_error where
  "invalid_chunk = \<lparr>failed_status = 502, failed_message = ''the model server sent an invalid chunk''\<rparr>"

definition ended_early :: backend_error where
  "ended_early = \<lparr>failed_status = 502, failed_message = ''the model server ended the response early''\<rparr>"

section \<open>The generator\<close>

text \<open>One \<open>data:\<close> line that is not \<open>[DONE]\<close>: the chunk and the record after it.\<close>

definition read_chunk ::
    "(string \<Rightarrow> py_exn + pyval) \<Rightarrow> string \<Rightarrow> request_record \<Rightarrow> stream_exn + pydict \<times> request_record" where
  "read_chunk loads data r =
     (case loads data of
        Inl e \<Rightarrow> Inl (Interp e)
      | Inr v \<Rightarrow>
          if \<not> well_formed v then Inl (Backend_exn invalid_chunk)
          else (case v of
              PDict chunk \<Rightarrow> (case note_chunk chunk r of
                  Inl e \<Rightarrow> Inl (Interp e)
                | Inr r' \<Rightarrow> Inr (chunk, r'))
            | _ \<Rightarrow> Inl (Interp AttributeError)))"

datatype lines_end = Saw_done | Lines_over | Broke stream_exn

definition is_data :: "string \<Rightarrow> bool" where
  "is_data line \<longleftrightarrow> prefix ''data:'' line"

definition data_of :: "string \<Rightarrow> string" where
  "data_of line = strip (drop 5 line)"

fun read_lines ::
    "(string \<Rightarrow> py_exn + pyval) \<Rightarrow> string list \<Rightarrow> stream_exn option \<Rightarrow> request_record \<Rightarrow>
     pydict list \<times> request_record \<times> lines_end" where
  "read_lines loads [] fails r =
     ([], r, case fails of None \<Rightarrow> Lines_over | Some e \<Rightarrow> Broke e)"
| "read_lines loads (line # lines) fails r =
     (if \<not> is_data line then read_lines loads lines fails r
      else if data_of line = ''[DONE]'' then ([], r, Saw_done)
      else case read_chunk loads (data_of line) r of
          Inl e \<Rightarrow> ([], r, Broke e)
        | Inr (chunk, r') \<Rightarrow>
            (case read_lines loads lines fails r' of (cs, r'', e) \<Rightarrow> (chunk # cs, r'', e)))"

text \<open>
  The chunks the generator yields, the record it leaves, and the exception it ends with;
  \<open>None\<close> is a normal return, after \<open>[DONE]\<close>.
\<close>

definition backend_chunks ::
    "(string \<Rightarrow> py_exn + pyval) \<Rightarrow> backend_reply \<Rightarrow> request_record \<Rightarrow>
     pydict list \<times> request_record \<times> stream_exn option" where
  "backend_chunks loads reply r =
     (case reply of
        Unreachable e \<Rightarrow> ([], r, Some (handle e))
      | Replied st lines fails \<Rightarrow>
          if st \<noteq> 200
          then ([], r, Some (handle (case fails of Some e \<Rightarrow> e | None \<Rightarrow> Backend_exn (rejected st))))
          else (case read_lines loads lines fails r of
              (cs, r', Saw_done) \<Rightarrow> (cs, r', None)
            | (cs, r', Lines_over) \<Rightarrow> (cs, r', Some (Backend_exn ended_early))
            | (cs, r', Broke e) \<Rightarrow> (cs, r', Some (handle e))))"

section \<open>What is read\<close>

definition data_lines :: "string list \<Rightarrow> string list" where
  "data_lines lines = map data_of (filter is_data lines)"

text \<open>The chunk a data line stands for, when it stands for one.\<close>

definition good_chunk :: "(string \<Rightarrow> py_exn + pyval) \<Rightarrow> string \<Rightarrow> pydict option" where
  "good_chunk loads data =
     (case loads data of
        Inr (PDict d) \<Rightarrow> if well_formed (PDict d) then Some d else None
      | _ \<Rightarrow> None)"

definition complete_answer :: "(string \<Rightarrow> py_exn + pyval) \<Rightarrow> backend_reply \<Rightarrow> pydict list option" where
  "complete_answer loads reply =
     (case reply of
        Replied st lines _ \<Rightarrow>
          let ds = takeWhile (\<lambda>d. d \<noteq> ''[DONE]'') (data_lines lines);
              cs = map (good_chunk loads) ds
          in if st = 200 \<and> ''[DONE]'' \<in> set (data_lines lines) \<and> None \<notin> set cs
             then Some (map the cs) else None
      | _ \<Rightarrow> None)"

lemma well_formed_dict: "well_formed v \<Longrightarrow> \<exists>d. v = PDict d"
  by (cases v) (simp_all add: well_formed_def)

lemma read_chunk_iff:
  "(\<exists>r'. read_chunk loads data r = Inr (c, r')) \<longleftrightarrow> good_chunk loads data = Some c"
proof (cases "loads data")
  case (Inr v)
  show ?thesis
  proof (cases "well_formed v")
    case True
    then obtain d where v: "v = PDict d" using well_formed_dict by blast
    with True obtain r' where "note_chunk d r = Inr r'" using note_chunk_ok by blast
    with True Inr v show ?thesis by (auto simp: read_chunk_def good_chunk_def)
  qed (use Inr in \<open>auto simp: read_chunk_def good_chunk_def split: pyval.splits\<close>)
qed (simp add: read_chunk_def good_chunk_def)

lemma read_chunk_none:
  "good_chunk loads data = None \<Longrightarrow> \<exists>e. read_chunk loads data r = Inl e"
  by (cases "read_chunk loads data r") (use read_chunk_iff [of loads data r] in auto)

lemma read_chunk_exn:
  assumes "read_chunk loads data r = Inl e"
  shows "(\<exists>x. loads data = Inl x \<and> e = Interp x) \<or> e = Backend_exn invalid_chunk"
proof (cases "loads data")
  case (Inr v)
  show ?thesis
  proof (cases "well_formed v")
    case True
    then obtain d where "v = PDict d" using well_formed_dict by blast
    moreover from this True obtain r' where "note_chunk d r = Inr r'" using note_chunk_ok by blast
    ultimately show ?thesis using assms True Inr by (simp add: read_chunk_def)
  qed (use assms Inr in \<open>simp add: read_chunk_def\<close>)
qed (use assms in \<open>simp add: read_chunk_def\<close>)

text \<open>Lines that are not data change nothing; the rest is read data by data.\<close>

lemma read_lines_done:
  assumes "read_lines loads lines fails r = (cs, r', e)"
  shows "e = Saw_done \<longleftrightarrow>
    ''[DONE]'' \<in> set (data_lines lines) \<and>
    None \<notin> good_chunk loads ` set (takeWhile (\<lambda>d. d \<noteq> ''[DONE]'') (data_lines lines))"
    and "e = Saw_done \<Longrightarrow>
      map Some cs = map (good_chunk loads) (takeWhile (\<lambda>d. d \<noteq> ''[DONE]'') (data_lines lines))"
  using assms
proof (induction lines arbitrary: r cs)
  case Nil
  {
    case 1
    then show ?case by (auto simp: data_lines_def split: option.splits)
  next
    case 2
    then show ?case by (auto simp: data_lines_def split: option.splits)
  }
next
  case (Cons line lines)
  have skip: "data_lines (line # lines) = (if is_data line then [data_of line] else []) @ data_lines lines"
    by (simp add: data_lines_def)
  {
    case 1
    show ?case
    proof (cases "is_data line \<and> data_of line \<noteq> ''[DONE]''")
      case True
      show ?thesis
      proof (cases "read_chunk loads (data_of line) r")
        case (Inl x)
        with read_chunk_iff [of loads "data_of line" r] have "good_chunk loads (data_of line) = None"
          by (cases "good_chunk loads (data_of line)") auto
        with True Inl 1 show ?thesis by (auto simp: skip)
      next
        case (Inr p)
        obtain c r1 where p: "p = (c, r1)" by (cases p)
        obtain cs1 where rest: "read_lines loads lines fails r1 = (cs1, r', e)" and "cs = c # cs1"
          using 1 True Inr p by (auto split: prod.splits)
        from Inr p read_chunk_iff [of loads "data_of line" r c] have "good_chunk loads (data_of line) = Some c"
          by blast
        with True Cons.IH(1) [OF rest] show ?thesis by (auto simp: skip)
      qed
    qed (use 1 Cons.IH(1) in \<open>auto simp: skip split: if_splits\<close>)
  next
    case 2
    show ?case
    proof (cases "is_data line \<and> data_of line \<noteq> ''[DONE]''")
      case True
      obtain p where Inr: "read_chunk loads (data_of line) r = Inr p"
        using 2 True by (auto split: sum.splits)
      obtain c r1 where p: "p = (c, r1)" by (cases p)
      obtain cs1 where rest: "read_lines loads lines fails r1 = (cs1, r', e)" and "cs = c # cs1"
        using 2 True Inr p by (auto split: prod.splits)
      from Inr p read_chunk_iff [of loads "data_of line" r c] have "good_chunk loads (data_of line) = Some c"
        by blast
      with True \<open>cs = c # cs1\<close> Cons.IH(2) [OF \<open>e = Saw_done\<close> rest] show ?thesis by (auto simp: skip)
    qed (use 2 Cons.IH(2) in \<open>auto simp: skip split: if_splits\<close>)
  }
qed

lemma backend_chunks_complete:
  assumes "backend_chunks loads reply r = (cs, r', e)"
  shows "e = None \<longleftrightarrow> complete_answer loads reply \<noteq> None"
    and "e = None \<Longrightarrow> complete_answer loads reply = Some cs"
proof -
  have "(e = None \<longleftrightarrow> complete_answer loads reply \<noteq> None) \<and> (e = None \<longrightarrow> complete_answer loads reply = Some cs)"
  proof (cases reply)
    case (Unreachable x)
    with assms show ?thesis by (auto simp: backend_chunks_def complete_answer_def)
  next
    case (Replied st lines fails)
    show ?thesis
    proof (cases "st = 200")
      case False
      with Replied assms show ?thesis by (auto simp: backend_chunks_def complete_answer_def)
    next
      case True
      obtain cs1 r1 x where rl: "read_lines loads lines fails r = (cs1, r1, x)" by (metis prod.exhaust)
      with assms True Replied have e: "e = None \<longleftrightarrow> x = Saw_done" and cs: "cs = cs1"
        by (auto simp: backend_chunks_def split: lines_end.splits)
      note done1 = read_lines_done(1) [OF rl] and done2 = read_lines_done(2) [OF rl]
      have the_some: "map the (map Some cs1) = cs1" by (simp add: comp_def)
      show ?thesis
        using done1 done2 True Replied the_some
        by (auto simp: e cs complete_answer_def Let_def simp del: map_map)
    qed
  qed
  then show "e = None \<longleftrightarrow> complete_answer loads reply \<noteq> None"
    and "e = None \<Longrightarrow> complete_answer loads reply = Some cs" by auto
qed

lemma read_lines_well_formed:
  "read_lines loads lines fails r = (cs, r', e) \<Longrightarrow> list_all (well_formed \<circ> PDict) cs"
proof (induction lines arbitrary: r cs)
  case (Cons line lines)
  show ?case
  proof (cases "is_data line \<and> data_of line \<noteq> ''[DONE]''")
    case True
    show ?thesis
    proof (cases "read_chunk loads (data_of line) r")
      case (Inr p)
      obtain c r1 where p: "p = (c, r1)" by (cases p)
      obtain cs1 where rest: "read_lines loads lines fails r1 = (cs1, r', e)" and "cs = c # cs1"
        using Cons.prems True Inr p by (auto split: prod.splits)
      moreover from Inr p read_chunk_iff [of loads "data_of line" r c]
      have "well_formed (PDict c)"
        by (auto simp: good_chunk_def split: sum.splits pyval.splits if_splits)
      ultimately show ?thesis using Cons.IH [OF rest] by simp
    qed (use Cons.prems True in auto)
  qed (use Cons in \<open>auto split: if_splits\<close>)
qed simp

lemma backend_chunks_well_formed:
  "backend_chunks loads reply r = (cs, r', e) \<Longrightarrow> list_all (well_formed \<circ> PDict) cs"
  by (auto simp: backend_chunks_def read_lines_well_formed
      split: backend_reply.splits if_splits prod.splits lines_end.splits)

end
