(* ===== verification/Heartbeats.thy ===== *)
theory Heartbeats
  imports Backend_Stream
begin

text \<open>
  \<open>_with_heartbeats\<close> of \<open>gateway/app.py\<close>: the items of a producer, with a comment
  whenever none arrives for \<open>interval\<close> seconds. Each item comes with the moment it is in the
  queue; the consumer's clock is an argument, and what the consumer does between two waits
  takes no time. An item that arrives exactly at the deadline is taken. A producer that never
  ends (no further item) makes the loop run forever, which is the value \<open>None\<close>.
\<close>

datatype 'a item = Chunk 'a | End | Error stream_exn

datatype 'a beat = Beat | Out 'a

text \<open>What the producer's task puts into the queue, from what the generator does.\<close>

definition produce :: "'a list \<Rightarrow> stream_exn option \<Rightarrow> 'a item list" where
  "produce chunks e = map Chunk chunks @ [case e of None \<Rightarrow> End | Some x \<Rightarrow> Error x]"

type_synonym 'a beats = "(rat \<times> 'a beat) list \<times> rat \<times> stream_exn option"

definition before :: "rat \<times> 'a beat \<Rightarrow> 'a beats option \<Rightarrow> 'a beats option" where
  "before e r = Option.bind r (\<lambda>(es, fin). Some (e # es, fin))"

lemma before_mono [partial_function_mono]:
  "mono_option r \<Longrightarrow> mono_option (\<lambda>f. before e (r f))"
  unfolding before_def by (intro bind_mono) (auto simp: monotone_def flat_ord_def)

partial_function (option) with_heartbeats ::
    "rat \<Rightarrow> rat \<Rightarrow> (rat \<times> 'a item) list \<Rightarrow> 'a beats option" where
  "with_heartbeats interval now items =
     (case items of
        [] \<Rightarrow> before (now + interval, Beat) (with_heartbeats interval (now + interval) [])
      | (t, x) # rest \<Rightarrow>
          if t \<le> now + interval
          then (case x of
              Chunk c \<Rightarrow> before (max now t, Out c) (with_heartbeats interval (max now t) rest)
            | End \<Rightarrow> Some ([], max now t, None)
            | Error e \<Rightarrow> Some ([], max now t, Some e))
          else before (now + interval, Beat) (with_heartbeats interval (now + interval) items))"


lemma before_eq_Some:
  "before e r = Some res \<longleftrightarrow> (\<exists>es fin. r = Some (es, fin) \<and> res = (e # es, fin))"
  by (cases r) (auto simp: before_def)

lemma before_Some [simp]: "before e (Some (es, fin)) = Some (e # es, fin)"
  by (simp add: before_def)

lemma heartbeats_item:
  "with_heartbeats interval now ((t, x) # rest) =
     (if t \<le> now + interval
      then (case x of
          Chunk c \<Rightarrow> before (max now t, Out c) (with_heartbeats interval (max now t) rest)
        | End \<Rightarrow> Some ([], max now t, None)
        | Error e \<Rightarrow> Some ([], max now t, Some e))
      else before (now + interval, Beat) (with_heartbeats interval (now + interval) ((t, x) # rest)))"
  by (subst with_heartbeats.simps) simp

section \<open>It returns\<close>

text \<open>
  With a positive interval, every item is reached after finitely many comments, so the loop
  ends as soon as the producer does.
\<close>

fun ends :: "'a item \<Rightarrow> bool" where
  "ends (Chunk _) = False" | "ends _ = True"

lemma heartbeats_reach:
  assumes "\<And>m. now \<le> m \<Longrightarrow> t \<le> m + interval \<Longrightarrow> \<exists>r. with_heartbeats interval m ((t, x) # rest) = Some r"
    and "t \<le> now + of_nat (Suc n) * interval" and "0 < interval"
  shows "\<exists>r. with_heartbeats interval now ((t, x) # rest) = Some r"
  using assms
proof (induction n arbitrary: now)
  case 0
  then show ?case by simp
next
  case (Suc n)
  show ?case
  proof (cases "t \<le> now + interval")
    case True
    then show ?thesis using Suc.prems(1) by simp
  next
    case False
    have "t \<le> (now + interval) + of_nat (Suc n) * interval"
      using Suc.prems(2) by (simp add: algebra_simps)
    from Suc.IH [OF _ this] obtain r where "with_heartbeats interval (now + interval) ((t, x) # rest) = Some r"
      using Suc.prems(1,3) by fastforce
    with False show ?thesis by (cases r) (simp add: heartbeats_item)
  qed
qed

lemma heartbeats_total:
  assumes "0 < interval" and "\<exists>x \<in> set items. ends (snd x)"
  shows "\<exists>r. with_heartbeats interval now items = Some r"
  using assms(2)
proof (induction items arbitrary: now)
  case (Cons tx rest)
  obtain t x where tx: "tx = (t, x)" by (cases tx)
  have now: "\<exists>r. with_heartbeats interval m ((t, x) # rest) = Some r" if "t \<le> m + interval" for m
  proof (cases x)
    case (Chunk c)
    with Cons.prems tx have "\<exists>x \<in> set rest. ends (snd x)" by auto
    from Cons.IH [OF this] obtain r where "with_heartbeats interval (max m t) rest = Some r" by blast
    with that Chunk show ?thesis by (cases r) (simp add: heartbeats_item)
  qed (use that in \<open>simp_all add: heartbeats_item\<close>)
  obtain n where "t - now < of_nat n * interval" using ex_less_of_nat_mult [OF assms(1)] by blast
  then have "t \<le> now + of_nat (Suc n) * interval" using assms(1) by (simp add: algebra_simps)
  from heartbeats_reach [OF now this assms(1)] show ?case using tx by simp
qed simp

section \<open>What it gives\<close>

fun steps_within :: "rat \<Rightarrow> rat \<Rightarrow> rat list \<Rightarrow> bool" where
  "steps_within d now [] = True"
| "steps_within d now (t # ts) \<longleftrightarrow> now \<le> t \<and> t \<le> now + d \<and> steps_within d t ts"

fun outs :: "(rat \<times> 'a beat) list \<Rightarrow> 'a list" where
  "outs [] = []"
| "outs ((_, Out c) # es) = c # outs es"
| "outs ((_, Beat) # es) = outs es"

text \<open>The chunks before the first end, and that end.\<close>

fun given :: "'a item list \<Rightarrow> 'a list" where
  "given (Chunk c # xs) = c # given xs" | "given _ = []"

fun ending :: "'a item list \<Rightarrow> stream_exn option" where
  "ending (Chunk c # xs) = ending xs"
| "ending (Error e # xs) = Some e"
| "ending _ = None"

lemma given_produce [simp]: "given (produce cs e) = cs" "ending (produce cs e) = e"
  by (induction cs) (auto simp: produce_def split: option.split)

text \<open>A comment is sent only after a full interval in which nothing arrived.\<close>

fun idle_before :: "rat \<Rightarrow> rat \<Rightarrow> (rat \<times> 'a beat) list \<Rightarrow> bool" where
  "idle_before d now [] = True"
| "idle_before d now ((t, b) # es) \<longleftrightarrow> (b = Beat \<longrightarrow> t = now + d) \<and> idle_before d t es"

definition beats_ok :: "rat \<Rightarrow> rat \<Rightarrow> 'a item list \<Rightarrow> 'a beats \<Rightarrow> bool" where
  "beats_ok d now xs r \<longleftrightarrow>
     (case r of (es, t, e) \<Rightarrow>
        steps_within d now (map fst es @ [t]) \<and> idle_before d now es \<and>
        outs es = given xs \<and> ending xs = e)"

lemma heartbeats_ok:
  assumes "with_heartbeats d now items = Some r" and "0 < d"
  shows "beats_ok d now (map snd items) r"
proof -
  have "0 < d \<longrightarrow> beats_ok d now (map snd items) r"
  proof (rule with_heartbeats.raw_induct
      [of "\<lambda>d now items r. 0 < d \<longrightarrow> beats_ok d now (map snd items) r", OF _ assms(1)], rule impI)
    fix rec :: "rat \<Rightarrow> rat \<Rightarrow> (rat \<times> 'a item) list \<Rightarrow> 'a beats option"
    fix d now :: rat and items :: "(rat \<times> 'a item) list" and r
    assume ih: "\<And>d now items r. rec d now items = Some r \<Longrightarrow> 0 < d \<longrightarrow> beats_ok d now (map snd items) r"
      and body: "(case items of
        [] \<Rightarrow> before (now + d, Beat) (rec d (now + d) [])
      | (t, x) # rest \<Rightarrow>
          if t \<le> now + d
          then (case x of
              Chunk c \<Rightarrow> before (max now t, Out c) (rec d (max now t) rest)
            | End \<Rightarrow> Some ([], max now t, None)
            | Error e \<Rightarrow> Some ([], max now t, Some e))
          else before (now + d, Beat) (rec d (now + d) items)) = Some r"
      and d: "0 < d"
    have beat: "beats_ok d now xs r" if "before (now + d, Beat) q = Some r" and
      "\<And>r. q = Some r \<Longrightarrow> beats_ok d (now + d) xs r" for q and xs :: "'a item list"
      using that d by (fastforce simp: before_eq_Some beats_ok_def)
    show "beats_ok d now (map snd items) r"
    proof (cases items)
      case Nil
      with beat [of "rec d (now + d) []" "[]"] body ih [of d "now + d" "[]"] d show ?thesis by simp
    next
      case (Cons tx rest)
      obtain t x where tx: "tx = (t, x)" by (cases tx)
      show ?thesis
      proof (cases "t \<le> now + d")
        case False
        with beat [of "rec d (now + d) items" "map snd items"] body ih [of d "now + d" items] d Cons tx
        show ?thesis by simp
      next
        case True
        with d have m: "now \<le> max now t" "max now t \<le> now + d" by auto
        show ?thesis
        proof (cases x)
          case (Chunk c)
          with True body Cons tx obtain es q where *: "rec d (max now t) rest = Some (es, q)"
            "r = ((max now t, Out c) # es, q)" by (auto simp: before_eq_Some)
          from ih [OF *(1)] d * m Chunk Cons tx show ?thesis by (auto simp: beats_ok_def)
        qed (use True body Cons tx m in \<open>auto simp: beats_ok_def\<close>)
      qed
    qed
  qed
  with assms(2) show ?thesis by blast
qed

end
