(* ===== verification/Answer.thy ===== *)
theory Answer
  imports Heartbeats
begin

text \<open>
  \<open>gateway/app.py\<close>, the two ways of answering a chat request (\<open>_stream\<close>, \<open>_complete\<close>)
  as what they hand to the ASGI \<open>send\<close>, with its moment, and the record they leave.
  \<open>json.dumps\<close> and the text of a message are the parameters \<open>dumps\<close> and \<open>show_msg\<close>.
\<close>

section \<open>What is sent\<close>

definition newline :: char where
  "newline = CHR 0x0A"

definition sse :: "(pydict \<Rightarrow> string) \<Rightarrow> pydict \<Rightarrow> string" where
  "sse dumps d = ''data: '' @ dumps d @ [newline, newline]"

definition KEEP_ALIVE :: string where
  "KEEP_ALIVE = '': keep-alive'' @ [newline, newline]"

definition DONE :: string where
  "DONE = ''data: [DONE]'' @ [newline, newline]"

definition SSE_HEADERS :: "(string \<times> string) list" where
  "SSE_HEADERS =
     [(''Content-Type'', ''text/event-stream''), (''Cache-Control'', ''no-cache''),
      (''X-Accel-Buffering'', ''no'')]"

text \<open>A start message, a body message with more to come, or the last body message.\<close>

datatype sent = Start int "(string \<times> string) list" | Body string | Last string

record client_env =
  dumps :: "pydict \<Rightarrow> string"
  show_msg :: "message \<Rightarrow> string"
  public_name :: string

text \<open>How an answering task ends: normally, or with an exception nobody caught.\<close>

type_synonym task_end = "stream_exn option"

section \<open>The streaming answer\<close>

definition usage_only :: "pydict \<Rightarrow> bool" where
  "usage_only chunk \<longleftrightarrow> \<not> truthy (dget chunk ''choices'') \<and> truthy (dget chunk ''usage'')"

definition dropped :: "bool \<Rightarrow> pydict \<Rightarrow> bool" where
  "dropped incl chunk \<longleftrightarrow> usage_only chunk \<and> \<not> incl"

text \<open>The loop over the chunks and comments: what is sent, and an exception that stops it.\<close>

fun send_beats ::
    "client_env \<Rightarrow> bool \<Rightarrow> (rat \<times> pydict beat) list \<Rightarrow> (rat \<times> sent) list \<times> task_end" where
  "send_beats env incl [] = ([], None)"
| "send_beats env incl ((t, Beat) # es) =
     (case send_beats env incl es of (out, x) \<Rightarrow> ((t, Body KEEP_ALIVE) # out, x))"
| "send_beats env incl ((t, Out chunk) # es) =
     (if dropped incl chunk then send_beats env incl es
      else case public_chunk (public_name env) chunk of
          Inl e \<Rightarrow> ([], Some (Interp e))
        | Inr p \<Rightarrow>
            (case send_beats env incl es of (out, x) \<Rightarrow> ((t, Body (sse (dumps env) p)) # out, x)))"

text \<open>
  \<open>_stream\<close>, begun at \<open>now\<close>: \<open>moments\<close> are the moments at which the producer's items
  arrive. \<open>None\<close>: it never ends.
\<close>

definition stream_answer ::
    "client_env \<Rightarrow> rat \<Rightarrow> bool \<Rightarrow> rat \<Rightarrow> rat list \<Rightarrow> pydict list \<times> request_record \<times> stream_exn option \<Rightarrow>
     ((rat \<times> sent) list \<times> request_record \<times> task_end) option" where
  "stream_answer env interval incl now moments generated =
     (case generated of (chunks, r, e) \<Rightarrow>
      case with_heartbeats interval now (zip moments (produce chunks e)) of
        None \<Rightarrow> None
      | Some (es, t, e') \<Rightarrow>
          Some (case send_beats env incl es of
            (out, Some x) \<Rightarrow> ((now, Start 200 SSE_HEADERS) # out, r\<lparr>rec_status := 200\<rparr>, Some x)
          | (out, None) \<Rightarrow>
              (case e' of
                 None \<Rightarrow>
                   ((now, Start 200 SSE_HEADERS) # out @ [(t, Body DONE), (t, Last [])],
                    r\<lparr>rec_status := 200\<rparr>, None)
               | Some (Backend_exn b) \<Rightarrow>
                   (let err = api_error_of b
                    in ((now, Start 200 SSE_HEADERS) # out @
                          [(t, Body (sse (dumps env) (error_body (show_msg env) err))), (t, Last [])],
                        r\<lparr>rec_status := status err\<rparr>, None))
               | Some x \<Rightarrow>
                   ((now, Start 200 SSE_HEADERS) # out, r\<lparr>rec_status := 200\<rparr>, Some x))))"

section \<open>The complete answer\<close>

text \<open>\<open>JSONResponse\<close> refuses a number that is not finite.\<close>

fun json_finite :: "pyval \<Rightarrow> bool" where
  "json_finite (PFloat f) = (case f of Fin _ \<Rightarrow> True | _ \<Rightarrow> False)"
| "json_finite (PList vs) = list_all json_finite vs"
| "json_finite (PDict d) = list_all (\<lambda>kv. json_finite (snd kv)) d"
| "json_finite _ = True"

definition no_answer :: backend_error where
  "no_answer = \<lparr>failed_status = 502, failed_message = ''the model server sent no answer''\<rparr>"

text \<open>\<open>_collect\<close>: the loop reads all chunks before the generator's exception reaches it.\<close>

definition collect_answer ::
    "string \<Rightarrow> pydict list \<times> request_record \<times> stream_exn option \<Rightarrow> stream_exn + pydict" where
  "collect_answer model generated =
     (case generated of (chunks, r, e) \<Rightarrow>
      case for_each collect_chunk 0 chunks nothing_collected of
        Inl x \<Rightarrow> Inl (Interp x)
      | Inr s \<Rightarrow>
          (case e of
             Some x \<Rightarrow> Inl x
           | None \<Rightarrow>
               (case answer_of model s of
                  Inl x \<Rightarrow> Inl (Interp x)
                | Inr None \<Rightarrow> Inl (Backend_exn no_answer)
                | Inr (Some result) \<Rightarrow> Inr result)))"

definition complete_response ::
    "client_env \<Rightarrow> pydict list \<times> request_record \<times> stream_exn option \<Rightarrow>
     response option \<times> request_record \<times> task_end" where
  "complete_response env generated =
     (let r = fst (snd generated)
      in case collect_answer (public_name env) generated of
           Inr result \<Rightarrow>
             if json_finite (PDict result)
             then (Some \<lparr>resp_status = 200, resp_headers = [], resp_payload = Json result\<rparr>,
                   r\<lparr>rec_status := 200\<rparr>, None)
             else (None, r, Some (Interp ValueError))
         | Inl (Backend_exn b) \<Rightarrow>
             (Some (error_response (show_msg env) (api_error_of b)),
              r\<lparr>rec_status := failed_status b\<rparr>, None)
         | Inl x \<Rightarrow> (None, r, Some x))"

section \<open>Reading the stream\<close>

lemma public_never_raises:
  "well_formed (PDict c) \<Longrightarrow> \<exists>p. public_chunk model c = Inr p"
  using public_chunk_shown by blast

text \<open>The bodies, and the chunks they show.\<close>

fun body_text :: "(rat \<times> sent) \<Rightarrow> string" where
  "body_text (_, Body s) = s" | "body_text (_, Last s) = s" | "body_text (_, Start _ _) = []"

definition shown_to :: "client_env \<Rightarrow> bool \<Rightarrow> pydict list \<Rightarrow> pydict list" where
  "shown_to env incl chunks =
     map (\<lambda>c. case public_chunk (public_name env) c of Inr p \<Rightarrow> p | Inl _ \<Rightarrow> [])
       (filter (\<lambda>c. \<not> dropped incl c) chunks)"

fun data_bodies :: "(rat \<times> sent) list \<Rightarrow> string list" where
  "data_bodies [] = []"
| "data_bodies ((_, Body s) # es) = (if s = KEEP_ALIVE then data_bodies es else s # data_bodies es)"
| "data_bodies (_ # es) = data_bodies es"

lemma data_bodies_append [simp]: "data_bodies (xs @ ys) = data_bodies xs @ data_bodies ys"
  by (induction xs rule: data_bodies.induct) auto

lemma not_keep_alive [simp]: "sse f d \<noteq> KEEP_ALIVE" "DONE \<noteq> KEEP_ALIVE"
  by (simp_all add: sse_def KEEP_ALIVE_def DONE_def)

lemma send_beats_ok:
  assumes "list_all (well_formed \<circ> PDict) (outs es)"
  shows "\<exists>out. send_beats env incl es = (out, None) \<and>
    data_bodies out = map (sse (dumps env)) (shown_to env incl (outs es)) \<and>
    (\<forall>(t, s) \<in> set out. \<exists>b. s = Body b \<and> (b = KEEP_ALIVE \<or> b \<in> range (sse (dumps env))))"
  using assms
proof (induction env incl es rule: send_beats.induct)
  case (2 env incl t es)
  then show ?case by auto
next
  case (3 env incl t chunk es)
  then obtain p where "public_chunk (public_name env) chunk = Inr p"
    using public_never_raises by fastforce
  with 3 show ?case by (auto simp: shown_to_def)
qed (simp add: shown_to_def)

end
