(* ===== verification/Gateway.thy ===== *)
theory Gateway
  imports Answer Tokens Keys Request_Queue
begin

text \<open>
  \<open>gateway/app.py\<close>, the endpoints: who may ask, how a body is read, the checks a chat
  request passes before it waits, and how its answer is run and cleaned up. The key file, the
  queue and the log record are passed along; a request that is being counted lets others run,
  so the queue is seen twice.
\<close>

section \<open>Requests\<close>

record http_request =
  req_method :: string
  req_path :: string
  authorization :: "string option"
  content_length :: "string option"
  body_parts :: "string list"
  cut_off :: bool            \<comment> \<open>the client leaves after these parts\<close>

record gateway_env =
  rules_of :: rules
  keys_of :: key_env
  shown :: "message \<Rightarrow> string"
  loads_body :: "string \<Rightarrow> py_exn + pyval"   \<comment> \<open>\<open>json.loads\<close> of bytes\<close>
  loads_text :: "string \<Rightarrow> py_exn + pyval"
  apply_template :: "pydict list \<Rightarrow> pyval option \<Rightarrow> pydict \<Rightarrow> string + nat list"
  show_exn :: "py_exn \<Rightarrow> string"
  created :: int

text \<open>What a handler can be stopped by.\<close>

datatype stop = Raise raised | Client_gone

definition stopped :: "raised + 'a \<Rightarrow> stop + 'a" where
  "stopped r = (case r of Inl e \<Rightarrow> Inl (Raise e) | Inr x \<Rightarrow> Inr x)"

section \<open>Authentication\<close>

definition bad_key :: api_error where
  "bad_key =
     \<lparr>status = 401,
      message_of = [Txt ''Incorrect or missing API key. Send it as `Authorization: Bearer <key>`.''],
      code_of = Some ''invalid_api_key'', param_of = None, type_of = ''invalid_request_error''\<rparr>"

text \<open>The key file is only looked at for a bearer key.\<close>

definition authenticate ::
    "key_env \<Rightarrow> stamp option \<Rightarrow> toml_file \<Rightarrow> string option \<Rightarrow> key_store \<Rightarrow>
     (api_error + string) \<times> key_store" where
  "authenticate env seen_stamp file auth st =
     (let header = (case auth of None \<Rightarrow> [] | Some h \<Rightarrow> h);
          (scheme, _, key) = partition_at (CHR '' '') header
      in if str_lower scheme = ''bearer'' \<and> key \<noteq> []
         then case check_key env seen_stamp file (strip key) st of
             (Some name, st') \<Rightarrow> (Inr name, st')
           | (None, st') \<Rightarrow> (Inl bad_key, st')
         else (Inl bad_key, st))"

section \<open>The body\<close>

definition MAX_BODY_BYTES :: nat where
  "MAX_BODY_BYTES = 16 * 1024 * 1024"

definition too_large :: stop where
  "too_large = Raise (api 413 [Txt ''the request body is too large''] None None)"

text \<open>\<open>int(s)\<close> also refuses more than 4300 digits.\<close>

definition int_of_header :: "string \<Rightarrow> py_exn + int" where
  "int_of_header s = (if length s > 4300 then Inl ValueError else int_of_digits s)"

definition check_length :: "string option \<Rightarrow> stop + unit" where
  "check_length len =
     (case len of
        None \<Rightarrow> Inr ()
      | Some s \<Rightarrow>
          if \<not> str_isdigit s then Inr ()
          else and_then (stopped (py (int_of_header s))) (\<lambda>n.
            ensure (n \<le> int MAX_BODY_BYTES) too_large))"

text \<open>The loop over the parts that arrive; \<open>kept\<close> counts what has been kept so far.\<close>

fun read_parts :: "nat \<Rightarrow> string list \<Rightarrow> bool \<Rightarrow> stop + string list" where
  "read_parts kept [] gone = (if gone then Inl Client_gone else Inr [])"
| "read_parts kept (part # parts) gone =
     (if kept + length part > MAX_BODY_BYTES then Inl too_large
      else and_then (read_parts (kept + length part) parts gone) (\<lambda>ps. Inr (part # ps)))"

definition not_json :: stop where
  "not_json = Raise (api 400 [Txt ''the request body is not valid JSON''] None None)"

definition read_json :: "(string \<Rightarrow> py_exn + pyval) \<Rightarrow> http_request \<Rightarrow> stop + pyval" where
  "read_json loads req =
     and_then (check_length (content_length req)) (\<lambda>_.
     and_then (read_parts 0 (body_parts req) (cut_off req)) (\<lambda>parts.
     case loads (concat parts) of
       Inr v \<Rightarrow> Inr v
     | Inl e \<Rightarrow> if e = ValueError \<or> e = RecursionError then Inl not_json else Inl (Raise (Py e))))"

section \<open>Counting\<close>

text \<open>\<open>ChatTemplateCounter.count\<close>: the tokenizer is a parameter, any exception is its text.\<close>

definition count_prompt :: "gateway_env \<Rightarrow> prepared \<Rightarrow> string + int" where
  "count_prompt env p =
     (case normalize_messages (loads_text env) (messages_of p) of
        Inl e \<Rightarrow> Inl (show_exn env e)
      | Inr ms \<Rightarrow>
          (case apply_template env ms (tools_of p) (template_args p) of
             Inl msg \<Rightarrow> Inl msg
           | Inr tokens \<Rightarrow> Inr (int (length tokens))))"

section \<open>The chat endpoint\<close>

definition busy :: api_error where
  "busy =
     \<lparr>status = 429,
      message_of = [Txt (''The server is busy with other requests; try again in '' @
        show_int RETRY_AFTER_SECONDS @ '' seconds.'')],
      code_of = Some ''rate_limit_exceeded'', param_of = None, type_of = ''rate_limit_error''\<rparr>"

definition internal_error :: api_error where
  "internal_error =
     \<lparr>status = 500, message_of = [Txt ''internal error''], code_of = None, param_of = None,
      type_of = ''server_error''\<rparr>"

definition CLIENT_CLOSED :: int where
  "CLIENT_CLOSED = 499"

definition SHUTTING_DOWN :: int where
  "SHUTTING_DOWN = 503"

text \<open>
  From the prepared request to a place in the queue: \<open>q1\<close> is the queue before the count,
  \<open>q2\<close> after it.
\<close>

definition admit ::
    "gateway_env \<Rightarrow> prepared \<Rightarrow> request_queue \<Rightarrow> request_queue \<Rightarrow> request_record \<Rightarrow>
     (stop + prepared \<times> nat \<times> request_queue) \<times> request_record" where
  "admit env p q1 q2 r =
     (let r1 = r\<lparr>rec_stream := Some (stream_of p), rec_effort := effort_of p\<rparr>
      in if full q1 then (Inl (Raise (Api busy)), r1)
         else case count_prompt env p of
           Inl msg \<Rightarrow>
             (Inl (Raise (api 400 [Txt (''cannot apply the chat template: '' @ msg)] None None)), r1)
         | Inr n \<Rightarrow>
             let r2 = r1\<lparr>rec_prompt_tokens := Some n\<rparr>
             in case limit n (requested_max_tokens p) (limits_of (rules_of env)) of
                  Inl e \<Rightarrow> (Inl (Raise e), r2)
                | Inr m \<Rightarrow>
                    let r3 = r2\<lparr>rec_max_tokens := Some m\<rparr>;
                        p' = p\<lparr>body_of := AList.update ''max_tokens'' (PInt m) (body_of p)\<rparr>
                    in case reserve q2 of
                         Inl QueueFull \<Rightarrow> (Inl (Raise (Api busy)), r3)
                       | Inr (place, q) \<Rightarrow> (Inr (p', place, q), r3))"

definition chat_try ::
    "gateway_env \<Rightarrow> stamp option \<Rightarrow> toml_file \<Rightarrow> http_request \<Rightarrow> key_store \<Rightarrow>
     request_queue \<Rightarrow> request_queue \<Rightarrow>
     (stop + prepared \<times> nat \<times> request_queue) \<times> request_record \<times> key_store" where
  "chat_try env seen_stamp file req st q1 q2 =
     (case authenticate (keys_of env) seen_stamp file (authorization req) st of
        (Inl e, st') \<Rightarrow> (Inl (Raise (Api e)), new_record, st')
      | (Inr name, st') \<Rightarrow>
          let r = new_record\<lparr>rec_key := name\<rparr>
          in case and_then (read_json (loads_body env) req)
                    (\<lambda>v. stopped (prepare (loads_text env) v (rules_of env))) of
               Inl e \<Rightarrow> (Inl e, r, st')
             | Inr p \<Rightarrow> (case admit env p q1 q2 r of (res, r') \<Rightarrow> (res, r', st')))"

text \<open>Either a response, or an answer to run with the place it holds.\<close>

datatype chat_result = Respond response | Run prepared nat

definition chat ::
    "gateway_env \<Rightarrow> stamp option \<Rightarrow> toml_file \<Rightarrow> http_request \<Rightarrow> key_store \<Rightarrow>
     request_queue \<Rightarrow> request_queue \<Rightarrow> chat_result \<times> request_record \<times> key_store \<times> request_queue" where
  "chat env seen_stamp file req st q1 q2 =
     (case chat_try env seen_stamp file req st q1 q2 of
        (Inr (p, place, q), r, st') \<Rightarrow> (Run p place, r, st', q)
      | (Inl (Raise (Api e)), r, st') \<Rightarrow>
          (Respond (error_response (shown env) e), r\<lparr>rec_status := status e\<rparr>, st', q2)
      | (Inl Client_gone, r, st') \<Rightarrow>
          (Respond \<lparr>resp_status = CLIENT_CLOSED, resp_headers = [], resp_payload = Empty\<rparr>,
           r\<lparr>rec_status := CLIENT_CLOSED\<rparr>, st', q2)
      | (Inl (Raise (Py e)), r, st') \<Rightarrow>
          (Respond (error_response (shown env) internal_error), r\<lparr>rec_status := 500\<rparr>, st', q2))"

section \<open>Running the answer\<close>

text \<open>
  \<open>ChatResponse\<close>: what ends the wait (the answer, the client leaving, or the server being
  stopped, then whether the answer had ended), and how the answer's task ends after it.
\<close>

datatype wake = Answer_ended | Client_left | Server_stops bool

datatype task_result = Returned_normally | Was_cancelled | Raised_exception

fun wait_disconnect :: "string list \<Rightarrow> string list option" where
  "wait_disconnect [] = None"
| "wait_disconnect (m # ms) = (if m = ''http.disconnect'' then Some ms else wait_disconnect ms)"

definition chat_call ::
    "wake \<Rightarrow> task_result \<Rightarrow> nat \<Rightarrow> request_record \<Rightarrow> request_queue \<Rightarrow> request_record \<times> request_queue" where
  "chat_call wake result place r q =
     (let r1 = (case wake of
                  Answer_ended \<Rightarrow> r
                | Client_left \<Rightarrow> r\<lparr>rec_status := CLIENT_CLOSED\<rparr>
                | Server_stops ended \<Rightarrow> if ended then r else r\<lparr>rec_status := SHUTTING_DOWN\<rparr>);
          r2 = (if result = Raised_exception then r1\<lparr>rec_status := 500\<rparr> else r1)
      in (r2, give_up place q))"

section \<open>The other endpoints\<close>

definition model_entry :: "gateway_env \<Rightarrow> pydict" where
  "model_entry env =
     [(''id'', PStr (rules.model_name (rules_of env))), (''object'', PStr ''model''),
      (''created'', PInt (created env)), (''owned_by'', PStr ''agent-lab'')]"

definition no_such_model :: "string \<Rightarrow> api_error" where
  "no_such_model m =
     \<lparr>status = 404, message_of = [Txt (''The model `'' @ m @ ''` does not exist.'')],
      code_of = Some ''model_not_found'', param_of = None, type_of = ''invalid_request_error''\<rparr>"

text \<open>\<open>model\<close> is the path parameter, if the route has one.\<close>

definition models ::
    "gateway_env \<Rightarrow> stamp option \<Rightarrow> toml_file \<Rightarrow> http_request \<Rightarrow> string option \<Rightarrow> key_store \<Rightarrow>
     response \<times> request_record \<times> key_store" where
  "models env seen_stamp file req model st =
     (case authenticate (keys_of env) seen_stamp file (authorization req) st of
        (res, st') \<Rightarrow>
          let r = (case res of Inr name \<Rightarrow> new_record\<lparr>rec_key := name\<rparr> | Inl _ \<Rightarrow> new_record);
              answer = and_then res (\<lambda>_.
                case model of
                  Some m \<Rightarrow>
                    if m \<noteq> rules.model_name (rules_of env)
                    then Inl (no_such_model m)
                    else Inr (if m \<noteq> [] then model_entry env
                              else [(''object'', PStr ''list''), (''data'', PList [PDict (model_entry env)])])
                | None \<Rightarrow> Inr [(''object'', PStr ''list''), (''data'', PList [PDict (model_entry env)])])
          in case answer of
               Inr body \<Rightarrow> (\<lparr>resp_status = 200, resp_headers = [], resp_payload = Json body\<rparr>,
                            r\<lparr>rec_status := 200\<rparr>, st')
             | Inl e \<Rightarrow> (error_response (shown env) e, r\<lparr>rec_status := status e\<rparr>, st'))"

text \<open>The backend's status of \<open>/health\<close>, or none after an \<open>HTTPError\<close>.\<close>

definition healthz :: "int option \<Rightarrow> response" where
  "healthz reply =
     (if reply = Some 200
      then \<lparr>resp_status = 200, resp_headers = [], resp_payload = Plain ''ok''\<rparr>
      else \<lparr>resp_status = 503, resp_headers = [], resp_payload = Plain ''unavailable''\<rparr>)"

datatype endpoint = Chat_completions | Models | Healthz

definition routes :: "(string \<times> endpoint \<times> string list) list" where
  "routes =
     [(''/v1/chat/completions'', Chat_completions, [''POST'']), (''/v1/models'', Models, [''GET'']),
      (''/v1/models/{model:path}'', Models, [''GET'']), (''/healthz'', Healthz, [''GET''])]"

text \<open>The status and headers come from the framework's exception.\<close>

definition no_route ::
    "gateway_env \<Rightarrow> http_request \<Rightarrow> int option \<Rightarrow> (string \<times> string) list \<Rightarrow> response" where
  "no_route env req exc_status exc_headers =
     (let st = (case exc_status of None \<Rightarrow> 404 | Some s \<Rightarrow> s);
          message = (if st = 405 then req_method req @ '' is not allowed on '' @ req_path req
                     else ''no route for '' @ req_method req @ '' '' @ req_path req);
          resp = error_response (shown env)
            \<lparr>status = st, message_of = [Txt message], code_of = None, param_of = None,
             type_of = ''invalid_request_error''\<rparr>
      in resp\<lparr>resp_headers := dict_merge (resp_headers resp) exc_headers\<rparr>)"

end
