(* ===== verification/Admission.thy ===== *)
theory Admission
  imports Request_Queue
begin

text \<open>
  What the chat endpoint relies on of the request queue: a place is refused only when the
  queue is full, a granted one counts until it is given up, and giving it up again does
  nothing.
\<close>

locale admission =
  fixes is_full :: "'q \<Rightarrow> bool"
    and take_place :: "'q \<Rightarrow> 'e + nat \<times> 'q"
    and give_back :: "nat \<Rightarrow> 'q \<Rightarrow> 'q"
    and holds :: "'q \<Rightarrow> nat \<Rightarrow> bool"
    and load :: "'q \<Rightarrow> int"
  assumes refused_iff_full: "(\<exists>e. take_place q = Inl e) \<longleftrightarrow> is_full q"
    and taken: "take_place q = Inr (p, q') \<Longrightarrow> holds q' p \<and> load q' = load q + 1"
    and given_back: "holds q p \<Longrightarrow> \<not> holds (give_back p q) p \<and> load (give_back p q) = load q - 1"
    and not_held: "\<not> holds q p \<Longrightarrow> give_back p q = q"
begin

lemma admits_iff: "(\<exists>p q'. take_place q = Inr (p, q')) \<longleftrightarrow> \<not> is_full q"
  using refused_iff_full [of q] by (cases "take_place q") auto

lemma given_back_free: "\<not> holds (give_back p q) p"
  by (cases "holds q p") (simp_all add: given_back not_held)

lemma given_back_once: "give_back p (give_back p q) = give_back p q"
  by (rule not_held [OF given_back_free])

lemma unused_place_leaves_no_trace:
  "take_place q = Inr (p, q') \<Longrightarrow> load (give_back p q') = load q"
  using taken [of q p q'] given_back [of q' p] by simp

end

interpretation places: admission full reserve give_up place_waiting "\<lambda>q. active q + waiting q"
proof
  fix q :: request_queue and p q'
  show "(\<exists>e. reserve q = Inl e) \<longleftrightarrow> full q" by (auto simp: reserve_eq_Inl reserve_def Let_def)
  show "reserve q = Inr (p, q') \<Longrightarrow>
      place_waiting q' p \<and> active q' + waiting q' = active q + waiting q + 1"
    by (auto simp: reserve_def changed_def Let_def split: if_splits)
  show "place_waiting q p \<Longrightarrow> \<not> place_waiting (give_up p q) p \<and>
      active (give_up p q) + waiting (give_up p q) = active q + waiting q - 1"
    by (simp add: give_up_def leave_def changed_def Let_def)
  show "\<not> place_waiting q p \<Longrightarrow> give_up p q = q"
    by (simp add: give_up_def leave_def Let_def)
qed

end
