(* ===== verification/Gateway_Properties.thy ===== *)
theory Gateway_Properties
  imports Gateway Admission
begin

text \<open>
  The endpoints' guarantees: nothing happens without a key, a body is read within its limit,
  a chat request is admitted exactly when there is room, and its place is given back.
\<close>

section \<open>Reading a body\<close>

lemma read_parts_eq:
  assumes "kept \<le> MAX_BODY_BYTES"
  shows "read_parts kept parts gone =
    (if MAX_BODY_BYTES < kept + length (concat parts) then Inl too_large
     else if gone then Inl Client_gone else Inr parts)"
  using assms by (induction kept parts gone rule: read_parts.induct) (auto simp: add.assoc)

section \<open>Admission\<close>

lemma admit_cases:
  assumes "count_prompt env p = Inr n" and "limit n (requested_max_tokens p) (limits_of (rules_of env)) = Inr m"
  shows "\<exists>r'. admit env p q1 q2 r =
    (if full q1 \<or> full q2 then Inl (Raise (Api busy))
     else (case reserve q2 of Inr (place, q) \<Rightarrow>
        Inr (p\<lparr>body_of := AList.update ''max_tokens'' (PInt m) (body_of p)\<rparr>, place, q)), r') \<and>
    rec_key r' = rec_key r \<and>
    (\<not> full q1 \<longrightarrow> rec_prompt_tokens r' = Some n \<and> rec_max_tokens r' = Some m)"
proof (cases "reserve q2")
  case (Inl e)
  then have "full q2" using places.refused_iff_full by blast
  moreover have "e = QueueFull" by (cases e)
  ultimately show ?thesis using assms Inl by (simp add: admit_def Let_def)
next
  case (Inr pq)
  then have "\<not> full q2" using places.admits_iff by (cases pq) blast
  with assms Inr show ?thesis by (cases pq) (simp add: admit_def Let_def)
qed

lemma admit_run:
  assumes "admit env p q1 q2 r = (Inr (p', place, q), r')"
  obtains n m where "count_prompt env p = Inr n"
    "limit n (requested_max_tokens p) (limits_of (rules_of env)) = Inr m"
    "\<not> full q1" "reserve q2 = Inr (place, q)"
    "p' = p\<lparr>body_of := AList.update ''max_tokens'' (PInt m) (body_of p)\<rparr>"
  using assms that
  by (auto simp: admit_def Let_def split: if_splits sum.splits queue_error.splits prod.splits)

lemma chat_run_reserve:
  assumes "chat env seen_stamp file req st q1 q2 = (Run p place, r, st', q)"
  shows "reserve q2 = Inr (place, q)"
  using assms
  by (auto simp: chat_def chat_try_def Let_def elim!: admit_run
      split: prod.splits sum.splits stop.splits raised.splits)

lemma partition_at_split:
  assumes "partition_at c s = (a, found, b)" and "b \<noteq> []"
  shows "s = a @ c # b"
proof -
  from assms have *: "a = takeWhile (\<lambda>x. x \<noteq> c) s" "b = drop 1 (dropWhile (\<lambda>x. x \<noteq> c) s)"
    by (simp_all add: partition_at_def)
  with assms(2) obtain d ds where d: "dropWhile (\<lambda>x. x \<noteq> c) s = d # ds"
    by (cases "dropWhile (\<lambda>x. x \<noteq> c) s") auto
  with hd_dropWhile [of "\<lambda>x. x \<noteq> c" s] have "d = c" by simp
  moreover have "s = a @ dropWhile (\<lambda>x. x \<noteq> c) s" by (simp add: *)
  ultimately show ?thesis using * d by simp
qed

lemma authenticate_cases:
  "case authenticate env seen_stamp kf auth st of
     (Inr name, st') \<Rightarrow> \<exists>scheme key. auth = Some (scheme @ CHR '' '' # key) \<and>
       str_lower scheme = ''bearer'' \<and> check_key env seen_stamp kf (strip key) st = (Some name, st')
   | (Inl e, st') \<Rightarrow> e = bad_key"
proof -
  obtain scheme found key where p: "partition_at (CHR '' '') (case auth of None \<Rightarrow> [] | Some h \<Rightarrow> h) = (scheme, found, key)"
    by (metis prod.exhaust)
  show ?thesis
  proof (cases "str_lower scheme = ''bearer'' \<and> key \<noteq> []")
    case True
    from partition_at_split [OF p] True
    have split: "(case auth of None \<Rightarrow> [] | Some h \<Rightarrow> h) = scheme @ CHR '' '' # key" by simp
    then obtain h where "auth = Some h" "h = scheme @ CHR '' '' # key" by (cases auth) auto
    with True p show ?thesis
      by (auto simp: authenticate_def split: option.splits prod.splits)
  qed (use p in \<open>auto simp: authenticate_def\<close>)
qed

lemma authenticate_bad: "authenticate env s f auth st = (Inl e, st') \<Longrightarrow> e = bad_key"
  using authenticate_cases [where env = env and seen_stamp = s and kf = f and auth = auth and st = st]
  by simp

lemma admit_key: "admit env p q1 q2 r = (res, r') \<Longrightarrow> rec_key r' = rec_key r"
  by (auto simp: admit_def Let_def split: if_splits sum.splits queue_error.splits prod.splits)

section \<open>Properties\<close>

text \<open>
  C21: Nothing happens without a key. A \<open>/v1\<close> request is let in only with the header
  \<open>Bearer <key>\<close> (in any case) whose key the key store finds; otherwise both endpoints answer
  401 with a \<open>WWW-Authenticate\<close> header and log it without a name, the body is not read, the
  queue does not change and no answer is run.
\<close>

theorem nothing_without_a_key:
  "case authenticate (keys_of env) seen_stamp file (authorization req) st of
     (Inr name, st') \<Rightarrow> \<exists>scheme key. authorization req = Some (scheme @ CHR '' '' # key) \<and>
       str_lower scheme = ''bearer'' \<and>
       check_key (keys_of env) seen_stamp file (strip key) st = (Some name, st')
   | (Inl e, st') \<Rightarrow>
       let resp = error_response (shown env) bad_key
       in resp_status resp = 401 \<and> resp_headers resp = [(''WWW-Authenticate'', ''Bearer'')] \<and>
          chat env seen_stamp file req st q1 q2 =
            (Respond resp, new_record\<lparr>rec_status := 401\<rparr>, st', q2) \<and>
          models env seen_stamp file req model st = (resp, new_record\<lparr>rec_status := 401\<rparr>, st')"
proof (cases "authenticate (keys_of env) seen_stamp file (authorization req) st")
  case (Pair res st')
  show ?thesis
  proof (cases res)
    case (Inl e)
    with Pair authenticate_bad have e: "e = bad_key" by blast
    have "status bad_key = 401" by (simp add: bad_key_def)
    with Pair Inl e show ?thesis
      by (simp add: Let_def chat_def chat_try_def models_def error_response_def)
  next
    case (Inr name)
    with Pair authenticate_cases
      [where env = "keys_of env" and seen_stamp = seen_stamp and kf = "file" and auth = "authorization req" and st = st]
    show ?thesis by simp
  qed
qed

text \<open>
  A body is read exactly: the loop that stops early gives what a reader would that keeps
  everything first. A body over 16 MiB is refused with 413, a shorter one of a client that
  left is not answered, any other is parsed, and what does not parse is refused with 400; a
  length header that says too much is believed without reading.
\<close>

lemma body_read_exactly:
  "read_json loads req =
     and_then (check_length (content_length req)) (\<lambda>_.
       if 16777216 < length (concat (body_parts req)) then Inl too_large
       else if cut_off req then Inl Client_gone
       else case loads (concat (body_parts req)) of
         Inr v \<Rightarrow> Inr v
       | Inl e \<Rightarrow> if e = ValueError \<or> e = RecursionError then Inl not_json else Inl (Raise (Py e)))"
  by (cases "check_length (content_length req)")
    (simp_all add: read_json_def read_parts_eq, simp add: MAX_BODY_BYTES_def)

text \<open>
  C22: A good request is admitted exactly when there is room: with a valid key, a body that
  \<open>prepare\<close> accepts, and a prompt that can be counted and fits, the answer is run if the
  queue is full neither before nor after the count, and is 429 with \<open>Retry-After\<close> and an
  unchanged queue otherwise. What runs holds a new place, and the backend is told a
  \<open>max_tokens\<close> that fits the context next to the prompt.
\<close>

theorem chat_admits_exactly_when_room:
  assumes "authenticate (keys_of env) seen_stamp file (authorization req) st = (Inr name, st')"
    and "read_json (loads_body env) req = Inr v"
    and "prepare (loads_text env) v (rules_of env) = Inr p0"
    and "count_prompt env p0 = Inr n"
    and "limit n (requested_max_tokens p0) (limits_of (rules_of env)) = Inr m"
  shows "case chat env seen_stamp file req st q1 q2 of
      (Respond resp, r, _, q) \<Rightarrow> (full q1 \<or> full q2) \<and> q = q2 \<and> rec_key r = name \<and>
        rec_status r = 429 \<and> resp_status resp = 429 \<and> resp_headers resp = [(''Retry-After'', ''30'')]
    | (Run p place, r, _, q) \<Rightarrow> \<not> full q1 \<and> \<not> full q2 \<and> rec_key r = name \<and>
        rec_prompt_tokens r = Some n \<and> rec_max_tokens r = Some m \<and>
        n + m \<le> limits.max_context (limits_of (rules_of env)) \<and>
        p = p0\<lparr>body_of := AList.update ''max_tokens'' (PInt m) (body_of p0)\<rparr> \<and>
        place_waiting q place \<and> active q + waiting q = active q2 + waiting q2 + 1"
proof -
  from admit_cases [OF assms(4,5), of q1 q2 "new_record\<lparr>rec_key := name\<rparr>"] obtain r where
    admit: "admit env p0 q1 q2 (new_record\<lparr>rec_key := name\<rparr>) =
      (if full q1 \<or> full q2 then Inl (Raise (Api busy))
       else (case reserve q2 of Inr (place, q) \<Rightarrow>
          Inr (p0\<lparr>body_of := AList.update ''max_tokens'' (PInt m) (body_of p0)\<rparr>, place, q)), r)"
    and r: "rec_key r = name" "\<not> full q1 \<longrightarrow> rec_prompt_tokens r = Some n \<and> rec_max_tokens r = Some m"
    by auto
  have fits: "n + m \<le> limits.max_context (limits_of (rules_of env))"
    using assms(5) by (auto simp: limit_def Let_def split: if_splits option.splits)
  have tried: "chat_try env seen_stamp file req st q1 q2 =
      (if full q1 \<or> full q2 then Inl (Raise (Api busy))
       else (case reserve q2 of Inr (place, q) \<Rightarrow>
          Inr (p0\<lparr>body_of := AList.update ''max_tokens'' (PInt m) (body_of p0)\<rparr>, place, q)), r, st')"
    by (simp add: chat_try_def assms(1-3) stopped_def admit)
  show ?thesis
  proof (cases "full q1 \<or> full q2")
    case True
    have "show_int RETRY_AFTER_SECONDS = ''30''"
      by (simp add: show_int_def RETRY_AFTER_SECONDS_def show_nat.simps digit_char_def char_of_def
          bit_0)
    with True tried r show ?thesis by (simp add: chat_def busy_def error_response_def)
  next
    case False
    then obtain place q where res: "reserve q2 = Inr (place, q)" using places.admits_iff by blast
    with False tried r fits places.taken [OF res] show ?thesis by (simp add: chat_def)
  qed
qed

text \<open>A gateway with one key and an empty queue, and one whose only slot is taken.\<close>

definition sample_keys :: key_env where
  "sample_keys = \<lparr>parse_toml = (\<lambda>_. Inl []), show_other = (\<lambda>_. []), sha256 = map of_char, keys_path = ''k''\<rparr>"

definition sample_store :: key_store where
  "sample_store = \<lparr>last_stamp = Some (7, 7, 7), hashes = [(''cursor'', map of_char ''sk'')]\<rparr>"

definition sample_gateway :: gateway_env where
  "sample_gateway =
     \<lparr>rules_of = sample_rules, keys_of = sample_keys, shown = (\<lambda>_. []),
      loads_body = (\<lambda>s. if s = ''body'' then Inr (PDict sample_body) else Inl ValueError),
      loads_text = no_json, apply_template = (\<lambda>_ _ _. Inr [1, 2, 3]), show_exn = (\<lambda>_. []), created = 0\<rparr>"

definition sample_request :: http_request where
  "sample_request =
     \<lparr>req_method = ''POST'', req_path = ''/v1/chat/completions'', authorization = Some ''Bearer sk'',
      content_length = None, body_parts = [''bo'', ''dy''], cut_off = False\<rparr>"

lemma lower_bearer: "str_lower ''Bearer'' = ''bearer''"
  by code_simp

lemma sample_let_in:
  "authenticate (keys_of sample_gateway) (Some (7, 7, 7)) NoFile (authorization sample_request) sample_store =
     (Inr ''cursor'', sample_store)"
  by (simp add: authenticate_def sample_request_def partition_at_def lower_bearer code_def
      strip_def is_space_def check_key_def refresh_def sample_store_def sample_gateway_def sample_keys_def Let_def)

lemma sample_read: "read_json (loads_body sample_gateway) sample_request = Inr (PDict sample_body)"
  by (simp add: read_json_def check_length_def sample_request_def read_parts_eq sample_gateway_def MAX_BODY_BYTES_def)

lemma sample_prepare': "prepare (loads_text sample_gateway) (PDict sample_body) (rules_of sample_gateway) = Inr sample_prepared"
  using sample_prepare by (simp add: sample_gateway_def)

lemma sample_count: "count_prompt sample_gateway sample_prepared = Inr 3"
proof -
  have "messages_of sample_prepared =
      [[(''role'', PStr ''system''), (''content'', PStr ''be brief'')],
       [(''role'', PStr ''user''), (''content'', PList [PDict [(''type'', PStr ''text''), (''text'', PStr ''hi'')]])]]"
    by (simp add: sample_prepared_def request_eval)
  then show ?thesis
    by (simp add: count_prompt_def sample_gateway_def normalize_messages_def normalize_message_def
        normalize_content_def normalize_calls_def join_parts_def join_strs_def item_get_def)
qed

lemma sample_limit:
  "limit 3 (requested_max_tokens sample_prepared) (limits_of (rules_of sample_gateway)) = Inr 50"
  by (simp add: sample_prepared_fields limit_def Let_def sample_gateway_def sample_rules_def)

lemmas sample_steps = sample_let_in sample_read sample_prepare' sample_count sample_limit

lemma chat_runs_sample:
  "\<exists>p place r q. chat sample_gateway (Some (7, 7, 7)) NoFile sample_request sample_store (new_queue 1) (new_queue 1) =
     (Run p place, r, sample_store, q)"
  by (simp add: chat_def chat_try_def sample_let_in sample_read sample_prepare' stopped_def admit_def
      sample_count sample_limit full_def new_queue_def reserve_def changed_def Let_def)

lemma chat_admits_exactly_when_room_witness:
  "\<exists>p place r q. chat sample_gateway (Some (7, 7, 7)) NoFile sample_request sample_store (new_queue 1) (new_queue 1) =
     (Run p place, r, sample_store, q) \<and> rec_max_tokens r = Some 50 \<and> place_waiting q place"
proof -
  have "\<not> full (new_queue 1)" by (simp add: full_def new_queue_def)
  with chat_admits_exactly_when_room [OF sample_steps, of "new_queue 1" "new_queue 1"] chat_runs_sample
  show ?thesis by fastforce
qed

text \<open>
  A refusal leaves no trace: whenever the endpoint answers by itself, the queue is what it
  was and the log says the status that was sent; a name is logged only for a request that was
  let in.
\<close>

theorem refusal_leaves_no_trace:
  assumes "chat env seen_stamp file req st q1 q2 = (Respond resp, r, st', q)"
  shows "q = q2 \<and> rec_status r = resp_status resp \<and>
         st' = snd (authenticate (keys_of env) seen_stamp file (authorization req) st) \<and>
         (rec_key r = ''-'' \<or>
          fst (authenticate (keys_of env) seen_stamp file (authorization req) st) = Inr (rec_key r))"
proof -
  obtain res st1 where auth: "authenticate (keys_of env) seen_stamp file (authorization req) st = (res, st1)"
    by (metis prod.exhaust)
  have key: "rec_key r1 = ''-'' \<or> res = Inr (rec_key r1)" and st: "st2 = st1"
    if "chat_try env seen_stamp file req st q1 q2 = (x, r1, st2)" for x r1 st2
    using that auth
    by (auto simp: chat_try_def Let_def new_record_def dest!: admit_key split: sum.splits prod.splits)
  show ?thesis
    using assms key st auth
    by (auto simp: chat_def error_response_def internal_error_def
        split: prod.splits sum.splits stop.splits raised.splits)
qed

lemma refusal_leaves_no_trace_witness:
  "\<exists>resp r. chat sample_gateway (Some (7, 7, 7)) NoFile (sample_request\<lparr>authorization := None\<rparr>) sample_store
       (new_queue 1) (new_queue 1) = (Respond resp, r, sample_store, new_queue 1) \<and>
     rec_status r = resp_status resp"
proof -
  have "chat sample_gateway (Some (7, 7, 7)) NoFile (sample_request\<lparr>authorization := None\<rparr>) sample_store
       (new_queue 1) (new_queue 1) =
      (Respond (error_response (shown sample_gateway) bad_key), new_record\<lparr>rec_status := 401\<rparr>, sample_store,
       new_queue 1)"
    by (simp add: chat_def chat_try_def authenticate_def partition_at_def str_lower_def bad_key_def Let_def)
  with refusal_leaves_no_trace [OF this] show ?thesis by blast
qed

text \<open>
  C23: The place of an accepted request is always given back: when its response is over,
  whatever ended the wait and however the answer's task ended, the place is no longer held,
  giving it up again changes nothing, and if the answer never got to the backend the queue is
  as loaded as before the request. The log says 500 for an exception, else 499 for a client
  that left and 503 for a stopped server, else the status of the answer.
\<close>

theorem place_always_given_back:
  assumes "chat env seen_stamp file req st q1 q2 = (Run p place, r0, st', q)"
    and "chat_call wake result place r q3 = (r', q4)"
  shows "\<not> place_waiting q4 place \<and> give_up place q4 = q4 \<and>
         (q3 = q \<longrightarrow> active q4 + waiting q4 = active q2 + waiting q2) \<and>
         rec_status r' =
           (if result = Raised_exception then 500
            else if wake = Client_left then 499
            else if wake = Server_stops False then 503 else rec_status r)"
proof -
  from assms(2) have q4: "q4 = give_up place q3" by (auto simp: chat_call_def Let_def)
  from assms(2) have "rec_status r' =
           (if result = Raised_exception then 500
            else if wake = Client_left then 499
            else if wake = Server_stops False then 503 else rec_status r)"
    by (auto simp: chat_call_def Let_def CLIENT_CLOSED_def SHUTTING_DOWN_def split: wake.splits)
  with places.given_back_free places.given_back_once
    places.unused_place_leaves_no_trace [OF chat_run_reserve [OF assms(1)]]
  show ?thesis by (simp add: q4)
qed

lemma place_always_given_back_witness:
  "\<exists>p place r0 q. chat sample_gateway (Some (7, 7, 7)) NoFile sample_request sample_store (new_queue 1) (new_queue 1) =
       (Run p place, r0, sample_store, q) \<and>
     \<not> place_waiting (snd (chat_call Client_left Was_cancelled place r0 q)) place"
proof -
  obtain p place r0 q where run: "chat sample_gateway (Some (7, 7, 7)) NoFile sample_request sample_store
      (new_queue 1) (new_queue 1) = (Run p place, r0, sample_store, q)" using chat_runs_sample by blast
  obtain r' q4 where "chat_call Client_left Was_cancelled place r0 q = (r', q4)" by (metis prod.exhaust)
  with place_always_given_back [OF run this] run show ?thesis by auto
qed

end
