(* ===== verification/Key_Life.thy ===== *)
theory Key_Life
  imports Key_Properties Gateway_Properties
begin

text \<open>
  A key from \<open>alab keys create\<close> to \<open>alab keys revoke\<close>, seen from the endpoint: the commands of
  \<open>gateway/keys.py\<close>, the file between them and the gateway, its cached view, and the answer.
\<close>

section \<open>The header of a key\<close>

lemma bearer_no_space: "str_lower scheme = ''bearer'' \<Longrightarrow> CHR '' '' \<notin> set scheme"
proof
  assume low: "str_lower scheme = ''bearer''" and "CHR '' '' \<in> set scheme"
  then have "lower_char (CHR '' '') \<in> set (str_lower scheme)" unfolding str_lower_def set_map by (metis imageI)
  moreover have "lower_char (CHR '' '') = CHR '' ''" by code_simp
  ultimately show False using low by simp
qed

lemma header_splits:
  assumes "CHR '' '' \<notin> set scheme"
  shows "partition_at (CHR '' '') (scheme @ CHR '' '' # key) = (scheme, True, key)"
  using assms by (auto simp: partition_at_def takeWhile_append dropWhile_append)

lemma authenticate_bearer:
  assumes "auth = Some (scheme @ CHR '' '' # key)" and "str_lower scheme = ''bearer''"
    and "key \<noteq> []" and "list_all (\<lambda>c. \<not> is_space c) key"
  shows "authenticate env seen_stamp file auth st =
    (case check_key env seen_stamp file key st of
       (Some name, st') \<Rightarrow> (Inr name, st')
     | (None, st') \<Rightarrow> (Inl bad_key, st'))"
proof -
  have "strip key = key" using assms(3,4) by (intro strip_id) (auto simp: list_all_iff)
  then show ?thesis
    using assms(1-3) header_splits [OF bearer_no_space [OF assms(2)]] by (simp add: authenticate_def)
qed

lemma chat_names_the_key:
  assumes "authenticate (keys_of env) seen_stamp file (authorization req) st = (Inr name, st1)"
    and "chat env seen_stamp file req st q1 q2 = (res, r, st', q)"
  shows "rec_key r = name"
  using assms
  by (auto simp: chat_def chat_try_def Let_def dest!: admit_key
      split: sum.splits prod.splits stop.splits raised.splits)

lemma chat_without_key:
  assumes "authenticate (keys_of env) seen_stamp file (authorization req) st = (Inl bad_key, st1)"
  shows "chat env seen_stamp file req st q1 q2 =
    (Respond (error_response (shown env) bad_key), new_record\<lparr>rec_status := 401\<rparr>, st1, q2)"
  using assms by (simp add: chat_def chat_try_def bad_key_def)

section \<open>The property\<close>

text \<open>
  C14: Keys take effect and lose it without a restart. From the moment \<open>create\<close> has returned a
  key (whose digest no other entry has), the endpoint lets a request with \<open>Bearer <key>\<close> in under
  the key's name, and from the moment \<open>revoke\<close> has returned it answers 401, reads nothing and
  leaves the queue alone; whatever the gateway had cached, and whatever writes and half-done looks
  at the file came before and between.
\<close>

theorem key_admits_until_revoked:
  assumes "env_ok (keys_of env)" and "holds_keys (keys_of env) d es" and "list_all text_char now"
    and "tmp \<noteq> keys_path (keys_of env)"
    and "create (keys_of env) None tmp token now name d = (Returned key, d1)"
    and "sha256 (keys_of env) key \<notin> ran (keyring_of es)" and "list_all (\<lambda>c. \<not> is_space c) token"
    and "revoke (keys_of env) None tmp name d1 = (r, d2)"
    and "authorization req = Some (scheme @ CHR '' '' # key)" and "str_lower scheme = ''bearer''"
    and "view_init v0" and "key_view.run (keys_of env) v0 as v" and "present_file v = read_file (keys_of env) d1"
    and "key_view.run (keys_of env) v bs w" and "present_file w = read_file (keys_of env) d2"
  shows "fst (authenticate (keys_of env) (present_stamp v) (present_file v) (authorization req) (store v)) = Inr name \<and>
    (case chat env (present_stamp v) (present_file v) req (store v) q1 q2 of (_, rec, _) \<Rightarrow> rec_key rec = name) \<and>
    (\<exists>st. chat env (present_stamp w) (present_file w) req (store w) q1 q2 =
       (Respond (error_response (shown env) bad_key), new_record\<lparr>rec_status := 401\<rparr>, st, q2))"
proof -
  note life = created_key_opens_until_revoked [OF assms(1-6,8,11-15)]
  from create_keyring [OF assms(1-4), where token = token and name = name] assms(5)
  have key: "key = KEY_PREFIX @ token" by simp
  have "list_all (\<lambda>c. \<not> is_space c) KEY_PREFIX" by code_simp
  with assms(7) key have plain: "key \<noteq> []" "list_all (\<lambda>c. \<not> is_space c) key"
    by (simp_all add: KEY_PREFIX_def)
  note auth = authenticate_bearer [OF assms(9,10) plain]
  obtain st where v: "authenticate (keys_of env) (present_stamp v) (present_file v) (authorization req) (store v) = (Inr name, st)"
    using life auth [of "keys_of env" "present_stamp v" "present_file v" "store v"]
    by (auto split: prod.splits)
  obtain st' where w: "authenticate (keys_of env) (present_stamp w) (present_file w) (authorization req) (store w) = (Inl bad_key, st')"
    using life auth [of "keys_of env" "present_stamp w" "present_file w" "store w"]
    by (auto split: prod.splits)
  show ?thesis
    using chat_names_the_key [OF v] chat_without_key [OF w] v by (auto split: prod.splits)
qed

text \<open>A key that is created in an empty file, used, and revoked.\<close>

definition short_gateway :: gateway_env where
  "short_gateway = sample_gateway\<lparr>keys_of := short_env\<rparr>"

lemma short_gateway_keys [simp]: "keys_of short_gateway = short_env"
  by (simp add: short_gateway_def)

definition short_request :: http_request where
  "short_request = sample_request\<lparr>authorization := Some ''Bearer sk-alab-abc''\<rparr>"

lemma key_admits_until_revoked_witness:
  "\<exists>v w. fst (authenticate short_env (present_stamp v) (present_file v) (authorization short_request) (store v)) = Inr ''cursor'' \<and>
     (\<exists>st. chat short_gateway (present_stamp w) (present_file w) short_request (store w) (new_queue 1) (new_queue 1) =
        (Respond (error_response (shown short_gateway) bad_key), new_record\<lparr>rec_status := 401\<rparr>, st, new_queue 1))"
proof -
  have now: "list_all text_char ''now''" by (simp add: text_char_def code_def)
  have "load_keys short_env Map.empty = Inr []"
    using load_keys_holds [OF short_env_ok empty_holds] .
  then obtain d1 where c: "create short_env None ''t'' ''abc'' ''now'' ''cursor'' Map.empty =
      (Returned ''sk-alab-abc'', d1)"
    using sample_name by (simp add: create_def check_name_def save_done Let_def KEY_PREFIX_def)
  obtain r d2 where r: "revoke short_env None ''t'' ''cursor'' d1 = (r, d2)"
    by (cases "revoke short_env None ''t'' ''cursor'' d1")
  let ?v = "written_view (1, 0, 0) (read_file short_env d1) empty_view"
  let ?w = "written_view (2, 0, 0) (read_file short_env d2) ?v"
  have v: "key_view.run short_env empty_view [Write (1, 0, 0) (read_file short_env d1)] ?v"
    by (rule run_write) (simp add: empty_view_def)
  have w: "key_view.run short_env ?v [Write (2, 0, 0) (read_file short_env d2)] ?w"
    by (rule run_write) (simp add: empty_view_def written_view_def)
  have tmp: "''t'' \<noteq> keys_path short_env" by simp
  have fresh: "sha256 short_env ''sk-alab-abc'' \<notin> ran (keyring_of [])" by (simp add: keyring_of_def)
  have token: "list_all (\<lambda>c. \<not> is_space c) ''abc''" by code_simp
  have auth: "authorization short_request = Some (''Bearer'' @ CHR '' '' # ''sk-alab-abc'')"
    by (simp add: short_request_def)
  from key_admits_until_revoked [of short_gateway, unfolded short_gateway_keys,
      OF short_env_ok empty_holds now tmp c fresh token r auth lower_bearer
        empty_view_init v written_file w written_file]
  show ?thesis by blast
qed

end
