(* ===== verification/Gateway_Runs.thy ===== *)
theory Gateway_Runs
  imports Gateway_Properties Queue_Service
begin

text \<open>
  The gateway as a whole, over every run: \<open>Gateway.chat\<close> and \<open>ChatResponse\<close> of
  \<open>gateway/app.py\<close> on top of the steps of \<open>gateway/queue.py\<close>. Requests are accepted or refused,
  answers go through the queue, and responses end, in any order.
\<close>

section \<open>The state and its steps\<close>

text \<open>
  \<open>earlier\<close> holds the queues of all moments so far, the present one included: a request that
  was counted saw one of them before. An open answer has its place and the record of its
  request; \<open>written\<close> are the lines of the request log.
\<close>

record gateway_state =
  settings_of :: gateway_env
  tasks :: system
  earlier :: "request_queue list"
  open_answers :: "(nat \<times> request_record) list"
  written :: "request_record list"

definition new_gateway :: "gateway_env \<Rightarrow> nat \<Rightarrow> gateway_state" where
  "new_gateway env n =
     \<lparr>settings_of = env, tasks = init_system n, earlier = [new_queue n], open_answers = [], written = []\<rparr>"

definition put_tasks :: "system \<Rightarrow> gateway_state \<Rightarrow> gateway_state" where
  "put_tasks s g = g\<lparr>tasks := s, earlier := earlier g @ [queue s]\<rparr>"

datatype event = Refuse response | Admit nat | Abandon | Work action | Over nat

text \<open>What the task of an answer does with its place.\<close>

fun works_on :: "nat \<Rightarrow> action \<Rightarrow> bool" where
  "works_on p (AEnter q) = (p = q)"
| "works_on p (AResume q) = (p = q)"
| "works_on p (ACancel q) = (p = q)"
| "works_on p (AAbort q) = (p = q)"
| "works_on p (AExit q) = (p = q)"
| "works_on p _ = False"

text \<open>
  A request that is cancelled with the server before it has a place leaves nothing, not even a
  line. A response is over once the task of its answer has ended, which had left the queue by
  then or never asked for the backend.
\<close>

inductive gstep :: "gateway_state \<Rightarrow> event \<Rightarrow> gateway_state \<Rightarrow> bool" where
  refuse: "q1 \<in> set (earlier g) \<Longrightarrow>
     chat (settings_of g) seen_stamp keys req st q1 (queue (tasks g)) = (Respond resp, r, st', q) \<Longrightarrow>
     gstep g (Refuse resp) ((put_tasks ((tasks g)\<lparr>queue := q\<rparr>) g)\<lparr>written := written g @ [r]\<rparr>)"
| admit_one: "q1 \<in> set (earlier g) \<Longrightarrow>
     chat (settings_of g) seen_stamp keys req st q1 (queue (tasks g)) = (Run p place, r, st', q) \<Longrightarrow>
     gstep g (Admit place)
       ((put_tasks (set_phase place Accepted ((tasks g)\<lparr>queue := q\<rparr>)) g)
          \<lparr>open_answers := open_answers g @ [(place, r)]\<rparr>)"
| abandon: "gstep g Abandon g"
| work: "(place, r) \<in> set (open_answers g) \<Longrightarrow> works_on place a \<Longrightarrow> qstep (tasks g) a s \<Longrightarrow>
     gstep g (Work a) (put_tasks s g)"
| over: "(place, r0) \<in> set (open_answers g) \<Longrightarrow> phase_of (tasks g) place \<in> {Accepted, Gone} \<Longrightarrow>
     rec_key r = rec_key r0 \<Longrightarrow> chat_call wake result place r (queue (tasks g)) = (r', q) \<Longrightarrow>
     gstep g (Over place)
       ((put_tasks (set_phase place Gone ((tasks g)\<lparr>queue := q\<rparr>)) g)
          \<lparr>open_answers := filter (\<lambda>a. fst a \<noteq> place) (open_answers g), written := written g @ [r']\<rparr>)"

lemma put_tasks_fields [simp]:
  "tasks (put_tasks s g) = s" "earlier (put_tasks s g) = earlier g @ [queue s]"
  "open_answers (put_tasks s g) = open_answers g" "written (put_tasks s g) = written g"
  "settings_of (put_tasks s g) = settings_of g"
  by (simp_all add: put_tasks_def)

section \<open>The queue below\<close>

text \<open>Every step of the gateway is at most one step of the queue.\<close>

lemma chat_respond_queue:
  "chat env seen_stamp keys req st q1 q2 = (Respond resp, r, st', q) \<Longrightarrow> q = q2"
  by (auto simp: chat_def split: prod.splits sum.splits stop.splits raised.splits)

lemma chat_call_queue: "chat_call wake result place r q = (r', q') \<Longrightarrow> q' = give_up place q"
  by (auto simp: chat_call_def Let_def)

lemma gstep_qsteps:
  assumes "gstep g e h"
  shows "tasks h = tasks g \<or> (\<exists>a. qstep (tasks g) a (tasks h))"
  using assms
proof cases
  case (refuse q1 seen_stamp keys req st resp r st' q)
  with chat_respond_queue have "q = queue (tasks g)" by blast
  with refuse show ?thesis by simp
next
  case (admit_one q1 seen_stamp keys req st p place r st' q)
  from chat_run_reserve [OF admit_one(4)] show ?thesis
    by (auto simp: admit_one(2) dest!: qstep.reserve_ok)
next
  case (over place r0 r wake result r' q)
  then have q: "q = give_up place (queue (tasks g))" by (blast dest: chat_call_queue)
  show ?thesis
  proof (cases "phase_of (tasks g) place = Accepted")
    case True
    then show ?thesis using over(2) q by (auto dest!: qstep.give_up_accepted)
  next
    case False
    with over(4) have gone: "phase_of (tasks g) place = Gone" by simp
    then have "set_phase place Gone ((tasks g)\<lparr>queue := q\<rparr>) = (tasks g)\<lparr>queue := q\<rparr>"
      by (simp add: set_phase_def fun_upd_idem)
    with over(2) q gone qstep.give_up_late [of "tasks g" place] show ?thesis by auto
  qed
qed auto

lemma gstep_system_inv: "gstep g e h \<Longrightarrow> system_inv (tasks g) \<Longrightarrow> system_inv (tasks h)"
  by (metis gstep_qsteps system_inv_step)

section \<open>Places and answers\<close>

text \<open>Every place that is held belongs to exactly one open answer, and no place is held twice.\<close>

definition owned :: "gateway_state \<Rightarrow> bool" where
  "owned g \<longleftrightarrow>
     distinct (map fst (open_answers g)) \<and>
     (\<forall>p. phase_of (tasks g) p \<notin> {Absent, Gone} \<longrightarrow> p \<in> fst ` set (open_answers g)) \<and>
     (\<forall>p \<in> fst ` set (open_answers g). phase_of (tasks g) p \<noteq> Absent)"

definition gateway_inv :: "gateway_state \<Rightarrow> bool" where
  "gateway_inv g \<longleftrightarrow> system_inv (tasks g) \<and> owned g"

lemma qstep_phase:
  assumes "qstep s a t" and "works_on p a"
  shows "\<exists>ph. phase_of t = (phase_of s)(p := ph) \<and> ph \<noteq> Absent \<and> phase_of s p \<notin> {Absent, Gone}"
  using assms by (cases rule: qstep.cases) (auto intro: fun_upd_idem [symmetric])

lemma owned_work:
  assumes "owned g" and "p \<in> fst ` set (open_answers g)" and "phase_of s = (phase_of (tasks g))(p := ph)"
    and "ph \<noteq> Absent"
  shows "owned (put_tasks s g)"
  using assms by (auto simp: owned_def)

lemma owned_admit:
  assumes "owned g" and "phase_of (tasks g) p = Absent"
    and "phase_of (tasks h) = (phase_of (tasks g))(p := Accepted)"
    and "open_answers h = open_answers g @ [(p, r)]"
  shows "owned h"
  using assms by (auto simp: owned_def)

lemma owned_over:
  assumes "owned g" and "phase_of (tasks h) = (phase_of (tasks g))(p := Gone)"
    and "open_answers h = filter (\<lambda>a. fst a \<noteq> p) (open_answers g)"
  shows "owned h"
proof -
  have "map fst (filter (\<lambda>a. fst a \<noteq> p) as) = filter (\<lambda>x. x \<noteq> p) (map fst as)"
    for as :: "(nat \<times> request_record) list" by (induction as) auto
  with assms(1) have "distinct (map fst (open_answers h))" by (simp add: owned_def assms(3))
  moreover have "fst ` set (open_answers h) = fst ` set (open_answers g) - {p}"
    by (auto simp: assms(3))
  ultimately show ?thesis using assms(1,2) by (auto simp: owned_def)
qed

lemma gateway_inv_step:
  assumes "gateway_inv g" and "gstep g e h"
  shows "gateway_inv h"
proof -
  from assms have inv: "system_inv (tasks h)" and own: "owned g"
    by (auto simp: gateway_inv_def intro: gstep_system_inv)
  from assms(1) have counts: "counts_inv (tasks g)" by (simp add: gateway_inv_def system_inv_def)
  from assms(2) have "owned h"
  proof cases
    case (refuse q1 seen_stamp keys req st resp r st' q)
    with own show ?thesis by (simp add: owned_def)
  next
    case (admit_one q1 seen_stamp keys req st p place r st' q)
    with chat_run_reserve [OF admit_one(4)] counts have "phase_of (tasks g) place = Absent"
      by (auto simp: counts_inv_def reserve_eq_Inr)
    with admit_one show ?thesis by (intro owned_admit [OF own]) auto
  next
    case (work place r a s)
    from qstep_phase [OF work(5,4)] obtain ph where "phase_of s = (phase_of (tasks g))(place := ph)"
      "ph \<noteq> Absent" by blast
    with work(2,3) show ?thesis by (auto intro!: owned_work [OF own] simp: image_iff)
  next
    case (over place r0 r wake result r' q)
    then show ?thesis by (intro owned_over [OF own, of _ place]) auto
  qed (use own in simp)
  with inv show ?thesis by (simp add: gateway_inv_def)
qed

definition gateway_initial :: "gateway_state \<Rightarrow> bool" where
  "gateway_initial g \<longleftrightarrow> g = new_gateway (settings_of g) (queue_size (queue (tasks g)))"

interpretation gateways: machine gateway_initial gstep gateway_inv
proof
  fix g e h
  show "gateway_initial g \<Longrightarrow> gateway_inv g"
    unfolding gateway_initial_def
    by (metis (no_types, lifting) system_inv_init gateway_inv_def owned_def init_system_def new_gateway_def
        gateway_state.select_convs(2,4) system.select_convs(2) distinct.simps(1) list.map(1) empty_iff
        image_empty insertI1 list.set(1))
  show "gateway_inv g \<Longrightarrow> gstep g e h \<Longrightarrow> gateway_inv h" by (rule gateway_inv_step)
qed

lemma gateway_initial_new [simp]: "gateway_initial (new_gateway env n)"
  by (simp add: gateway_initial_def new_gateway_def init_system_def new_queue_def)

lemma run_gateway_inv: "gateways.run (new_gateway env n) es g \<Longrightarrow> gateway_inv g"
  by (rule gateways.reachable_inv) simp_all

lemma gstep_queue_size: "gstep g e h \<Longrightarrow> queue_size (queue (tasks h)) = queue_size (queue (tasks g))"
  by (metis gstep_qsteps qstep_queue_size)

lemma gateways_queue_size:
  "gateways.run g es h \<Longrightarrow> queue_size (queue (tasks h)) = queue_size (queue (tasks g))"
  by (induction rule: gateways.run.induct) (auto dest: gstep_queue_size)

text \<open>The load of the queue is the number of open answers that have not left it.\<close>

definition holding :: "gateway_state \<Rightarrow> nat" where
  "holding g = length (filter (\<lambda>a. phase_of (tasks g) (fst a) \<noteq> Gone) (open_answers g))"

lemma load_is_holding:
  assumes "gateway_inv g"
  shows "active (queue (tasks g)) + waiting (queue (tasks g)) = int (holding g)"
proof -
  let ?ph = "phase_of (tasks g)"
  from assms have counts: "counts_inv (tasks g)" and own: "owned g"
    by (simp_all add: gateway_inv_def system_inv_def)
  note fin = counts_finite [OF counts]
  let ?held = "filter (\<lambda>p. ?ph p \<noteq> Gone) (map fst (open_answers g))"
  have cases: "?ph p \<notin> {Absent, Gone} \<longleftrightarrow> waits ?ph p \<or> running ?ph p" for p
    by (cases "?ph p") (auto simp: waits_def running_def)
  have "set ?held = {p. ?ph p \<notin> {Absent, Gone}}" using own by (auto simp: owned_def)
  then have "set ?held = {p. waits ?ph p} \<union> {p. running ?ph p}" by (simp only: cases Collect_disj_eq)
  moreover have "{p. waits ?ph p} \<inter> {p. running ?ph p} = {}" by (auto simp: waits_def running_def)
  ultimately have "card (set ?held) = card {p. waits ?ph p} + card {p. running ?ph p}"
    by (simp add: card_Un_disjoint fin)
  moreover have "card (set ?held) = length ?held"
    using own by (intro distinct_card distinct_filter) (simp add: owned_def)
  moreover have "length ?held = holding g" by (simp add: holding_def filter_map comp_def)
  ultimately show ?thesis using counts by (simp add: counts_inv_def count_def)
qed

definition idle :: "request_queue \<Rightarrow> bool" where
  "idle q \<longleftrightarrow> active q = 0 \<and> waiting q = 0 \<and> \<not> locked q \<and> waiters q = []"

lemma idle_when_over:
  assumes "gateway_inv g" and "open_answers g = []"
  shows "idle (queue (tasks g))"
proof -
  from assms have none: "phase_of (tasks g) p \<in> {Absent, Gone}" for p
    by (auto simp: gateway_inv_def owned_def)
  from assms have lock: "lock_inv (tasks g)" and counts: "counts_inv (tasks g)"
    by (simp_all add: gateway_inv_def system_inv_def)
  have out: "phase_of (tasks g) p \<noteq> Running" "phase_of (tasks g) p \<noteq> Queued"
    "phase_of (tasks g) p \<noteq> Accepted" for p using none [of p] by auto
  have free: "\<not> locked (queue (tasks g))" using lock_invD(2) [OF lock] out(1) by blast
  have "waiters (queue (tasks g)) = []"
  proof (rule ccontr)
    assume "waiters (queue (tasks g)) \<noteq> []"
    then obtain p where "p \<in> set (map fst (waiters (queue (tasks g))))"
      by (cases "waiters (queue (tasks g))") auto
    with lock_invD(4) [OF lock] out(2) show False by blast
  qed
  moreover have "\<not> waits (phase_of (tasks g)) p" "\<not> running (phase_of (tasks g)) p" for p
    using out [of p] by (auto simp: waits_def running_def)
  ultimately show ?thesis using counts free by (simp add: idle_def counts_inv_def count_def)
qed
section \<open>Ending all answers\<close>

text \<open>The steps that an open answer can still cause, by where its request is.\<close>

definition todo :: "system \<Rightarrow> nat \<Rightarrow> nat" where
  "todo s p =
     (case phase_of s p of
        Accepted \<Rightarrow> 4
      | Queued \<Rightarrow> if (p, Pending) \<in> set (waiters (queue s)) then 3 else 2
      | Running \<Rightarrow> 1
      | _ \<Rightarrow> 0)"

definition all_todo :: "gateway_state \<Rightarrow> nat" where
  "all_todo g = sum_list (map (\<lambda>a. Suc (todo (tasks g) (fst a))) (open_answers g))"

lemma todo_le: "todo s p \<le> 4"
  by (simp add: todo_def split: phase.split)

lemma all_todo_le: "all_todo g \<le> 5 * length (open_answers g)"
proof -
  have "sum_list (map (\<lambda>a. Suc (todo s (fst a))) as) \<le> 5 * length as" for s and as :: "(nat \<times> request_record) list"
    by (induction as) (use todo_le [of s] in \<open>auto intro: add_mono simp: le_diff_conv2\<close>)
  then show ?thesis by (simp add: all_todo_def)
qed

lemma wake_first_pending: "(r, Pending) \<in> set (wake_first ws) \<Longrightarrow> (r, Pending) \<in> set ws"
  by (cases ws rule: wake_first.cases) auto

lemma todo_mono:
  assumes "phase_of t r = phase_of s r" and "(r, Pending) \<in> set (waiters (queue t)) \<Longrightarrow> (r, Pending) \<in> set (waiters (queue s))"
  shows "todo t r \<le> todo s r"
  using assms by (auto simp: todo_def split: phase.split)

lemma qstep_todo:
  assumes "qstep s a t" and "works_on p a"
  shows "todo t p < todo s p" and "r \<noteq> p \<Longrightarrow> todo t r \<le> todo s r"
proof -
  from assms have "todo t p < todo s p \<and> (r \<noteq> p \<longrightarrow> todo t r \<le> todo s r)"
  proof (cases rule: qstep.cases)
    case (enter_run q)
    with assms(2) show ?thesis
      by (auto simp: todo_def slot_enter_eq queue_fields intro!: todo_mono [unfolded todo_def])
  next
    case (enter_wait q)
    with assms(2) show ?thesis
      by (auto simp: slot_enter_eq lock_enqueue_def intro!: todo_mono) (auto simp: todo_def)
  next
    case (resume q)
    with assms(2) show ?thesis
      by (auto simp: op_defs queue_fields intro!: todo_mono) (auto simp: todo_def)
  next
    case (cancel q)
    with assms(2) show ?thesis by (auto intro!: todo_mono split: if_splits) (auto simp: todo_def)
  next
    case (abort q f)
    with assms(2) show ?thesis
      by (auto simp: op_defs queue_fields intro!: todo_mono dest!: wake_first_pending split: if_splits)
        (auto simp: todo_def)
  next
    case (exit q)
    with assms(2) show ?thesis
      by (auto simp: op_defs queue_fields intro!: todo_mono dest!: wake_first_pending) (auto simp: todo_def)
  qed auto
  then show "todo t p < todo s p" and "r \<noteq> p \<Longrightarrow> todo t r \<le> todo s r" by simp_all
qed

lemma sum_list_less:
  fixes f :: "'a \<Rightarrow> nat"
  assumes "x \<in> set xs" and "f x < g x" and "\<And>y. y \<in> set xs \<Longrightarrow> f y \<le> g y"
  shows "sum_list (map f xs) < sum_list (map g xs)"
  using assms
proof (induction xs)
  case (Cons y ys)
  have "sum_list (map f ys) \<le> sum_list (map g ys)" using Cons.prems(3) by (intro sum_list_mono) simp
  with Cons show ?case by (cases "x = y") (auto intro: add_less_le_mono add_le_less_mono)
qed simp

lemma sum_list_filter_less:
  fixes f :: "'a \<Rightarrow> nat"
  assumes "x \<in> set xs" and "\<not> P x" and "0 < f x"
  shows "sum_list (map f (filter P xs)) < sum_list (map f xs)"
  using assms
proof (induction xs)
  case (Cons y ys)
  have "sum_list (map f (filter P ys)) \<le> sum_list (map f ys)" for ys by (induction ys) auto
  with Cons show ?case by (cases "x = y") (auto simp: less_Suc_eq_le add_strict_increasing intro: le_less_trans trans_less_add2)
qed simp

fun answering :: "event \<Rightarrow> bool" where
  "answering (Work _) = True"
| "answering (Over _) = True"
| "answering _ = False"

fun forced :: "event \<Rightarrow> bool" where
  "forced (Work (ACancel _)) = True"
| "forced _ = False"

lemma answering_less:
  assumes "gstep g e h" and "answering e"
  shows "all_todo h < all_todo g"
  using assms(1)
proof cases
  case (work place r a s)
  have "todo s q \<le> todo (tasks g) q" for q
    using qstep_todo [OF work(5,4)] by (cases "q = place") (auto intro: less_imp_le)
  then show ?thesis using work(2,3) qstep_todo(1) [OF work(5,4)]
    by (auto simp: all_todo_def intro!: sum_list_less [of "(place, r)"])
next
  case (over place r0 r wake result r' q)
  then have q: "q = give_up place (queue (tasks g))" by (blast dest: chat_call_queue)
  have "todo (tasks h) p = todo (tasks g) p" if "p \<noteq> place" for p
    using that by (simp add: over(2) q todo_def give_up_def queue_fields cong: if_cong)
  then have "all_todo h = sum_list (map (\<lambda>a. Suc (todo (tasks g) (fst a)))
      (filter (\<lambda>a. fst a \<noteq> place) (open_answers g)))"
    by (auto simp: all_todo_def over(2) intro!: arg_cong [where f = sum_list])
  also have "\<dots> < all_todo g"
    unfolding all_todo_def by (rule sum_list_filter_less [OF over(3)]) simp_all
  finally show ?thesis .
qed (use assms(2) in auto)

lemma answering_bounded:
  "gateways.run g es h \<Longrightarrow> list_all answering es \<Longrightarrow> length es + all_todo h \<le> all_todo g"
  by (induction rule: gateways.run.induct) (auto dest!: answering_less)
text \<open>As long as a response is open, some answer can go on without being cancelled.\<close>

lemma open_work:
  assumes "gateway_inv g" and "qstep (tasks g) a s" and "works_on p a"
  shows "gstep g (Work a) (put_tasks s g)"
proof -
  from qstep_phase [OF assms(2,3)] have "phase_of (tasks g) p \<notin> {Absent, Gone}" by blast
  with assms(1) have "p \<in> fst ` set (open_answers g)" by (auto simp: gateway_inv_def owned_def)
  then obtain r where "(p, r) \<in> set (open_answers g)" by auto
  from gstep.work [OF this assms(3,2)] show ?thesis .
qed

lemma line_moves:
  assumes "system_inv s" and "waiters (queue s) \<noteq> []"
  shows "\<exists>a t p. qstep s a t \<and> works_on p a \<and> \<not> forced (Work a)"
proof -
  from assms(1) have lock: "lock_inv s" by (simp add: system_inv_def)
  note D = lock_invD [OF lock]
  from assms(2) obtain r f ws where w: "waiters (queue s) = (r, f) # ws"
    by (cases "waiters (queue s)") auto
  with D(4) [of r] have queued: "phase_of s r = Queued" by simp
  show ?thesis
  proof (cases f)
    case Pending
    with D(7,2) w obtain x where "phase_of s x = Running" by auto
    then show ?thesis by (intro exI [of _ "AExit x"] exI [of _ x]) (auto intro: qstep.exit)
  next
    case Woken
    with queued w have "\<exists>t. qstep s (AResume r) t" using qstep.resume [of s r] by auto
    then show ?thesis by (intro exI [of _ "AResume r"]) auto
  next
    case Cancelled
    with queued w have "\<exists>t. qstep s (AAbort r) t" using qstep.abort [of s r Cancelled] by auto
    then show ?thesis by (intro exI [of _ "AAbort r"]) auto
  qed
qed

lemma gateway_moves:
  assumes "gateway_inv g" and "open_answers g \<noteq> []"
  shows "\<exists>e h. gstep g e h \<and> answering e \<and> \<not> forced e"
proof -
  from assms have sys: "system_inv (tasks g)" and lock: "lock_inv (tasks g)" and own: "owned g"
    by (simp_all add: gateway_inv_def system_inv_def)
  from assms(2) obtain p r where p: "(p, r) \<in> set (open_answers g)"
    by (cases "open_answers g") auto
  have worked: ?thesis if "qstep (tasks g) a s" "works_on q a" "\<not> forced (Work a)" for a q s
    using open_work [OF assms(1) that(1,2)] that(3)
    by (intro exI [of _ "Work a"] exI [of _ "put_tasks s g"]) simp
  show ?thesis
  proof (cases "phase_of (tasks g) p")
    case Absent
    with own p show ?thesis by (force simp: owned_def)
  next
    case Accepted
    obtain now q where "slot_enter p (queue (tasks g)) = (now, q)" by (metis prod.exhaust)
    with Accepted have "\<exists>s. qstep (tasks g) (AEnter p) s"
      by (cases now) (auto intro: qstep.enter_run qstep.enter_wait)
    then obtain s where "qstep (tasks g) (AEnter p) s" by blast
    then show ?thesis by (rule worked [of _ _ p]) simp_all
  next
    case Queued
    with lock_invD(4) [OF lock, of p] have "waiters (queue (tasks g)) \<noteq> []" by auto
    from line_moves [OF sys this] show ?thesis by (blast intro: worked)
  next
    case Running
    then show ?thesis by (intro worked [of "AExit p" _ p]) (auto intro: qstep.exit)
  next
    case Gone
    obtain r' q where "chat_call Answer_ended Returned_normally p r (queue (tasks g)) = (r', q)"
      by (metis prod.exhaust)
    from gstep.over [OF p _ refl this] Gone show ?thesis
      by (intro exI [of _ "Over p"] exI) auto
  qed
qed

lemma gateway_can_drain:
  assumes "gateway_inv g"
  shows "\<exists>fs h. gateways.run g fs h \<and> list_all (\<lambda>e. answering e \<and> \<not> forced e) fs \<and> open_answers h = []"
  using assms
proof (induction "all_todo g" arbitrary: g rule: less_induct)
  case less
  show ?case
  proof (cases "open_answers g = []")
    case True
    then show ?thesis by (intro exI [of _ "[]"] exI [of _ g]) (simp add: gateways.run.intros)
  next
    case False
    from gateway_moves [OF less.prems this] obtain e k
      where e: "gstep g e k" "answering e" "\<not> forced e" by blast
    from less.hyps [OF answering_less [OF e(1,2)] gateway_inv_step [OF less.prems e(1)]] e
    obtain fs h where "gateways.run k fs h" "list_all (\<lambda>e. answering e \<and> \<not> forced e) fs"
      "open_answers h = []" by blast
    with e show ?thesis by (intro exI [of _ "e # fs"] exI [of _ h]) (simp add: gateways.run.run_cons)
  qed
qed

section \<open>The log\<close>

fun asked :: "event \<Rightarrow> bool" where
  "asked (Refuse _) = True"
| "asked (Admit _) = True"
| "asked _ = False"

lemma filter_one:
  assumes "distinct (map fst xs)" and "(p, r) \<in> set xs"
  shows "Suc (length (filter (\<lambda>a. fst a \<noteq> p) xs)) = length xs"
  using assms
proof (induction xs)
  case (Cons x xs)
  show ?case
  proof (cases "fst x = p")
    case True
    with Cons.prems(1) have "filter (\<lambda>a. fst a \<noteq> p) xs = xs" by (intro filter_True ballI) (auto simp: image_iff)
    with True show ?thesis by simp
  qed (use Cons in auto)
qed simp

lemma gstep_lines:
  assumes "gateway_inv g" and "gstep g e h"
  shows "length (written h) + length (open_answers h) = length (written g) + length (open_answers g) + of_bool (asked e)"
  using assms(2)
proof cases
  case (over place r0 r wake result r' q)
  from assms(1) have "distinct (map fst (open_answers g))" by (simp add: gateway_inv_def owned_def)
  from filter_one [OF this over(3)] over(1,2) show ?thesis by simp
qed simp_all

lemma run_lines:
  "gateways.run g es h \<Longrightarrow> gateway_inv g \<Longrightarrow>
     length (written h) + length (open_answers h) =
       length (written g) + length (open_answers g) + length (filter asked es)"
proof (induction rule: gateways.run.induct)
  case (run_cons s a t as u)
  from run_cons.IH [OF gateway_inv_step [OF run_cons.prems run_cons.hyps(1)]]
    gstep_lines [OF run_cons.prems run_cons.hyps(1)]
  show ?case by simp
qed simp

section \<open>Properties\<close>

text \<open>
  C24: The gateway leaks no places. After any run, whatever was asked, refused, cancelled and
  ended in between, the queue counts exactly the open responses that have not left it, at most
  one running and \<open>queue_size\<close> waiting ones, and is full exactly then; when no response is open
  the queue is as empty as at the start, its lock free; and every request that was refused or
  whose response is over has its one line in the log.
\<close>

theorem gateway_leaks_no_places:
  assumes "gateways.run (new_gateway env n) es g"
  shows "active (queue (tasks g)) + waiting (queue (tasks g)) = int (holding g) \<and>
         holding g \<le> 1 + n \<and> (full (queue (tasks g)) \<longleftrightarrow> holding g = 1 + n) \<and>
         (open_answers g = [] \<longrightarrow> idle (queue (tasks g))) \<and>
         length (written g) = length (filter asked es) - length (open_answers g)"
proof -
  from run_gateway_inv [OF assms] have inv: "gateway_inv g" .
  have start: "gateway_inv (new_gateway env n)"
    using gateways.inv_init by simp
  from gateways_queue_size [OF assms] have "queue_size (queue (tasks g)) = n"
    by (simp add: new_gateway_def init_system_def new_queue_def)
  moreover have "active (queue (tasks g)) + waiting (queue (tasks g)) \<le> 1 + int (queue_size (queue (tasks g)))"
    using inv by (simp add: gateway_inv_def system_inv_def counts_inv_def)
  moreover note load_is_holding [OF inv]
  ultimately have "holding g \<le> 1 + n" "full (queue (tasks g)) \<longleftrightarrow> holding g = 1 + n"
    by (auto simp: full_def)
  moreover have "length (written g) + length (open_answers g) = length (filter asked es)"
    using run_lines [OF assms start] by (simp add: new_gateway_def)
  ultimately show ?thesis using load_is_holding [OF inv] idle_when_over [OF inv] by simp
qed

text \<open>A request that is accepted, and whose client leaves before the backend was asked.\<close>

definition visited :: "request_record \<Rightarrow> request_queue \<Rightarrow> gateway_state" where
  "visited r q =
     (put_tasks (set_phase 0 Accepted ((init_system 1)\<lparr>queue := q\<rparr>)) (new_gateway sample_gateway 1))
       \<lparr>open_answers := [(0, r)]\<rparr>"

lemma visited_fields: "open_answers (visited r q) = [(0, r)]" "phase_of (tasks (visited r q)) 0 = Accepted"
  by (simp_all add: visited_def)

lemma sample_visit: "\<exists>r q. gateways.run (new_gateway sample_gateway 1) [Admit 0] (visited r q)"
proof -
  obtain p place r q where run: "chat sample_gateway (Some (7, 7, 7)) NoFile sample_request sample_store
      (new_queue 1) (new_queue 1) = (Run p place, r, sample_store, q)" using chat_runs_sample by blast
  from chat_run_reserve [OF run] have place: "place = 0" by (simp add: reserve_eq_Inr new_queue_def)
  let ?g = "new_gateway sample_gateway 1"
  have g: "settings_of ?g = sample_gateway" "queue (tasks ?g) = new_queue 1" "new_queue 1 \<in> set (earlier ?g)"
    "tasks ?g = init_system 1" "open_answers ?g = []"
    by (simp_all add: new_gateway_def init_system_def)
  have "chat (settings_of ?g) (Some (7, 7, 7)) NoFile sample_request sample_store (new_queue 1) (queue (tasks ?g)) =
      (Run p place, r, sample_store, q)" using run by (simp only: g(1,2))
  from gstep.admit_one [OF g(3) this] have "gstep ?g (Admit 0) (visited r q)"
    by (simp only: place visited_def g append_Nil)
  then show ?thesis by (blast intro: gateways.run.intros)
qed

lemma sample_over: "\<exists>h. gstep (visited r q) (Over 0) h \<and> open_answers h = []"
proof -
  obtain r' q' where "chat_call Client_left Was_cancelled 0 r (queue (tasks (visited r q))) = (r', q')"
    by (metis prod.exhaust)
  from gstep.over [OF _ _ refl this] show ?thesis
    by (intro exI conjI) (auto simp: visited_fields)
qed

lemma gateway_leaks_no_places_witness:
  "\<exists>h. gateways.run (new_gateway sample_gateway 1) [Admit 0, Over 0] h \<and> open_answers h = [] \<and>
     idle (queue (tasks h)) \<and> length (written h) = 1"
proof -
  obtain r q where g: "gateways.run (new_gateway sample_gateway 1) [Admit 0] (visited r q)"
    using sample_visit by blast
  obtain h where h: "gstep (visited r q) (Over 0) h" "open_answers h = []" using sample_over by blast
  from gateways.run_append [OF g gateways.run.run_cons [OF h(1) gateways.run.run_nil]]
  have run: "gateways.run (new_gateway sample_gateway 1) [Admit 0, Over 0] h" by simp
  from gateway_leaks_no_places [OF run] h(2) have "idle (queue (tasks h))" "length (written h) = 1" by simp_all
  with run h(2) show ?thesis by blast
qed

text \<open>
  C25: The gateway can always finish what it has begun: after any run, the open answers end
  within five steps each, whichever way they go on or are cancelled, if no new request comes;
  until then some answer can go on without being cancelled; and so a run without a single
  cancellation ends every open response and leaves the queue empty.
\<close>

theorem gateway_drains:
  assumes "gateways.run (new_gateway env n) es g"
  shows "(gateways.run g fs h \<and> list_all answering fs \<longrightarrow> length fs \<le> 5 * length (open_answers g)) \<and>
         (open_answers g \<noteq> [] \<longrightarrow> (\<exists>e k. gstep g e k \<and> answering e \<and> \<not> forced e)) \<and>
         (\<exists>ds k. gateways.run g ds k \<and> list_all (\<lambda>e. answering e \<and> \<not> forced e) ds \<and>
            open_answers k = [] \<and> idle (queue (tasks k)))"
proof (intro conjI impI)
  from run_gateway_inv [OF assms] have inv: "gateway_inv g" .
  show "length fs \<le> 5 * length (open_answers g)" if "gateways.run g fs h \<and> list_all answering fs"
    using answering_bounded [of g fs h] that all_todo_le [of g] by simp
  show "\<exists>e k. gstep g e k \<and> answering e \<and> \<not> forced e" if "open_answers g \<noteq> []"
    using gateway_moves [OF inv that] .
  from gateway_can_drain [OF inv] obtain ds k where ds: "gateways.run g ds k"
    "list_all (\<lambda>e. answering e \<and> \<not> forced e) ds" "open_answers k = []" by blast
  with idle_when_over [OF gateways.run_inv [OF ds(1) inv]]
  show "\<exists>ds k. gateways.run g ds k \<and> list_all (\<lambda>e. answering e \<and> \<not> forced e) ds \<and>
      open_answers k = [] \<and> idle (queue (tasks k))" by blast
qed

lemma gateway_drains_witness:
  "\<exists>r q ds k. gateways.run (new_gateway sample_gateway 1) [Admit 0] (visited r q) \<and>
     gateways.run (visited r q) ds k \<and> open_answers k = [] \<and> idle (queue (tasks k))"
proof -
  obtain r q where g: "gateways.run (new_gateway sample_gateway 1) [Admit 0] (visited r q)"
    using sample_visit by blast
  from gateway_drains [OF g] g show ?thesis by blast
qed

end
