(* ===== verification/Answer_Properties.thy ===== *)
theory Answer_Properties
  imports Answer
begin

text \<open>
  What a client can rely on: the end mark means a complete answer, the stream reads back to
  the chunks that were sent, and it is never silent for long.
\<close>

section \<open>How the generator ends\<close>

text \<open>
  What the standard library and \<open>httpx\<close> document: \<open>json.loads\<close> raises \<open>ValueError\<close> or
  \<open>RecursionError\<close>; what interrupts a connection is an \<open>HTTPError\<close>.
\<close>

definition json_errors :: "(string \<Rightarrow> py_exn + pyval) \<Rightarrow> bool" where
  "json_errors loads \<longleftrightarrow> (\<forall>s e. loads s = Inl e \<longrightarrow> e \<in> {ValueError, RecursionError})"

definition http_errors :: "backend_reply \<Rightarrow> bool" where
  "http_errors reply \<longleftrightarrow>
     (case reply of
        Unreachable e \<Rightarrow> (\<exists>h. e = Http h)
      | Replied _ _ (Some e) \<Rightarrow> (\<exists>h. e = Http h)
      | _ \<Rightarrow> True)"

definition FAILURES :: "int set" where
  "FAILURES = {400, 502, 503}"

lemma handle_http: "\<exists>b. handle (Http h) = Backend_exn b \<and> failed_status b \<in> {502, 503}"
  by (cases h) simp_all

lemma read_lines_exn:
  assumes "read_lines loads lines fails r = (cs, r', Broke x)" and "json_errors loads"
  shows "fails = Some x \<or> (\<exists>b. handle x = Backend_exn b \<and> failed_status b = 502)"
  using assms(1)
proof (induction lines arbitrary: r cs)
  case (Cons line lines)
  show ?case
  proof (cases "is_data line \<and> data_of line \<noteq> ''[DONE]''")
    case True
    show ?thesis
    proof (cases "read_chunk loads (data_of line) r")
      case (Inl e)
      then have "x = e" using Cons.prems True by simp
      with read_chunk_exn [OF Inl] assms(2) show ?thesis
        by (auto simp: json_errors_def invalid_chunk_def)
    next
      case (Inr p)
      obtain c r1 where p: "p = (c, r1)" by (cases p)
      obtain cs1 where "read_lines loads lines fails r1 = (cs1, r', Broke x)"
        using Cons.prems True Inr p by (auto split: prod.splits)
      then show ?thesis by (rule Cons.IH)
    qed
  qed (use Cons in \<open>auto split: if_splits\<close>)
qed (auto split: option.splits)

lemma backend_chunks_exn:
  assumes "backend_chunks loads reply r = (cs, r', Some x)" and "json_errors loads" and "http_errors reply"
  shows "\<exists>b. x = Backend_exn b \<and> failed_status b \<in> FAILURES"
proof (cases reply)
  case (Unreachable e)
  with assms handle_http show ?thesis
    by (fastforce simp: backend_chunks_def http_errors_def FAILURES_def)
next
  case (Replied st lines fails)
  have f: "\<exists>b. handle y = Backend_exn b \<and> failed_status b \<in> FAILURES" if "fails = Some y" for y
    using assms(3) Replied that handle_http by (fastforce simp: http_errors_def FAILURES_def)
  show ?thesis
  proof (cases "st = 200")
    case False
    with assms(1) Replied f show ?thesis
      by (cases fails) (auto simp: backend_chunks_def rejected_def FAILURES_def)
  next
    case True
    obtain cs1 r1 z where rl: "read_lines loads lines fails r = (cs1, r1, z)" by (metis prod.exhaust)
    show ?thesis
    proof (cases z)
      case (Broke y)
      with read_lines_exn [OF _ assms(2)] rl
      have "fails = Some y \<or> (\<exists>b. handle y = Backend_exn b \<and> failed_status b = 502)" by blast
      with assms(1) Replied True rl Broke f show ?thesis
        by (auto simp: backend_chunks_def FAILURES_def)
    qed (use assms(1) Replied True rl in \<open>auto simp: backend_chunks_def ended_early_def FAILURES_def\<close>)
  qed
qed

section \<open>The stream\<close>

lemma produce_ends: "\<exists>x \<in> set (produce cs e). ends x"
  by (cases e) (auto simp: produce_def)

lemma length_produce [simp]: "length (produce cs e) = Suc (length cs)"
  by (simp add: produce_def)

lemma stream_events:
  assumes "0 < interval" and "length cs < length moments"
  obtains es t where "with_heartbeats interval now (zip moments (produce cs e)) = Some (es, t, e)"
    and "outs es = cs" and "steps_within interval now (map fst es @ [t])"
proof -
  have "map snd (zip moments (produce cs e)) = produce cs e"
    using assms(2) by (simp add: map_snd_zip_take)
  moreover from this have "\<exists>x \<in> set (zip moments (produce cs e)). ends (snd x)"
    using produce_ends [of cs e] by (metis (no_types, lifting) image_iff set_map)
  from heartbeats_total [OF assms(1) this] obtain r
    where r: "with_heartbeats interval now (zip moments (produce cs e)) = Some r" by blast
  ultimately have "beats_ok interval now (produce cs e) r"
    using heartbeats_ok [OF r assms(1)] by simp
  with r that show thesis by (cases r) (auto simp: beats_ok_def)
qed

definition error_text :: "client_env \<Rightarrow> api_error \<Rightarrow> string" where
  "error_text env e = sse (dumps env) (error_body (show_msg env) e)"

lemma stream_answer_eq:
  assumes int: "0 < interval" and len: "length cs < length moments"
    and wf: "list_all (well_formed \<circ> PDict) cs"
  shows "\<exists>out t es.
    with_heartbeats interval now (zip moments (produce cs e)) = Some (es, t, e) \<and> outs es = cs \<and>
    steps_within interval now (map fst es @ [t]) \<and>
    send_beats env incl es = (out, None) \<and>
    data_bodies out = map (sse (dumps env)) (shown_to env incl cs) \<and>
    (\<forall>(t, s) \<in> set out. \<exists>b. s = Body b \<and> (b = KEEP_ALIVE \<or> b \<in> range (sse (dumps env)))) \<and>
    stream_answer env interval incl now moments (cs, r, e) =
      Some (case e of
         None \<Rightarrow> ((now, Start 200 SSE_HEADERS) # out @ [(t, Body DONE), (t, Last [])],
                 r\<lparr>rec_status := 200\<rparr>, None)
       | Some (Backend_exn b) \<Rightarrow>
           ((now, Start 200 SSE_HEADERS) # out @ [(t, Body (error_text env (api_error_of b))), (t, Last [])],
            r\<lparr>rec_status := failed_status b\<rparr>, None)
       | Some x \<Rightarrow> ((now, Start 200 SSE_HEADERS) # out, r\<lparr>rec_status := 200\<rparr>, Some x))"
proof -
  from stream_events [OF int len, where now = now and e = e] obtain es t
    where es: "with_heartbeats interval now (zip moments (produce cs e)) = Some (es, t, e)"
      "outs es = cs" "steps_within interval now (map fst es @ [t])" by blast
  with wf send_beats_ok [of es env incl] obtain out where out: "send_beats env incl es = (out, None)"
    "data_bodies out = map (sse (dumps env)) (shown_to env incl cs)"
    "\<forall>(t, s) \<in> set out. \<exists>b. s = Body b \<and> (b = KEEP_ALIVE \<or> b \<in> range (sse (dumps env)))" by auto
  have "status (api_error_of b) = failed_status b" for b by (simp add: api_error_of_def)
  with es out show ?thesis
    by (auto simp: stream_answer_def error_text_def Let_def split: option.split stream_exn.split)
qed

lemma error_text_visible [simp]: "error_text env e \<noteq> KEEP_ALIVE"
  by (simp add: error_text_def)

lemma stream_outcome:
  assumes int: "0 < interval" and json: "json_errors loads" and http: "http_errors reply"
    and len: "length (fst (backend_chunks loads reply r)) < length moments"
  shows "\<exists>out r'. stream_answer env interval incl now moments (backend_chunks loads reply r) =
             Some (out, r', None) \<and>
           (case complete_answer loads reply of
              Some cs \<Rightarrow> rec_status r' = 200 \<and>
                data_bodies out = map (sse (dumps env)) (shown_to env incl cs) @ [DONE]
            | None \<Rightarrow> \<exists>cs e. rec_status r' = status e \<and> status e \<in> FAILURES \<and>
                data_bodies out = map (sse (dumps env)) (shown_to env incl cs) @ [error_text env e])"
proof -
  obtain cs r1 e where gen: "backend_chunks loads reply r = (cs, r1, e)" by (metis prod.exhaust)
  have wf: "list_all (well_formed \<circ> PDict) cs" using backend_chunks_well_formed [OF gen] .
  from len gen have "length cs < length moments" by simp
  note st = stream_answer_eq [OF int this wf, where now = now and e = e and env = env and incl = incl
      and r = r1, folded gen]
  note complete = backend_chunks_complete [OF gen]
  show ?thesis
  proof (cases e)
    case None
    with st complete show ?thesis by auto
  next
    case (Some x)
    from gen Some backend_chunks_exn [OF _ json http] obtain b
      where b: "x = Backend_exn b" "failed_status b \<in> FAILURES" by blast
    have b': "status (api_error_of b) = failed_status b" by (simp add: api_error_of_def)
    from complete(1) Some have "complete_answer loads reply = None" by auto
    moreover from st Some b obtain out t where
      out: "stream_answer env interval incl now moments (backend_chunks loads reply r) =
        Some ((now, Start 200 SSE_HEADERS) # out @ [(t, Body (error_text env (api_error_of b))), (t, Last [])],
              r1\<lparr>rec_status := failed_status b\<rparr>, None)"
      "data_bodies out = map (sse (dumps env)) (shown_to env incl cs)" by auto
    moreover have "\<exists>cs' e. rec_status (r1\<lparr>rec_status := failed_status b\<rparr>) = status e \<and> status e \<in> FAILURES \<and>
        data_bodies ((now, Start 200 SSE_HEADERS) # out @
          [(t, Body (error_text env (api_error_of b))), (t, Last [])]) =
        map (sse (dumps env)) (shown_to env incl cs') @ [error_text env e]"
      using out(2) b(2) b' by (intro exI [of _ cs] exI [of _ "api_error_of b"]) simp
    ultimately show ?thesis by simp
  qed
qed

section \<open>Reading the stream back\<close>

text \<open>
  \<open>json.dumps\<close> of an object: one line, in braces. A client reads lines and keeps the data.
\<close>

definition one_line :: "string \<Rightarrow> bool" where
  "one_line s \<longleftrightarrow> newline \<notin> set s \<and> s \<noteq> [] \<and> hd s = CHR ''{'' \<and> last s = CHR ''}''"

definition client_lines :: "(rat \<times> sent) list \<Rightarrow> string list" where
  "client_lines out = split_at newline (concat (map body_text out))"

lemma data_lines_frame:
  assumes "newline \<notin> set l"
  shows "data_lines (split_at newline (l @ newline # newline # rest)) =
    (if is_data l then [data_of l] else []) @ data_lines (split_at newline rest)"
  using assms by (simp add: split_at_append data_lines_def is_data_def)

lemma strip_json:
  assumes "one_line s"
  shows "strip (CHR '' '' # s) = s"
proof -
  from assms have f: "s \<noteq> []" "hd s = CHR ''{''" "last s = CHR ''}''" by (auto simp: one_line_def)
  have "strip (CHR '' '' # s) = strip s" by (simp add: strip_def is_space_def code_def)
  also have "\<dots> = s" by (rule strip_id) (simp add: f is_space_def code_def)
  finally show ?thesis .
qed

lemma data_lines_sse:
  assumes "one_line (f d)"
  shows "data_lines (split_at newline (sse f d @ rest)) = f d # data_lines (split_at newline rest)"
proof -
  have "newline \<notin> set (''data: '' @ f d)" using assms by (auto simp: one_line_def newline_def)
  moreover have "is_data (''data: '' @ f d)" "data_of (''data: '' @ f d) = f d"
    using strip_json [OF assms] by (simp_all add: is_data_def data_of_def)
  ultimately show ?thesis
    using data_lines_frame [of "''data: '' @ f d" rest] by (simp add: sse_def)
qed

lemma data_lines_marks:
  "data_lines (split_at newline (KEEP_ALIVE @ rest)) = data_lines (split_at newline rest)"
  "data_lines (split_at newline (DONE @ rest)) = ''[DONE]'' # data_lines (split_at newline rest)"
  using data_lines_frame [of "'': keep-alive''" rest] data_lines_frame [of "''data: [DONE]''" rest]
  by (simp_all add: KEEP_ALIVE_def DONE_def newline_def is_data_def data_of_def strip_def is_space_def code_def)

lemma data_lines_out:
  assumes "\<forall>(t, s) \<in> set out. \<exists>b. s = Body b \<and> (b = KEEP_ALIVE \<or> b \<in> range (sse f))"
    and "data_bodies out = map (sse f) ds" and "\<And>d. d \<in> set ds \<Longrightarrow> one_line (f d)"
  shows "data_lines (split_at newline (concat (map body_text out) @ rest)) =
    map f ds @ data_lines (split_at newline rest)"
  using assms
proof (induction out arbitrary: ds)
  case Nil
  then show ?case by simp
next
  case (Cons e out)
  obtain t s where e: "e = (t, s)" by (cases e)
  from Cons.prems(1) e obtain b where s: "s = Body b" and b: "b = KEEP_ALIVE \<or> b \<in> range (sse f)" by auto
  show ?case
  proof (cases "b = KEEP_ALIVE")
    case True
    with Cons e s show ?thesis by (simp add: data_lines_marks)
  next
    case False
    with Cons.prems(2) e s obtain d ds' where ds: "ds = d # ds'" "b = sse f d" "data_bodies out = map (sse f) ds'"
      by (cases ds) auto
    with Cons e s show ?thesis by (simp add: data_lines_sse)
  qed
qed

text \<open>The public form of a well-formed chunk is well-formed.\<close>

lemma public_choice_ok:
  assumes "choice_ok c" and "public_choice c = Inr c'"
  shows "choice_ok c'"
proof -
  from choice_ok_dict [OF assms(1)] obtain d where c: "c = PDict d" by (auto simp: is_dict_iff)
  show ?thesis
  proof (cases "dget d ''delta''")
    case (PDict e)
    show ?thesis
    proof (cases "map_of e ''reasoning''")
      case None
      with PDict assms c show ?thesis by (simp add: public_choice_def)
    next
      case (Some r)
      then have e: "e \<noteq> []" by auto
      have u: "AList.update k v e \<noteq> []" for k and v :: pyval by (cases e) auto
      from Some PDict assms(2) c have c': "c' = PDict (AList.update ''delta''
          (PDict (AList.update ''reasoning_content'' r e)) d)" by (simp add: public_choice_def)
      from assms(1) e show ?thesis
        by (simp add: c c' PDict choice_ok_def get_or_def dget_update u)
    qed
  qed (use assms c in \<open>simp_all add: public_choice_def\<close>)
qed

lemma public_chunk_ok:
  assumes wf: "well_formed (PDict chunk)" and p: "public_chunk model chunk = Inr p"
  shows "well_formed (PDict p)"
proof -
  from wf have cs: "or_else (dget chunk ''choices'') (PList []) = PList (choices_of chunk)"
    and ok: "list_all choice_ok (choices_of chunk)" and usage: "usage_ok (dget chunk ''usage'')"
    by (auto elim!: well_formedE)
  let ?c = "AList.delete ''system_fingerprint'' (AList.update ''object'' (PStr ''chat.completion.chunk'')
      (AList.update ''model'' (PStr model) chunk))"
  have same: "dget ?c k = dget chunk k" if "k \<notin> {''model'', ''object'', ''system_fingerprint''}" for k
    using that by (auto simp: dget_update dget_delete)
  from p obtain cs' where cs': "map_res public_choice (choices_of chunk) = Inr cs'"
    and p': "p = (if cs' = [] then ?c else AList.update ''choices'' (PList cs') ?c)"
    using cs same [of "''choices''"] by (auto simp: public_chunk_def get_or_def Let_def and_then_eq_Inr)
  have "list_all choice_ok cs'" using map_res_list_all [OF cs'(1) ok] public_choice_ok by blast
  moreover have "get_or p ''choices'' (PList []) = PList cs'"
  proof (cases "cs' = []")
    case True
    with cs'(1) have "choices_of chunk = []" by (cases "choices_of chunk") (auto simp: and_then_eq_Inr)
    with True cs same [of "''choices''"] p' show ?thesis by (simp add: get_or_def)
  qed (simp add: p' get_or_def dget_update)
  moreover have "dget p ''usage'' = dget chunk ''usage''"
    using same [of "''usage''"] by (simp add: p' dget_update)
  ultimately show ?thesis using usage by (simp add: well_formed_def)
qed

lemma shown_to_ok:
  assumes "list_all (well_formed \<circ> PDict) cs"
  shows "list_all (well_formed \<circ> PDict) (shown_to env incl cs)"
proof -
  have "well_formed (PDict (case public_chunk m c of Inr p \<Rightarrow> p | Inl _ \<Rightarrow> []))" if "well_formed (PDict c)" for m c
    using public_never_raises [OF that, of m] public_chunk_ok [OF that, of m] by auto
  with assms show ?thesis by (auto simp: shown_to_def list_all_iff)
qed

lemma takeWhile_none: "x \<notin> set xs \<Longrightarrow> takeWhile (\<lambda>y. y \<noteq> x) (xs @ x # ys) = xs"
  by (induction xs) auto

text \<open>Data lines of the given texts, ended by the mark, are read as the chunks they hold.\<close>

lemma read_back:
  assumes "data_lines lines = map f ds @ [''[DONE]'']" and "list_all (well_formed \<circ> PDict) ds"
    and "\<And>d. d \<in> set ds \<Longrightarrow> one_line (f d) \<and> loads (f d) = Inr (PDict d)"
  shows "complete_answer loads (Replied 200 lines None) = Some ds"
proof -
  have "\<not> one_line ''[DONE]''" by (simp add: one_line_def)
  have "''[DONE]'' \<notin> set (map f ds)"
  proof
    assume "''[DONE]'' \<in> set (map f ds)"
    then obtain d where d: "d \<in> set ds" and "''[DONE]'' = f d" by (simp only: set_map image_iff) blast
    with assms(3) [OF d] \<open>\<not> one_line ''[DONE]''\<close> show False by simp
  qed
  from takeWhile_none [OF this, of "[]"]
  have "takeWhile (\<lambda>d. d \<noteq> ''[DONE]'') (data_lines lines) = map f ds" by (simp only: assms(1))
  moreover have good: "map (good_chunk loads) (map f ds) = map Some ds"
    using assms(2,3) by (induction ds) (simp_all add: good_chunk_def)
  moreover have "None \<notin> set (map (good_chunk loads) (map f ds))" unfolding good by auto
  moreover have "map the (map Some ds) = ds" by (simp add: comp_def)
  ultimately show ?thesis
    by (simp add: complete_answer_def Let_def assms(1) del: map_map set_map)
qed

lemma stream_reads_back_gen:
  assumes "0 < interval" and "length (fst (backend_chunks loads reply r)) < length moments"
    and "complete_answer loads reply = Some cs"
    and "\<And>p. p \<in> set (shown_to env incl cs) \<Longrightarrow>
      one_line (dumps env p) \<and> loads (dumps env p) = Inr (PDict p)"
  shows "\<exists>out r'. stream_answer env interval incl now moments (backend_chunks loads reply r) =
             Some (out, r', None) \<and>
           complete_answer loads (Replied 200 (client_lines out) None) = Some (shown_to env incl cs)"
proof -
  obtain cs1 r1 e where gen: "backend_chunks loads reply r = (cs1, r1, e)" by (metis prod.exhaust)
  note complete = backend_chunks_complete [OF gen]
  from complete assms(3) have e: "e = None" and cs: "cs1 = cs" by auto
  have wf: "list_all (well_formed \<circ> PDict) cs" using backend_chunks_well_formed [OF gen] cs by simp
  from assms(2) gen cs have "length cs < length moments" by simp
  from stream_answer_eq [OF assms(1) this wf, where now = now and e = e and env = env and incl = incl
      and r = r1] gen e cs
  obtain out t where st: "stream_answer env interval incl now moments (backend_chunks loads reply r) =
      Some ((now, Start 200 SSE_HEADERS) # out @ [(t, Body DONE), (t, Last [])], r1\<lparr>rec_status := 200\<rparr>, None)"
    and out: "data_bodies out = map (sse (dumps env)) (shown_to env incl cs)"
    "\<forall>(t, s) \<in> set out. \<exists>b. s = Body b \<and> (b = KEEP_ALIVE \<or> b \<in> range (sse (dumps env)))" by auto
  have "data_lines (client_lines ((now, Start 200 SSE_HEADERS) # out @ [(t, Body DONE), (t, Last [])])) =
      map (dumps env) (shown_to env incl cs) @ data_lines (split_at newline (DONE @ []))"
    using data_lines_out [OF out(2,1), of "DONE @ []"] assms(4) by (simp add: client_lines_def)
  also have "data_lines (split_at newline (DONE @ [])) = [''[DONE]'']"
    by (subst data_lines_marks) (simp add: data_lines_def is_data_def)
  finally have "complete_answer loads
      (Replied 200 (client_lines ((now, Start 200 SSE_HEADERS) # out @ [(t, Body DONE), (t, Last [])])) None) =
    Some (shown_to env incl cs)"
    by (rule read_back) (use shown_to_ok [OF wf] assms(4) in auto)
  with st show ?thesis by blast
qed

section \<open>Silence\<close>

lemma send_beats_spaced:
  assumes "send_beats env incl es = (out, None)" and "steps_within d now (map fst es @ [t])"
    and "0 \<le> d" and "prev \<le> now" and "now \<le> prev + of_nat j * d"
    and "j + length (filter (dropped incl) (outs es)) \<le> k"
  shows "steps_within (of_nat (Suc k) * d) prev (map fst out @ [t, t])"
  using assms
proof (induction env incl es arbitrary: out now prev j rule: send_beats.induct)
  case (1 env incl)
  have "of_nat j * d \<le> of_nat k * d" using 1 by (intro mult_right_mono) simp_all
  moreover have "0 \<le> of_nat (Suc k) * d" using 1 by simp
  ultimately show ?case using 1 by (simp add: algebra_simps)
next
  case (2 env incl t1 es)
  then obtain out' where out': "send_beats env incl es = (out', None)" "out = (t1, Body KEEP_ALIVE) # out'"
    by (auto split: prod.splits)
  have "of_nat j * d \<le> of_nat k * d" using 2 by (intro mult_right_mono) simp_all
  with 2 have "t1 \<le> prev + of_nat (Suc k) * d" by (simp add: algebra_simps)
  moreover have "steps_within (of_nat (Suc k) * d) t1 (map fst out' @ [t, t])"
    using 2 by (intro "2.IH" [OF out'(1), where now = t1 and j = 0]) simp_all
  ultimately show ?case using 2 out' by simp
next
  case (3 env incl t1 chunk es)
  have j: "of_nat j * d \<le> of_nat k * d" using 3 by (intro mult_right_mono) simp_all
  show ?case
  proof (cases "dropped incl chunk")
    case True
    with 3 show ?thesis
      by (intro "3.IH"(1) [where now = t1 and j = "Suc j"]) (simp_all add: algebra_simps)
  next
    case False
    then obtain p where p: "public_chunk (public_name env) chunk = Inr p"
      using "3.prems"(1) by (auto split: sum.splits)
    obtain out' where out': "send_beats env incl es = (out', None)"
        "out = (t1, Body (sse (dumps env) p)) # out'"
      using 3 False p by (auto split: prod.splits)
    have "t1 \<le> prev + of_nat (Suc k) * d" using 3 j by (simp add: algebra_simps)
    moreover have "steps_within (of_nat (Suc k) * d) t1 (map fst out' @ [t, t])"
      using 3 False by (intro "3.IH"(2) [OF False p out'(1), where now = t1 and j = 0]) simp_all
    ultimately show ?thesis using 3 out' False by simp
  qed
qed

lemma stream_spaced:
  assumes "0 < interval" and "length (fst (backend_chunks loads reply r)) < length moments"
    and "json_errors loads" and "http_errors reply"
    and "length (filter (dropped incl) (fst (backend_chunks loads reply r))) \<le> k"
  shows "\<exists>out r'. stream_answer env interval incl now moments (backend_chunks loads reply r) =
             Some (out, r', None) \<and> steps_within (of_nat (Suc k) * interval) now (map fst out)"
proof -
  obtain cs r1 e where gen: "backend_chunks loads reply r = (cs, r1, e)" by (metis prod.exhaust)
  have wf: "list_all (well_formed \<circ> PDict) cs" using backend_chunks_well_formed [OF gen] .
  from assms(2) gen have "length cs < length moments" by simp
  from stream_answer_eq [OF assms(1) this wf, where now = now and e = e and env = env and incl = incl
      and r = r1, folded gen]
  obtain out t es where st: "steps_within interval now (map fst es @ [t])" "outs es = cs"
    "send_beats env incl es = (out, None)"
    "stream_answer env interval incl now moments (backend_chunks loads reply r) =
      Some (case e of
         None \<Rightarrow> ((now, Start 200 SSE_HEADERS) # out @ [(t, Body DONE), (t, Last [])],
                 r1\<lparr>rec_status := 200\<rparr>, None)
       | Some (Backend_exn b) \<Rightarrow>
           ((now, Start 200 SSE_HEADERS) # out @ [(t, Body (error_text env (api_error_of b))), (t, Last [])],
            r1\<lparr>rec_status := failed_status b\<rparr>, None)
       | Some x \<Rightarrow> ((now, Start 200 SSE_HEADERS) # out, r1\<lparr>rec_status := 200\<rparr>, Some x))"
    by blast
  have "steps_within (of_nat (Suc k) * interval) now (map fst out @ [t, t])"
    by (rule send_beats_spaced [OF st(3,1), where j = 0]) (use assms(1,5) gen st(2) in auto)
  moreover have "0 \<le> of_nat (Suc k) * interval" using assms(1) by simp
  moreover have "e = None \<or> (\<exists>b. e = Some (Backend_exn b))"
    using backend_chunks_exn [OF _ assms(3,4), of r cs r1] gen by (cases e) auto
  ultimately show ?thesis using st(4) by auto
qed

section \<open>Both ways of answering\<close>

lemma complete_outcome:
  assumes json: "json_errors loads" and http: "http_errors reply"
    and fin: "\<And>result. collect_answer (public_name env) (backend_chunks loads reply r) = Inr result \<Longrightarrow>
      json_finite (PDict result)"
  shows "\<exists>resp r'. complete_response env (backend_chunks loads reply r) = (Some resp, r', None) \<and>
    rec_status r' = resp_status resp \<and>
    (case complete_answer loads reply of
       Some (c # cs) \<Rightarrow> resp_status resp = 200 \<and>
         (\<exists>result. resp_payload resp = Json result \<and> collect (public_name env) (c # cs) = Inr (Some result))
     | _ \<Rightarrow> resp_status resp \<in> FAILURES)"
proof -
  obtain cs r1 e where gen: "backend_chunks loads reply r = (cs, r1, e)" by (metis prod.exhaust)
  note complete = backend_chunks_complete [OF gen]
  from collect_chunks_summary [OF backend_chunks_well_formed [OF gen]] obtain s where
    s: "for_each collect_chunk 0 cs nothing_collected = Inr s" "summary cs s" by blast
  show ?thesis
  proof (cases e)
    case (Some x)
    from backend_chunks_exn [OF gen [unfolded Some] json http] obtain b
      where b: "x = Backend_exn b" "failed_status b \<in> FAILURES" by blast
    from complete(1) Some have "complete_answer loads reply = None" by auto
    with b s gen Some show ?thesis
      by (simp add: complete_response_def collect_answer_def error_response_def api_error_of_def)
  next
    case None
    with complete have ca: "complete_answer loads reply = Some cs" by blast
    show ?thesis
    proof (cases cs)
      case Nil
      with s(2) have "first_chunk s = None" by (simp add: summary_def)
      with s gen None ca Nil show ?thesis
        by (simp add: complete_response_def collect_answer_def answer_of_def no_answer_def
            error_response_def api_error_of_def FAILURES_def)
    next
      case (Cons c cs')
      with s(2) obtain first where first: "first_chunk s = Some first" by (auto simp: summary_def)
      from s(2) have "join_strs (contents s) = Inr (texts (contents s))"
        "join_strs (reasonings s) = Inr (texts (reasonings s))"
        by (simp_all add: summary_def only_strs_def join_only_strs)
      with first obtain result where result: "answer_of (public_name env) s = Inr (Some result)"
        by (auto simp: answer_of_def Let_def)
      then have coll: "collect_answer (public_name env) (backend_chunks loads reply r) = Inr result"
        using s gen None by (simp add: collect_answer_def)
      with fin gen result s ca Cons None show ?thesis
        by (simp add: complete_response_def collect_def)
    qed
  qed
qed

section \<open>Properties\<close>

text \<open>
  C16: The end mark is never sent for a cut-off answer. If the backend answered 200 and every
  data line up to its \<open>[DONE]\<close> was a well-formed chunk, the client of a stream gets these
  chunks in their public form, then \<open>[DONE]\<close>, and 200 is logged; in every other case (no
  connection, another status, a broken or malformed stream, one that ends early) it gets the
  chunks that came, then one error object and no \<open>[DONE]\<close>, and 400, 502 or 503 is logged.
\<close>

theorem stream_marks_only_complete_answers:
  assumes "0 < interval" and "json_errors loads" and "http_errors reply"
    and "length (fst (backend_chunks loads reply r)) < length moments"
  shows "\<exists>out r'. stream_answer env interval incl now moments (backend_chunks loads reply r) =
             Some (out, r', None) \<and>
           (case complete_answer loads reply of
              Some cs \<Rightarrow> rec_status r' = 200 \<and>
                data_bodies out = map (sse (dumps env)) (shown_to env incl cs) @ [DONE]
            | None \<Rightarrow> \<exists>cs e. rec_status r' = status e \<and> status e \<in> FAILURES \<and>
                data_bodies out = map (sse (dumps env)) (shown_to env incl cs) @ [error_text env e])"
  by (rule stream_outcome [OF assms])

text \<open>A backend that sends one chunk and ends without \<open>[DONE]\<close>, and one that sends it.\<close>

definition sample_line :: string where
  "sample_line = ''data: {chunk}''"

definition sample_loads :: "string \<Rightarrow> py_exn + pyval" where
  "sample_loads s = (if s = ''{chunk}'' then Inr (PDict sample_chunk) else Inl ValueError)"

definition sample_env :: client_env where
  "sample_env = \<lparr>dumps = (\<lambda>_. ''{chunk}''), show_msg = (\<lambda>_. ''error''), public_name = ''qwen''\<rparr>"

definition good_reply :: backend_reply where
  "good_reply = Replied 200 [sample_line, [], '': keep-alive'', ''data: [DONE]''] None"

lemma good_lines:
  "data_lines [sample_line, [], '': keep-alive'', ''data: [DONE]''] = [''{chunk}'', ''[DONE]'']"
  by (simp add: sample_line_def data_lines_def is_data_def data_of_def strip_def is_space_def code_def)

lemmas reply_eval = good_lines good_reply_def good_chunk_def sample_loads_def sample_chunk_ok

lemma sample_json_errors: "json_errors sample_loads"
  by (simp add: json_errors_def sample_loads_def)

lemma good_reply_ok: "http_errors good_reply" "complete_answer sample_loads good_reply = Some [sample_chunk]"
  by (simp_all add: http_errors_def complete_answer_def Let_def reply_eval)

lemma good_reply_chunks: "\<exists>r'. backend_chunks sample_loads good_reply r = ([sample_chunk], r', None)"
  using backend_chunks_complete [of sample_loads good_reply r] good_reply_ok(2)
  by (metis option.discI option.inject prod.exhaust)

lemma stream_marks_only_complete_answers_witness:
  "\<exists>out r'. stream_answer sample_env 15 False 0 [1, 2] (backend_chunks sample_loads good_reply new_record) =
     Some (out, r', None) \<and> rec_status r' = 200 \<and> DONE \<in> set (data_bodies out)"
proof -
  have "length (fst (backend_chunks sample_loads good_reply new_record)) < length [1, 2 :: rat]"
    using good_reply_chunks [of new_record] by auto
  from stream_marks_only_complete_answers [of 15, OF _ sample_json_errors good_reply_ok(1) this]
  show ?thesis using good_reply_ok(2) by fastforce
qed

text \<open>
  C17: What is streamed can be read back: the lines of the bodies a client gets, comments and
  all, are a complete answer again, and it consists of the public chunks that were sent.
\<close>

theorem streamed_answer_reads_back:
  assumes "0 < interval" and "length (fst (backend_chunks loads reply r)) < length moments"
    and "complete_answer loads reply = Some cs"
    and "\<And>p. p \<in> set (shown_to env incl cs) \<Longrightarrow>
      one_line (dumps env p) \<and> loads (dumps env p) = Inr (PDict p)"
  shows "\<exists>out r'. stream_answer env interval incl now moments (backend_chunks loads reply r) =
             Some (out, r', None) \<and>
           complete_answer loads (Replied 200 (client_lines out) None) = Some (shown_to env incl cs)"
  by (rule stream_reads_back_gen [OF assms])

definition public_sample :: pydict where
  "public_sample = (case public_chunk ''qwen'' sample_chunk of Inr p \<Rightarrow> p | Inl _ \<Rightarrow> [])"

definition both_loads :: "string \<Rightarrow> py_exn + pyval" where
  "both_loads s = (if s = ''{public}'' then Inr (PDict public_sample) else sample_loads s)"

definition public_env :: client_env where
  "public_env = sample_env\<lparr>dumps := (\<lambda>_. ''{public}'')\<rparr>"

lemma both_reply_ok: "complete_answer both_loads good_reply = Some [sample_chunk]"
  by (simp add: complete_answer_def Let_def reply_eval both_loads_def)

lemma both_shown: "shown_to public_env False [sample_chunk] = [public_sample]"
  by (simp add: shown_to_def dropped_def usage_only_def public_env_def sample_env_def public_sample_def
      sample_chunk_def)

lemma streamed_answer_reads_back_witness:
  "\<exists>out r'. stream_answer public_env 15 False 0 [40, 50] (backend_chunks both_loads good_reply new_record) =
     Some (out, r', None) \<and>
     complete_answer both_loads (Replied 200 (client_lines out) None) = Some [public_sample]"
proof -
  obtain cs r' e where gen: "backend_chunks both_loads good_reply new_record = (cs, r', e)"
    by (metis prod.exhaust)
  with backend_chunks_complete [OF gen] both_reply_ok
  have len: "length (fst (backend_chunks both_loads good_reply new_record)) < length [40, 50 :: rat]" by auto
  have "one_line (dumps public_env p) \<and> both_loads (dumps public_env p) = Inr (PDict p)"
    if "p \<in> set (shown_to public_env False [sample_chunk])" for p
    using that unfolding both_shown by (simp add: public_env_def both_loads_def one_line_def newline_def)
  from streamed_answer_reads_back [OF _ len both_reply_ok this, where interval = 15 and now = 0 and incl = False] show ?thesis
    by (simp add: both_shown)
qed

text \<open>
  C18: A stream is never silent for long: with a positive interval, between the start of the
  response and its last message no two messages are more than \<open>(k + 1)\<close> intervals apart,
  where \<open>k\<close> is the number of usage-only chunks that this client does not get. The backend
  sends one of them.
\<close>

theorem stream_never_silent:
  assumes "0 < interval" and "length (fst (backend_chunks loads reply r)) < length moments"
    and "json_errors loads" and "http_errors reply"
    and "length (filter (dropped incl) (fst (backend_chunks loads reply r))) \<le> k"
  shows "\<exists>out r'. stream_answer env interval incl now moments (backend_chunks loads reply r) =
             Some (out, r', None) \<and> steps_within (of_nat (Suc k) * interval) now (map fst out)"
  by (rule stream_spaced [OF assms])

lemma stream_never_silent_witness:
  "\<exists>out r'. stream_answer sample_env 15 False 0 [40, 200] (backend_chunks sample_loads good_reply new_record) =
     Some (out, r', None) \<and> steps_within 15 0 (map fst out)"
proof -
  have gen: "length (fst (backend_chunks sample_loads good_reply new_record)) < length [40, 200 :: rat]"
    "length (filter (dropped False) (fst (backend_chunks sample_loads good_reply new_record))) \<le> 0"
    using good_reply_chunks [of new_record]
    by (auto simp: dropped_def usage_only_def sample_chunk_def)
  from stream_never_silent [of 15, OF _ gen(1) sample_json_errors good_reply_ok(1) gen(2), of sample_env 0]
  show ?thesis by simp
qed

text \<open>
  C19: The heartbeat loop ends whenever its producer does: it hands over every chunk, in
  order, and the producer's outcome, and a comment is sent only after a whole interval in
  which nothing was handed over and nothing else was sent.
\<close>

theorem heartbeats_end_with_the_producer:
  assumes "0 < interval" and "\<exists>x \<in> set items. ends (snd x)"
  shows "\<exists>es t. with_heartbeats interval now items = Some (es, t, ending (map snd items)) \<and>
           outs es = given (map snd items) \<and> idle_before interval now es \<and>
           steps_within interval now (map fst es @ [t])"
proof -
  from heartbeats_total [OF assms] obtain r where r: "with_heartbeats interval now items = Some r" by blast
  from heartbeats_ok [OF r assms(1)] r show ?thesis by (auto simp: beats_ok_def split: prod.splits)
qed

lemma heartbeats_end_with_the_producer_witness:
  "\<exists>es t. with_heartbeats 15 0 [(40, Chunk ''x''), (41, End)] = Some (es, t, None) \<and> outs es = [''x'']"
  using heartbeats_end_with_the_producer [of 15 "[(40, Chunk ''x''), (41, End)]" 0] by fastforce

text \<open>
  C20: Streaming or not, the outcome is the same: the answer to a client that does not stream
  is 200 with the collected message exactly when the stream is complete and not empty, and one
  of the backend's failures otherwise; the record logs the status that is sent.
\<close>

theorem complete_answers_only_complete:
  assumes "json_errors loads" and "http_errors reply"
    and "\<And>result. collect_answer (public_name env) (backend_chunks loads reply r) = Inr result \<Longrightarrow>
      json_finite (PDict result)"
  shows "\<exists>resp r'. complete_response env (backend_chunks loads reply r) = (Some resp, r', None) \<and>
    rec_status r' = resp_status resp \<and>
    (case complete_answer loads reply of
       Some (c # cs) \<Rightarrow> resp_status resp = 200 \<and>
         (\<exists>result. resp_payload resp = Json result \<and> collect (public_name env) (c # cs) = Inr (Some result))
     | _ \<Rightarrow> resp_status resp \<in> FAILURES)"
  by (rule complete_outcome [OF assms])

lemma sample_collects:
  "collect_answer ''qwen'' ([sample_chunk], r', None) = Inr result \<Longrightarrow> json_finite (PDict result)"
  by (simp add: collect_answer_def collect_chunk_def get_or_def or_else_def nothing_collected_def
      sample_chunk_def collect_choice_def attr_or_def append_truthy_def answer_of_def join_strs_def Let_def)
    (auto simp: or_else_def)

lemma complete_answers_only_complete_witness:
  "\<exists>resp r'. complete_response sample_env (backend_chunks sample_loads good_reply new_record) =
     (Some resp, r', None) \<and> resp_status resp = 200 \<and> rec_status r' = 200"
proof -
  have "json_finite (PDict result)"
    if "collect_answer (public_name sample_env) (backend_chunks sample_loads good_reply new_record) = Inr result"
    for result
    using that good_reply_chunks [of new_record] sample_collects by (auto simp: sample_env_def)
  from complete_answers_only_complete [OF sample_json_errors good_reply_ok(1) this] show ?thesis
    using good_reply_ok(2) by fastforce
qed

text \<open>
  A dropped chunk restarts the timer without anything being sent: with a minute between
  comments, a client can wait for almost two.
\<close>

definition usage_chunk :: pydict where
  "usage_chunk = [(''choices'', PList []), (''usage'', PDict [(''prompt_tokens'', PInt 5)])]"

lemma dropped_usage_delays_comment:
  "stream_answer sample_env 60 False 0 [59, 200] ([usage_chunk], new_record, None) =
     Some ([(0, Start 200 SSE_HEADERS), (119, Body KEEP_ALIVE), (179, Body KEEP_ALIVE), (200, Body DONE),
            (200, Last [])], new_record\<lparr>rec_status := 200\<rparr>, None)"
  by (simp add: stream_answer_def produce_def heartbeats_item dropped_def usage_only_def usage_chunk_def)

end
