(* ===== verification/Registry.thy ===== *)
theory Registry
  imports Config
begin

text \<open>
  \<open>registry.py\<close>: the models that can be pulled. Entries are read with the sections of
  \<open>Config\<close>, so that every problem is reported; files are rendered and written back. The TOML
  parser, \<open>str\<close> of a value that is no string, and what Hugging Face answers are parameters.
\<close>

section \<open>Entries\<close>

record model_file =
  mf_name :: string
  mf_size :: int
  mf_sha256 :: string

record model_entry =
  me_id :: string
  me_description :: string
  me_repo :: string
  me_revision :: string
  me_disk_space :: int
  me_files :: "model_file list"

definition total_size :: "model_entry \<Rightarrow> int" where
  "total_size e = sum_list (map mf_size (me_files e))"

definition GIB :: nat where
  "GIB = 1024 ^ 3"

section \<open>Checks\<close>

definition hex :: "(char \<times> char) list" where
  "hex = [(CHR ''0'', CHR ''9''), (CHR ''a'', CHR ''f'')]"

definition ID_RE :: rx where
  "ID_RE = Seq (Class lower_digit) (Star (Class (lower_digit @ dot_under_dash)))"

definition REPO_PART :: rx where
  "REPO_PART = Seq (Class alnum) (Star (Class (alnum @ dot_under_dash)))"

definition REPO_RE :: rx where
  "REPO_RE = Seq REPO_PART (Seq (lit (CHR ''/'')) REPO_PART)"

definition REVISION_RE :: rx where
  "REVISION_RE = rep (Class hex) 40 40"

definition SHA256_RE :: rx where
  "SHA256_RE = rep (Class hex) 64 64"

definition check_id :: "string \<Rightarrow> message option" where
  "check_id v =
     (if fullmatch ID_RE v then None
      else Some [Txt (quoted v @ '' is not a valid model id (lowercase letters, digits, '' @
                   quoted ''.'' @ '', '' @ quoted ''_'' @ '', '' @ quoted ''-'' @ '')'')])"

definition check_repo :: "string \<Rightarrow> message option" where
  "check_repo v =
     (if fullmatch REPO_RE v then None
      else Some [Txt (quoted v @ '' is not a Hugging Face repository (expected '' @
                   quoted ''owner/name'' @ '')'')])"

definition check_revision :: "string \<Rightarrow> message option" where
  "check_revision v =
     (if fullmatch REVISION_RE v then None
      else Some [Txt (quoted v @ '' is not a full commit hash (40 lowercase hex digits)'')])"

text \<open>
  \<open>PurePosixPath\<close> is absolute when the name starts with a slash; after the second check its
  parts are the parts between slashes.
\<close>

definition file_name_problem :: "string \<Rightarrow> string option" where
  "file_name_problem name =
     (if name = [] \<or> hd name = CHR ''/'' \<or> CHR 0x5C \<in> set name
      then Some ''must be a relative path''
      else if \<exists>p \<in> set (split_at (CHR ''/'') name). p \<in> {[], ''.'', ''..''}
      then Some (''must not contain empty, '' @ quoted ''.'' @ '' or '' @ quoted ''..'' @ '' parts'')
      else if hd (split_at (CHR ''/'') name) = ''.alab''
      then Some (quoted ''.alab'' @ '' is reserved for download state'')
      else None)"

section \<open>Sizes as text\<close>

text \<open>\<open>a / b\<close> of integers, and \<open>f"{x:.1f}"\<close> of a float that is not negative\<close>

definition int_div :: "int \<Rightarrow> nat \<Rightarrow> py_exn + pyfloat" where
  "int_div a b =
     (case round_double (of_int a / of_nat b) of PosInf \<Rightarrow> Inl OverflowError | f \<Rightarrow> Inr f)"

definition fixed1 :: "pyfloat \<Rightarrow> string" where
  "fixed1 f =
     (case f of
        Fin q \<Rightarrow> let t = nat (round_half_even (q * 10))
                 in show_nat (t div 10) @ ''.'' @ [digit_char (t mod 10)]
      | NaN \<Rightarrow> ''nan''
      | PosInf \<Rightarrow> ''inf''
      | NegInf \<Rightarrow> ''-inf'')"

definition scaled :: "int \<Rightarrow> nat \<Rightarrow> string \<Rightarrow> py_exn + string" where
  "scaled n unit suf = and_then (int_div n unit) (\<lambda>f. Inr (fixed1 f @ suf))"

definition format_size :: "int \<Rightarrow> py_exn + string" where
  "format_size n =
     (if n \<ge> int GIB then scaled n GIB ''GB''
      else if n \<ge> 1024 ^ 2 then scaled n (1024 ^ 2) ''MB''
      else if n \<ge> 1024 then scaled n 1024 ''KB''
      else Inr (show_int n @ ''B''))"

definition tenths_text :: "int \<Rightarrow> py_exn + string" where
  "tenths_text tenths = scaled tenths 10 ''GB''"

text \<open>The loop that makes up for rounding; \<open>None\<close> if it never ends.\<close>

partial_function (option) enough_tenths :: "int \<Rightarrow> int \<Rightarrow> string \<Rightarrow> (py_exn + string) option" where
  "enough_tenths needed tenths t =
     (case parse_size t of
        Inl e \<Rightarrow> Some (Inl e)
      | Inr n \<Rightarrow>
          if n < needed
          then (case tenths_text (tenths + 1) of
              Inl e \<Rightarrow> Some (Inl e)
            | Inr t' \<Rightarrow> enough_tenths needed (tenths + 1) t')
          else Some (Inr t))"

definition disk_space_for :: "int \<Rightarrow> (py_exn + string) option" where
  "disk_space_for needed =
     (case int_div (needed * 10) GIB of
        Inl e \<Rightarrow> Some (Inl e)
      | Inr f \<Rightarrow>
          let tenths = max 1 (case f of Fin q \<Rightarrow> \<lceil>q\<rceil> | _ \<Rightarrow> 0)
          in case tenths_text tenths of
               Inl e \<Rightarrow> Some (Inl e)
             | Inr t \<Rightarrow> enough_tenths needed tenths t)"

section \<open>Reading the registry\<close>

definition FILE_FIELDS :: "string list" where
  "FILE_FIELDS = [''name'', ''size'', ''sha256'']"

definition file_label :: "string \<Rightarrow> nat \<Rightarrow> string" where
  "file_label w i = ''['' @ w @ ''] files['' @ show_nat i @ '']''"

definition name_errors :: "string \<Rightarrow> pyval \<Rightarrow> model_file list \<Rightarrow> message list" where
  "name_errors label name files =
     (case name of
        PStr s \<Rightarrow>
          (case file_name_problem s of
             Some problem \<Rightarrow> [[Txt (label @ '' name ''), Repr_of name, Txt ('': '' @ problem)]]
           | None \<Rightarrow>
               if s \<in> mf_name ` set files then [[Txt (label @ '' name '' @ s @ '': listed twice'')]]
               else [])
      | _ \<Rightarrow> [[Txt (label @ '' name: missing or not a string'')]])"

definition size_errors :: "string \<Rightarrow> pyval \<Rightarrow> message list" where
  "size_errors label v =
     (if (case v of PInt n \<Rightarrow> 0 \<le> n | _ \<Rightarrow> False) then []
      else [[Txt (label @ '' size: expected a non-negative integer, got ''), Repr_of v]])"

definition sha256_errors :: "string \<Rightarrow> pyval \<Rightarrow> message list" where
  "sha256_errors label v =
     (if (case v of PStr s \<Rightarrow> fullmatch SHA256_RE s | _ \<Rightarrow> False) then []
      else [[Txt (label @ '' sha256: expected 64 lowercase hex digits, got ''), Repr_of v]])"

text \<open>One round of the loop of \<open>_parse_files\<close>; the names seen are those of the files so far.\<close>

definition parse_file ::
    "string \<Rightarrow> nat \<Rightarrow> pyval \<Rightarrow> model_file list \<times> message list \<Rightarrow> model_file list \<times> message list" where
  "parse_file w i item st =
     (case st of (files, es) \<Rightarrow>
        let label = file_label w i
        in case item of
             PDict d \<Rightarrow>
               let unknown = map (\<lambda>key. [Txt (label @ '' '' @ key @ '': unknown field'')])
                     (sort (filter (\<lambda>k. k \<notin> set FILE_FIELDS) (dict_keys d)));
                   bad = name_errors label (dget d ''name'') files @ size_errors label (dget d ''size'') @
                         sha256_errors label (dget d ''sha256'')
               in (case (bad, dget d ''name'', dget d ''size'', dget d ''sha256'') of
                     ([], PStr name, PInt n, PStr sha) \<Rightarrow>
                       (files @ [\<lparr>mf_name = name, mf_size = n, mf_sha256 = sha\<rparr>], es @ unknown)
                   | _ \<Rightarrow> (files, es @ unknown @ bad))
           | _ \<Rightarrow> (files, es @ [[Txt (label @ '': expected a table with name, size and sha256'')]]))"

fun parse_items ::
    "string \<Rightarrow> nat \<Rightarrow> pyval list \<Rightarrow> model_file list \<times> message list \<Rightarrow> model_file list \<times> message list" where
  "parse_items w i [] st = st"
| "parse_items w i (v # vs) st = parse_items w (Suc i) vs (parse_file w i v st)"

definition parse_files :: "string \<Rightarrow> pyval \<Rightarrow> message list \<Rightarrow> model_file list \<times> message list" where
  "parse_files w v es =
     (case v of
        PList (x # xs) \<Rightarrow> parse_items w 0 (x # xs) ([], es)
      | _ \<Rightarrow> ([], es @ [[Txt (''['' @ w @ ''] files: expected a non-empty list of files'')]]))"

type_synonym registry = "(string \<times> model_entry) list"

definition entry_label :: "(pyval \<Rightarrow> string) \<Rightarrow> nat \<Rightarrow> pyval \<Rightarrow> string" where
  "entry_label str_of_val index t =
     (case t of PDict d \<Rightarrow> ''model '' @ str_of_val (dget d ''id'')
      | _ \<Rightarrow> ''model #'' @ show_nat (index + 1))"

text \<open>
  The fields of one table, read in order; \<open>files\<close> is marked as read and looked at only if the
  entry is a table. The problems stay in the section's list.
\<close>

definition read_table :: "(string \<times> string \<times> string \<times> string \<times> int) reader" where
  "read_table =
     read_then (string_field ''id'' check_id) (\<lambda>mid.
     read_then (string_field ''description'' (\<lambda>_. None)) (\<lambda>desc.
     read_then (string_field ''repo'' check_repo) (\<lambda>repo.
     read_then (string_field ''revision'' check_revision) (\<lambda>rev.
     read_then (size_field ''disk_space'') (\<lambda>space.
     done_with (mid, desc, repo, rev, space))))))"

definition read_entry_fields ::
    "string \<Rightarrow> pyval \<Rightarrow> message list \<Rightarrow> py_exn + model_entry \<times> message list" where
  "read_entry_fields label t es =
     and_then (read_table (open_section label t es)) (\<lambda>((mid, desc, repo, rev, space), s).
       let s1 = s\<lparr>seen := ''files'' # seen s\<rparr>;
           (files, es') = (if valid s1 then parse_files label (dget (table s1) ''files'') (errors s1)
                           else ([], errors s1));
           s2 = finish (s1\<lparr>errors := es'\<rparr>)
       in Inr (\<lparr>me_id = mid, me_description = desc, me_repo = repo, me_revision = rev,
                me_disk_space = space, me_files = files\<rparr>, errors s2))"

definition disk_space_errors :: "string \<Rightarrow> model_entry \<Rightarrow> py_exn + message list" where
  "disk_space_errors label e =
     (if me_files e \<noteq> [] \<and> me_disk_space e \<noteq> 0 \<and> me_disk_space e < total_size e
      then and_then (format_size (me_disk_space e)) (\<lambda>t.
             Inr [[Txt (''['' @ label @ ''] disk_space: '' @ t @ '' is less than the files' total size (''),
                   Str_of (PInt (total_size e)), Txt '' bytes)'']])
      else Inr [])"

definition parse_table ::
    "(pyval \<Rightarrow> string) \<Rightarrow> nat \<Rightarrow> pyval \<Rightarrow> registry \<times> message list \<Rightarrow> py_exn + registry \<times> message list" where
  "parse_table str_of_val index t st =
     (case st of (entries, es) \<Rightarrow>
        let label = entry_label str_of_val index t
        in and_then (read_entry_fields label t es) (\<lambda>(entry, es1).
           if me_id entry \<in> set (dict_keys entries)
           then Inr (entries, es1 @ [[Txt (''['' @ label @ ''] id: listed twice'')]])
           else and_then (disk_space_errors label entry) (\<lambda>more.
                Inr (if me_id entry \<noteq> [] then AList.update (me_id entry) entry entries else entries,
                     es1 @ more))))"

definition unknown_keys :: "pydict \<Rightarrow> message list" where
  "unknown_keys data =
     map (\<lambda>key. [Txt ''unknown top-level key '', Repr_of (PStr key), Txt '' (entries are [[model]] tables)''])
       (sort (filter (\<lambda>k. k \<noteq> ''model'') (dict_keys data)))"

definition parse_registry ::
    "(pyval \<Rightarrow> string) \<Rightarrow> string \<Rightarrow> pydict \<Rightarrow> config_failure + registry" where
  "parse_registry str_of_val path data =
     (let es0 = unknown_keys data;
          (raw, es1) = (case dget_default data ''model'' (PList []) of
                          PList ts \<Rightarrow> (ts, es0)
                        | _ \<Rightarrow> ([], es0 @ [[Txt ''model: expected [[model]] tables'']]))
      in and_then (crash (for_each (parse_table str_of_val) 0 raw ([], es1))) (\<lambda>(entries, es).
         if es \<noteq> [] then Inl (ConfigError path es) else Inr entries))"

definition load_registry ::
    "(pyval \<Rightarrow> string) \<Rightarrow> string \<Rightarrow> toml_file \<Rightarrow> config_failure + registry" where
  "load_registry str_of_val path file =
     (case file of
        Malformed e \<Rightarrow> Inl (ProfileError [Txt (''cannot parse '' @ path @ '': '' @ e)])
      | Unreadable e \<Rightarrow> Inl (ProfileError [Txt (''cannot read '' @ path @ '': '' @ e)])
      | NoFile \<Rightarrow> Inl (ProfileError [Txt (''cannot read '' @ path @ '': no such file'')])
      | Parsed data \<Rightarrow> parse_registry str_of_val path data)"

definition get_entry :: "string \<Rightarrow> registry \<Rightarrow> config_failure + model_entry" where
  "get_entry mid reg =
     (case map_of reg mid of
        Some e \<Rightarrow> Inr e
      | None \<Rightarrow>
          let known = join_with '', '' (sort (dict_keys reg));
              names = (if known = [] then ''none'' else known)
          in Inl (ProfileError [Txt (''model '' @ quoted mid @ '' is not in the registry (known: '' @
               names @ '')'')]))"

section \<open>Writing the registry\<close>

definition toml_char :: "char \<Rightarrow> string" where
  "toml_char c = (if c = CHR 0x5C then [CHR 0x5C, CHR 0x5C] else if c = CHR 0x22 then [CHR 0x5C, CHR 0x22] else [c])"

definition toml_string :: "string \<Rightarrow> string" where
  "toml_string s = quoted (concat (map toml_char s))"

definition render_file :: "model_file \<Rightarrow> string" where
  "render_file f =
     ''  { name = '' @ toml_string (mf_name f) @ '', size = '' @ show_int (mf_size f) @
     '', sha256 = '' @ toml_string (mf_sha256 f) @ '' },''"

definition render_model :: "model_entry \<Rightarrow> (py_exn + string) option" where
  "render_model e =
     (case disk_space_for (total_size e) of
        None \<Rightarrow> None
      | Some r \<Rightarrow> Some (and_then r (\<lambda>space.
          Inr (join_with [CHR 0x0A]
            ([''[[model]]'', ''id = '' @ toml_string (me_id e),
              ''description = '' @ toml_string (me_description e), ''repo = '' @ toml_string (me_repo e),
              ''revision = '' @ toml_string (me_revision e), ''disk_space = '' @ toml_string space,
              ''files = [''] @ map render_file (me_files e) @ ['']'']) @ [CHR 0x0A]))))"

definition HEADER :: string where
  "HEADER = concat (map (\<lambda>l. l @ [CHR 0x0A])
     [''# Model registry (design sections 3.2 and 8.2).'', ''#'',
      ''# Generated by `alab models lock <id> --repo <owner/name>`; do not edit hashes by'',
      ''# hand. `alab pull <id>` downloads exactly these files at this commit into'',
      ''# var/models/<id>/ and verifies every sha256.'', ''#'',
      ''# disk_space uses binary units (1GB = 1024^3 bytes) and covers all files.''])"

text \<open>The entries one after the other; the first that raises, or loops, decides.\<close>

fun render_all :: "model_entry list \<Rightarrow> (py_exn + string) option" where
  "render_all [] = Some (Inr [])"
| "render_all (e # es) =
     (case render_model e of
        None \<Rightarrow> None
      | Some (Inl x) \<Rightarrow> Some (Inl x)
      | Some (Inr t) \<Rightarrow>
          (case render_all es of
             None \<Rightarrow> None
           | Some r \<Rightarrow> Some (and_then r (\<lambda>ts. Inr (CHR 0x0A # t @ ts)))))"

record registry_env =
  toml_loads :: "string \<Rightarrow> string + pydict"
  shown_val :: "pyval \<Rightarrow> string"
  models_toml :: string

definition registry_file :: "registry_env \<Rightarrow> (string \<rightharpoonup> string) \<Rightarrow> toml_file" where
  "registry_file env d =
     (case d (models_toml env) of
        None \<Rightarrow> NoFile
      | Some text \<Rightarrow> (case toml_loads env text of Inl e \<Rightarrow> Malformed e | Inr data \<Rightarrow> Parsed data))"

text \<open>
  The two calls that touch the disk may fail: after some characters of the temporary file, or
  at its renaming. The temporary file is then left behind.
\<close>

datatype write_failure = Fails_in_write nat | Fails_in_rename

datatype write_result = Written | Refused_write config_failure | Bad_text string | Disk_error

definition replace_file ::
    "write_failure option \<Rightarrow> string \<Rightarrow> string \<Rightarrow> (string \<rightharpoonup> string) \<Rightarrow> write_result \<times> (string \<rightharpoonup> string)" where
  "replace_file fails path text d =
     (let tmp = path @ ''.tmp''
      in case fails of
           Some (Fails_in_write n) \<Rightarrow> (Disk_error, d(tmp \<mapsto> take n text))
         | Some Fails_in_rename \<Rightarrow> (Disk_error, d(tmp \<mapsto> text))
         | None \<Rightarrow> (Written, (d(path \<mapsto> text))(tmp := None)))"

definition write_entry ::
    "registry_env \<Rightarrow> write_failure option \<Rightarrow> model_entry \<Rightarrow> (string \<rightharpoonup> string) \<Rightarrow>
     (write_result \<times> (string \<rightharpoonup> string)) option" where
  "write_entry env fails entry d =
     (let path = models_toml env
      in case (if d path = None then Inr [] else load_registry (shown_val env) path (registry_file env d)) of
           Inl e \<Rightarrow> Some (Refused_write e, d)
         | Inr reg0 \<Rightarrow>
             let reg = AList.update (me_id entry) entry reg0;
                 es = map (\<lambda>k. the (map_of reg k)) (sort (dict_keys reg))
             in (case render_all es of
                  None \<Rightarrow> None
                | Some (Inl x) \<Rightarrow> Some (Refused_write (Crash x), d)
                | Some (Inr body) \<Rightarrow>
                    let text = HEADER @ body
                    in Some (case toml_loads env text of
                         Inl e \<Rightarrow> (Bad_text e, d)
                       | Inr data \<Rightarrow>
                           (case parse_registry (shown_val env) path data of
                              Inl e \<Rightarrow> (Refused_write e, d)
                            | Inr _ \<Rightarrow> replace_file fails path text d))))"

section \<open>Locking a model\<close>

text \<open>What Hugging Face says of one file, and the file's content when it is downloaded.\<close>

record sibling =
  rfilename :: string
  lfs :: "(int \<times> string) option"
  sib_size :: "int option"
  sib_content :: string

definition lock_file ::
    "(string \<Rightarrow> string) \<Rightarrow> string \<Rightarrow> sibling \<Rightarrow> config_failure + model_file" where
  "lock_file sha repo s =
     (case file_name_problem (rfilename s) of
        Some problem \<Rightarrow>
          Inl (ProfileError [Txt (repo @ '': file ''), Repr_of (PStr (rfilename s)), Txt ('' '' @ problem)])
      | None \<Rightarrow>
          let (n, digest) = (case lfs s of
                Some x \<Rightarrow> x
              | None \<Rightarrow> (int (length (sib_content s)), sha (sib_content s)))
          in if sib_size s \<noteq> None \<and> sib_size s \<noteq> Some n
             then Inl (ProfileError [Txt (repo @ '': '' @ rfilename s @ '' is '' @ show_int n @
                    '' bytes, metadata says '' @ show_int (the (sib_size s)))])
             else Inr \<lparr>mf_name = rfilename s, mf_size = n, mf_sha256 = digest\<rparr>)"

definition lock_entry ::
    "(string \<Rightarrow> string) \<Rightarrow> string \<Rightarrow> string \<Rightarrow> string \<Rightarrow> string \<Rightarrow> string option \<Rightarrow> sibling list \<Rightarrow>
     (config_failure + model_entry) option" where
  "lock_entry sha mid repo revision description commit siblings =
     (case (check_id mid, check_repo repo) of
        (Some m, _) \<Rightarrow> Some (Inl (ProfileError m))
      | (None, Some m) \<Rightarrow> Some (Inl (ProfileError m))
      | (None, None) \<Rightarrow>
          (case commit of
             None \<Rightarrow> Some (Inl (ProfileError [Txt (''Hugging Face returned no commit hash for '' @ repo @
                       ''@'' @ revision)]))
           | Some c \<Rightarrow>
               if check_revision c \<noteq> None
               then Some (Inl (ProfileError [Txt (''Hugging Face returned no commit hash for '' @ repo @
                       ''@'' @ revision)]))
               else (case map_res (lock_file sha repo) (sort_key rfilename siblings) of
                   Inl e \<Rightarrow> Some (Inl e)
                 | Inr [] \<Rightarrow> Some (Inl (ProfileError [Txt (repo @ ''@'' @ c @ '' has no files'')]))
                 | Inr files \<Rightarrow>
                     let entry = \<lparr>me_id = mid, me_description = description, me_repo = repo,
                                  me_revision = c, me_disk_space = 0, me_files = files\<rparr>
                     in (case disk_space_for (total_size entry) of
                          None \<Rightarrow> None
                        | Some r \<Rightarrow> Some (and_then (crash (and_then r parse_size))
                            (\<lambda>n. Inr (entry\<lparr>me_disk_space := n\<rparr>)))))))"

end
