(* ===== verification/Gpu_Limit.thy ===== *)
theory Gpu_Limit
  imports Registry
begin

text \<open>
  \<open>gpulimit.py\<close>, with \<open>sysctl\<close> and \<open>sysctl_int\<close> of \<open>macos.py\<close>: the one change to the system,
  made with \<open>sudo sysctl\<close>. What the system answers, what the user types and what the command does
  are parameters; the commands that are run are recorded. What MLX reports is a parameter too.
\<close>

section \<open>The state of the limit\<close>

definition MIB :: int where
  "MIB = 1024 ^ 2"

definition SYSCTL_NAME :: string where
  "SYSCTL_NAME = ''iogpu.wired_limit_mb''"

definition HEADROOM_MB :: int where
  "HEADROOM_MB = 3 * 1024"

record metal_info =
  recommended_bytes :: "int option"
  metal_note :: string

record limit_state =
  wired_limit_mb :: "int option"
  metal :: metal_info
  memory_of :: "int option"

definition effective_mb :: "limit_state \<Rightarrow> int option" where
  "effective_mb s =
     (case wired_limit_mb s of
        None \<Rightarrow> None
      | Some n \<Rightarrow>
          if n \<noteq> 0 then Some n
          else (case recommended_bytes (metal s) of
                  None \<Rightarrow> None
                | Some b \<Rightarrow> if b \<noteq> 0 then Some (b div MIB) else None))"

text \<open>What can be read, what the user answers, and what a command does to the next reading.\<close>

record mac =
  system_name :: string
  sysctl_text :: "string \<Rightarrow> string"     \<comment> \<open>\<open>sysctl -n\<close>, stripped; empty if it cannot be read\<close>
  mlx_info :: metal_info
  terminal :: bool
  typed :: "string option"               \<comment> \<open>\<open>None\<close>: end of input\<close>
  exit_status :: "string list \<Rightarrow> int"
  text_after :: "string list \<Rightarrow> string"  \<comment> \<open>the sysctl's text after the command\<close>

definition sysctl_value :: "string \<Rightarrow> py_exn + int option" where
  "sysctl_value s =
     (if \<not> str_isdigit s then Inr None
      else if length s > 4300 then Inl ValueError
      else and_then (int_of_digits s) (\<lambda>n. Inr (Some n)))"

definition read_state :: "mac \<Rightarrow> py_exn + limit_state" where
  "read_state m =
     and_then (sysctl_value (sysctl_text m SYSCTL_NAME)) (\<lambda>wired.
     and_then (sysctl_value (sysctl_text m ''hw.memsize'')) (\<lambda>memory.
     Inr \<lparr>wired_limit_mb = wired, metal = mlx_info m, memory_of = memory\<rparr>))"

definition ceiling_mb :: "int \<Rightarrow> int" where
  "ceiling_mb memory = memory div MIB - HEADROOM_MB"

definition sysctl_command :: "int \<Rightarrow> string list" where
  "sysctl_command value =
     [''/usr/bin/sudo'', ''/usr/sbin/sysctl'', SYSCTL_NAME @ ''='' @ show_int value]"

section \<open>What is shown\<close>

definition describe_limit :: "limit_state \<Rightarrow> string" where
  "describe_limit s =
     (case wired_limit_mb s of
        None \<Rightarrow> ''unknown (cannot read the sysctl)''
      | Some n \<Rightarrow> if n = 0 then ''0 (system default)'' else show_int n @ '' MB'')"

definition in_gb :: "int \<Rightarrow> py_exn + string" where
  "in_gb n = scaled n GIB '' GB''"

definition status_line :: "limit_state \<Rightarrow> int \<Rightarrow> string" where
  "status_line s needed =
     (case effective_mb s of
        None \<Rightarrow> ''status: the GPU limit in force is unknown''
      | Some e \<Rightarrow>
          if e \<ge> needed
          then ''status: OK, '' @ show_int e @ '' MB in force (profile needs '' @ show_int needed @ '' MB)''
          else ''status: '' @ show_int e @ '' MB in force is below the profile's '' @ show_int needed @
               '' MB; run `./alab gpu-limit apply` (resets on reboot)'')"

definition metal_row :: "metal_info \<Rightarrow> py_exn + string" where
  "metal_row i =
     (case recommended_bytes i of
        Some b \<Rightarrow> if b \<noteq> 0 then and_then (in_gb b) (\<lambda>t. Inr (t @ '' ('' @ metal_note i @ '')''))
                  else Inr (''unavailable: '' @ metal_note i)
      | None \<Rightarrow> Inr (''unavailable: '' @ metal_note i))"

definition memory_row :: "int option \<Rightarrow> py_exn + string" where
  "memory_row memory =
     (case memory of
        Some n \<Rightarrow> if n \<noteq> 0 then and_then (in_gb n) (\<lambda>t. Inr (t @ '' ('' @ show_int (n div MIB) @ '' MB)''))
                  else Inr ''unknown''
      | None \<Rightarrow> Inr ''unknown'')"

definition ljust :: "nat \<Rightarrow> string \<Rightarrow> string" where
  "ljust n s = s @ replicate (n - length s) (CHR '' '')"

text \<open>The lines that \<open>show\<close> prints\<close>

definition show_limit :: "profile \<Rightarrow> limit_state \<Rightarrow> py_exn + string list" where
  "show_limit p s =
     and_then (metal_row (metal s)) (\<lambda>metal_text.
     and_then (memory_row (memory_of s)) (\<lambda>memory_text.
       let needed = gpu_wired_limit_mb p;
           rows = [(SYSCTL_NAME, describe_limit s), (''Metal recommended working set'', metal_text),
                   (''physical memory'', memory_text),
                   (''profile '' @ profile_name p @ '' needs'', show_int needed @ '' MB'')] @
                  (case memory_of s of
                     Some n \<Rightarrow> if n \<noteq> 0 then [(''ceiling (physical - 3GB)'', show_int (ceiling_mb n) @ '' MB'')]
                               else []
                   | None \<Rightarrow> []);
           width = Max (set (map (\<lambda>r. length (fst r)) rows))
       in Inr (map (\<lambda>r. ''  '' @ ljust width (fst r) @ ''  '' @ snd r) rows @ [status_line s needed])))"

section \<open>Changing the limit\<close>

datatype gpu_error =
    Not_macos string
  | No_terminal
  | Cancelled
  | Command_failed int
  | Not_as_set "int option" int
  | Memory_unknown
  | Above_ceiling int int
  | Gpu_crash py_exn

text \<open>\<open>confirm\<close>\<close>

definition confirm :: "mac \<Rightarrow> gpu_error + bool" where
  "confirm m =
     (if \<not> terminal m then Inl No_terminal
      else Inr (case typed m of None \<Rightarrow> False | Some s \<Rightarrow> str_lower (strip s) \<in> {''y'', ''yes''}))"

text \<open>\<open>_set\<close>: the result and the commands that were run\<close>

definition set_limit :: "mac \<Rightarrow> int \<Rightarrow> bool \<Rightarrow> (gpu_error + unit) \<times> string list list" where
  "set_limit m value assume_yes =
     (let argv = sysctl_command value
      in case (if assume_yes then Inr True else confirm m) of
           Inl e \<Rightarrow> (Inl e, [])
         | Inr agreed \<Rightarrow>
             if \<not> agreed then (Inl Cancelled, [])
             else if exit_status m argv \<noteq> 0 then (Inl (Command_failed (exit_status m argv)), [argv])
             else (case sysctl_value (text_after m argv) of
                     Inl e \<Rightarrow> (Inl (Gpu_crash e), [argv])
                   | Inr found \<Rightarrow>
                       if found \<noteq> Some value then (Inl (Not_as_set found value), [argv])
                       else (Inr (), [argv])))"

definition apply_limit :: "mac \<Rightarrow> profile \<Rightarrow> bool \<Rightarrow> (gpu_error + unit) \<times> string list list" where
  "apply_limit m p assume_yes =
     (if system_name m \<noteq> ''Darwin'' then (Inl (Not_macos (system_name m)), [])
      else
        let value = gpu_wired_limit_mb p
        in case read_state m of
             Inl e \<Rightarrow> (Inl (Gpu_crash e), [])
           | Inr s \<Rightarrow>
               (case memory_of s of
                  None \<Rightarrow> (Inl Memory_unknown, [])
                | Some memory \<Rightarrow>
                    if value > ceiling_mb memory then (Inl (Above_ceiling value (ceiling_mb memory)), [])
                    else if wired_limit_mb s = Some value then (Inr (), [])
                    else (case in_gb (memory - value * MIB) of
                            Inl e \<Rightarrow> (Inl (Gpu_crash e), [])
                          | Inr _ \<Rightarrow> set_limit m value assume_yes)))"

definition revert_limit :: "mac \<Rightarrow> bool \<Rightarrow> (gpu_error + unit) \<times> string list list" where
  "revert_limit m assume_yes =
     (if system_name m \<noteq> ''Darwin'' then (Inl (Not_macos (system_name m)), [])
      else case sysctl_value (sysctl_text m SYSCTL_NAME) of
        Inl e \<Rightarrow> (Inl (Gpu_crash e), [])
      | Inr current \<Rightarrow> if current = Some 0 then (Inr (), []) else set_limit m 0 assume_yes)"

section \<open>The one change is guarded\<close>

definition agreed :: "mac \<Rightarrow> bool \<Rightarrow> bool" where
  "agreed m assume_yes \<longleftrightarrow>
     assume_yes \<or> terminal m \<and> (\<exists>s. typed m = Some s \<and> str_lower (strip s) \<in> {''y'', ''yes''})"

lemma set_limit_runs:
  assumes "set_limit m value assume_yes = (res, cmds)"
  shows "(cmds = [] \<longrightarrow> \<not> agreed m assume_yes \<and> res \<in> {Inl No_terminal, Inl Cancelled}) \<and>
    (cmds \<noteq> [] \<longrightarrow> cmds = [sysctl_command value] \<and> agreed m assume_yes) \<and>
    (res = Inr () \<longleftrightarrow> cmds \<noteq> [] \<and> exit_status m (sysctl_command value) = 0 \<and>
      sysctl_value (text_after m (sysctl_command value)) = Inr (Some value))"
  using assms
  by (auto simp: set_limit_def confirm_def agreed_def Let_def split: if_splits sum.splits option.splits)

lemma ceiling_mb_le: "value \<le> ceiling_mb memory \<longleftrightarrow> (value + 3072) * 1024 ^ 2 \<le> memory"
proof -
  have "memory = memory div 1048576 * 1048576 + memory mod 1048576" "0 \<le> memory mod 1048576"
    "memory mod 1048576 < 1048576" by simp_all
  then show ?thesis by (simp add: ceiling_mb_def HEADROOM_MB_def MIB_def) linarith
qed

text \<open>What the limit reads as once the commands have run\<close>

definition reading :: "mac \<Rightarrow> string list list \<Rightarrow> py_exn + int option" where
  "reading m cmds = sysctl_value (if cmds = [] then sysctl_text m SYSCTL_NAME else text_after m (hd cmds))"

lemma apply_runs:
  assumes "apply_limit m p yes = (res, cmds)"
  shows "(cmds = [] \<or> cmds = [sysctl_command (gpu_wired_limit_mb p)] \<and> system_name m = ''Darwin'' \<and> agreed m yes \<and>
      (\<exists>memory. sysctl_value (sysctl_text m ''hw.memsize'') = Inr (Some memory) \<and>
        (gpu_wired_limit_mb p + 3072) * 1024 ^ 2 \<le> memory)) \<and>
    (res = Inr () \<longrightarrow> reading m cmds = Inr (Some (gpu_wired_limit_mb p)))"
proof (cases "set_limit m (gpu_wired_limit_mb p) yes")
  case (Pair r c)
  from set_limit_runs [OF Pair] assms Pair show ?thesis
    by (auto simp: apply_limit_def Let_def read_state_def reading_def and_then_eq_Inr not_less ceiling_mb_le
        split: if_splits sum.splits option.splits)
qed

lemma revert_runs:
  assumes "revert_limit m yes = (res, cmds)"
  shows "(cmds = [] \<or> cmds = [sysctl_command 0] \<and> system_name m = ''Darwin'' \<and> agreed m yes) \<and>
    (res = Inr () \<longrightarrow> reading m cmds = Inr (Some 0))"
proof (cases "set_limit m 0 yes")
  case (Pair r c)
  from set_limit_runs [OF Pair] assms Pair show ?thesis
    by (auto simp: revert_limit_def reading_def split: if_splits sum.splits)
qed

text \<open>
  C34: whatever the system reports, \<open>apply\<close> and \<open>revert\<close> run no command but one
  \<open>sudo sysctl iogpu.wired_limit_mb\<close>, only on macOS and only when the user agreed; \<open>apply\<close> sets the
  profile's value, never above the physical memory minus 3GB, and \<open>revert\<close> sets 0; and they return
  only when the limit reads as it should.
\<close>

theorem limit_changes_are_guarded:
  assumes "apply_limit m p yes = (res, cmds)" and "revert_limit m yes = (res', cmds')"
  shows "(cmds = [] \<or> cmds = [sysctl_command (gpu_wired_limit_mb p)] \<and> system_name m = ''Darwin'' \<and> agreed m yes \<and>
      (\<exists>memory. sysctl_value (sysctl_text m ''hw.memsize'') = Inr (Some memory) \<and>
        (gpu_wired_limit_mb p + 3072) * 1024 ^ 2 \<le> memory)) \<and>
    (res = Inr () \<longrightarrow> reading m cmds = Inr (Some (gpu_wired_limit_mb p))) \<and>
    (cmds' = [] \<or> cmds' = [sysctl_command 0] \<and> system_name m = ''Darwin'' \<and> agreed m yes) \<and>
    (res' = Inr () \<longrightarrow> reading m cmds' = Inr (Some 0))"
  using apply_runs [OF assms(1)] revert_runs [OF assms(2)] by blast

definition small_mac :: mac where
  "small_mac = \<lparr>system_name = ''Darwin'', sysctl_text = (\<lambda>name. if name = ''hw.memsize'' then ''25769803776'' else ''0''),
     mlx_info = \<lparr>recommended_bytes = None, metal_note = ''no MLX''\<rparr>, terminal = True, typed = Some ''yes '',
     exit_status = \<lambda>_. 0, text_after = \<lambda>cmd. if cmd = sysctl_command 0 then ''0'' else ''20480''\<rparr>"

definition some_profile :: profile where
  "some_profile = \<lparr>profile_name = ''mac'', profile_path = ''mac.toml'', model_id = ''m'',
     backend = \<lparr>backend_port = 8081, prefill_step_size = 512, prompt_cache_size = 2, prompt_cache_bytes = 2 ^ 31,
       metal_memory_limit = 2 ^ 34, tool_parser = ''auto'', enable_thinking = True, temperature = Fin 1,
       top_p = Fin 1, top_k = 20, thinking_temperature = Fin 1, thinking_top_p = Fin 1, thinking_top_k = 20,
       start_timeout_seconds = 600\<rparr>,
     gateway = \<lparr>gateway_port = 8080, model_name = ''qwen'', max_context = 65536, max_output_tokens = 32768,
       min_output_tokens = 1024, queue_size = 4, heartbeat_seconds = 15\<rparr>,
     tunnel = \<lparr>enabled = False, hostname = []\<rparr>, gpu_wired_limit_mb = 20480\<rparr>"

lemma small_texts: "sysctl_value ''0'' = Inr (Some 0)" "sysctl_value ''20480'' = Inr (Some 20480)"
  "sysctl_value ''25769803776'' = Inr (Some 25769803776)" "str_lower (strip ''yes '') = ''yes''"
  by (simp_all add: sysctl_value_def str_isdigit_def is_digit_def is_ascii_digit_def int_of_digits_def code_def
      read_nat_def digit_val_def str_lower_def lower_char_def strip_def is_space_def)

lemma small_left: "\<exists>t. in_gb 4294967296 = Inr t"
  by (simp add: in_gb_def scaled_def int_div_def GIB_def round_double_exact [of _ 4 0])

lemma small_apply: "apply_limit small_mac some_profile False = (Inr (), [sysctl_command 20480])"
proof -
  have "sysctl_command 20480 \<noteq> sysctl_command 0"
    by (simp add: sysctl_command_def show_int_def show_nat.simps)
  then have "set_limit small_mac 20480 False = (Inr (), [sysctl_command 20480])"
    by (simp add: set_limit_def confirm_def small_mac_def small_texts)
  with small_left show ?thesis
    by (auto simp: apply_limit_def read_state_def ceiling_mb_def MIB_def HEADROOM_MB_def some_profile_def
        small_mac_def SYSCTL_NAME_def small_texts)
qed

lemma small_revert: "revert_limit small_mac False = (Inr (), [])"
  by (simp add: revert_limit_def small_mac_def SYSCTL_NAME_def small_texts)

lemma some_value: "gpu_wired_limit_mb some_profile = 20480"
  by (simp add: some_profile_def)

theorem limit_changes_are_guarded_witness:
  "snd (apply_limit small_mac some_profile False) = [sysctl_command 20480] \<and> agreed small_mac False \<and>
    reading small_mac [sysctl_command 20480] = Inr (Some 20480)"
  using limit_changes_are_guarded [OF small_apply small_revert] by (simp add: small_apply some_value)

end
