(* ===== verification/Doctor.thy ===== *)
theory Doctor
  imports Gpu_Limit
begin

text \<open>
  \<open>doctor.py\<close>: the checks of the machine, and of the tools with \<open>toolchain.py\<close>. What is read from
  the system is an argument of each check; the text of \<open>vm_stat\<close> is read elsewhere.
\<close>

datatype check_status = OK | WARN | FAIL

record check =
  check_name :: string
  outcome :: check_status
  detail :: string

definition Check :: "string \<Rightarrow> check_status \<Rightarrow> string \<Rightarrow> check" where
  "Check name st d = \<lparr>check_name = name, outcome = st, detail = d\<rparr>"

record system_info =
  system :: string
  machine_name :: string
  chip :: string
  memory_bytes :: "int option"
  macos_version :: string

section \<open>Numbers in texts\<close>

text \<open>\<open>f"{n / GIB:.0f}"\<close> and \<open>f"{n / GIB:.1f}"\<close>\<close>

definition fixed0 :: "pyfloat \<Rightarrow> string" where
  "fixed0 f =
     (case f of Fin q \<Rightarrow> show_nat (nat (round_half_even q)) | NaN \<Rightarrow> ''nan'' | PosInf \<Rightarrow> ''inf'' | NegInf \<Rightarrow> ''-inf'')"

definition whole_gb :: "int \<Rightarrow> py_exn + string" where
  "whole_gb n = and_then (int_div n GIB) (\<lambda>f. Inr (fixed0 f @ '' GB''))"

section \<open>The machine\<close>

definition check_chip :: "system_info \<Rightarrow> check" where
  "check_chip info =
     (let d = chip info @ '' ('' @ machine_name info @ '')''
      in if system info = ''Darwin'' \<and> machine_name info = ''arm64'' then Check ''chip'' OK d
         else Check ''chip'' FAIL (d @ ''; agent-lab needs an Apple Silicon Mac''))"

definition RECOMMENDED_MEMORY :: int where
  "RECOMMENDED_MEMORY = 24 * int GIB"

definition check_memory :: "system_info \<Rightarrow> py_exn + check" where
  "check_memory info =
     (case memory_bytes info of
        None \<Rightarrow> Inr (Check ''memory'' WARN ''could not read physical memory'')
      | Some n \<Rightarrow>
          and_then (whole_gb n) (\<lambda>d.
            Inr (if n < RECOMMENDED_MEMORY
                 then Check ''memory'' WARN (d @ ''; the 27B profile is sized for 24 GB'')
                 else Check ''memory'' OK d)))"

text \<open>\<open>_version_tuple\<close>: the leading numeric parts; \<open>int\<close> raises for a superscript.\<close>

fun version_parts :: "string list \<Rightarrow> py_exn + int list" where
  "version_parts [] = Inr []"
| "version_parts (p # ps) =
     (if \<not> str_isdigit p then Inr []
      else and_then (int_of_digits p) (\<lambda>n. and_then (version_parts ps) (\<lambda>ns. Inr (n # ns))))"

definition MIN_MACOS :: "int list" where
  "MIN_MACOS = [14, 0]"

text \<open>Tuples compare as lists do in lexicographic order.\<close>

definition check_macos :: "system_info \<Rightarrow> py_exn + check" where
  "check_macos info =
     (if system info \<noteq> ''Darwin'' then Inr (Check ''macOS'' FAIL (''not macOS ('' @ system info @ '')''))
      else
        and_then (version_parts (split_at (CHR ''.'') (macos_version info))) (\<lambda>version.
        Inr (if version = [] then Check ''macOS'' WARN ''could not read the macOS version''
             else if version < MIN_MACOS
             then Check ''macOS'' FAIL (macos_version info @ ''; MLX needs macOS '' @
                    join_with ''.'' (map show_int MIN_MACOS) @ ''+'')
             else Check ''macOS'' OK (macos_version info))))"

definition MIN_FREE_DISK :: int where
  "MIN_FREE_DISK = 20 * int GIB"

definition check_disk :: "string \<Rightarrow> int \<Rightarrow> py_exn + check" where
  "check_disk home free_bytes =
     and_then (in_gb free_bytes) (\<lambda>t.
       let d = t @ '' free at '' @ home
       in Inr (if free_bytes < MIN_FREE_DISK then Check ''disk'' WARN (d @ ''; models need about 20 GB'')
               else Check ''disk'' OK d))"

section \<open>The GPU limit and memory\<close>

definition check_gpu_limit :: "system_info \<Rightarrow> profile \<Rightarrow> limit_state \<Rightarrow> check" where
  "check_gpu_limit info p s =
     (if system info \<noteq> ''Darwin'' then Check ''GPU limit'' WARN (SYSCTL_NAME @ '' only exists on macOS'')
      else
        let needed = gpu_wired_limit_mb p;
            memory = (case memory_of s of Some n \<Rightarrow> n | None \<Rightarrow> 0)
        in if memory \<noteq> 0 \<and> needed > ceiling_mb memory
           then Check ''GPU limit'' WARN (''profile '' @ profile_name p @ '' needs '' @ show_int needed @
                  '' MB, above this machine's ceiling of '' @ show_int (ceiling_mb memory) @
                  '' MB; it cannot run here'')
           else
             (case effective_mb s of
                None \<Rightarrow>
                  let reason = (if wired_limit_mb s = Some 0 then metal_note (metal s) else ''cannot read the sysctl'')
                  in Check ''GPU limit'' WARN (''limit in force is unknown: '' @ reason)
              | Some e \<Rightarrow>
                  let source = (case wired_limit_mb s of
                        Some n \<Rightarrow> if n \<noteq> 0 then SYSCTL_NAME @ ''='' @ show_int n
                                  else ''system default, Metal recommends '' @ show_int e @ '' MB''
                      | None \<Rightarrow> ''system default, Metal recommends '' @ show_int e @ '' MB'')
                  in if e < needed
                     then Check ''GPU limit'' WARN (source @ '', below the '' @ show_int needed @
                            '' MB the profile needs; run ./alab gpu-limit apply before serving (resets on reboot)'')
                     else Check ''GPU limit'' OK (source @ '' (profile needs '' @ show_int needed @ '' MB)'')))"

record memory_stats =
  available_bytes :: int
  swap_used_bytes :: "int option"

definition SWAP_WARN :: int where
  "SWAP_WARN = int GIB"

definition check_free :: "int \<Rightarrow> int \<Rightarrow> py_exn + check" where
  "check_free available needed =
     and_then (in_gb available) (\<lambda>a.
       if available < needed
       then and_then (in_gb needed) (\<lambda>n.
         Inr (Check ''free memory'' WARN (a @ '' available, less than the model's '' @ n @
                ''; close memory-heavy apps before serving'')))
       else Inr (Check ''free memory'' OK (a @ '' available'')))"

definition check_swap :: "int option \<Rightarrow> py_exn + check" where
  "check_swap used =
     (case used of
        None \<Rightarrow> Inr (Check ''swap'' WARN ''could not read vm.swapusage'')
      | Some n \<Rightarrow>
          and_then (in_gb n) (\<lambda>t.
            Inr (if n > SWAP_WARN then Check ''swap'' WARN (t @ '' in use; memory is already under pressure'')
                 else Check ''swap'' OK (t @ '' in use''))))"

definition check_memory_pressure :: "system_info \<Rightarrow> profile \<Rightarrow> memory_stats option \<Rightarrow> py_exn + check list" where
  "check_memory_pressure info p stats =
     (if system info \<noteq> ''Darwin'' then Inr [Check ''free memory'' WARN ''only checked on macOS'']
      else case stats of
        None \<Rightarrow> Inr [Check ''free memory'' WARN ''could not read vm_stat'']
      | Some s \<Rightarrow>
          and_then (check_free (available_bytes s) (metal_memory_limit (backend p))) (\<lambda>free.
          and_then (check_swap (swap_used_bytes s)) (\<lambda>swap.
          Inr [free, swap])))"

section \<open>Ports\<close>

definition by_owner :: "string \<Rightarrow> string" where
  "by_owner owner = (if owner = [] then [] else '' by '' @ owner)"

text \<open>\<open>port_owner\<close>: the first process and command in the output of \<open>lsof -Fpc\<close>\<close>

fun owner_fields :: "string \<Rightarrow> string \<Rightarrow> string list \<Rightarrow> string \<times> string" where
  "owner_fields p c [] = (p, c)"
| "owner_fields p c (line # ls) =
     (if line \<noteq> [] \<and> hd line = CHR ''p'' \<and> p = [] then owner_fields (tl line) c ls
      else if line \<noteq> [] \<and> hd line = CHR ''c'' \<and> c = [] then owner_fields p (tl line) ls
      else owner_fields p c ls)"

definition port_owner :: "string list \<Rightarrow> string" where
  "port_owner ls = (case owner_fields [] [] ls of (p, c) \<Rightarrow> if p = [] then [] else c @ '' (pid '' @ p @ '')'')"

definition check_port :: "(int \<Rightarrow> bool) \<Rightarrow> (int \<Rightarrow> string) \<Rightarrow> string \<Rightarrow> int \<Rightarrow> check" where
  "check_port used owner role port =
     (let name = ''port '' @ show_int port
      in if \<not> used port then Check name OK (''free for the '' @ role)
         else Check name WARN (''in use'' @ by_owner (owner port) @ ''; the '' @ role @
                '' cannot start unless that is agent-lab''))"

definition check_ports :: "(int \<Rightarrow> bool) \<Rightarrow> (int \<Rightarrow> string) \<Rightarrow> profile \<Rightarrow> check list" where
  "check_ports used owner p =
     [check_port used owner ''gateway'' (gateway_port (gateway p)),
      check_port used owner ''backend'' (backend_port (backend p))]"

section \<open>The tools\<close>

definition TOOLS :: "string list" where
  "TOOLS = [''uv'', ''cloudflared'']"

record tool_pin =
  pin_name :: string
  pin_version :: pyval
  pin_sha256 :: pyval

definition platform_key :: "string \<Rightarrow> string \<Rightarrow> string option" where
  "platform_key sys mach =
     map_of [((''Darwin'', ''arm64''), ''darwin-arm64''), ((''Linux'', ''x86_64''), ''linux-x86_64'')] (sys, mach)"

text \<open>\<open>data[name]["version"]\<close> and \<open>data[name][platform]["sha256"]\<close>; a missing key raises.\<close>

definition load_pin :: "pydict \<Rightarrow> string \<Rightarrow> string \<Rightarrow> py_exn + tool_pin" where
  "load_pin data platform name =
     and_then (item_get (PDict data) name) (\<lambda>entry.
     and_then (item_get entry ''version'') (\<lambda>version.
     and_then (item_get entry platform) (\<lambda>p.
     and_then (item_get p ''sha256'') (\<lambda>sha.
     Inr \<lparr>pin_name = name, pin_version = version, pin_sha256 = sha\<rparr>))))"

definition load_pins :: "string \<Rightarrow> toml_file \<Rightarrow> string \<Rightarrow> string + tool_pin list" where
  "load_pins path file platform =
     (case file of
        Malformed e \<Rightarrow> Inl (''cannot read '' @ path @ '': '' @ e)
      | Unreadable e \<Rightarrow> Inl (''cannot read '' @ path @ '': '' @ e)
      | NoFile \<Rightarrow> Inl (''cannot read '' @ path @ '': no such file'')
      | Parsed data \<Rightarrow>
          map_res (\<lambda>name. case load_pin data platform name of
              Inl _ \<Rightarrow> Inl (path @ '': no '' @ name @ '' entry for '' @ platform)
            | Inr pin \<Rightarrow> Inr pin) TOOLS)"

text \<open>\<open>read_stamp\<close> of the lines of the file\<close>

fun stamp_values :: "(string \<times> string) list \<Rightarrow> string list \<Rightarrow> (string \<times> string) list" where
  "stamp_values d [] = d"
| "stamp_values d (line # ls) =
     (case partition_at (CHR ''='') line of
        (key, found, v) \<Rightarrow> stamp_values (if found then AList.update key v d else d) ls)"

definition verify_tool ::
    "(string \<Rightarrow> string) \<Rightarrow> (pyval \<Rightarrow> string) \<Rightarrow> string \<Rightarrow> string list option \<Rightarrow> string option \<Rightarrow> tool_pin \<Rightarrow> string option"
where
  "verify_tool sha str_of binary stamp program pin =
     (case program of
        None \<Rightarrow> Some (binary @ '' is missing'')
      | Some data \<Rightarrow>
          let st = (case stamp of None \<Rightarrow> [] | Some ls \<Rightarrow> stamp_values [] ls)
          in if map PStr (case map_of st ''version'' of None \<Rightarrow> [] | Some x \<Rightarrow> [x]) \<noteq> [pin_version pin] \<or>
                map PStr (case map_of st ''sha256'' of None \<Rightarrow> [] | Some x \<Rightarrow> [x]) \<noteq> [pin_sha256 pin]
             then Some (''installed '' @ (case map_of st ''version'' of None \<Rightarrow> ''unknown version'' | Some x \<Rightarrow> x) @
                    '' does not match config/tools.toml ('' @
                    (case pin_version pin of PStr s \<Rightarrow> s | v \<Rightarrow> str_of v) @ '')'')
             else if map_of st ''binary_sha256'' \<noteq> Some (sha data)
             then Some (binary @ '' was modified after installation'')
             else None)"

section \<open>The result\<close>

text \<open>\<open>main\<close>: the exit code\<close>

definition doctor_code :: "check list \<Rightarrow> nat" where
  "doctor_code checks = (if filter (\<lambda>c. outcome c = FAIL) checks \<noteq> [] then 1 else 0)"

end
