(* ===== verification/Pull.thy ===== *)
theory Pull
  imports Registry
begin

text \<open>
  \<open>pull.py\<close>: a model's directory under \<open>var/models/\<close>, the records of what was verified in
  it, and the commands that bring it to what the registry says. The directory is a value: its
  files and partial downloads by name, and the JSON value of \<open>state.json\<close>. SHA-256, the answers
  of the server and the clock are parameters; what is printed is left out.
\<close>

section \<open>The directory\<close>

record disk_file =
  content :: string
  mtime_ns :: int

record model_dir =
  md_files :: "(string \<times> disk_file) list"
  md_partials :: "(string \<times> disk_file) list"
  md_state :: "pyval option"   \<comment> \<open>\<open>None\<close>: no \<open>state.json\<close>, or one that is not JSON\<close>

definition partial_name :: "model_file \<Rightarrow> string" where
  "partial_name f = mf_sha256 f @ ''.part''"

section \<open>Verification records\<close>

record records =
  verified :: pydict
  failed_names :: "string list"

definition no_records :: records where
  "no_records = \<lparr>verified = [], failed_names = []\<rparr>"

definition str_val :: "(pyval \<Rightarrow> string) \<Rightarrow> pyval \<Rightarrow> string" where
  "str_val str_of v = (case v of PStr s \<Rightarrow> s | _ \<Rightarrow> str_of v)"

definition load_records :: "(pyval \<Rightarrow> string) \<Rightarrow> model_dir \<Rightarrow> records" where
  "load_records str_of d =
     (case md_state d of
        Some (PDict data) \<Rightarrow>
          (case (dget_default data ''verified'' (PDict []), dget_default data ''failed'' (PList [])) of
             (PDict v, PList names) \<Rightarrow> \<lparr>verified = v, failed_names = map (str_val str_of) names\<rparr>
           | _ \<Rightarrow> no_records)
      | _ \<Rightarrow> no_records)"

definition save_records :: "records \<Rightarrow> model_dir \<Rightarrow> model_dir" where
  "save_records r d =
     d\<lparr>md_state := Some (PDict [(''verified'', PDict (verified r)),
                                (''failed'', PList (map PStr (failed_names r)))])\<rparr>"

definition known_sha256 :: "records \<Rightarrow> disk_file option \<Rightarrow> string \<Rightarrow> string option" where
  "known_sha256 r file name =
     (case (dget (verified r) name, file) of
        (PDict record, Some st) \<Rightarrow>
          if num_val (dget record ''size'') = Fin (of_nat (length (content st))) \<and>
             num_val (dget record ''mtime_ns'') = Fin (of_int (mtime_ns st))
          then (case dget record ''sha256'' of PStr sha \<Rightarrow> Some sha | _ \<Rightarrow> None)
          else None
      | _ \<Rightarrow> None)"

definition record_of :: "disk_file \<Rightarrow> string \<Rightarrow> pyval" where
  "record_of st sha =
     PDict [(''size'', PInt (int (length (content st)))), (''mtime_ns'', PInt (mtime_ns st)), (''sha256'', PStr sha)]"

definition remember :: "disk_file \<Rightarrow> string \<Rightarrow> string \<Rightarrow> records \<Rightarrow> records" where
  "remember st name sha r =
     r\<lparr>verified := AList.update name (record_of st sha) (verified r),
       failed_names := remove1 name (failed_names r)\<rparr>"

definition forget :: "string \<Rightarrow> records \<Rightarrow> records" where
  "forget name r = r\<lparr>verified := AList.delete name (verified r)\<rparr>"

section \<open>The state of a model\<close>

datatype local_state = Not_downloaded | Incomplete | Unverified | Downloaded | Failed_verification

definition local_state :: "(pyval \<Rightarrow> string) \<Rightarrow> model_entry \<Rightarrow> model_dir \<Rightarrow> local_state" where
  "local_state str_of entry d =
     (let r = load_records str_of d;
          present = filter (\<lambda>f. map_of (md_files d) (mf_name f) \<noteq> None) (me_files entry)
      in if list_ex (\<lambda>f. mf_name f \<in> set (failed_names r)) (me_files entry) then Failed_verification
         else if length present = length (me_files entry)
         then if list_all (\<lambda>f. known_sha256 r (map_of (md_files d) (mf_name f)) (mf_name f) = Some (mf_sha256 f))
                   present
              then Downloaded else Unverified
         else if present \<noteq> [] \<or> md_partials d \<noteq> [] then Incomplete
         else Not_downloaded)"

section \<open>Downloading one file\<close>

text \<open>
  What one request brings: a status and the chunks received, possibly ended by an exception, or an
  exception at once. A transient exception is one that \<open>_download\<close> catches to try again.
\<close>

datatype failing = Transient string | Fatal string

datatype reply = Reply nat "string list" "failing option" | No_reply failing

text \<open>
  The moments at which a pull can be struck by an exception of the system or by Ctrl-C outside a download's
  attempts: before each of its effects, in the order it has them. What it does between two effects (hashing a
  file, reading a status, printing) changes nothing on the disk, so an exception there is one before the next effect.
\<close>

datatype point =
    Locking
  | Removing_stray string       \<comment> \<open>a partial download that no file of the entry refers to\<close>
  | Removing_file string        \<comment> \<open>a file in place that does not match\<close>
  | Saving_checked
  | Fetching string             \<comment> \<open>before the first attempt\<close>
  | Removing_received string    \<comment> \<open>a complete download that does not match\<close>
  | Saving_failed string
  | Moving string               \<comment> \<open>a complete download into its place\<close>
  | Saving_moved string
  | Saving_last

datatype pull_error =
    Already_running
  | Not_enough_space int int       \<comment> \<open>bytes needed and free\<close>
  | Attempts_failed string string
  | Too_many_bytes string
  | Stopped_at string nat
  | Mismatched "string list"
  | Uncaught string
  | Struck point string

definition RETRIES :: nat where
  "RETRIES = 3"

definition DISK_MARGIN :: int where
  "DISK_MARGIN = 512 * 1024 ^ 2"

text \<open>The loop over the chunks; it is left when there is more than the file's size.\<close>

fun write_chunks :: "int \<Rightarrow> string \<Rightarrow> string list \<Rightarrow> string \<times> bool" where
  "write_chunks n c [] = (c, False)"
| "write_chunks n c (x # xs) =
     (if int (length (c @ x)) > n then (c @ x, True) else write_chunks n (c @ x) xs)"

text \<open>A download under way: the partial file, the offsets asked for and the seconds slept.\<close>

record download =
  part :: "disk_file option"
  asked :: "nat list"
  slept :: "nat list"

definition part_data :: "download \<Rightarrow> string" where
  "part_data s = (case part s of None \<Rightarrow> [] | Some st \<Rightarrow> content st)"

datatype verdict = Complete | Give_up pull_error | Try_again

definition failed_attempt :: "model_file \<Rightarrow> nat \<Rightarrow> failing \<Rightarrow> download \<Rightarrow> verdict \<times> download" where
  "failed_attempt f attempt e s =
     (case e of
        Fatal x \<Rightarrow> (Give_up (Uncaught x), s)
      | Transient x \<Rightarrow>
          if attempt = RETRIES then (Give_up (Attempts_failed (mf_name f) x), s)
          else (Try_again, s\<lparr>slept := slept s @ [2 ^ attempt]\<rparr>))"

definition check_received :: "model_file \<Rightarrow> nat \<Rightarrow> download \<Rightarrow> verdict \<times> download" where
  "check_received f attempt s =
     (let n = length (part_data s)
      in if int n = mf_size f then (Complete, s)
         else if int n > mf_size f then (Give_up (Too_many_bytes (mf_name f)), s\<lparr>part := None\<rparr>)
         else if attempt = RETRIES then (Give_up (Stopped_at (mf_name f) n), s)
         else (Try_again, s))"

definition try_download ::
    "(nat \<Rightarrow> nat \<Rightarrow> reply) \<Rightarrow> (nat \<Rightarrow> int) \<Rightarrow> model_file \<Rightarrow> nat \<Rightarrow> download \<Rightarrow> verdict \<times> download" where
  "try_download fetch stamp f attempt s0 =
     (let s = (if int (length (part_data s0)) > mf_size f then s0\<lparr>part := None\<rparr> else s0);
          offset = length (part_data s)
      in if int offset = mf_size f
         then (Complete, s\<lparr>part := Some \<lparr>content = part_data s, mtime_ns = stamp attempt\<rparr>\<rparr>)
         else
           let s1 = s\<lparr>asked := asked s @ [offset]\<rparr>
           in (case fetch attempt offset of
                 No_reply e \<Rightarrow> failed_attempt f attempt e s1
               | Reply status chunks broken \<Rightarrow>
                   let start = (if offset \<noteq> 0 \<and> status \<noteq> 206 then [] else part_data s);
                       (c, over) = write_chunks (mf_size f) start chunks;
                       s2 = s1\<lparr>part := Some \<lparr>content = c, mtime_ns = stamp attempt\<rparr>\<rparr>
                   in (case broken of
                         Some e \<Rightarrow> if over then check_received f attempt s2
                                   else failed_attempt f attempt e s2
                       | None \<Rightarrow> check_received f attempt s2)))"

fun try_attempts ::
    "(nat \<Rightarrow> nat \<Rightarrow> reply) \<Rightarrow> (nat \<Rightarrow> int) \<Rightarrow> model_file \<Rightarrow> nat list \<Rightarrow> download \<Rightarrow> (pull_error + unit) \<times> download"
where
  "try_attempts fetch stamp f [] s = (Inr (), s)"
| "try_attempts fetch stamp f (attempt # later) s =
     (case try_download fetch stamp f attempt s of
        (Complete, s') \<Rightarrow> (Inr (), s')
      | (Give_up e, s') \<Rightarrow> (Inl e, s')
      | (Try_again, s') \<Rightarrow> try_attempts fetch stamp f later s')"

definition download_file ::
    "(nat \<Rightarrow> nat \<Rightarrow> reply) \<Rightarrow> (nat \<Rightarrow> int) \<Rightarrow> model_file \<Rightarrow> disk_file option \<Rightarrow> (pull_error + unit) \<times> download"
where
  "download_file fetch stamp f p =
     try_attempts fetch stamp f [1..<RETRIES + 1] \<lparr>part = p, asked = [], slept = []\<rparr>"

section \<open>Pulling a model\<close>

record world =
  fetching :: "string \<Rightarrow> nat \<Rightarrow> nat \<Rightarrow> reply"   \<comment> \<open>by file name, attempt and offset\<close>
  stamping :: "string \<Rightarrow> nat \<Rightarrow> int"
  free_space :: int
  lock_held :: bool
  strikes :: "point \<Rightarrow> string option"            \<comment> \<open>the exception raised there, if any\<close>

definition struck :: "world \<Rightarrow> point \<Rightarrow> pull_error option" where
  "struck w p = map_option (Struck p) (strikes w p)"

fun remove_strays ::
    "world \<Rightarrow> string list \<Rightarrow> (string \<times> disk_file) list \<Rightarrow> pull_error option \<times> (string \<times> disk_file) list" where
  "remove_strays w wanted [] = (None, [])"
| "remove_strays w wanted (p # ps) =
     (if fst p \<in> set wanted then (case remove_strays w wanted ps of (e, ps') \<Rightarrow> (e, p # ps'))
      else (case struck w (Removing_stray (fst p)) of
              Some e \<Rightarrow> (Some e, p # ps)
            | None \<Rightarrow> remove_strays w wanted ps))"

definition remove_stray_partials :: "world \<Rightarrow> model_entry \<Rightarrow> model_dir \<Rightarrow> pull_error option \<times> model_dir" where
  "remove_stray_partials w entry d =
     (case remove_strays w (map partial_name (me_files entry)) (md_partials d) of
        (e, ps) \<Rightarrow> (e, d\<lparr>md_partials := ps\<rparr>))"

text \<open>
  The loops carry the records in memory, the directory and the files found missing or mismatched. An exception
  ends a loop with the directory as it is then; the records in memory are lost with it.
\<close>

type_synonym check_state = "records \<times> model_dir \<times> model_file list"

definition check_existing ::
    "(string \<Rightarrow> string) \<Rightarrow> world \<Rightarrow> bool \<Rightarrow> model_file \<Rightarrow> check_state \<Rightarrow> pull_error option \<times> check_state" where
  "check_existing sha w recheck f st =
     (case st of (r, d, missing) \<Rightarrow>
        (case map_of (md_files d) (mf_name f) of
           None \<Rightarrow> (None, (forget (mf_name f) r, d, missing @ [f]))
         | Some target \<Rightarrow>
             let (known, r1) = (case (if recheck then None else known_sha256 r (Some target) (mf_name f)) of
                   Some k \<Rightarrow> (k, r)
                 | None \<Rightarrow> (sha (content target), remember target (mf_name f) (sha (content target)) r))
             in if known = mf_sha256 f then (None, (r1, d, missing))
                else (case struck w (Removing_file (mf_name f)) of
                    Some e \<Rightarrow> (Some e, (r1, d, missing))
                  | None \<Rightarrow>
                      (None, (forget (mf_name f) r1, d\<lparr>md_files := AList.delete (mf_name f) (md_files d)\<rparr>,
                       missing @ [f])))))"

fun check_files ::
    "(string \<Rightarrow> string) \<Rightarrow> world \<Rightarrow> bool \<Rightarrow> model_file list \<Rightarrow> check_state \<Rightarrow> pull_error option \<times> check_state" where
  "check_files sha w recheck [] st = (None, st)"
| "check_files sha w recheck (f # fs) st =
     (case check_existing sha w recheck f st of
        (Some e, st') \<Rightarrow> (Some e, st')
      | (None, st') \<Rightarrow> check_files sha w recheck fs st')"

definition left_to_fetch :: "model_dir \<Rightarrow> model_file \<Rightarrow> int" where
  "left_to_fetch d f =
     (let have = (case map_of (md_partials d) (partial_name f) of None \<Rightarrow> 0
                  | Some p \<Rightarrow> int (length (content p)))
      in if have \<le> mf_size f then mf_size f - have else mf_size f)"

text \<open>The partial file is put back in the directory however the download ended.\<close>

definition put_partial :: "model_file \<Rightarrow> disk_file option \<Rightarrow> model_dir \<Rightarrow> model_dir" where
  "put_partial f p d =
     d\<lparr>md_partials := (case p of
         None \<Rightarrow> AList.delete (partial_name f) (md_partials d)
       | Some st \<Rightarrow> AList.update (partial_name f) st (md_partials d))\<rparr>"

type_synonym fetching_state = "records \<times> model_dir \<times> string list"

definition fetch_one ::
    "(string \<Rightarrow> string) \<Rightarrow> world \<Rightarrow> model_file \<Rightarrow> fetching_state \<Rightarrow> pull_error option \<times> fetching_state" where
  "fetch_one sha w f st =
     (case st of (r, d, mismatched) \<Rightarrow>
        let name = mf_name f;
            (res, dl) = download_file (fetching w name) (stamping w name) f
                          (map_of (md_partials d) (partial_name f));
            d1 = put_partial f (part dl) d;
            d2 = put_partial f None d1
        in case struck w (Fetching name) of
             Some e \<Rightarrow> (Some e, (r, d, mismatched))
           | None \<Rightarrow>
           (case (res, part dl) of
              (Inl e, _) \<Rightarrow> (Some e, (r, d1, mismatched))
            | (Inr _, None) \<Rightarrow> (Some (Uncaught ''FileNotFoundError''), (r, d1, mismatched))
            | (Inr _, Some p) \<Rightarrow>
                if sha (content p) \<noteq> mf_sha256 f
                then (case struck w (Removing_received name) of
                    Some e \<Rightarrow> (Some e, (r, d1, mismatched))
                  | None \<Rightarrow>
                      let r1 = (if name \<in> set (failed_names r) then r
                                else r\<lparr>failed_names := failed_names r @ [name]\<rparr>)
                      in case struck w (Saving_failed name) of
                           Some e \<Rightarrow> (Some e, (r, d2, mismatched))
                         | None \<Rightarrow> (None, (r1, save_records r1 d2, mismatched @ [name])))
                else (case struck w (Moving name) of
                    Some e \<Rightarrow> (Some e, (r, d1, mismatched))
                  | None \<Rightarrow>
                      let d3 = d2\<lparr>md_files := AList.update name p (md_files d2)\<rparr>;
                          r1 = remember p name (sha (content p)) r
                      in case struck w (Saving_moved name) of
                           Some e \<Rightarrow> (Some e, (r, d3, mismatched))
                         | None \<Rightarrow> (None, (r1, save_records r1 d3, mismatched)))))"

fun fetch_all ::
    "(string \<Rightarrow> string) \<Rightarrow> world \<Rightarrow> model_file list \<Rightarrow> fetching_state \<Rightarrow> pull_error option \<times> fetching_state" where
  "fetch_all sha w [] st = (None, st)"
| "fetch_all sha w (f # fs) st =
     (case fetch_one sha w f st of
        (Some e, st') \<Rightarrow> (Some e, st')
      | (None, st') \<Rightarrow> fetch_all sha w fs st')"

text \<open>What comes after the files that were there have been checked, and after the missing ones were fetched\<close>

definition finish_pull ::
    "world \<Rightarrow> pull_error option \<Rightarrow> fetching_state \<Rightarrow> int \<Rightarrow> (pull_error + int) \<times> model_dir" where
  "finish_pull w e st remaining =
     (case st of (r, d, mismatched) \<Rightarrow>
        (case e of
           Some x \<Rightarrow> (Inl x, d)
         | None \<Rightarrow>
             if mismatched \<noteq> [] then (Inl (Mismatched mismatched), d)
             else (case struck w Saving_last of
                 Some x \<Rightarrow> (Inl x, d)
               | None \<Rightarrow> (Inr remaining, save_records (r\<lparr>failed_names := []\<rparr>) d))))"

definition fetch_missing ::
    "(string \<Rightarrow> string) \<Rightarrow> world \<Rightarrow> model_file list \<Rightarrow> records \<Rightarrow> model_dir \<Rightarrow> (pull_error + int) \<times> model_dir" where
  "fetch_missing sha w missing r d =
     (let remaining = sum_list (map (left_to_fetch d) missing)
      in if remaining + DISK_MARGIN > free_space w then (Inl (Not_enough_space remaining (free_space w)), d)
         else (case fetch_all sha w missing (r, d, []) of (e, st) \<Rightarrow> finish_pull w e st remaining))"

definition pull ::
    "(string \<Rightarrow> string) \<Rightarrow> (pyval \<Rightarrow> string) \<Rightarrow> bool \<Rightarrow> world \<Rightarrow> model_entry \<Rightarrow> model_dir \<Rightarrow>
     (pull_error + int) \<times> model_dir" where
  "pull sha str_of recheck w entry d0 =
     (case struck w Locking of
        Some e \<Rightarrow> (Inl e, d0)
      | None \<Rightarrow>
          if lock_held w then (Inl Already_running, d0)
          else
            (case remove_stray_partials w entry d0 of
               (Some e, d1) \<Rightarrow> (Inl e, d1)
             | (None, d1) \<Rightarrow>
                 (case check_files sha w recheck (me_files entry) (load_records str_of d1, d1, []) of
                    (Some e, (r, d2, missing)) \<Rightarrow> (Inl e, d2)
                  | (None, (r, d2, missing)) \<Rightarrow>
                      (case struck w Saving_checked of
                         Some e \<Rightarrow> (Inl e, d2)
                       | None \<Rightarrow> fetch_missing sha w missing r (save_records r d2)))))"

end
