(* ===== verification/Processes.thy ===== *)
theory Processes
  imports Doubles
begin

text \<open>
  \<open>backend/process.py\<close> and \<open>gateway/process.py\<close>: how the two services are started, stopped and
  inspected. The two files are the same code over different names, so the operations take a
  \<open>service\<close>. What the operating system answers at each moment (which command runs under a pid, what
  a file of \<open>var/run\<close> holds, the time) is a parameter, so that anything may happen between two looks.
\<close>

section \<open>What can be seen at one moment\<close>

record view =
  json_of :: "string \<Rightarrow> pyval option"       \<comment> \<open>a file's JSON value, if it can be read\<close>
  command_of :: "int \<Rightarrow> string option"      \<comment> \<open>\<open>ps -o command=\<close>; \<open>None\<close>: no such process\<close>
  may_signal :: "int \<Rightarrow> bool"
  answers :: "int \<Rightarrow> string \<Rightarrow> int option"  \<comment> \<open>HTTP status by port and path\<close>
  rss_of :: "int \<Rightarrow> int option"
  polled :: "int \<Rightarrow> int option"             \<comment> \<open>\<open>poll()\<close> of an own child\<close>
  now :: rat
  interrupted :: bool                       \<comment> \<open>Ctrl-C while waiting\<close>

datatype state = STOPPED | LOADING | RUNNING | UNHEALTHY | EXITED

record run_record =
  pid :: int
  port :: int
  profile :: string
  model_id :: string
  started_at :: pyfloat

text \<open>\<open>field(name, int, default)\<close> and the like: the value if it has the type and is not a bool\<close>

definition int_field :: "pydict \<Rightarrow> string \<Rightarrow> int \<Rightarrow> int" where
  "int_field d k x = (case dget d k of PInt i \<Rightarrow> i | _ \<Rightarrow> x)"

definition str_field :: "pydict \<Rightarrow> string \<Rightarrow> string \<Rightarrow> string" where
  "str_field d k x = (case dget d k of PStr s \<Rightarrow> s | _ \<Rightarrow> x)"

definition float_field :: "pydict \<Rightarrow> string \<Rightarrow> py_exn + pyfloat" where
  "float_field d k = (case dget d k of PInt i \<Rightarrow> float_of_int i | PFloat f \<Rightarrow> Inr f | _ \<Rightarrow> Inr (Fin 0))"

definition load_record :: "pyval option \<Rightarrow> py_exn + run_record option" where
  "load_record file =
     (case file of
        Some (PDict d) \<Rightarrow>
          (case dget d ''pid'' of
             PInt p \<Rightarrow>
               if p \<le> 0 then Inr None
               else and_then (float_field d ''started_at'') (\<lambda>t.
                 Inr (Some \<lparr>pid = p, port = int_field d ''port'' 0, profile = str_field d ''profile'' ''unknown'',
                            model_id = str_field d ''model'' ''unknown'', started_at = t\<rparr>))
           | _ \<Rightarrow> Inr None)
      | _ \<Rightarrow> Inr None)"

definition record_json :: "run_record \<Rightarrow> pyval" where
  "record_json r =
     PDict [(''pid'', PInt (pid r)), (''port'', PInt (port r)), (''profile'', PStr (profile r)),
            (''model'', PStr (model_id r)), (''started_at'', PFloat (started_at r))]"

text \<open>A record of another process does not describe this one.\<close>

definition read_record :: "pyval option \<Rightarrow> int \<Rightarrow> pydict option" where
  "read_record file p =
     (case file of
        Some (PDict d) \<Rightarrow> if num_val (dget d ''pid'') = Fin (of_int p) then Some d else None
      | _ \<Rightarrow> None)"

section \<open>Which process runs under a pid\<close>

text \<open>\<open>s.split()\<close>\<close>

fun words_from :: "string \<Rightarrow> string \<Rightarrow> string list" where
  "words_from w [] = (if w = [] then [] else [w])"
| "words_from w (c # s) =
     (if is_space c then (if w = [] then words_from [] s else w # words_from [] s)
      else words_from (w @ [c]) s)"

text \<open>\<open>os.kill\<close> takes a C int.\<close>

definition PID_MAX :: int where
  "PID_MAX = 2 ^ 31 - 1"

definition runs_module :: "string \<Rightarrow> view \<Rightarrow> int \<Rightarrow> py_exn + bool" where
  "runs_module m v p =
     (if p > PID_MAX then Inl OverflowError
      else Inr (case command_of v p of None \<Rightarrow> False | Some c \<Rightarrow> m \<in> set (words_from [] c)))"

section \<open>The services\<close>

record service =
  entry_module :: string
  state_file :: string
  ready_file :: string
  extra_file :: string
  health_path :: string
  healthy :: "int option \<Rightarrow> bool"
  shows_rss :: bool
  keeps_console :: bool
  stop_timeout :: rat

definition backend_service :: service where
  "backend_service = \<lparr>entry_module = ''agent_lab.backend.launch'', state_file = ''backend.json'',
     ready_file = ''backend.ready.json'', extra_file = ''backend.memory.json'', health_path = ''/health'',
     healthy = (\<lambda>code. code = Some 200), shows_rss = True, keeps_console = True, stop_timeout = 15\<rparr>"

definition gateway_service :: service where
  "gateway_service = \<lparr>entry_module = ''agent_lab.gateway'', state_file = ''gateway.json'',
     ready_file = ''gateway.ready.json'', extra_file = ''gateway.queue.json'', health_path = ''/healthz'',
     healthy = (\<lambda>code. code \<noteq> None), shows_rss = False, keeps_console = False, stop_timeout = 10\<rparr>"

record status =
  st_state :: state
  st_record :: "run_record option"
  st_ready :: "pydict option"
  st_rss :: "int option"
  st_extra :: "pydict option"

definition full_status :: "service \<Rightarrow> view \<Rightarrow> state \<Rightarrow> run_record \<Rightarrow> pydict option \<Rightarrow> status" where
  "full_status svc v st r ready =
     \<lparr>st_state = st, st_record = Some r, st_ready = ready,
      st_rss = (if shows_rss svc then rss_of v (pid r) else None),
      st_extra = read_record (json_of v (extra_file svc)) (pid r)\<rparr>"

definition status :: "service \<Rightarrow> view \<Rightarrow> py_exn + status" where
  "status svc v =
     and_then (load_record (json_of v (state_file svc))) (\<lambda>record.
       case record of
         None \<Rightarrow> Inr \<lparr>st_state = STOPPED, st_record = None, st_ready = None, st_rss = None, st_extra = None\<rparr>
       | Some r \<Rightarrow>
           and_then (runs_module (entry_module svc) v (pid r)) (\<lambda>runs.
             if \<not> runs
             then Inr \<lparr>st_state = EXITED, st_record = Some r, st_ready = None, st_rss = None, st_extra = None\<rparr>
             else
               let ready = read_record (json_of v (ready_file svc)) (pid r);
                   st = (if ready = None then LOADING
                         else if healthy svc (answers v (port r) (health_path svc)) then RUNNING
                         else UNHEALTHY)
               in Inr (full_status svc v st r ready)))"

section \<open>Ending a process\<close>

text \<open>
  The moments of a call are numbered; \<open>w n\<close> is what can be seen at the \<open>n\<close>-th. The loops are
  \<open>None\<close> if they never end.
\<close>

type_synonym moments = "nat \<Rightarrow> view"

datatype signal = SIGTERM | SIGKILL

datatype effect =
    Signal signal int nat
  | Clear_files
  | Keep_console
  | Spawn int
  | Save run_record

datatype svc_failure =
    Exception py_exn
  | Not_permitted
  | Did_not_exit int
  | Exited_early int
  | Not_ready
  | Interrupted
  | Not_saved

text \<open>Whether the process is gone: by \<open>poll()\<close> for an own child, else by its command.\<close>

definition gone :: "service \<Rightarrow> bool \<Rightarrow> int \<Rightarrow> view \<Rightarrow> py_exn + bool" where
  "gone svc child p v =
     (if child then Inr (polled v p \<noteq> None)
      else and_then (runs_module (entry_module svc) v p) (\<lambda>runs. Inr (\<not> runs)))"

partial_function (option) wait_exit ::
    "service \<Rightarrow> moments \<Rightarrow> bool \<Rightarrow> int \<Rightarrow> rat \<Rightarrow> nat \<Rightarrow> ((py_exn + bool) \<times> nat) option" where
  "wait_exit svc w child p deadline n =
     (if now (w n) < deadline
      then (case gone svc child p (w n) of
              Inl e \<Rightarrow> Some (Inl e, Suc n)
            | Inr left \<Rightarrow> if left then Some (Inr True, Suc n) else wait_exit svc w child p deadline (Suc n))
      else Some (Inr False, n))"

text \<open>\<open>os.kill\<close> with a missing process suppressed\<close>

definition send :: "signal \<Rightarrow> moments \<Rightarrow> int \<Rightarrow> nat \<Rightarrow> svc_failure + effect list" where
  "send sig w p n =
     (if p > PID_MAX then Inl (Exception OverflowError)
      else if command_of (w n) p = None then Inr []
      else if may_signal (w n) p then Inr [Signal sig p n]
      else Inl Not_permitted)"

definition terminate ::
    "service \<Rightarrow> moments \<Rightarrow> bool \<Rightarrow> int \<Rightarrow> rat \<Rightarrow> nat \<Rightarrow> ((svc_failure + bool) \<times> effect list \<times> nat) option" where
  "terminate svc w child p timeout n =
     (if child \<and> polled (w n) p \<noteq> None then Some (Inr False, [], Suc n)
      else
        (case send SIGTERM w p (Suc n) of
           Inl e \<Rightarrow> Some (Inl e, [], n + 2)
         | Inr sent \<Rightarrow>
             (case wait_exit svc w child p (now (w (n + 2)) + timeout) (n + 3) of
                None \<Rightarrow> None
              | Some (Inl e, m) \<Rightarrow> Some (Inl (Exception e), sent, m)
              | Some (Inr True, m) \<Rightarrow> Some (Inr False, sent, m)
              | Some (Inr False, m) \<Rightarrow>
                  (case send SIGKILL w p m of
                     Inl e \<Rightarrow> Some (Inl e, sent, Suc m)
                   | Inr killed \<Rightarrow>
                       (case wait_exit svc w child p (now (w (Suc m)) + 5) (m + 2) of
                          None \<Rightarrow> None
                        | Some (Inl e, k) \<Rightarrow> Some (Inl (Exception e), sent @ killed, k)
                        | Some (Inr True, k) \<Rightarrow> Some (Inr True, sent @ killed, k)
                        | Some (Inr False, k) \<Rightarrow> Some (Inl (Did_not_exit p), sent @ killed, k))))))"

section \<open>Stopping\<close>

text \<open>
  The effects are listed in their order, here and for starting. Ctrl-C while the command waits for the lock comes
  before any of them; while it waits for the process to end, or when the command itself is killed, those up to there
  have been done.
\<close>

definition stop ::
    "service \<Rightarrow> moments \<Rightarrow> rat \<Rightarrow> ((svc_failure + run_record option \<times> bool) \<times> effect list) option" where
  "stop svc w timeout =
     (case load_record (json_of (w 0) (state_file svc)) of
        Inl e \<Rightarrow> Some (Inl (Exception e), [])
      | Inr None \<Rightarrow> Some (Inr (None, False), [Clear_files])
      | Inr (Some r) \<Rightarrow>
          (case runs_module (entry_module svc) (w 0) (pid r) of
             Inl e \<Rightarrow> Some (Inl (Exception e), [])
           | Inr False \<Rightarrow> Some (Inr (Some r, False), [Clear_files])
           | Inr True \<Rightarrow>
               (case terminate svc w False (pid r) timeout 0 of
                  None \<Rightarrow> None
                | Some (Inl e, sent, n) \<Rightarrow> Some (Inl e, sent)
                | Some (Inr _, sent, n) \<Rightarrow> Some (Inr (Some r, True), sent @ [Clear_files]))))"

section \<open>Starting\<close>

partial_function (option) wait_ready ::
    "service \<Rightarrow> moments \<Rightarrow> run_record \<Rightarrow> rat \<Rightarrow> nat \<Rightarrow> ((svc_failure + status) \<times> nat) option" where
  "wait_ready svc w r deadline n =
     (case polled (w n) (pid r) of
        Some ended \<Rightarrow> Some (Inl (Exited_early ended), Suc n)
      | None \<Rightarrow>
          let ready = read_record (json_of (w n) (ready_file svc)) (pid r)
          in if ready \<noteq> None \<and> healthy svc (answers (w n) (port r) (health_path svc))
             then Some (Inr (full_status svc (w n) RUNNING r ready), Suc n)
             else if now (w n) > deadline then Some (Inl Not_ready, Suc n)
             else if interrupted (w n) then Some (Inl Interrupted, Suc n)
             else wait_ready svc w r deadline (Suc n))"

record launch =
  child_pid :: int        \<comment> \<open>what \<open>Popen\<close> returned\<close>
  launch_port :: int
  launch_profile :: string
  launch_model :: string
  console_used :: bool    \<comment> \<open>a console log of an earlier run with something in it\<close>
  saves :: bool           \<comment> \<open>whether the record can be written\<close>

datatype started = Already status | Started status | Failed svc_failure

definition new_record :: "launch \<Rightarrow> view \<Rightarrow> run_record" where
  "new_record l v = \<lparr>pid = child_pid l, port = launch_port l, profile = launch_profile l,
     model_id = launch_model l, started_at = Fin (now v)\<rparr>"

text \<open>What is done when starting fails: the files go only if they are still about this process.\<close>

definition undo_start ::
    "service \<Rightarrow> moments \<Rightarrow> run_record \<Rightarrow> svc_failure \<Rightarrow> nat \<Rightarrow> (started \<times> effect list) option" where
  "undo_start svc w r e n =
     (case terminate svc w True (pid r) (stop_timeout svc) n of
        None \<Rightarrow> None
      | Some (Inl e', sent, m) \<Rightarrow> Some (Failed e', sent)
      | Some (Inr _, sent, m) \<Rightarrow>
          (case load_record (json_of (w m) (state_file svc)) of
             Inl e' \<Rightarrow> Some (Failed (Exception e'), sent)
           | Inr x \<Rightarrow> Some (Failed e, if x = Some r then sent @ [Clear_files] else sent)))"

definition start ::
    "service \<Rightarrow> moments \<Rightarrow> launch \<Rightarrow> rat \<Rightarrow> (started \<times> effect list) option" where
  "start svc w l timeout =
     (case status svc (w 0) of
        Inl e \<Rightarrow> Some (Failed (Exception e), [])
      | Inr current \<Rightarrow>
          if st_state current \<in> {RUNNING, LOADING, UNHEALTHY} then Some (Already current, [])
          else
            let r = new_record l (w 1);
                made = [Clear_files] @ (if keeps_console svc \<and> console_used l then [Keep_console] else []) @
                       [Spawn (child_pid l)]
            in if \<not> saves l
               then (case terminate svc w True (pid r) (stop_timeout svc) 2 of
                       None \<Rightarrow> None
                     | Some (Inl e, sent, m) \<Rightarrow> Some (Failed e, made @ sent)
                     | Some (Inr _, sent, m) \<Rightarrow> Some (Failed Not_saved, made @ sent))
               else
                 (case wait_ready svc w r (now (w 2) + timeout) 3 of
                    None \<Rightarrow> None
                  | Some (Inr st, n) \<Rightarrow> Some (Started st, made @ [Save r])
                  | Some (Inl e, n) \<Rightarrow>
                      (case undo_start svc w r e n of
                         None \<Rightarrow> None
                       | Some (res, effs) \<Rightarrow> Some (res, made @ [Save r] @ effs))))"

section \<open>The two services\<close>

definition backend_status :: "view \<Rightarrow> py_exn + status" where
  "backend_status = status backend_service"

definition backend_start :: "moments \<Rightarrow> launch \<Rightarrow> rat \<Rightarrow> (started \<times> effect list) option" where
  "backend_start = start backend_service"

definition backend_stop :: "moments \<Rightarrow> ((svc_failure + run_record option \<times> bool) \<times> effect list) option" where
  "backend_stop w = stop backend_service w (stop_timeout backend_service)"

definition gateway_status :: "view \<Rightarrow> py_exn + status" where
  "gateway_status = status gateway_service"

definition gateway_start :: "moments \<Rightarrow> launch \<Rightarrow> (started \<times> effect list) option" where
  "gateway_start w l = start gateway_service w l 120"

definition gateway_stop :: "moments \<Rightarrow> ((svc_failure + run_record option \<times> bool) \<times> effect list) option" where
  "gateway_stop w = stop gateway_service w (stop_timeout gateway_service)"

end
