(* ===== verification/Serve.thy ===== *)
theory Serve
  imports Doctor Pull Processes Keys
begin

text \<open>
  \<open>serve.py\<close>, the arguments of the backend from \<open>backend/settings.py\<close>, and the exit codes of
  \<open>alab stop\<close> and \<open>alab status\<close> from \<open>cli.py\<close>. Serving composes the keys, the registry, the downloaded
  model, the doctor's checks and the two services; what each of them finds is an argument. A
  report says which status it is about; \<open>Status_Report\<close> has the lines of text.
\<close>

section \<open>The arguments of the server\<close>

record launch_settings =
  ls_profile :: string
  ls_model_id :: string
  ls_model_dir :: string
  ls_port :: int
  ls_memory_limit :: int
  ls_tool_parser :: "string option"
  ls_args :: "string list"

definition HOST :: string where
  "HOST = ''127.0.0.1''"

text \<open>\<open>repr\<close> of a float is a parameter; \<open>json.dumps\<close> of the one boolean is written out.\<close>

definition launch_settings ::
    "(pyfloat \<Rightarrow> string) \<Rightarrow> (string \<Rightarrow> string) \<Rightarrow> profile \<Rightarrow> launch_settings" where
  "launch_settings repr_float model_dir p =
     (let b = backend p; dir = model_dir (profile.model_id p);
          quoted_key = [CHR 0x22] @ ''enable_thinking'' @ [CHR 0x22];
          template_args = ''{'' @ quoted_key @ '': '' @ (if enable_thinking b then ''true'' else ''false'') @ ''}''
      in \<lparr>ls_profile = profile_name p, ls_model_id = profile.model_id p, ls_model_dir = dir,
          ls_port = backend_port b, ls_memory_limit = metal_memory_limit b,
          ls_tool_parser = (if tool_parser b = ''auto'' then None else Some (tool_parser b)),
          ls_args =
            [''--model'', dir, ''--host'', HOST, ''--port'', show_int (backend_port b),
             ''--allowed-origins'', ''none'', ''--log-level'', ''INFO'',
             ''--decode-concurrency'', ''1'', ''--prompt-concurrency'', ''1'',
             ''--prefill-step-size'', show_int (prefill_step_size b),
             ''--prompt-cache-size'', show_int (prompt_cache_size b),
             ''--prompt-cache-bytes'', show_int (prompt_cache_bytes b),
             ''--chat-template-args'', template_args,
             ''--temp'', repr_float (temperature b), ''--top-p'', repr_float (top_p b),
             ''--top-k'', show_int (top_k b),
             ''--max-tokens'', show_int (max_output_tokens (gateway p))]\<rparr>)"

section \<open>Checks before starting\<close>

datatype serve_error =
    Keys_unreadable keys_error
  | No_key
  | Registry_problem config_failure
  | Model_not_ready local_state
  | Gpu_limit string
  | Backend_meanwhile
  | Port_in_use int string
  | Other_profile string
  | Backend_failed svc_failure
  | Gateway_failed svc_failure
  | Crashed py_exn

datatype warning = Gpu_warning string | Check_warning string string

text \<open>What the parts that are called find, and the moments the services are looked at.\<close>

record serving =
  keys_found :: "keys_error + key_entry list"
  registry_found :: "config_failure + registry"
  model_state :: "model_entry \<Rightarrow> local_state"
  info_found :: system_info
  limits_found :: limit_state
  stats_found :: "memory_stats option"
  used_port :: "int \<Rightarrow> bool"
  owner_of :: "int \<Rightarrow> string"
  before_backend :: view
  at_port_check :: view
  backend_moments :: moments
  backend_child :: launch
  before_gateway :: view
  gateway_moments :: moments
  gateway_child :: launch

definition preflight :: "serving \<Rightarrow> profile \<Rightarrow> bool \<Rightarrow> serve_error + warning list" where
  "preflight s p force =
     (case and_then (registry_found s) (get_entry (profile.model_id p)) of
        Inl e \<Rightarrow> Inl (Registry_problem e)
      | Inr entry \<Rightarrow>
          if model_state s entry \<noteq> Downloaded then Inl (Model_not_ready (model_state s entry))
          else
            let gpu = check_gpu_limit (info_found s) p (limits_found s);
                port = backend_port (backend p)
            in if outcome gpu \<noteq> OK \<and> \<not> force then Inl (Gpu_limit (detail gpu))
               else if used_port s port
               then (case backend_status (at_port_check s) of
                       Inl e \<Rightarrow> Inl (Crashed e)
                     | Inr st \<Rightarrow>
                         if st_state st \<noteq> STOPPED then Inl Backend_meanwhile
                         else Inl (Port_in_use port (owner_of s port)))
               else (case check_memory_pressure (info_found s) p (stats_found s) of
                       Inl e \<Rightarrow> Inl (Crashed e)
                     | Inr checks \<Rightarrow>
                         Inr ((if outcome gpu \<noteq> OK then [Gpu_warning (detail gpu)] else []) @
                              map (\<lambda>c. Check_warning (check.check_name c) (detail c))
                                (filter (\<lambda>c. outcome c \<noteq> OK) checks))))"

section \<open>Serving\<close>

datatype report = Already_up status | Other_started status | Is_ready status

definition up :: "state \<Rightarrow> bool" where
  "up st \<longleftrightarrow> st \<in> {RUNNING, LOADING, UNHEALTHY}"

definition profile_of :: "status \<Rightarrow> string" where
  "profile_of st = (case st_record st of None \<Rightarrow> [] | Some r \<Rightarrow> run_record.profile r)"

text \<open>\<open>_start_backend\<close>: what is reported and what is done to processes; \<open>None\<close> if it never ends\<close>

definition start_backend ::
    "serving \<Rightarrow> profile \<Rightarrow> bool \<Rightarrow> ((serve_error + warning list \<times> report) \<times> effect list) option" where
  "start_backend s p force =
     (case backend_status (before_backend s) of
        Inl e \<Rightarrow> Some (Inl (Crashed e), [])
      | Inr current \<Rightarrow>
          if up (st_state current)
          then if profile_of current \<noteq> profile_name p then Some (Inl (Other_profile (profile_of current)), [])
               else Some (Inr ([], Already_up current), [])
          else (case preflight s p force of
              Inl e \<Rightarrow> Some (Inl e, [])
            | Inr warnings \<Rightarrow>
                (case backend_start (backend_moments s) (backend_child s)
                        (of_int (start_timeout_seconds (backend p))) of
                   None \<Rightarrow> None
                 | Some (Failed e, effs) \<Rightarrow> Some (Inl (Backend_failed e), effs)
                 | Some (Already st, effs) \<Rightarrow> Some (Inr (warnings, Other_started st), effs)
                 | Some (Started st, effs) \<Rightarrow> Some (Inr (warnings, Is_ready st), effs))))"

definition start_gateway ::
    "serving \<Rightarrow> profile \<Rightarrow> ((serve_error + report) \<times> effect list) option" where
  "start_gateway s p =
     (case gateway_status (before_gateway s) of
        Inl e \<Rightarrow> Some (Inl (Crashed e), [])
      | Inr current \<Rightarrow>
          if up (st_state current)
          then if profile_of current \<noteq> profile_name p then Some (Inl (Other_profile (profile_of current)), [])
               else Some (Inr (Already_up current), [])
          else
            let port = gateway_port (gateway p)
            in if used_port s port then Some (Inl (Port_in_use port (owner_of s port)), [])
               else (case gateway_start (gateway_moments s) (gateway_child s) of
                   None \<Rightarrow> None
                 | Some (Failed e, effs) \<Rightarrow> Some (Inl (Gateway_failed e), effs)
                 | Some (Already st, effs) \<Rightarrow> Some (Inr (Other_started st), effs)
                 | Some (Started st, effs) \<Rightarrow> Some (Inr (Is_ready st), effs)))"

text \<open>The effects on the backend and on the gateway, in this order\<close>

definition serve ::
    "serving \<Rightarrow> profile \<Rightarrow> bool \<Rightarrow>
     ((serve_error + warning list \<times> report \<times> report) \<times> effect list \<times> effect list) option" where
  "serve s p force =
     (case keys_found s of
        Inl e \<Rightarrow> Some (Inl (Keys_unreadable e), [], [])
      | Inr [] \<Rightarrow> Some (Inl No_key, [], [])
      | Inr (k # ks) \<Rightarrow>
          (case start_backend s p force of
             None \<Rightarrow> None
           | Some (Inl e, b) \<Rightarrow> Some (Inl e, b, [])
           | Some (Inr (warnings, r), b) \<Rightarrow>
               (case start_gateway s p of
                  None \<Rightarrow> None
                | Some (Inl e, g) \<Rightarrow> Some (Inl e, b, g)
                | Some (Inr r', g) \<Rightarrow> Some (Inr (warnings, r, r'), b, g))))"

section \<open>Stopping and the status\<close>

text \<open>
  \<open>_cmd_stop\<close>: the gateway first; what \<open>stop\<close> raises as a \<open>BackendError\<close> does not keep the other from
  being stopped, any other exception does.
\<close>

fun is_backend_error :: "svc_failure \<Rightarrow> bool" where
  "is_backend_error (Did_not_exit _) = True"
| "is_backend_error _ = False"

definition cmd_stop :: "moments \<Rightarrow> moments \<Rightarrow> ((svc_failure + nat) \<times> effect list \<times> effect list) option" where
  "cmd_stop wg wb =
     (case gateway_stop wg of
        None \<Rightarrow> None
      | Some (r, g) \<Rightarrow>
          (case r of
             Inl e \<Rightarrow>
               if \<not> is_backend_error e then Some (Inl e, g, [])
               else (case backend_stop wb of
                       None \<Rightarrow> None
                     | Some (Inl e', b) \<Rightarrow> if is_backend_error e' then Some (Inr 1, g, b) else Some (Inl e', g, b)
                     | Some (Inr _, b) \<Rightarrow> Some (Inr 1, g, b))
           | Inr _ \<Rightarrow>
               (case backend_stop wb of
                  None \<Rightarrow> None
                | Some (Inl e', b) \<Rightarrow> if is_backend_error e' then Some (Inr 1, g, b) else Some (Inl e', g, b)
                | Some (Inr _, b) \<Rightarrow> Some (Inr 0, g, b))))"

fun status_code :: "state \<Rightarrow> nat" where
  "status_code RUNNING = 0"
| "status_code LOADING = 0"
| "status_code UNHEALTHY = 1"
| "status_code EXITED = 1"
| "status_code STOPPED = 3"

definition cmd_status :: "view \<Rightarrow> view \<Rightarrow> py_exn + nat" where
  "cmd_status vb vg =
     and_then (backend_status vb) (\<lambda>b.
     and_then (gateway_status vg) (\<lambda>g.
     Inr (if status_code (st_state b) = status_code (st_state g) then status_code (st_state b) else 1)))"

end
