(* ===== verification/Launcher.thy ===== *)
theory Launcher
  imports Serve
begin

text \<open>
  \<open>backend/launch.py\<close>: the process in which the model server runs. The server and MLX are third-party
  code; what is modelled is what the launcher puts around them: the redirected output, the filter on
  the server's log, the watchdog on MLX's memory, the records it writes, the hooks, and the order in
  which all of this is set up.
\<close>

section \<open>Python's output in the log\<close>

definition NEWLINE :: char where
  "NEWLINE = char_of (10 :: nat)"

definition rstrip :: "string \<Rightarrow> string" where
  "rstrip s = rev (dropWhile is_space (rev s))"

text \<open>The state of \<open>_LogStream\<close> is its buffer; an operation gives the messages it logs.\<close>

definition log_line :: "string \<Rightarrow> string list" where
  "log_line l = (if strip l = [] then [] else [rstrip l])"

definition stream_write :: "string \<Rightarrow> string \<Rightarrow> string list \<times> string" where
  "stream_write buffer text =
     (let ls = split_at NEWLINE (buffer @ text)
      in (concat (map log_line (butlast ls)), last ls))"

definition stream_flush :: "string \<Rightarrow> string list \<times> string" where
  "stream_flush buffer = (log_line buffer, [])"

fun stream_writes :: "string \<Rightarrow> string list \<Rightarrow> string list \<times> string" where
  "stream_writes buffer [] = ([], buffer)"
| "stream_writes buffer (t # ts) =
     (let (ls, b) = stream_write buffer t; (ms, c) = stream_writes b ts in (ls @ ms, c))"

section \<open>Request bodies in the server's messages\<close>

text \<open>\<open>s.split(m, 1)[0]\<close> when \<open>m\<close> is in \<open>s\<close>: what is before its first occurrence\<close>

fun text_before :: "string \<Rightarrow> string \<Rightarrow> string option" where
  "text_before m [] = (if m = [] then Some [] else None)"
| "text_before m (c # s) =
     (if prefix m (c # s) then Some [] else map_option ((#) c) (text_before m s))"

definition MARKERS :: "string list" where
  "MARKERS = [''Raw body:'', ''Invalid Request Body:'']"

fun cut_at :: "string list \<Rightarrow> string \<Rightarrow> string" where
  "cut_at [] s = s"
| "cut_at (m # ms) s =
     (case text_before m s of
        Some p \<Rightarrow> p @ m @ '' [request body omitted]''
      | None \<Rightarrow> cut_at ms s)"

definition no_bodies :: "string \<Rightarrow> string" where
  "no_bodies s = cut_at MARKERS s"

section \<open>The memory watchdog\<close>

definition fixed2 :: "pyfloat \<Rightarrow> string" where
  "fixed2 f =
     (case f of
        Fin q \<Rightarrow> let t = nat (round_half_even (q * 100))
                 in show_nat (t div 100) @ ''.'' @ [digit_char (t mod 100 div 10), digit_char (t mod 10)]
      | NaN \<Rightarrow> ''nan''
      | PosInf \<Rightarrow> ''inf''
      | NegInf \<Rightarrow> ''-inf'')"

definition size_text :: "int \<Rightarrow> py_exn + string" where
  "size_text n =
     (if n \<ge> int GIB then and_then (int_div n GIB) (\<lambda>f. Inr (fixed2 f @ '' GB''))
      else and_then (int_div n (1024 ^ 2)) (\<lambda>f. Inr (fixed1 f @ '' MB'')))"

definition check_memory_use :: "int \<Rightarrow> int \<Rightarrow> py_exn + string option" where
  "check_memory_use active limit =
     (if active \<le> limit then Inr None
      else and_then (size_text active) (\<lambda>a. and_then (size_text limit) (\<lambda>l.
        Inr (Some (''Metal memory limit exceeded: MLX is using '' @ a @ '', the limit is '' @ l @
          ''; stopping the backend to protect the system'')))))"

text \<open>
  One round of the watchdog sees whether it was told to stop, what MLX answers (or the exception's
  text), the clock, and whether the sample could be recorded.
\<close>

record round =
  halted :: bool
  reading_of :: "string + int"
  clock :: rat
  recorded :: bool

datatype guard_event =
    Sample nat int          \<comment> \<open>\<open>on_sample\<close> in this round, with this reading\<close>
  | Sample_failed           \<comment> \<open>its exception is logged\<close>
  | Exceeded nat string     \<comment> \<open>\<open>on_exceeded\<close> in this round\<close>
  | Guard_died py_exn       \<comment> \<open>an exception ends the thread\<close>

text \<open>\<open>watch\<close> from round \<open>n\<close> on; \<open>None\<close> if it never ends, as for a backend that keeps within bounds.\<close>

partial_function (option) watch ::
    "bool \<Rightarrow> int \<Rightarrow> rat \<Rightarrow> (nat \<Rightarrow> round) \<Rightarrow> nat \<Rightarrow> rat \<Rightarrow> guard_event list \<Rightarrow> guard_event list option" where
  "watch sampling limit every rounds n sampled evs =
     (let r = rounds n
      in if halted r then Some evs
         else case reading_of r of
           Inl e \<Rightarrow> Some (evs @ [Exceeded n (''cannot read MLX memory use ('' @ e @ ''); stopping the backend'')])
         | Inr active \<Rightarrow>
             (case check_memory_use active limit of
                Inl x \<Rightarrow> Some (evs @ [Guard_died x])
              | Inr (Some reason) \<Rightarrow> Some (evs @ [Exceeded n reason])
              | Inr None \<Rightarrow>
                  if sampling \<and> clock r - sampled \<ge> every
                  then watch sampling limit every rounds (Suc n) (clock r)
                         (evs @ [Sample n active] @ (if recorded r then [] else [Sample_failed]))
                  else watch sampling limit every rounds (Suc n) sampled evs))"

definition start_watchdog ::
    "bool \<Rightarrow> int \<Rightarrow> rat \<Rightarrow> (nat \<Rightarrow> round) \<Rightarrow> guard_event list option" where
  "start_watchdog sampling limit every rounds = watch sampling limit every rounds 0 0 []"

section \<open>Records\<close>

text \<open>
  \<open>write_json\<close>: the directory's states, the sampled one being what it leaves, and whether it returned. The
  text is that of \<open>json.dumps\<close> with a line end.
\<close>

datatype json_failure = In_mkstemp | In_write nat | In_replace

definition write_json ::
    "json_failure option \<Rightarrow> string \<Rightarrow> string \<Rightarrow> string \<Rightarrow> directory \<Rightarrow> directory list \<times> bool" where
  "write_json fails_at tmp path text d =
     (let put = (\<lambda>t. d(tmp \<mapsto> \<lparr>content = t, mode = 384\<rparr>));
          full = text @ [NEWLINE];
          new = ((put full)(path := put full tmp))(tmp := None)
      in case fails_at of
           None \<Rightarrow> ([d, put [], put full, new], True)
         | Some In_mkstemp \<Rightarrow> ([d], False)
         | Some (In_write n) \<Rightarrow> ([d, put [], put (take n full), (put (take n full))(tmp := None)], False)
         | Some In_replace \<Rightarrow> ([d, put [], put full, (put full)(tmp := None)], False))"

definition memory_record :: "int \<Rightarrow> int \<Rightarrow> int \<Rightarrow> pyval" where
  "memory_record own active_bytes peak_bytes =
     PDict [(''pid'', PInt own), (''active_bytes'', PInt active_bytes),
       (''peak_bytes'', PInt peak_bytes)]"

section \<open>Hooks\<close>

definition EXIT_CONFIG :: nat where "EXIT_CONFIG = 2"
definition EXIT_LOAD_FAILED :: nat where "EXIT_LOAD_FAILED = 3"
definition EXIT_GENERATION_DIED :: nat where "EXIT_GENERATION_DIED = 4"
definition EXIT_MEMORY_LIMIT :: nat where "EXIT_MEMORY_LIMIT = 5"

text \<open>How a call ends: it returns, raises, or the process exits (\<open>os._exit\<close>).\<close>

datatype call_end = Returns | Raises | Exits nat

definition memory_exceeded :: "string \<Rightarrow> call_end" where
  "memory_exceeded reason = Exits EXIT_MEMORY_LIMIT"

definition init_hook :: "launch_settings \<Rightarrow> pydict \<Rightarrow> pydict" where
  "init_hook s tokenizer_config =
     (case ls_tool_parser s of
        Some p \<Rightarrow> if p = [] then tokenizer_config
                  else AList.update ''tool_parser_type'' (PStr p) tokenizer_config
      | None \<Rightarrow> tokenizer_config)"

text \<open>What loading finds, with MLX read for the ready record and again later, and how the two writes go.\<close>

record loading =
  load_fails :: bool
  load_time :: rat
  has_parser :: bool
  init_kwargs :: "pydict option"
  active_now :: int
  peak_now :: int
  active_later :: int
  peak_later :: int
  own_pid :: int
  mlx_lm_version :: string
  mlx_version :: string
  memory_write :: "json_failure option"
  ready_write :: "json_failure option"

definition rounded1 :: "rat \<Rightarrow> pyfloat" where
  "rounded1 q = round_double (of_int (round_half_even (q * 10)) / 10)"

definition ready_info :: "launch_settings \<Rightarrow> loading \<Rightarrow> pyval" where
  "ready_info s l =
     PDict [(''pid'', PInt (own_pid l)), (''model'', PStr (ls_model_id s)),
       (''load_seconds'', PFloat (rounded1 (load_time l))),
       (''metal_active_bytes'', PInt (active_now l)), (''metal_peak_bytes'', PInt (peak_now l)),
       (''tool_parser'', if has_parser l then dget (case init_kwargs l of None \<Rightarrow> [] | Some d \<Rightarrow> d) ''tool_parser_type''
                         else PNone),
       (''mlx_lm'', PStr (mlx_lm_version l)), (''mlx'', PStr (mlx_version l))]"

definition load_default ::
    "(pyval \<Rightarrow> string) \<Rightarrow> launch_settings \<Rightarrow> loading \<Rightarrow> string \<Rightarrow> string \<Rightarrow> string \<Rightarrow> string \<Rightarrow> directory \<Rightarrow>
     directory list \<times> call_end" where
  "load_default dumps s l tmp tmp' memory_path ready_path d =
     (if load_fails l then ([d], Exits EXIT_LOAD_FAILED)
      else case size_text (active_now l) of
        Inl _ \<Rightarrow> ([d], Raises)
      | Inr _ \<Rightarrow>
          (case write_json (memory_write l) tmp memory_path
                  (dumps (memory_record (own_pid l) (active_later l) (peak_later l))) d of
             (ds, False) \<Rightarrow> (ds, Raises)
           | (ds, True) \<Rightarrow>
               (case write_json (ready_write l) tmp' ready_path (dumps (ready_info s l)) (last ds) of
                  (es, ok) \<Rightarrow> (ds @ es, if ok then Returns else Raises))))"

definition run_generate :: "bool \<Rightarrow> call_end" where
  "run_generate generation_failed =
     (if generation_failed then Exits EXIT_GENERATION_DIED else Returns)"

text \<open>The answer to a web page, or \<open>None\<close> when the server's own \<open>do_POST\<close> runs.\<close>

definition REFUSAL :: string where
  "REFUSAL =
     (let q = (\<lambda>s. [CHR 0x22] @ s @ [CHR 0x22])
      in ''{'' @ q ''error'' @ '': {'' @ q ''message'' @ '': '' @ q ''browser requests are not accepted'' @ ''}}'')"

definition do_post :: "(string \<times> string) list \<Rightarrow> (nat \<times> (string \<times> string) list \<times> string) option" where
  "do_post headers =
     (if \<exists>h \<in> set headers. str_lower (fst h) = ''origin''
      then Some (403, [(''Content-Type'', ''application/json''),
                       (''Content-Length'', show_nat (length REFUSAL))], REFUSAL)
      else None)"

section \<open>Running\<close>

datatype launch_step =
    Set_env "(string \<times> string) list"
  | Set_memory_limit int
  | Install_hooks
  | Start_watchdog int
  | Handle_sigterm
  | Run_server "string list"

definition OFFLINE_ENV :: "(string \<times> string) list" where
  "OFFLINE_ENV = [(''HF_HUB_OFFLINE'', ''1''), (''HF_HUB_DISABLE_TELEMETRY'', ''1'')]"

text \<open>
  \<open>run\<close>: whether the server can be imported, which parsers it has, and how its \<open>main\<close> ends are arguments.
\<close>

definition run_backend ::
    "bool \<Rightarrow> (string \<Rightarrow> bool) \<Rightarrow> call_end \<Rightarrow> launch_settings \<Rightarrow> launch_step list \<times> call_end" where
  "run_backend imports_ok tool_parser_exists server_main s =
     (let env = Set_env OFFLINE_ENV
      in if \<not> imports_ok then ([env], Raises)
         else if (case ls_tool_parser s of
                    Some p \<Rightarrow> p \<noteq> [] \<and> \<not> tool_parser_exists p
                  | None \<Rightarrow> False)
         then ([env], Exits EXIT_CONFIG)
         else case size_text (ls_memory_limit s) of
           Inl _ \<Rightarrow> ([env, Set_memory_limit (ls_memory_limit s)], Raises)
         | Inr _ \<Rightarrow>
             ([env, Set_memory_limit (ls_memory_limit s), Install_hooks,
               Start_watchdog (ls_memory_limit s), Handle_sigterm,
               Run_server (''mlx_lm.server'' # ls_args s)], server_main))"

text \<open>The exit code of the process, once it ends\<close>

definition launch_main ::
    "(config_failure + profile) \<Rightarrow> (profile \<Rightarrow> launch_settings) \<Rightarrow> bool \<Rightarrow> (string \<Rightarrow> bool) \<Rightarrow> call_end \<Rightarrow>
     (py_exn + nat) \<times> launch_step list" where
  "launch_main loaded settings imports_ok tool_parser_exists server_main =
     (case loaded of
        Inl (Crash e) \<Rightarrow> (Inl e, [])
      | Inl _ \<Rightarrow> (Inr EXIT_CONFIG, [])
      | Inr p \<Rightarrow>
          (case run_backend imports_ok tool_parser_exists server_main (settings p) of
             (steps, Returns) \<Rightarrow> (Inr 0, steps)
           | (steps, Raises) \<Rightarrow> (Inr 1, steps)
           | (steps, Exits c) \<Rightarrow> (Inr c, steps)))"

end
