(* ===== verification/Registry_Sizes.thy ===== *)
theory Registry_Sizes
  imports Registry
begin

text \<open>
  How far the rounding of doubles can be off, and the disk space that \<open>registry.py\<close> states
  for a model: the loop that makes up for rounding ends, and what it returns reads back as
  enough.
\<close>

section \<open>Rounding errors\<close>

lemma log2_floor_upper:
  assumes "0 < q"
  shows "q < pow2 (log2_floor q + 1)"
proof -
  obtain n d where nd: "quotient_of q = (n, d)" by (cases "quotient_of q")
  then have d: "0 < d" and q: "q = of_int n / of_int d"
    by (auto dest: quotient_of_denom_pos quotient_of_div)
  with assms have n: "0 < n" by (simp add: zero_less_divide_iff)
  let ?a = "int (floorlog 2 (nat n)) - int (floorlog 2 (nat d))"
  have fd: "0 < floorlog 2 (nat d)" using d by (simp add: floorlog_def)
  have "n < (2 :: int) ^ floorlog 2 (nat n)"
  proof -
    have "int (nat n) < int (2 ^ floorlog 2 (nat n))"
      using floorlog_bounds(2) [of "nat n"] n by (subst of_nat_less_iff) simp
    with n show ?thesis by simp
  qed
  then have hi: "(of_int n :: rat) < of_int (2 ^ floorlog 2 (nat n))" by (simp only: of_int_less_iff)
  have "(2 :: int) ^ (floorlog 2 (nat d) - 1) \<le> d"
  proof -
    have "int (2 ^ (floorlog 2 (nat d) - 1)) \<le> int (nat d)"
      using floorlog_bounds(1) [of "nat d"] d by (subst of_nat_le_iff) simp
    with d show ?thesis by simp
  qed
  then have lo: "(of_int (2 ^ (floorlog 2 (nat d) - 1)) :: rat) \<le> of_int d" by (simp only: of_int_le_iff)
  have "q \<le> of_int n / 2 ^ (floorlog 2 (nat d) - 1)"
    unfolding q using lo n d by (intro divide_left_mono) simp_all
  also have "\<dots> < 2 ^ floorlog 2 (nat n) / 2 ^ (floorlog 2 (nat d) - 1)"
    using hi by (intro divide_strict_right_mono) simp_all
  also have "\<dots> = pow2 (?a + 1)"
    using fd by (simp add: pow2_powi power_int_diff power_int_add power_diff)
  finally show ?thesis by (auto simp: log2_floor_def nd Let_def)
qed

lemma round_half_even_error: "\<bar>of_int (round_half_even q) - q\<bar> \<le> 1 / 2"
proof -
  have "of_int \<lfloor>q\<rfloor> \<le> q" "q < of_int \<lfloor>q\<rfloor> + 1" by linarith+
  then show ?thesis by (auto simp: round_half_even_def Let_def abs_le_iff)
qed

lemma round_half_even_near:
  assumes "\<bar>q - of_int i\<bar> < 1 / 2"
  shows "round_half_even q = i"
proof -
  have "\<bar>of_int (round_half_even q) - q\<bar> \<le> 1 / 2" by (rule round_half_even_error)
  with assms have "\<bar>of_int (round_half_even q) - of_int i :: rat\<bar> < 1" by linarith
  then have "\<bar>of_int (round_half_even q - i) :: rat\<bar> < of_int 1" by simp
  then have "\<bar>round_half_even q - i\<bar> < 1" unfolding of_int_abs [symmetric] of_int_less_iff .
  then show ?thesis by simp
qed

lemma abs_scale: "(0 :: rat) \<le> c \<Longrightarrow> \<bar>x - y\<bar> * c = \<bar>x * c - y * c\<bar>"
  by (simp add: abs_mult_pos left_diff_distrib)

text \<open>A rounded value is off by one part in \<open>2^53\<close> at most; here for values that are not tiny.\<close>

lemma round_double_close:
  assumes "1 / 2 ^ 30 \<le> q" and "q < 2 ^ 1000"
  obtains m where "round_double q = Fin m" and "\<bar>m - q\<bar> \<le> q / 2 ^ 53" and "0 \<le> m"
proof -
  have pos: "0 < q" using assms(1) by (rule less_le_trans [rotated]) simp
  have "pow2 (- 30) \<le> q" using assms(1) by (simp add: pow2_def)
  from this log2_floor_upper [OF pos] have "pow2 (- 30) < pow2 (log2_floor q + 1)" by (rule le_less_trans)
  then have e: "ulp_exponent q = log2_floor q - 52" by (simp add: pow2_less_iff ulp_exponent_def)
  let ?u = "pow2 (log2_floor q - 52)"
  let ?m = "of_int (round_half_even (q / ?u)) * ?u"
  have u: "0 < ?u" by simp
  have "\<bar>of_int (round_half_even (q / ?u)) - q / ?u\<bar> * ?u \<le> 1 / 2 * ?u"
    by (rule mult_right_mono [OF round_half_even_error]) (use u in linarith)
  moreover have "\<bar>of_int (round_half_even (q / ?u)) - q / ?u\<bar> * ?u = \<bar>?m - q\<bar>"
    unfolding abs_scale [OF less_imp_le [OF u]] by simp
  ultimately have err: "\<bar>?m - q\<bar> \<le> ?u / 2" by simp
  also have "?u / 2 = pow2 (log2_floor q) / 2 ^ 53"
    using pow2_diff [of "log2_floor q" 52] pow2_nat [of 52] by simp
  also have "\<dots> \<le> q / 2 ^ 53" using pow2_log2_floor [OF pos] by (intro divide_right_mono) simp_all
  finally have close: "\<bar>?m - q\<bar> \<le> q / 2 ^ 53" .
  also have "q / 2 ^ 53 \<le> q" using pos by (simp add: divide_le_eq)
  finally have "?m \<le> 2 * q" "0 \<le> ?m" by linarith+
  moreover have "2 * q < 2 ^ 1024"
  proof -
    have "2 * q < 2 * 2 ^ 1000" using assms(2) by simp
    also have "\<dots> \<le> (2 :: rat) ^ 1024" by simp
    finally show ?thesis .
  qed
  ultimately have "round_double q = Fin ?m" using pos e by (simp add: round_double_def Let_def)
  with that close \<open>0 \<le> ?m\<close> show thesis by blast
qed

section \<open>Tenths of a gigabyte as text\<close>

lemma digit_is_digit: "d < 10 \<Longrightarrow> is_ascii_digit (digit_char d)"
  by (simp add: is_ascii_digit_def digit_char_def code_def)

lemma show_nat_digits: "list_all is_ascii_digit (show_nat n)"
proof (induction n rule: show_nat.induct)
  case (1 n)
  then show ?case by (subst show_nat.simps) (simp add: digit_is_digit)
qed

lemma show_nat_first: "hd (show_nat n) \<noteq> CHR ''.'' \<and> \<not> is_space (hd (show_nat n))"
proof -
  have "is_ascii_digit (hd (show_nat n))"
    using show_nat_digits [of n] show_nat_nonempty [of n] by (cases "show_nat n") auto
  then show ?thesis by (auto simp: is_ascii_digit_def is_space_def code_def)
qed

lemma takeWhile_split:
  assumes "list_all P xs" and "\<not> P y"
  shows "takeWhile P (xs @ y # ys) = xs" and "dropWhile P (xs @ y # ys) = y # ys"
  using assms by (induction xs) auto

lemma match_tenths:
  assumes "d < 10"
  shows "match_size (show_nat a @ ''.'' @ [digit_char d] @ ''GB'') = Some (show_nat a, [digit_char d], ''GB'')"
proof -
  have 1: "dropWhile is_space (show_nat a @ x) = show_nat a @ x" for x
    using show_nat_first [of a] show_nat_nonempty [of a] by (cases "show_nat a") auto
  have 2: "takeWhile is_ascii_digit (show_nat a @ CHR ''.'' # x) = show_nat a"
    "dropWhile is_ascii_digit (show_nat a @ CHR ''.'' # x) = CHR ''.'' # x" for x
    using takeWhile_split [OF show_nat_digits] by (simp_all add: is_ascii_digit_def code_def)
  show ?thesis
    using assms
    by (simp add: match_size_def Let_def 1 2 digit_is_digit is_ascii_digit_def [of "CHR ''G''"]
        is_space_def is_letter_def in_class_def code_def)
qed

lemma read_nat_snoc: "read_nat (s @ [c]) = 10 * read_nat s + digit_val c"
  by (simp add: read_nat_def)

text \<open>What a number of tenths reads back as.\<close>

definition tenth_size :: "int \<Rightarrow> int" where
  "tenth_size t = \<lfloor>of_int t * 2 ^ 30 / 10 :: rat\<rfloor>"

lemma tenths_read_back:
  assumes "1 \<le> t" and "t < 2 ^ 24"
  shows "\<exists>text n. tenths_text t = Inr text \<and> parse_size text = Inr n \<and>
    \<bar>of_int n - of_int t * 2 ^ 30 / 10 :: rat\<bar> \<le> 2"
proof -
  let ?q = "of_int t / 10 :: rat"
  have t: "(1 :: rat) \<le> of_int t" "(of_int t :: rat) < 2 ^ 24"
  proof -
    show "(1 :: rat) \<le> of_int t" using assms(1) by simp
    have "(of_int t :: rat) < of_int (2 ^ 24)" using assms(2) by (simp only: of_int_less_iff)
    then show "(of_int t :: rat) < 2 ^ 24" by simp
  qed
  obtain m where m: "round_double ?q = Fin m" "\<bar>m - ?q\<bar> \<le> ?q / 2 ^ 53" "0 \<le> m"
    by (rule round_double_close [of ?q]) (use t in simp_all)
  have small: "?q / 2 ^ 53 * 10 < 1 / 2" using t(2) by simp
  have "\<bar>m * 10 - of_int t\<bar> = \<bar>m - ?q\<bar> * 10" by (simp add: abs_scale)
  also have "\<dots> \<le> ?q / 2 ^ 53 * 10" by (rule mult_right_mono [OF m(2)]) simp
  finally have "round_half_even (m * 10) = t" using small by (intro round_half_even_near) linarith
  then have shown: "tenths_text t = Inr (show_nat (nat t div 10) @ ''.'' @ [digit_char (nat t mod 10)] @ ''GB'')"
    by (simp add: tenths_text_def scaled_def int_div_def m(1) fixed1_def Let_def)
  have digits: "read_nat (show_nat (nat t div 10) @ [digit_char (nat t mod 10)]) = nat t"
    by (simp add: read_nat_snoc read_show_nat digit_val_char)
  have unit: "map_of SIZE_UNITS (map upper_char ''GB'') = Some (1024 ^ 3)"
    by (simp add: SIZE_UNITS_def upper_char_def in_class_def code_def)
  have dec: "decimal_float (show_nat (nat t div 10)) [digit_char (nat t mod 10)] = Fin m"
    using m(1) assms(1) by (simp add: decimal_float_def digits)
  let ?p = "m * of_nat (1024 ^ 3)"
  have p: "\<bar>?p - of_int t * 2 ^ 30 / 10\<bar> \<le> 1 / 2"
  proof -
    have "\<bar>?p - of_int t * 2 ^ 30 / 10\<bar> = \<bar>m - ?q\<bar> * 2 ^ 30"
      by (simp add: abs_scale)
    also have "\<dots> \<le> ?q / 2 ^ 53 * 2 ^ 30" by (rule mult_right_mono [OF m(2)]) simp
    also have "\<dots> \<le> 1 / 2" using t(2) by simp
    finally show ?thesis .
  qed
  define c where "c = (of_int t * 2 ^ 30 / 10 :: rat)"
  have c: "2 \<le> c" "c \<le> 2 ^ 51" using t by (simp_all add: c_def)
  have p': "\<bar>?p - c\<bar> \<le> 1 / 2" using p by (simp add: c_def)
  have lo: "1 \<le> ?p" and hi: "?p \<le> 2 ^ 51 + 1 / 2"
    using p' c abs_ge_self [of "?p - c"] abs_ge_minus_self [of "?p - c"] by linarith+
  have "(2 :: rat) ^ 51 + 1 / 2 < 2 ^ 1000" by simp
  with hi have "?p < 2 ^ 1000" by (rule le_less_trans)
  moreover have "1 / 2 ^ 30 \<le> ?p" using lo by (rule order_trans [rotated]) simp
  ultimately obtain k where k: "round_double ?p = Fin k" "\<bar>k - ?p\<bar> \<le> ?p / 2 ^ 53" "0 \<le> k"
    using round_double_close by blast
  have "?p / 2 ^ 53 \<le> (2 ^ 51 + 1 / 2) / 2 ^ 53" by (rule divide_right_mono [OF hi]) simp
  also have "\<dots> \<le> (1 :: rat) / 2" by simp
  finally have "\<bar>k - ?p\<bar> \<le> 1 / 2" using k(2) by linarith
  with p' have "\<bar>k - c\<bar> \<le> 1" by linarith
  have mult: "float_mult (Fin m) (1024 ^ 3) = Fin k"
    unfolding float_mult_def pyfloat.case by (rule k(1))
  have d10: "nat t mod 10 < 10" by simp
  have "parse_size (show_nat (nat t div 10) @ ''.'' @ [digit_char (nat t mod 10)] @ ''GB'') = Inr \<lfloor>k\<rfloor>"
    unfolding parse_size_def match_tenths [OF d10]
    by (simp only: option.case prod.case unit dec mult) (use k(3) in \<open>simp add: int_of_float_def\<close>)
  moreover have "\<bar>of_int \<lfloor>k\<rfloor> - k\<bar> \<le> 1" by linarith
  ultimately show ?thesis using shown \<open>\<bar>k - c\<bar> \<le> 1\<close>
    by (intro exI conjI) (assumption, assumption, use c_def in linarith)
qed

section \<open>The loop ends\<close>

lemma disk_space_start:
  assumes "0 \<le> needed" and "needed < 2 ^ 50"
  obtains f where "int_div (needed * 10) GIB = Inr (Fin f)"
    and "of_int needed * 10 / 2 ^ 30 - 1 / 2 ^ 20 \<le> f" and "f \<le> of_int needed * 10 / 2 ^ 30 + 1 / 2 ^ 20"
proof (cases "needed = 0")
  case True
  then have "int_div (needed * 10) GIB = Inr (Fin 0)" by (simp add: int_div_def round_double_def)
  with True that show ?thesis by simp
next
  case False
  let ?q = "of_int needed * 10 / 2 ^ 30 :: rat"
  have n: "(1 :: rat) \<le> of_int needed" "(of_int needed :: rat) < 2 ^ 50"
  proof -
    show "(1 :: rat) \<le> of_int needed" using assms(1) False by simp
    have "(of_int needed :: rat) < of_int (2 ^ 50)" using assms(2) by (simp only: of_int_less_iff)
    then show "(of_int needed :: rat) < 2 ^ 50" by simp
  qed
  have q: "1 / 2 ^ 30 \<le> ?q" "?q < 2 ^ 30" using n by simp_all
  have "(2 :: rat) ^ 30 < 2 ^ 1000" by simp
  with q(2) have "?q < 2 ^ 1000" by (rule less_trans)
  then obtain m where m: "round_double ?q = Fin m" "\<bar>m - ?q\<bar> \<le> ?q / 2 ^ 53" "0 \<le> m"
    using round_double_close [OF q(1)] by blast
  have "?q / 2 ^ 53 \<le> 2 ^ 30 / 2 ^ 53" using q(2) by (intro divide_right_mono) simp_all
  also have "\<dots> \<le> (1 :: rat) / 2 ^ 20" by simp
  finally have "\<bar>m - ?q\<bar> \<le> 1 / 2 ^ 20" using m(2) by linarith
  moreover have "int_div (needed * 10) GIB = Inr (Fin m)"
    using m(1) by (simp add: int_div_def GIB_def mult.commute)
  ultimately show ?thesis using that [of m] by linarith
qed

text \<open>At most two rounds.\<close>

lemma two_rounds:
  assumes "0 \<le> needed" and "needed < 2 ^ 50"
  shows "\<exists>text n. disk_space_for needed = Some (Inr text) \<and> parse_size text = Inr n \<and>
    needed \<le> n \<and> n < needed + 2 ^ 29"
proof -
  from disk_space_start [OF assms] obtain f where f: "int_div (needed * 10) GIB = Inr (Fin f)"
    "of_int needed * 10 / 2 ^ 30 - 1 / 2 ^ 20 \<le> f" "f \<le> of_int needed * 10 / 2 ^ 30 + 1 / 2 ^ 20" .
  define t where "t = max 1 \<lceil>f\<rceil>"
  have t: "1 \<le> t" "of_int t \<ge> f" by (simp_all add: t_def) linarith
  have up: "of_int t \<le> of_int needed * 10 / 2 ^ 30 + 1 + (1 / 2 ^ 20 :: rat)"
    using f(3) assms(1) unfolding t_def by (simp add: max_def) linarith
  have "(of_int needed :: rat) < of_int (2 ^ 50)" using assms(2) by (simp only: of_int_less_iff)
  then have n: "(of_int needed :: rat) < 2 ^ 50" by simp
  have "of_int t < (of_int (2 ^ 24 - 1) :: rat)" using up n by simp
  then have t': "t < 2 ^ 24 - 1" by (simp only: of_int_less_iff)
  from tenths_read_back [of t] t' t(1) obtain x1 n1 where 1: "tenths_text t = Inr x1" "parse_size x1 = Inr n1"
    "\<bar>of_int n1 - of_int t * 2 ^ 30 / 10 :: rat\<bar> \<le> 2" by auto
  from tenths_read_back [of "t + 1"] t' t(1) obtain x2 n2 where 2: "tenths_text (t + 1) = Inr x2"
    "parse_size x2 = Inr n2" "\<bar>of_int n2 - of_int (t + 1) * 2 ^ 30 / 10 :: rat\<bar> \<le> 2" by auto
  have low: "of_int needed * 10 / 2 ^ 30 - 1 / 2 ^ 20 \<le> (of_int t :: rat)" using f(2) t(2) by linarith
  have twice: "\<bar>of_int n2 - (of_int t + 1) * 2 ^ 30 / 10 :: rat\<bar> \<le> 2" using 2(3) by simp
  have "(of_int n1 :: rat) - of_int t * 2 ^ 30 / 10 \<le> 2" using 1(3) by (rule order_trans [OF abs_ge_self])
  with up have "(of_int n1 :: rat) < of_int needed + 2 ^ 29" by simp
  then have "of_int n1 < (of_int (needed + 2 ^ 29) :: rat)" by simp
  then have n1: "n1 < needed + 2 ^ 29" by (simp only: of_int_less_iff)
  have hi2: "(of_int n2 :: rat) - (of_int t + 1) * 2 ^ 30 / 10 \<le> 2"
    using twice by (rule order_trans [OF abs_ge_self])
  have lo2: "- ((of_int n2 :: rat) - (of_int t + 1) * 2 ^ 30 / 10) \<le> 2"
    using twice by (rule order_trans [OF abs_ge_minus_self])
  have "(of_int n2 :: rat) < of_int needed + 2 ^ 29" using hi2 up by (simp add: field_simps)
  moreover have "(of_int needed :: rat) \<le> of_int n2" using lo2 low by (simp add: field_simps)
  ultimately have "of_int n2 < (of_int (needed + 2 ^ 29) :: rat)" "(of_int needed :: rat) \<le> of_int n2" by simp_all
  then have n2: "n2 < needed + 2 ^ 29" "needed \<le> n2" by (simp_all only: of_int_less_iff of_int_le_iff)
  have start: "disk_space_for needed = enough_tenths needed t x1"
    by (simp add: disk_space_for_def f(1) 1(1) flip: t_def)
  show ?thesis
  proof (cases "n1 < needed")
    case False
    then have "disk_space_for needed = Some (Inr x1)"
      by (simp add: start enough_tenths.simps [of needed t x1] 1(2))
    with 1(2) n1 False show ?thesis by auto
  next
    case True
    have "enough_tenths needed (t + 1) x2 = Some (Inr x2)"
      using n2(2) by (simp add: enough_tenths.simps [of needed "t + 1" x2] 2(2))
    with True have "disk_space_for needed = Some (Inr x2)"
      by (simp add: start enough_tenths.simps [of needed t x1] 1(2) 2(1))
    with 2(2) n2 show ?thesis by auto
  qed
qed

text \<open>
  The loop of \<open>disk_space_for\<close> ends, after two rounds at most, whatever the rounding of the
  doubles does, for any size below a pebibyte; the text it returns is one that \<open>parse_size\<close>
  accepts as \<open>disk_space\<close>, and it reads back as enough for the files and as less than half a
  gigabyte more.
\<close>

theorem disk_space_enough:
  assumes "0 \<le> needed" and "needed < 2 ^ 50"
  shows "\<exists>text n. disk_space_for needed = Some (Inr text) \<and> parse_size text = Inr n \<and>
    needed \<le> n \<and> n < needed + 2 ^ 29"
  by (rule two_rounds [OF assms])

theorem disk_space_enough_witness:
  "\<exists>text n. disk_space_for 18556669740 = Some (Inr text) \<and> parse_size text = Inr n \<and>
    18556669740 \<le> n \<and> n < 18556669740 + 2 ^ 29"
  by (rule disk_space_enough) simp_all

end
