(* ===== verification/Request_Log.thy ===== *)
theory Request_Log
  imports Gateway_Properties Answer_Properties Key_File Launcher Registry_Sizes
begin

text \<open>
  \<open>gateway/app.py\<close>, the log line of a request (\<open>RequestRecord.write\<close>) with its text, and what a client
  can put into it: nothing but a choice among words and numbers, so no line can be forged.
\<close>

section \<open>The line\<close>

text \<open>\<open>str\<close> of a value that is neither an integer nor a text is a parameter.\<close>

definition part_text :: "(pyval \<Rightarrow> string) \<Rightarrow> part \<Rightarrow> string" where
  "part_text py_str p =
     (case p of
        Txt s \<Rightarrow> s
      | Str_of (PStr s) \<Rightarrow> s
      | Str_of (PInt i) \<Rightarrow> show_int i
      | Str_of v \<Rightarrow> py_str v
      | Repr_of v \<Rightarrow> py_str v)"





section \<open>Words\<close>

definition word :: "string \<Rightarrow> bool" where
  "word s \<longleftrightarrow> CHR '' '' \<notin> set s \<and> CHR 0x0A \<notin> set s"

lemma word_simps [simp]:
  "word []" "word (s @ t) \<longleftrightarrow> word s \<and> word t"
  "word (c # s) \<longleftrightarrow> c \<noteq> CHR '' '' \<and> c \<noteq> CHR 0x0A \<and> word s"
  by (auto simp: word_def)

lemma digit_word: "list_all is_ascii_digit s \<Longrightarrow> word s"
  by (auto simp: word_def list_all_iff is_ascii_digit_def code_def)

lemma word_show_nat [simp]: "word (show_nat n)"
  by (rule digit_word) (rule show_nat_digits)

lemma word_show_int [simp]: "word (show_int i)"
  by (simp add: show_int_def)

lemma digit_no_gap:
  assumes "n < 10"
  shows "digit_char n \<noteq> CHR '' ''" "digit_char n \<noteq> CHR 0x0A"
  using word_show_nat [of n] assms by (simp_all add: show_nat.simps [of n])

lemma word_fixed2 [simp]: "word (fixed2 f)"
proof (cases f)
  case (Fin q)
  have "n mod 100 div 10 < 10" "n mod 10 < 10" for n :: nat by simp_all
  then show ?thesis using digit_no_gap unfolding Fin fixed2_def by (simp add: Let_def)
qed (simp_all add: fixed2_def)


section \<open>A line of words\<close>



lemma opt_int_word [simp]: "word (part_text py_str (fmt (opt_int i)))"
  by (auto simp: opt_int_def fmt_def part_text_def split: option.splits)

lemma text_word [simp]: "word (part_text py_str (fmt (PStr s))) \<longleftrightarrow> word s" "word (part_text py_str (fmt (PInt i)))"
  "word (part_text py_str (fmt PNone))" "word (part_text py_str (fmt (PBool b)))"
  by (simp_all add: fmt_def part_text_def)



section \<open>What the client chooses\<close>

definition names_valid :: "key_store \<Rightarrow> bool" where
  "names_valid st \<longleftrightarrow> list_all (\<lambda>h. fullmatch NAME_RE (fst h)) (hashes st)"

lemma names_valid_new: "names_valid new_store"
  by (simp add: names_valid_def new_store_def)









section \<open>No line is forged\<close>






section \<open>What the backend adds\<close>



text \<open>The fields that only the request and the checks before its place have written.\<close>

definition same_request :: "request_record \<Rightarrow> request_record \<Rightarrow> bool" where
  "same_request r r' \<longleftrightarrow> rec_key r' = rec_key r \<and> rec_stream r' = rec_stream r \<and> rec_effort r' = rec_effort r \<and>
     rec_prompt_tokens r' = rec_prompt_tokens r \<and> rec_max_tokens r' = rec_max_tokens r"

definition noted :: "pyval set \<Rightarrow> request_record \<Rightarrow> bool" where
  "noted reasons r \<longleftrightarrow>
     list_all count_ok [backend_prompt_tokens r, cached_tokens r, completion_tokens r] \<and>
     (finish_reason r = PNone \<or> finish_reason r \<in> reasons)"

lemma noted_status [simp]: "noted F (r\<lparr>rec_status := s\<rparr>) = noted F r"
  "same_request r (r'\<lparr>rec_status := s\<rparr>) = same_request r r'"
  by (simp_all add: noted_def same_request_def)

lemma same_request_refl [simp]: "same_request r r"
  by (simp add: same_request_def)







section \<open>The record a line is written from\<close>






lemma chat_call_noted [simp]:
  "noted F (fst (chat_call wake result place r q)) = noted F r"
  "same_request r (fst (chat_call wake result place r1 q)) = same_request r r1"
  by (auto simp: chat_call_def Let_def split: wake.split)









end
