(* ===== verification/Registry_Properties.thy ===== *)
theory Registry_Properties
  imports Registry_Sizes Profile_Properties
begin

text \<open>
  What a registry that loads guarantees to the code that downloads and serves its models, and
  why the registry's own tools keep it loadable.
\<close>

section \<open>Files\<close>

text \<open>A name that cannot leave the directory it is put under, nor touch the download state.\<close>

definition safe_name :: "string \<Rightarrow> bool" where
  "safe_name name \<longleftrightarrow>
     name \<noteq> [] \<and> CHR 0x5C \<notin> set name \<and>
     (\<forall>p \<in> set (split_at (CHR ''/'') name). p \<notin> {[], ''.'', ''..''}) \<and>
     hd (split_at (CHR ''/'') name) \<noteq> ''.alab''"

lemma file_name_problem_None: "file_name_problem name = None \<longleftrightarrow> safe_name name"
proof -
  have "hd name \<noteq> CHR ''/''" if "name \<noteq> []" "\<forall>p \<in> set (split_at (CHR ''/'') name). p \<noteq> []"
    using that by (cases name) auto
  then show ?thesis by (auto simp: file_name_problem_def safe_name_def)
qed

definition file_ok :: "model_file \<Rightarrow> bool" where
  "file_ok f \<longleftrightarrow> safe_name (mf_name f) \<and> 0 \<le> mf_size f \<and> fullmatch SHA256_RE (mf_sha256 f)"

definition files_ok :: "model_file list \<Rightarrow> bool" where
  "files_ok files \<longleftrightarrow> list_all file_ok files \<and> distinct (map mf_name files)"

lemma name_errors_Nil:
  "name_errors label v files = [] \<longleftrightarrow> (\<exists>s. v = PStr s \<and> safe_name s \<and> s \<notin> mf_name ` set files)"
  by (auto simp: name_errors_def simp flip: file_name_problem_None split: pyval.splits option.splits if_splits)

lemma size_errors_Nil: "size_errors label v = [] \<longleftrightarrow> (\<exists>n. v = PInt n \<and> 0 \<le> n)"
  by (auto simp: size_errors_def split: pyval.splits)

lemma sha256_errors_Nil: "sha256_errors label v = [] \<longleftrightarrow> (\<exists>s. v = PStr s \<and> fullmatch SHA256_RE s)"
  by (auto simp: sha256_errors_def split: pyval.splits)

lemma parse_file_ok:
  assumes "parse_file w i item (files, es) = (files', es')" and "files_ok files"
  shows "files_ok files' \<and> (\<exists>more. es' = es @ more) \<and> (es' = [] \<longrightarrow> length files' = Suc (length files))"
proof (cases item)
  case (PDict d)
  let ?l = "file_label w i"
  let ?bad = "name_errors ?l (dget d ''name'') files @ size_errors ?l (dget d ''size'') @
    sha256_errors ?l (dget d ''sha256'')"
  show ?thesis
  proof (cases "?bad = []")
    case True
    then obtain name n sha where f: "dget d ''name'' = PStr name" "safe_name name" "name \<notin> mf_name ` set files"
      "dget d ''size'' = PInt n" "0 \<le> n" "dget d ''sha256'' = PStr sha" "fullmatch SHA256_RE sha"
      by (auto simp: name_errors_Nil size_errors_Nil sha256_errors_Nil)
    with True assms PDict show ?thesis
      by (auto simp: parse_file_def Let_def files_ok_def file_ok_def)
  next
    case False
    with assms PDict have "files' = files" "\<exists>more. es' = es @ more" "es' \<noteq> []"
      by (auto simp: parse_file_def Let_def split: list.splits pyval.splits)
    with assms(2) show ?thesis by simp
  qed
qed (use assms in \<open>auto simp: parse_file_def Let_def\<close>)

lemma parse_items_ok:
  assumes "parse_items w i vs (files, es) = (files', es')" and "files_ok files"
  shows "files_ok files' \<and> (\<exists>more. es' = es @ more) \<and>
    (es' = [] \<longrightarrow> length files' = length files + length vs)"
  using assms
proof (induction vs arbitrary: i files es)
  case (Cons v vs)
  obtain files1 es1 where one: "parse_file w i v (files, es) = (files1, es1)" by (metis prod.exhaust)
  from parse_file_ok [OF one Cons.prems(2)] have ok: "files_ok files1"
    and es1: "\<exists>more. es1 = es @ more" "es1 = [] \<longrightarrow> length files1 = Suc (length files)" by blast+
  from Cons.prems(1) one have "parse_items w (Suc i) vs (files1, es1) = (files', es')" by simp
  from Cons.IH [OF this ok] es1 show ?case by auto
qed simp

lemma parse_files_ok:
  assumes "parse_files w v es = (files, es')"
  shows "files_ok files \<and> (\<exists>more. es' = es @ more) \<and> (es' = [] \<longrightarrow> files \<noteq> [])"
proof (cases "\<exists>x xs. v = PList (x # xs)")
  case True
  then obtain x xs where v: "v = PList (x # xs)" by blast
  with assms have "parse_items w 0 (x # xs) ([], es) = (files, es')" by (simp add: parse_files_def)
  from parse_items_ok [OF this] show ?thesis by (auto simp: files_ok_def)
qed (use assms in \<open>auto simp: parse_files_def files_ok_def split: pyval.splits list.splits\<close>)

section \<open>Entries\<close>

definition entry_ok :: "model_entry \<Rightarrow> bool" where
  "entry_ok e \<longleftrightarrow>
     fullmatch ID_RE (me_id e) \<and> me_description e \<noteq> [] \<and> fullmatch REPO_RE (me_repo e) \<and>
     fullmatch REVISION_RE (me_revision e) \<and> 0 < me_disk_space e \<and> me_files e \<noteq> [] \<and>
     files_ok (me_files e) \<and> total_size e \<le> me_disk_space e"

lemma check_model_None [simp]:
  "check_id s = None \<longleftrightarrow> fullmatch ID_RE s" "check_repo s = None \<longleftrightarrow> fullmatch REPO_RE s"
  "check_revision s = None \<longleftrightarrow> fullmatch REVISION_RE s"
  by (simp_all add: check_id_def check_repo_def check_revision_def)

lemma read_table_yields:
  "yields read_table (\<lambda>d (mid, desc, repo, rev, space).
     fullmatch ID_RE mid \<and> mid \<noteq> [] \<and> desc \<noteq> [] \<and> fullmatch REPO_RE repo \<and> fullmatch REVISION_RE rev \<and>
     0 < space)"
  unfolding read_table_def
  by (rule yields_mono, (rule field_yields)+) (auto dest: size_holds text_holds)

lemma read_entry_fields_ok:
  assumes "read_entry_fields label t es = Inr (e, es')" and "\<And>d. t = PDict d \<Longrightarrow> no_null d"
  shows "(\<exists>more. es' = es @ more) \<and>
    (es' = [] \<longrightarrow> fullmatch ID_RE (me_id e) \<and> me_id e \<noteq> [] \<and> me_description e \<noteq> [] \<and>
       fullmatch REPO_RE (me_repo e) \<and> fullmatch REVISION_RE (me_revision e) \<and> 0 < me_disk_space e \<and>
       me_files e \<noteq> [] \<and> files_ok (me_files e))"
proof -
  let ?s = "open_section label t es"
  have nn: "no_null (table ?s)"
    using assms(2) by (auto simp: open_section_def no_null_def split: pyval.splits)
  have opened: "\<exists>more. errors ?s = es @ more" "errors ?s = [] \<longrightarrow> valid ?s"
    by (auto simp: open_section_def split: pyval.splits)
  from assms(1) obtain p where p: "read_table ?s = Inr p" and rest0: "(\<lambda>((mid, desc, repo, rev, space), s).
       let s1 = s\<lparr>seen := ''files'' # seen s\<rparr>;
           (files, es') = (if valid s1 then parse_files label (dget (table s1) ''files'') (errors s1)
                           else ([], errors s1));
           s2 = finish (s1\<lparr>errors := es'\<rparr>)
       in Inr (\<lparr>me_id = mid, me_description = desc, me_repo = repo, me_revision = rev,
                me_disk_space = space, me_files = files\<rparr>, errors s2)) p = (Inr (e, es') :: py_exn + _)"
    unfolding read_entry_fields_def by (rule and_then_InrE)
  obtain mid desc repo rev space s where p': "p = ((mid, desc, repo, rev, space), s)" by (metis prod.exhaust)
  note r = p [unfolded p'] and rest = rest0 [unfolded p' prod.case]
  from read_table_yields [unfolded yields_def, rule_format, OF nn r] obtain ps where s: "valid s = valid ?s" "errors s = errors ?s @ ps"
    "ps = [] \<longrightarrow> valid ?s \<longrightarrow> fullmatch ID_RE mid \<and> mid \<noteq> [] \<and> desc \<noteq> [] \<and> fullmatch REPO_RE repo \<and>
      fullmatch REVISION_RE rev \<and> 0 < space"
    by auto
  obtain files es1 where f: "(if valid s then parse_files label (dget (table s) ''files'') (errors s)
      else ([], errors s)) = (files, es1)" by (metis prod.exhaust)
  have f': "files_ok files" "\<exists>more. es1 = errors s @ more" "es1 = [] \<longrightarrow> valid s \<longrightarrow> files \<noteq> []"
    using f parse_files_ok [of label "dget (table s) ''files''" "errors s" files es1]
    by (auto simp: files_ok_def split: if_splits)
  from rest f have e: "e = \<lparr>me_id = mid, me_description = desc, me_repo = repo, me_revision = rev,
                me_disk_space = space, me_files = files\<rparr>"
    and es': "\<exists>more. es' = es1 @ more"
    by (cases "valid s"; auto simp: Let_def errors_finish split: prod.splits)+
  from e es' f' s opened show ?thesis by auto
qed

section \<open>The registry\<close>

definition registry_ok :: "registry \<Rightarrow> bool" where
  "registry_ok reg \<longleftrightarrow> dict_ok reg \<and> (\<forall>(k, e) \<in> set reg. k = me_id e \<and> entry_ok e)"

text \<open>What TOML guarantees: no null, so none in the tables of the list.\<close>

definition tables_ok :: "pydict \<Rightarrow> bool" where
  "tables_ok data \<longleftrightarrow>
     (\<forall>ts d. map_of data ''model'' = Some (PList ts) \<longrightarrow> PDict d \<in> set ts \<longrightarrow> no_null d)"

lemma parse_table_ok:
  assumes "parse_table str_of_val i t (reg, es) = Inr (reg', es')" and "\<And>d. t = PDict d \<Longrightarrow> no_null d"
    and "es = [] \<longrightarrow> registry_ok reg"
  shows "es' = [] \<longrightarrow> es = [] \<and> registry_ok reg' \<and> length reg' = Suc (length reg)"
proof
  assume nil: "es' = []"
  let ?l = "entry_label str_of_val i t"
  from assms(1) obtain p where p: "read_entry_fields ?l t es = Inr p"
    and rest0: "(\<lambda>(entry, es1).
           if me_id entry \<in> set (dict_keys reg)
           then Inr (reg, es1 @ [[Txt (''['' @ ?l @ ''] id: listed twice'')]])
           else and_then (disk_space_errors ?l entry) (\<lambda>more.
                Inr (if me_id entry \<noteq> [] then AList.update (me_id entry) entry reg else reg,
                     es1 @ more))) p = (Inr (reg', es') :: py_exn + _)"
    unfolding parse_table_def Let_def prod.case by (rule and_then_InrE)
  obtain e es1 where p': "p = (e, es1)" by (cases p)
  note e = p [unfolded p'] and rest = rest0 [unfolded p' prod.case]
  from rest nil have new: "me_id e \<notin> set (dict_keys reg)" and "es1 = []"
    and space: "disk_space_errors ?l e = Inr []"
    and reg': "reg' = (if me_id e \<noteq> [] then AList.update (me_id e) e reg else reg)"
    by (auto simp: and_then_eq_Inr split: if_splits)
  from read_entry_fields_ok [OF e assms(2)] \<open>es1 = []\<close>
  have "es = []" and ok: "fullmatch ID_RE (me_id e)" "me_id e \<noteq> []" "me_description e \<noteq> []"
    "fullmatch REPO_RE (me_repo e)" "fullmatch REVISION_RE (me_revision e)" "0 < me_disk_space e"
    "me_files e \<noteq> []" "files_ok (me_files e)" by auto
  from space ok have "total_size e \<le> me_disk_space e"
    by (auto simp: disk_space_errors_def and_then_eq_Inr split: if_splits)
  with ok have "entry_ok e" by (simp add: entry_ok_def)
  moreover have "AList.update (me_id e) e reg = reg @ [(me_id e, e)]"
    using new by (induction reg) auto
  ultimately show "es = [] \<and> registry_ok reg' \<and> length reg' = Suc (length reg)"
    using assms(3) \<open>es = []\<close> reg' ok(2) new by (auto simp: registry_ok_def)
qed

lemma parse_tables_ok:
  assumes "for_each (parse_table str_of_val) i ts (reg, es) = Inr (reg', [])"
    and "\<And>d. PDict d \<in> set ts \<Longrightarrow> no_null d" and "es = [] \<longrightarrow> registry_ok reg"
  shows "es = [] \<and> registry_ok reg' \<and> length reg' = length reg + length ts"
  using assms
proof (induction ts arbitrary: i reg es)
  case (Cons t ts)
  then obtain reg1 es1 where one: "parse_table str_of_val i t (reg, es) = Inr (reg1, es1)"
    and rest: "for_each (parse_table str_of_val) (Suc i) ts (reg1, es1) = Inr (reg', [])"
    by (auto simp: and_then_eq_Inr)
  have nn: "\<And>d. t = PDict d \<Longrightarrow> no_null d" using Cons.prems(2) by auto
  note ok = parse_table_ok [OF one nn Cons.prems(3)]
  from Cons.IH [OF rest] Cons.prems(2) ok show ?case by auto
qed simp

lemma parse_registry_ok:
  assumes "parse_registry str_of_val path data = Inr reg" and "tables_ok data"
  shows "registry_ok reg \<and> length reg = length (case dget_default data ''model'' (PList []) of PList ts \<Rightarrow> ts | _ \<Rightarrow> [])"
proof -
  from assms(1) obtain ts where
    ts: "dget_default data ''model'' (PList []) = PList ts"
    and each: "for_each (parse_table str_of_val) 0 ts ([], unknown_keys data) = Inr (reg, [])"
    by (auto simp: parse_registry_def Let_def and_then_eq_Inr crash_def
        split: pyval.splits if_splits sum.splits)
  have "PDict d \<in> set ts \<Longrightarrow> no_null d" for d
    using assms(2) ts by (auto simp: tables_ok_def dget_default_def split: option.splits)
  from parse_tables_ok [OF each this] ts show ?thesis by (simp add: registry_ok_def)
qed

text \<open>
  C27: what a registry that loads promises the code that downloads and serves its models,
  whatever the file holds: an entry is found under its own id, no file name of it can leave the
  model's directory or touch the download state, its files are distinct and not empty, every
  hash is 64 hex digits and the revision a full commit, and the disk space it states is enough
  for its files.
\<close>

theorem loaded_entries_are_safe:
  assumes "load_registry str_of_val path file = Inr reg" and "get_entry mid reg = Inr e"
    and "\<And>data. file = Parsed data \<Longrightarrow> tables_ok data"
  shows "me_id e = mid \<and> entry_ok e \<and> (\<forall>name \<in> mf_name ` set (me_files e). safe_name name)"
proof -
  from assms(1) obtain data where "file = Parsed data" "parse_registry str_of_val path data = Inr reg"
    by (auto simp: load_registry_def split: toml_file.splits)
  with parse_registry_ok assms(3) have ok: "registry_ok reg" by blast
  from assms(2) have "map_of reg mid = Some e" by (auto simp: get_entry_def Let_def split: option.splits)
  then have "(mid, e) \<in> set reg" by (rule map_of_SomeD)
  with ok have "me_id e = mid" "entry_ok e" by (auto simp: registry_ok_def)
  then show ?thesis by (auto simp: entry_ok_def files_ok_def file_ok_def list_all_iff)
qed

definition small_file :: pydict where
  "small_file = [(''name'', PStr ''sub/a.bin''), (''size'', PInt 100),
     (''sha256'', PStr (CHR ''0'' # replicate 63 (CHR ''0'')))]"

definition small_table :: pydict where
  "small_table = [(''id'', PStr ''m''), (''description'', PStr ''d''), (''repo'', PStr ''o/n''),
     (''revision'', PStr (CHR ''1'' # replicate 39 (CHR ''1''))), (''disk_space'', PStr ''2GB''),
     (''files'', PList [PDict small_file])]"

definition small_data :: pydict where
  "small_data = [(''model'', PList [PDict small_table])]"

definition small_entry :: model_entry where
  "small_entry = \<lparr>me_id = ''m'', me_description = ''d'', me_repo = ''o/n'',
     me_revision = CHR ''1'' # replicate 39 (CHR ''1''), me_disk_space = 2147483648,
     me_files = [\<lparr>mf_name = ''sub/a.bin'', mf_size = 100, mf_sha256 = CHR ''0'' # replicate 63 (CHR ''0'')\<rparr>]\<rparr>"

lemma small_matches:
  "fullmatch ID_RE ''m''" "fullmatch REPO_RE ''o/n''" "file_name_problem ''sub/a.bin'' = None"
  by code_simp+

lemma small_checks: "check_id ''m'' = None" "check_repo ''o/n'' = None"
  by (simp_all add: small_matches del: fullmatch.simps)

lemma replicate_matches:
  "fullmatch (rep (Class rs) (Suc n) (Suc n)) (c # replicate n c) \<longleftrightarrow> in_class rs c"
  by (auto simp add: fullmatch_rep list_all_iff simp del: rep.simps fullmatch.simps)

lemma small_hashes:
  "fullmatch REVISION_RE (CHR ''1'' # replicate 39 (CHR ''1''))"
  "fullmatch SHA256_RE (CHR ''0'' # replicate 63 (CHR ''0''))"
  using replicate_matches [of hex 39 "CHR ''1''"] replicate_matches [of hex 63 "CHR ''0''"]
  by (simp_all add: REVISION_RE_def SHA256_RE_def hex_def in_class_def code_def del: rep.simps fullmatch.simps)

lemma small_revision: "check_revision (CHR ''1'' # replicate 39 (CHR ''1'')) = None"
  by (simp add: small_hashes del: fullmatch.simps replicate.simps)

lemma small_files_parse: "parse_files label (PList [PDict small_file]) es = (me_files small_entry, es)"
  by (simp add: parse_files_def parse_file_def Let_def small_file_def small_entry_def name_errors_def
      size_errors_def sha256_errors_def small_matches small_hashes FILE_FIELDS_def
      del: fullmatch.simps rep.simps replicate.simps)

lemma small_table_reads:
  "read_table (open_section label (PDict small_table) []) =
     Inr ((''m'', ''d'', ''o/n'', me_revision small_entry, 2147483648),
       \<lparr>sec_name = label, table = small_table, valid = True,
        seen = [''disk_space'', ''revision'', ''repo'', ''description'', ''id''], errors = []\<rparr>)"
  by (simp add: read_table_def read_then_def done_with_def open_section_def string_field_def
      size_field_def get_field_def small_table_def small_entry_def small_checks small_revision sample_sizes Let_def
      del: check_model_None fullmatch.simps rep.simps replicate.simps)

lemma small_data_parses: "parse_registry (\<lambda>_. ''m'') ''models.toml'' small_data = Inr [(''m'', small_entry)]"
proof -
  have "read_entry_fields ''model m'' (PDict small_table) [] = Inr (small_entry, [])"
    by (simp add: read_entry_fields_def small_table_reads small_files_parse Let_def finish_def)
       (simp add: small_table_def small_files_parse, simp add: small_entry_def)
  moreover have "me_id small_entry = ''m''" "disk_space_errors ''model m'' small_entry = Inr []"
    by (simp_all add: small_entry_def disk_space_errors_def total_size_def)
  ultimately show ?thesis
    by (simp add: parse_registry_def small_data_def unknown_keys_def parse_table_def entry_label_def
        dget_default_def dget_def small_table_def Let_def crash_def)
qed

lemma small_data_ok: "tables_ok small_data"
  by (auto simp: tables_ok_def small_data_def small_table_def no_null_def)

theorem loaded_entries_are_safe_witness:
  "me_id small_entry = ''m'' \<and> entry_ok small_entry \<and> safe_name ''sub/a.bin''"
proof -
  have "me_id small_entry = ''m'' \<and> entry_ok small_entry \<and>
      (\<forall>name \<in> mf_name ` set (me_files small_entry). safe_name name)"
    by (rule loaded_entries_are_safe [of "\<lambda>_. ''m''" "''models.toml''" "Parsed small_data" "[(''m'', small_entry)]"])
       (simp_all add: load_registry_def small_data_parses get_entry_def small_data_ok)
  moreover have "''sub/a.bin'' \<in> mf_name ` set (me_files small_entry)" by (simp add: small_entry_def)
  ultimately show ?thesis by blast
qed

section \<open>Writing\<close>

definition sizes_bounded :: "registry \<Rightarrow> bool" where
  "sizes_bounded reg \<longleftrightarrow> (\<forall>e \<in> snd ` set reg. 0 \<le> total_size e \<and> total_size e < 2 ^ 50)"

lemma render_all_ends:
  assumes "\<forall>e \<in> set es. 0 \<le> total_size e \<and> total_size e < 2 ^ 50"
  shows "\<exists>t. render_all es = Some (Inr t)"
  using assms
proof (induction es)
  case (Cons e es)
  then obtain t where "render_all es = Some (Inr t)" by auto
  moreover from Cons.prems two_rounds [of "total_size e"]
  obtain s where "render_model e = Some (Inr s)" by (auto simp: render_model_def)
  ultimately show ?case by simp
qed simp

lemma update_values: "snd ` set (AList.update k v xs) \<subseteq> insert v (snd ` set xs)"
  by (induction xs) auto

lemma keys_have_values: "k \<in> set (dict_keys xs) \<Longrightarrow> the (map_of xs k) \<in> snd ` set xs"
  by (induction xs) auto

lemma sorted_values: "set (map (\<lambda>k. the (map_of xs k)) (sort (dict_keys xs))) \<subseteq> snd ` set xs"
  unfolding set_map [of "\<lambda>k. the (map_of xs k)"] set_sort
  by (rule image_subsetI) (rule keys_have_values)

lemma replace_file_outcome:
  assumes "replace_file fault path body d = (res, d')"
  shows "(res = Written \<longrightarrow> d' path = Some body) \<and> (res \<noteq> Written \<longrightarrow> d' path = d path) \<and>
    (\<forall>p. p \<notin> {path, path @ ''.tmp''} \<longrightarrow> d' p = d p)"
proof -
  have "path @ ''.tmp'' \<noteq> path" by simp
  with assms show ?thesis by (auto simp: replace_file_def Let_def split: option.splits write_failure.splits)
qed

text \<open>If it returns, either nothing is written, or a text that has just been parsed.\<close>

lemma write_entry_cases:
  fixes d :: "string \<rightharpoonup> string"
  assumes "write_entry env fault entry d = Some (res, d')"
  obtains (refused) "d' = d" and "res \<noteq> Written"
    | (parsed) body data reg where "replace_file fault (models_toml env) body d = (res, d')"
        and "toml_loads env body = Inr data" and "parse_registry (shown_val env) (models_toml env) data = Inr reg"
  using assms unfolding write_entry_def Let_def
  by (auto split: sum.splits option.splits)

lemma write_entry_returns:
  fixes d :: "string \<rightharpoonup> string"
  assumes "0 \<le> total_size entry" and "total_size entry < 2 ^ 50"
    and "\<And>reg. load_registry (shown_val env) (models_toml env) (registry_file env d) = Inr reg \<Longrightarrow> sizes_bounded reg"
  shows "write_entry env fault entry d \<noteq> None"
proof (cases "if d (models_toml env) = None then Inr []
    else load_registry (shown_val env) (models_toml env) (registry_file env d)")
  case (Inl x)
  then show ?thesis by (simp only: write_entry_def Let_def sum.case) simp
next
  case (Inr reg0)
  let ?reg = "AList.update (me_id entry) entry reg0"
  let ?es = "map (\<lambda>k. the (map_of ?reg k)) (sort (dict_keys ?reg))"
  have "sizes_bounded reg0" using Inr assms(3) by (auto simp: sizes_bounded_def split: if_splits)
  then have "\<forall>e \<in> snd ` set ?reg. 0 \<le> total_size e \<and> total_size e < 2 ^ 50"
    using update_values [of "me_id entry" entry reg0] assms(1,2) unfolding sizes_bounded_def by blast
  then have "\<forall>e \<in> set ?es. 0 \<le> total_size e \<and> total_size e < 2 ^ 50"
    using sorted_values [of ?reg] by blast
  from render_all_ends [OF this] obtain body where "render_all ?es = Some (Inr body)" ..
  with Inr show ?thesis unfolding write_entry_def Let_def by (simp only: sum.case option.case) simp
qed

text \<open>
  C28: Whatever the entry holds, whatever the TOML parser does and wherever the disk fails: when \<open>write_entry\<close>
  returns, the registry file is either the one that was there before, letter by letter, or one that loads; it is
  replaced exactly when the call succeeds, and no file other than it and its temporary copy is touched. It does
  return if the sizes of the entry and of every entry already there are not negative and below \<open>2^50\<close> bytes.
\<close>

theorem write_entry_keeps_a_loadable_registry:
  fixes env :: registry_env and d :: "string \<rightharpoonup> string"
  defines "path \<equiv> models_toml env"
  shows "(\<forall>res d'. write_entry env fault entry d = Some (res, d') \<longrightarrow>
      (if res = Written then \<exists>reg. load_registry (shown_val env) path (registry_file env d') = Inr reg
       else d' path = d path) \<and>
      (\<forall>p. p \<notin> {path, path @ ''.tmp''} \<longrightarrow> d' p = d p)) \<and>
    (0 \<le> total_size entry \<and> total_size entry < 2 ^ 50 \<and>
       (\<forall>reg. load_registry (shown_val env) path (registry_file env d) = Inr reg \<longrightarrow> sizes_bounded reg) \<longrightarrow>
     write_entry env fault entry d \<noteq> None)"
proof (intro conjI allI impI)
  fix res d'
  assume w: "write_entry env fault entry d = Some (res, d')"
  then have "(if res = Written then \<exists>reg. load_registry (shown_val env) path (registry_file env d') = Inr reg
       else d' path = d path) \<and> (\<forall>p. p \<notin> {path, path @ ''.tmp''} \<longrightarrow> d' p = d p)"
  proof (cases rule: write_entry_cases)
    case (parsed body data reg)
    from replace_file_outcome [OF parsed(1)] parsed(2,3) show ?thesis
      by (auto simp: path_def registry_file_def load_registry_def)
  qed simp
  then show "if res = Written then \<exists>reg. load_registry (shown_val env) path (registry_file env d') = Inr reg
       else d' path = d path" "\<And>p. p \<notin> {path, path @ ''.tmp''} \<Longrightarrow> d' p = d p" by blast+
qed (use write_entry_returns path_def in auto)

lemma total_size_of_small: "total_size small_entry = 100"
  by (simp add: total_size_def small_entry_def)

definition small_env :: registry_env where
  "small_env = \<lparr>toml_loads = \<lambda>_. Inr small_data, shown_val = \<lambda>_. ''m'', models_toml = ''models.toml''\<rparr>"

lemma small_env_fields: "shown_val small_env = (\<lambda>_. ''m'')" "models_toml small_env = ''models.toml''"
  by (simp_all add: small_env_def)

theorem write_entry_keeps_a_loadable_registry_witness:
  "\<exists>res d'. write_entry small_env None small_entry Map.empty = Some (res, d') \<and>
    (if res = Written
     then \<exists>reg. load_registry (shown_val small_env) (models_toml small_env) (registry_file small_env d') = Inr reg
     else d' (models_toml small_env) = None)"
proof -
  have "sizes_bounded reg" if "load_registry (shown_val small_env) (models_toml small_env)
      (registry_file small_env Map.empty) = Inr reg" for reg
    using that by (simp add: load_registry_def registry_file_def)
  moreover have "0 \<le> total_size small_entry" "total_size small_entry < 2 ^ 50" by (simp_all add: total_size_of_small)
  ultimately show ?thesis
    using write_entry_keeps_a_loadable_registry [of small_env None small_entry Map.empty] by fastforce
qed

end
