(* ===== verification/Pull_Properties.thy ===== *)
theory Pull_Properties
  imports Pull
begin

text \<open>
  What a pull leaves behind, however it ends: files that match the registry and records that say
  so. And what interrupted downloads cost: nothing that was received from an honest server.
\<close>

section \<open>Downloading one file\<close>

lemma write_chunks_fit:
  "int (length (c @ concat xs)) \<le> n \<Longrightarrow> write_chunks n c xs = (c @ concat xs, False)"
  by (induction xs arbitrary: c) auto

lemma write_chunks_size:
  "write_chunks n c xs = (c', over) \<Longrightarrow> (over \<longrightarrow> int (length c') > n) \<and>
     (\<not> over \<longrightarrow> int (length c) \<le> n \<longrightarrow> int (length c') \<le> n)"
  by (induction xs arbitrary: c) (auto split: if_splits)

text \<open>The partial file is never longer than the file, outside of an attempt.\<close>

definition part_fits :: "model_file \<Rightarrow> download \<Rightarrow> bool" where
  "part_fits f s \<longleftrightarrow> int (length (part_data s)) \<le> mf_size f"

lemma part_data_simps [simp]:
  "part_data (s\<lparr>part := Some st\<rparr>) = content st" "part_data (s\<lparr>part := None\<rparr>) = []"
  "part_data (s\<lparr>asked := xs\<rparr>) = part_data s" "part_data (s\<lparr>slept := ys\<rparr>) = part_data s"
  by (simp_all add: part_data_def)

lemma check_received_bounds:
  assumes "check_received f a s = (v, s')" and "0 \<le> mf_size f"
  shows "part_fits f s' \<and> asked s' = asked s \<and> slept s' = slept s \<and>
    (v = Complete \<longrightarrow> s' = s \<and> int (length (part_data s)) = mf_size f) \<and> (v = Try_again \<longrightarrow> a \<noteq> RETRIES)"
  using assms by (auto simp: check_received_def part_fits_def Let_def split: if_splits)

lemma failed_attempt_bounds:
  assumes "failed_attempt f a e s = (v, s')"
  shows "part s' = part s \<and> asked s' = asked s \<and> v \<noteq> Complete \<and> (v = Try_again \<longrightarrow> a \<noteq> RETRIES)"
  using assms by (auto simp: failed_attempt_def split: failing.splits if_splits)

lemma try_download_bounds:
  assumes "try_download fetch stamp f a s = (v, s')" and "0 \<le> mf_size f"
  shows "part_fits f s' \<and> length (asked s') \<le> Suc (length (asked s)) \<and>
    (v = Complete \<longrightarrow> (\<exists>st. part s' = Some st \<and> int (length (content st)) = mf_size f)) \<and>
    (v = Try_again \<longrightarrow> a \<noteq> RETRIES)"
proof -
  define s0 where "s0 = (if int (length (part_data s)) > mf_size f then s\<lparr>part := None\<rparr> else s)"
  have s0: "part_fits f s0" "asked s0 = asked s" using assms(2) by (auto simp: s0_def part_fits_def)
  let ?k = "length (part_data s0)"
  let ?s1 = "s0\<lparr>asked := asked s @ [?k]\<rparr>"
  show ?thesis
  proof (cases "int ?k = mf_size f")
    case True
    with assms(1) have "v = Complete" "s' = s0\<lparr>part := Some \<lparr>content = part_data s0, mtime_ns = stamp a\<rparr>\<rparr>"
      by (simp_all add: try_download_def Let_def flip: s0_def)
    with True s0 show ?thesis by (simp add: part_fits_def)
  next
    case False
    show ?thesis
    proof (cases "fetch a ?k")
      case (No_reply e)
      with False assms(1) s0 have "failed_attempt f a e ?s1 = (v, s')"
        by (simp add: try_download_def Let_def flip: s0_def)
      from failed_attempt_bounds [OF this] s0 show ?thesis by (simp add: part_fits_def part_data_def)
    next
      case (Reply status chunks broken)
      define start where "start = (if ?k \<noteq> 0 \<and> status \<noteq> 206 then [] else part_data s0)"
      obtain c over where c: "write_chunks (mf_size f) start chunks = (c, over)" by (metis prod.exhaust)
      let ?s2 = "?s1\<lparr>part := Some \<lparr>content = c, mtime_ns = stamp a\<rparr>\<rparr>"
      have res: "(case broken of Some e \<Rightarrow> if over then check_received f a ?s2 else failed_attempt f a e ?s2
          | None \<Rightarrow> check_received f a ?s2) = (v, s')"
        using False Reply c s0 assms(1) by (simp add: try_download_def Let_def start_def flip: s0_def)
      have "int (length start) \<le> mf_size f" using s0 assms(2) by (simp add: start_def part_fits_def)
      with write_chunks_size [OF c] have fits: "\<not> over \<Longrightarrow> part_fits f ?s2" by (simp add: part_fits_def)
      from res consider (received) "check_received f a ?s2 = (v, s')"
        | (broke) e where "\<not> over" "failed_attempt f a e ?s2 = (v, s')"
        by (auto split: option.splits if_splits)
      then show ?thesis
      proof cases
        case received
        from check_received_bounds [OF this assms(2)] show ?thesis by auto
      next
        case broke
        from failed_attempt_bounds [OF broke(2)] fits [OF broke(1)] show ?thesis
          by (simp add: part_fits_def part_data_def)
      qed
    qed
  qed
qed

lemma try_attempts_bounds:
  assumes "try_attempts fetch stamp f (as @ [RETRIES]) s = (res, s')" and "0 \<le> mf_size f"
  shows "part_fits f s' \<and> length (asked s') \<le> Suc (length as) + length (asked s) \<and>
    (res = Inr () \<longrightarrow> (\<exists>st. part s' = Some st \<and> int (length (content st)) = mf_size f))"
  using assms(1)
proof (induction as arbitrary: s)
  case Nil
  then show ?case
    using try_download_bounds [OF _ assms(2), of fetch stamp RETRIES s]
    by (auto split: prod.splits verdict.splits)
next
  case (Cons a as)
  obtain v s1 where one: "try_download fetch stamp f a s = (v, s1)" by (metis prod.exhaust)
  from try_download_bounds [OF this assms(2)] Cons one show ?case
    by (auto split: verdict.splits dest: Cons.IH)
qed

text \<open>
  A download asks the server three times at most; it says that it succeeded only with a partial
  file of exactly the size the registry states; and whatever the server sends, what it leaves behind
  is not longer than that.
\<close>

lemma download_bounded:
  assumes "0 \<le> mf_size f" and "download_file fetch stamp f p = (res, s)"
  shows "length (asked s) \<le> 3 \<and> int (length (part_data s)) \<le> mf_size f \<and>
    (res = Inr () \<longrightarrow> (\<exists>st. part s = Some st \<and> int (length (content st)) = mf_size f))"
proof -
  have "[1..<RETRIES + 1] = [1, 2] @ [RETRIES]" by (simp add: RETRIES_def upt_rec)
  with assms(2) have "try_attempts fetch stamp f ([1, 2] @ [RETRIES]) \<lparr>part = p, asked = [], slept = []\<rparr> = (res, s)"
    by (simp add: download_file_def)
  from try_attempts_bounds [OF this assms(1)] show ?thesis by (simp add: part_fits_def)
qed

definition two_bytes :: model_file where
  "two_bytes = \<lparr>mf_name = ''a'', mf_size = 2, mf_sha256 = ''h''\<rparr>"

theorem download_bounded_witness:
  "download_file (\<lambda>a k. Reply 200 [''x'', ''y''] None) int two_bytes None =
     (Inr (), \<lparr>part = Some \<lparr>content = ''xy'', mtime_ns = 1\<rparr>, asked = [0], slept = []\<rparr>) \<and>
   int (length ''xy'') \<le> mf_size two_bytes"
  using download_bounded [of two_bytes "\<lambda>a k. Reply 200 [''x'', ''y''] None" int None]
  by (simp add: two_bytes_def download_file_def RETRIES_def upt_rec try_download_def check_received_def
      part_data_def)

section \<open>An honest server\<close>

text \<open>What is sent is part of the file, from the offset asked for if the range is honoured.\<close>

definition sent_from :: "string \<Rightarrow> nat \<Rightarrow> nat \<Rightarrow> string" where
  "sent_from data k status = (if status = 206 then drop k data else data)"

definition honest :: "string \<Rightarrow> (nat \<Rightarrow> nat \<Rightarrow> reply) \<Rightarrow> bool" where
  "honest data fetch \<longleftrightarrow>
     (\<forall>a k status chunks broken. fetch a k = Reply status chunks broken \<longrightarrow>
        prefix (concat chunks) (sent_from data k status))"

text \<open>An attempt that brings all it is asked for, and one that raises what is not caught.\<close>

definition delivers :: "string \<Rightarrow> (nat \<Rightarrow> nat \<Rightarrow> reply) \<Rightarrow> nat \<Rightarrow> bool" where
  "delivers data fetch a \<longleftrightarrow>
     (\<forall>k. \<exists>status chunks. fetch a k = Reply status chunks None \<and> concat chunks = sent_from data k status)"

fun is_fatal :: "reply \<Rightarrow> bool" where
  "is_fatal (No_reply (Fatal _)) = True"
| "is_fatal (Reply _ _ (Some (Fatal _))) = True"
| "is_fatal _ = False"

definition never_fatal :: "(nat \<Rightarrow> nat \<Rightarrow> reply) \<Rightarrow> bool" where
  "never_fatal fetch \<longleftrightarrow> (\<forall>a k. \<not> is_fatal (fetch a k))"

text \<open>A range that is asked for is honoured whenever there is an answer.\<close>

definition resumes :: "(nat \<Rightarrow> nat \<Rightarrow> reply) \<Rightarrow> bool" where
  "resumes fetch \<longleftrightarrow> (\<forall>a k status chunks broken. k \<noteq> 0 \<and> fetch a k = Reply status chunks broken \<longrightarrow> status = 206)"

text \<open>The bytes that an answer brings, and that a sequence of requests does.\<close>

fun brought :: "reply \<Rightarrow> string" where
  "brought (Reply status chunks broken) = concat chunks"
| "brought (No_reply e) = []"

definition all_brought :: "(nat \<Rightarrow> nat \<Rightarrow> reply) \<Rightarrow> nat list \<Rightarrow> nat list \<Rightarrow> string" where
  "all_brought fetch as ks = concat (map (\<lambda>(a, k). brought (fetch a k)) (zip as ks))"

lemma all_brought_simps [simp]:
  "all_brought fetch [] ks = []" "all_brought fetch as [] = []"
  "all_brought fetch (a # as) (k # ks) = brought (fetch a k) @ all_brought fetch as ks"
  by (simp_all add: all_brought_def)

lemma try_download_reply:
  assumes "try_download fetch stamp f a s = (v, s')" and "int (length (part_data s)) \<le> mf_size f"
    and "int (length (part_data s)) \<noteq> mf_size f" and "fetch a (length (part_data s)) = Reply status chunks broken"
    and "write_chunks (mf_size f) (if length (part_data s) \<noteq> 0 \<and> status \<noteq> 206 then [] else part_data s) chunks = (c, over)"
  shows "(let s2 = s\<lparr>asked := asked s @ [length (part_data s)], part := Some \<lparr>content = c, mtime_ns = stamp a\<rparr>\<rparr>
    in case broken of Some e \<Rightarrow> if over then check_received f a s2 else failed_attempt f a e s2
       | None \<Rightarrow> check_received f a s2) = (v, s')"
  using assms by (simp add: try_download_def Let_def)

lemma not_delivered: "\<forall>status chunks. fetch a k \<noteq> Reply status chunks None \<Longrightarrow> \<not> delivers data fetch a"
  by (auto simp: delivers_def)

lemma was_fatal: "is_fatal (fetch a k) \<Longrightarrow> \<not> never_fatal fetch"
  by (auto simp: never_fatal_def)

lemma failed_attempt_transient:
  assumes "failed_attempt f a e s = (v, s')" and "v = Give_up x"
  shows "a = RETRIES \<or> (\<exists>y. e = Fatal y)"
  using assms by (auto simp: failed_attempt_def split: failing.splits if_splits)

lemma failed_attempt_fatal:
  "failed_attempt f a e s = (v, s') \<Longrightarrow> e = Fatal x \<Longrightarrow> v = Give_up (Uncaught x) \<and> s' = s"
  by (simp add: failed_attempt_def)

lemma honest_received:
  assumes "check_received f a s = (v, s')" and "prefix (part_data s) data" and "mf_size f = int (length data)"
  shows "s' = s \<and> (v = Complete \<longleftrightarrow> part_data s = data) \<and> (v = Give_up x \<longrightarrow> a = RETRIES)"
proof -
  obtain zs where zs: "data = part_data s @ zs" using assms(2) by (auto simp: prefix_def)
  show ?thesis
    using assms(1) by (cases "zs = []") (auto simp: check_received_def assms(3) zs split: if_splits)
qed

lemma honest_attempt:
  assumes "honest data fetch" and "mf_size f = int (length data)" and "prefix (part_data s) data"
    and "try_download fetch stamp f a s = (v, s')"
  shows "prefix (part_data s') data"
    and "v = Complete \<Longrightarrow> part_data s' = data"
    and "delivers data fetch a \<Longrightarrow> v = Complete"
    and "never_fatal fetch \<Longrightarrow> v = Give_up x \<Longrightarrow> a = RETRIES"
    and "asked s' = asked s \<and> v = Complete \<and> part_data s' = part_data s \<or>
      asked s' = asked s @ [length (part_data s)] \<and>
        (resumes fetch \<longrightarrow> part_data s' = part_data s @ brought (fetch a (length (part_data s)))) \<and>
        (\<forall>x. fetch a (length (part_data s)) = No_reply (Fatal x) \<longrightarrow> v = Give_up (Uncaught x) \<and> part s' = part s)"
proof -
  let ?k = "length (part_data s)"
  have k: "?k \<le> length data" using assms(3) by (rule prefix_length_le)
  then have cut_off: "\<not> length data < ?k" by simp
  let ?s1 = "s\<lparr>asked := asked s @ [?k]\<rparr>"
  have "prefix (part_data s') data \<and> (v = Complete \<longrightarrow> part_data s' = data) \<and>
    (delivers data fetch a \<longrightarrow> v = Complete) \<and> (never_fatal fetch \<longrightarrow> v = Give_up x \<longrightarrow> a = RETRIES) \<and>
    (asked s' = asked s \<and> v = Complete \<and> part_data s' = part_data s \<or>
      asked s' = asked s @ [length (part_data s)] \<and>
        (resumes fetch \<longrightarrow> part_data s' = part_data s @ brought (fetch a (length (part_data s)))) \<and>
        (\<forall>x. fetch a (length (part_data s)) = No_reply (Fatal x) \<longrightarrow> v = Give_up (Uncaught x) \<and> part s' = part s))"
  proof (cases "?k = length data")
    case True
    with assms(4) have "v = Complete" "s' = s\<lparr>part := Some \<lparr>content = part_data s, mtime_ns = stamp a\<rparr>\<rparr>"
      by (simp_all add: try_download_def Let_def cut_off assms(2))
    with True assms(3) show ?thesis by (auto simp: prefix_def part_data_def)
  next
    case False
    show ?thesis
    proof (cases "fetch a ?k")
      case (No_reply e)
      with False assms(2,4) have "failed_attempt f a e ?s1 = (v, s')"
        by (simp add: try_download_def Let_def cut_off)
      then have f: "failed_attempt f a e ?s1 = (v, s')" .
      have "\<not> delivers data fetch a" by (rule not_delivered [of _ _ ?k]) (simp add: No_reply)
      moreover have "\<not> never_fatal fetch" if "\<exists>y. e = Fatal y"
        by (rule was_fatal [of _ a ?k]) (use that in \<open>auto simp: No_reply\<close>)
      moreover have same: "part s' = part s" "part_data s' = part_data s" "asked s' = asked s @ [?k]" "v \<noteq> Complete"
        using failed_attempt_bounds [OF f] by (simp_all add: part_data_def)
      moreover have "\<forall>x. e = Fatal x \<longrightarrow> v = Give_up (Uncaught x)" using failed_attempt_fatal [OF f] by blast
      ultimately show ?thesis
        using failed_attempt_transient [OF f] assms(3) by (auto simp: No_reply)
    next
      case (Reply status chunks broken)
      define start where "start = (if ?k \<noteq> 0 \<and> status \<noteq> 206 then [] else part_data s)"
      have sent: "prefix (concat chunks) (sent_from data ?k status)" using assms(1) Reply unfolding honest_def by blast
      have got: "prefix (start @ concat chunks) data"
      proof (cases "status = 206 \<or> ?k = 0")
        case True
        then have "start = part_data s" "sent_from data ?k status = drop ?k data"
          by (auto simp: start_def sent_from_def)
        with sent assms(3) show ?thesis by (auto simp: prefix_def)
      qed (use sent in \<open>simp add: start_def sent_from_def\<close>)
      then have w: "write_chunks (mf_size f) start chunks = (start @ concat chunks, False)"
        using prefix_length_le [OF got] assms(2) by (intro write_chunks_fit) simp
      let ?s2 = "?s1\<lparr>part := Some \<lparr>content = start @ concat chunks, mtime_ns = stamp a\<rparr>\<rparr>"
      have res: "(case broken of Some e \<Rightarrow> if False then check_received f a ?s2 else failed_attempt f a e ?s2
          | None \<Rightarrow> check_received f a ?s2) = (v, s')"
        using try_download_reply [OF assms(4) _ _ Reply w [unfolded start_def]] False k assms(2)
        by (cases broken) (simp_all add: start_def Let_def)
      have whole: "start @ concat chunks = data" if "delivers data fetch a"
      proof -
        from that Reply have "concat chunks = sent_from data ?k status"
          unfolding delivers_def by (metis reply.inject(1))
        moreover have "part_data s = take ?k data" using assms(3) by (auto simp: prefix_def)
        ultimately show ?thesis by (auto simp: start_def sent_from_def) (metis append_take_drop_id)+
      qed
      have kept: "start = part_data s" if "resumes fetch"
      proof -
        have "?k \<noteq> 0 \<longrightarrow> status = 206" using that Reply unfolding resumes_def by blast
        then show ?thesis by (auto simp: start_def)
      qed
      show ?thesis
      proof (cases broken)
        case None
        with res have "check_received f a ?s2 = (v, s')" by simp
        from honest_received [OF this _ assms(2)] got whole kept show ?thesis by (auto simp: Reply)
      next
        case (Some e)
        with res have f: "failed_attempt f a e ?s2 = (v, s')" by simp
        have "\<not> delivers data fetch a" by (rule not_delivered [of _ _ ?k]) (simp add: Reply Some)
        moreover have "\<not> never_fatal fetch" if "\<exists>y. e = Fatal y"
          by (rule was_fatal [of _ a ?k]) (use that in \<open>auto simp: Reply Some\<close>)
        moreover have "part_data s' = start @ concat chunks" "asked s' = asked s @ [?k]" "v \<noteq> Complete"
          using failed_attempt_bounds [OF f] by (simp_all add: part_data_def)
        ultimately show ?thesis
          using failed_attempt_transient [OF f] got kept by (auto simp: Reply)
      qed
    qed
  qed
  then show "prefix (part_data s') data"
    and "v = Complete \<Longrightarrow> part_data s' = data"
    and "delivers data fetch a \<Longrightarrow> v = Complete"
    and "never_fatal fetch \<Longrightarrow> v = Give_up x \<Longrightarrow> a = RETRIES"
    and "asked s' = asked s \<and> v = Complete \<and> part_data s' = part_data s \<or>
      asked s' = asked s @ [length (part_data s)] \<and>
        (resumes fetch \<longrightarrow> part_data s' = part_data s @ brought (fetch a (length (part_data s)))) \<and>
        (\<forall>x. fetch a (length (part_data s)) = No_reply (Fatal x) \<longrightarrow> v = Give_up (Uncaught x) \<and> part s' = part s)"
    by blast+
qed

text \<open>
  The requests of a run, one for each attempt that has something to ask for: with ranges honoured, the file is
  what was there followed by all that ever came, each request asks from where that ended, and an error
  that is not tried again ends the run with the file as it was.
\<close>

definition accounts ::
    "(nat \<Rightarrow> nat \<Rightarrow> reply) \<Rightarrow> nat list \<Rightarrow> nat list \<Rightarrow> download \<Rightarrow> download \<Rightarrow> pull_error + unit \<Rightarrow> bool" where
  "accounts fetch as ks s s' res \<longleftrightarrow>
     asked s' = asked s @ ks \<and>
     (resumes fetch \<longrightarrow> part_data s' = part_data s @ all_brought fetch as ks \<and>
        (\<forall>i < length ks. ks ! i = length (part_data s) + length (all_brought fetch (take i as) (take i ks)))) \<and>
     (\<forall>i < length ks. \<forall>x. fetch (as ! i) (ks ! i) = No_reply (Fatal x) \<longrightarrow>
        Suc i = length ks \<and> res = Inl (Uncaught x) \<and> length (part_data s') = ks ! i)"

lemma accounts_one:
  assumes "asked s1 = asked s \<and> v = Complete \<and> part_data s1 = part_data s \<or>
      asked s1 = asked s @ [length (part_data s)] \<and>
        (resumes fetch \<longrightarrow> part_data s1 = part_data s @ brought (fetch a (length (part_data s)))) \<and>
        (\<forall>x. fetch a (length (part_data s)) = No_reply (Fatal x) \<longrightarrow> v = Give_up (Uncaught x) \<and> part s1 = part s)"
  shows "\<exists>ks. accounts fetch (a # as) ks s s1 (case v of Give_up x \<Rightarrow> Inl x | _ \<Rightarrow> Inr ())"
  using assms
proof (elim disjE conjE)
  assume "asked s1 = asked s" "part_data s1 = part_data s"
  then show ?thesis by (intro exI [of _ "[]"]) (simp add: accounts_def)
next
  assume "asked s1 = asked s @ [length (part_data s)]"
    "resumes fetch \<longrightarrow> part_data s1 = part_data s @ brought (fetch a (length (part_data s)))"
    "\<forall>x. fetch a (length (part_data s)) = No_reply (Fatal x) \<longrightarrow> v = Give_up (Uncaught x) \<and> part s1 = part s"
  then show ?thesis
    by (intro exI [of _ "[length (part_data s)]"]) (auto simp: accounts_def part_data_def)
qed

lemma accounts_more:
  assumes "accounts fetch as ks s1 s' res" and "asked s1 = asked s @ [length (part_data s)]"
    and "resumes fetch \<longrightarrow> part_data s1 = part_data s @ brought (fetch a (length (part_data s)))"
    and "\<forall>x. fetch a (length (part_data s)) \<noteq> No_reply (Fatal x)"
  shows "\<exists>ks. accounts fetch (a # as) ks s s' res"
proof -
  let ?k = "length (part_data s)"
  have "asked s' = asked s @ ?k # ks" using assms(1,2) by (simp add: accounts_def)
  moreover have "part_data s' = part_data s @ all_brought fetch (a # as) (?k # ks) \<and>
      (\<forall>i < length (?k # ks). (?k # ks) ! i = ?k + length (all_brought fetch (take i (a # as)) (take i (?k # ks))))"
    if "resumes fetch"
    using assms(1,3) that by (auto simp: accounts_def less_Suc_eq_0_disj)
  moreover have "Suc i = length (?k # ks) \<and> res = Inl (Uncaught x) \<and> length (part_data s') = (?k # ks) ! i"
    if "i < length (?k # ks)" "fetch ((a # as) ! i) ((?k # ks) ! i) = No_reply (Fatal x)" for i x
  proof (cases i)
    case 0
    with that(2) assms(4) show ?thesis by simp
  next
    case (Suc j)
    with that have "j < length ks" "fetch (as ! j) (ks ! j) = No_reply (Fatal x)" by simp_all
    with assms(1) have "Suc j = length ks \<and> res = Inl (Uncaught x) \<and> length (part_data s') = ks ! j"
      unfolding accounts_def by blast
    moreover have "(?k # ks) ! i = ks ! j" by (simp add: Suc)
    ultimately show ?thesis by (simp add: Suc)
  qed
  ultimately have "accounts fetch (a # as) (?k # ks) s s' res" unfolding accounts_def by blast
  then show ?thesis ..
qed

lemma honest_attempts:
  assumes "honest data fetch" and "mf_size f = int (length data)"
    and "prefix (part_data s) data" and "try_attempts fetch stamp f (as @ [RETRIES]) s = (res, s')"
  shows "prefix (part_data s') data \<and> (res = Inr () \<longrightarrow> part_data s' = data) \<and>
    ((\<exists>a \<in> set (as @ [RETRIES]). delivers data fetch a) \<and> never_fatal fetch \<and> RETRIES \<notin> set as \<longrightarrow> res = Inr ()) \<and>
    (\<exists>ks. accounts fetch (as @ [RETRIES]) ks s s' res)"
  using assms(3,4)
proof (induction as arbitrary: s)
  case Nil
  obtain v s1 where one: "try_download fetch stamp f RETRIES s = (v, s1)" by (metis prod.exhaust)
  note h = honest_attempt [OF assms(1,2) Nil.prems(1) one]
  have "v \<noteq> Try_again" using try_download_bounds [OF one] assms(2) by simp
  with Nil.prems(2) one have s': "s' = s1" "res = (case v of Give_up x \<Rightarrow> Inl x | _ \<Rightarrow> Inr ())"
    by (auto split: verdict.splits)
  have "\<exists>ks. accounts fetch ([] @ [RETRIES]) ks s s' res"
    using accounts_one [OF h(5), where as = "[]"] unfolding s' by simp
  then show ?case using h(1-3) \<open>v \<noteq> Try_again\<close> by (auto simp: s' split: verdict.splits)
next
  case (Cons a as)
  obtain v s1 where one: "try_download fetch stamp f a s = (v, s1)" by (metis prod.exhaust)
  note h = honest_attempt [OF assms(1,2) Cons.prems(1) one]
  show ?case
  proof (cases "v = Try_again")
    case True
    with Cons.prems(2) one have "try_attempts fetch stamp f (as @ [RETRIES]) s1 = (res, s')" by simp
    note ih = Cons.IH [OF h(1) this]
    have "\<not> delivers data fetch a" using h(3) True by blast
    moreover have "\<exists>ks. accounts fetch (a # as @ [RETRIES]) ks s s' res"
      using ih h(5) True by (auto intro: accounts_more)
    moreover have "(\<exists>x \<in> set (as @ [RETRIES]). delivers data fetch x) \<and> RETRIES \<notin> set as"
      if "\<exists>x \<in> set ((a # as) @ [RETRIES]). delivers data fetch x" "RETRIES \<notin> set (a # as)"
      using that \<open>\<not> delivers data fetch a\<close> by auto
    ultimately show ?thesis using ih by auto
  next
    case False
    with Cons.prems(2) one have s': "s' = s1" "res = (case v of Give_up x \<Rightarrow> Inl x | _ \<Rightarrow> Inr ())"
      by (auto split: verdict.splits)
    have "v = Complete" if "never_fatal fetch" "a \<noteq> RETRIES"
      using False h(4) [OF that(1)] that(2) by (cases v) auto
    moreover have "\<exists>ks. accounts fetch (a # as @ [RETRIES]) ks s s' res"
      using accounts_one [OF h(5), where as = "as @ [RETRIES]"] unfolding s' by simp
    moreover have "a \<noteq> RETRIES" if "RETRIES \<notin> set (a # as)" using that by auto
    ultimately show ?thesis using h(1,2) False unfolding s' by (auto split: verdict.splits)
  qed
qed

text \<open>
  With an honest server, a partial file is always a beginning of the real file, however often
  the connection breaks; a download that succeeds has the file exactly; one of the three attempts
  that goes through is enough, wherever the ones before it broke off; and when ranges are honoured
  nothing that was received is fetched again.
\<close>

theorem download_resumes:
  assumes "honest data fetch" and "mf_size f = int (length data)"
    and "prefix (part_data \<lparr>part = p, asked = [], slept = []\<rparr>) data"
    and "download_file fetch stamp f p = (res, s)"
  shows "prefix (part_data s) data \<and> (res = Inr () \<longrightarrow> part_data s = data) \<and>
    ((\<exists>a \<in> {1, 2, 3}. delivers data fetch a) \<and> never_fatal fetch \<longrightarrow> res = Inr ()) \<and>
    accounts fetch [1, 2, 3] (asked s) \<lparr>part = p, asked = [], slept = []\<rparr> s res"
proof -
  have three: "[1..<RETRIES + 1] = [1, 2] @ [RETRIES]" by (simp add: RETRIES_def upt_rec)
  with assms(4) have "try_attempts fetch stamp f ([1, 2] @ [RETRIES]) \<lparr>part = p, asked = [], slept = []\<rparr> = (res, s)"
    by (simp add: download_file_def)
  from honest_attempts [OF assms(1-3) this] show ?thesis by (auto simp: RETRIES_def accounts_def)
qed

definition breaks_once :: "nat \<Rightarrow> nat \<Rightarrow> reply" where
  "breaks_once a k = (if a = 1 then Reply 200 [''x''] (Some (Transient ''reset'')) else Reply 206 [drop k ''xy''] None)"

theorem download_resumes_witness:
  "\<exists>s. download_file breaks_once int two_bytes None = (Inr (), s) \<and> part_data s = ''xy''"
proof -
  obtain res s where d: "download_file breaks_once int two_bytes None = (res, s)" by (metis prod.exhaust)
  have honest: "honest ''xy'' breaks_once"
    by (auto simp: honest_def breaks_once_def sent_from_def split: if_splits)
  have size: "mf_size two_bytes = int (length ''xy'')" by (simp add: two_bytes_def)
  have start: "prefix (part_data \<lparr>part = None, asked = [], slept = []\<rparr>) ''xy''" by (simp add: part_data_def)
  have "delivers ''xy'' breaks_once 2" by (simp add: delivers_def breaks_once_def sent_from_def)
  moreover have "never_fatal breaks_once" by (simp add: never_fatal_def breaks_once_def)
  ultimately have "res = Inr ()" "part_data s = ''xy''" using download_resumes [OF honest size start d] by auto
  with d show ?thesis by blast
qed

section \<open>Records\<close>

text \<open>The state file a set of records is saved as, and reading it back.\<close>

definition saved :: "records \<Rightarrow> pyval option" where
  "saved r = md_state (save_records r \<lparr>md_files = [], md_partials = [], md_state = None\<rparr>)"

lemma save_records_simps [simp]:
  "md_files (save_records r d) = md_files d" "md_partials (save_records r d) = md_partials d"
  "md_state (save_records r d) = saved r"
  by (simp_all add: save_records_def saved_def)

lemma load_saved: "md_state d = saved r \<Longrightarrow> load_records str_of d = r"
  by (simp add: saved_def save_records_def load_records_def dget_default_def comp_def str_val_def)

text \<open>A file that is as the registry says, and recorded as such.\<close>

definition verified_in :: "(string \<Rightarrow> string) \<Rightarrow> records \<Rightarrow> disk_file \<Rightarrow> model_file \<Rightarrow> bool" where
  "verified_in sha r st f \<longleftrightarrow>
     sha (content st) = mf_sha256 f \<and> known_sha256 r (Some st) (mf_name f) = Some (mf_sha256 f)"

definition all_verified :: "(string \<Rightarrow> string) \<Rightarrow> model_file list \<Rightarrow> records \<Rightarrow> model_dir \<Rightarrow> bool" where
  "all_verified sha fs r d \<longleftrightarrow>
     (\<forall>f \<in> set fs. \<forall>st. map_of (md_files d) (mf_name f) = Some st \<longrightarrow> verified_in sha r st f)"

text \<open>Records that do not lie about the files that are there.\<close>

definition records_sound :: "(string \<Rightarrow> string) \<Rightarrow> model_file list \<Rightarrow> records \<Rightarrow> model_dir \<Rightarrow> bool" where
  "records_sound sha fs r d \<longleftrightarrow>
     (\<forall>f \<in> set fs. \<forall>st k. map_of (md_files d) (mf_name f) = Some st \<longrightarrow>
        known_sha256 r (Some st) (mf_name f) = Some k \<longrightarrow> sha (content st) = k)"

lemma all_verified_sound: "all_verified sha fs r d \<Longrightarrow> records_sound sha fs r d"
  by (auto simp: all_verified_def records_sound_def verified_in_def)

lemma known_remembered: "known_sha256 (remember st name sha r) (Some st) name = Some sha"
  by (simp add: known_sha256_def remember_def record_of_def dict_simps)

lemma remember_fields:
  "verified (remember st name sha r) = AList.update name (record_of st sha) (verified r)"
  "failed_names (remember st name sha r) = remove1 name (failed_names r)"
  by (simp_all add: remember_def)

text \<open>Neither the files nor the records of other names change.\<close>

definition same_outside :: "string set \<Rightarrow> records \<times> model_dir \<Rightarrow> records \<times> model_dir \<Rightarrow> bool" where
  "same_outside names a b \<longleftrightarrow>
     (\<forall>n. n \<notin> names \<longrightarrow> map_of (md_files (snd a)) n = map_of (md_files (snd b)) n \<and>
        dget (verified (fst a)) n = dget (verified (fst b)) n)"

lemma same_outside_trans:
  "same_outside A a b \<Longrightarrow> same_outside B b c \<Longrightarrow> same_outside (A \<union> B) a c"
  by (simp add: same_outside_def)

lemma known_same: "dget (verified r) n = dget (verified r') n \<Longrightarrow> known_sha256 r st n = known_sha256 r' st n"
  by (simp add: known_sha256_def)

lemma all_verified_same:
  assumes "all_verified sha fs r d" and "same_outside names (r, d) (r', d')" and "names \<inter> mf_name ` set fs = {}"
  shows "all_verified sha fs r' d'"
proof -
  have "mf_name f \<notin> names" if "f \<in> set fs" for f using assms(3) that by blast
  then have "map_of (md_files d) (mf_name f) = map_of (md_files d') (mf_name f)"
    and "known_sha256 r st (mf_name f) = known_sha256 r' st (mf_name f)" if "f \<in> set fs" for f st
    using assms(2) that unfolding same_outside_def by (auto intro: known_same)
  with assms(1) show ?thesis by (simp add: all_verified_def verified_in_def)
qed

lemma all_verified_append: "all_verified sha (fs @ gs) r d \<longleftrightarrow> all_verified sha fs r d \<and> all_verified sha gs r d"
  by (auto simp: all_verified_def)

lemma records_sound_same:
  assumes "records_sound sha fs r d" and "same_outside names (r, d) (r', d')" and "names \<inter> mf_name ` set fs = {}"
  shows "records_sound sha fs r' d'"
proof -
  have "mf_name f \<notin> names" if "f \<in> set fs" for f using assms(3) that by blast
  then have "map_of (md_files d) (mf_name f) = map_of (md_files d') (mf_name f)"
    and "known_sha256 r st (mf_name f) = known_sha256 r' st (mf_name f)" if "f \<in> set fs" for f st
    using assms(2) that unfolding same_outside_def by (auto intro: known_same)
  with assms(1) show ?thesis by (simp add: records_sound_def)
qed

section \<open>The files that are there\<close>

text \<open>Each file is as before, or one of these names and gone.\<close>

definition kept_or_gone :: "string set \<Rightarrow> model_dir \<Rightarrow> model_dir \<Rightarrow> bool" where
  "kept_or_gone names d d' \<longleftrightarrow>
     (\<forall>n. map_of (md_files d') n = map_of (md_files d) n \<or> n \<in> names \<and> map_of (md_files d') n = None)"

lemma kept_or_gone_trans:
  "kept_or_gone A d d1 \<Longrightarrow> kept_or_gone B d1 d2 \<Longrightarrow> kept_or_gone (A \<union> B) d d2"
  unfolding kept_or_gone_def by (metis UnCI)

lemma kept_or_gone_refl: "md_files d' = md_files d \<Longrightarrow> kept_or_gone A d d'"
  by (simp add: kept_or_gone_def)

text \<open>The errors that end a pull before all the files that were there have been checked\<close>

fun early :: "pull_error \<Rightarrow> bool" where
  "early Already_running = True"
| "early (Struck Locking x) = True"
| "early (Struck (Removing_stray n) x) = True"
| "early (Struck (Removing_file n) x) = True"
| "early (Struck Saving_checked x) = True"
| "early _ = False"

lemma struck_eq [simp]:
  "struck w p = Some e \<longleftrightarrow> (\<exists>x. strikes w p = Some x \<and> e = Struck p x)" "struck w p = None \<longleftrightarrow> strikes w p = None"
  by (auto simp: struck_def)

lemma check_existing_any:
  assumes "check_existing sha w recheck f (r, d, missing) = (e, (r', d', missing'))"
  shows "kept_or_gone {mf_name f} d d'" and "same_outside {mf_name f} (r, d) (r', d')"
    and "md_partials d' = md_partials d" and "md_state d' = md_state d"
    and "e = Some x \<Longrightarrow> early x"
    and "e = None \<Longrightarrow> missing' = missing @ (if map_of (md_files d') (mf_name f) = None then [f] else []) \<and>
      (map_of (md_files d') (mf_name f) = None \<longrightarrow> dget (verified r') (mf_name f) = PNone)"
  using assms
  by (auto simp: check_existing_def same_outside_def kept_or_gone_def forget_def remember_def dict_simps Let_def
      split: option.splits if_splits)

lemma check_existing_verifies:
  assumes "check_existing sha w recheck f (r, d, missing) = (None, (r', d', missing'))"
    and "recheck \<or> records_sound sha [f] r d"
  shows "all_verified sha [f] r' d'"
proof (cases "map_of (md_files d) (mf_name f)")
  case None
  with assms(1) have "d' = d" by (simp add: check_existing_def)
  with None show ?thesis by (simp add: all_verified_def)
next
  case (Some st)
  define k where "k = (if recheck then None else known_sha256 r (Some st) (mf_name f))"
  define r1 where "r1 = (if k = None then remember st (mf_name f) (sha (content st)) r else r)"
  have told: "k = None \<or> k = Some (sha (content st))"
    using assms(2) Some by (cases k) (auto simp: k_def records_sound_def split: if_splits)
  then have right: "known_sha256 r1 (Some st) (mf_name f) = Some (sha (content st))"
    using k_def by (auto simp: r1_def known_remembered split: if_splits)
  show ?thesis
  proof (cases "sha (content st) = mf_sha256 f")
    case True
    with assms(1) Some told have "r' = r1 \<and> d' = d" by (auto simp: check_existing_def r1_def simp flip: k_def)
    with True right Some show ?thesis by (simp add: all_verified_def verified_in_def)
  next
    case False
    with assms(1) Some told have "map_of (md_files d') (mf_name f) = None"
      by (auto simp: check_existing_def dict_simps simp flip: k_def split: option.splits)
    then show ?thesis by (simp add: all_verified_def)
  qed
qed

lemma check_files_any:
  assumes "check_files sha w recheck fs (r, d, missing) = (e, (r', d', missing'))"
  shows "kept_or_gone (mf_name ` set fs) d d' \<and> same_outside (mf_name ` set fs) (r, d) (r', d') \<and>
    md_partials d' = md_partials d \<and> md_state d' = md_state d \<and> (\<forall>x. e = Some x \<longrightarrow> early x)"
  using assms
proof (induction fs arbitrary: r d missing)
  case Nil
  then show ?case by (simp add: same_outside_def kept_or_gone_refl)
next
  case (Cons f fs)
  obtain e1 r1 d1 missing1 where one: "check_existing sha w recheck f (r, d, missing) = (e1, (r1, d1, missing1))"
    by (metis prod.exhaust)
  note s = check_existing_any [OF one]
  show ?case
  proof (cases e1)
    case (Some x)
    with Cons.prems one have "e = Some x" "r' = r1" "d' = d1" by simp_all
    with s Some show ?thesis by (auto simp: same_outside_def kept_or_gone_def)
  next
    case None
    with Cons.prems one have "check_files sha w recheck fs (r1, d1, missing1) = (e, (r', d', missing'))" by simp
    from Cons.IH [OF this] s(1-4) show ?thesis
      using kept_or_gone_trans [of "{mf_name f}" d d1 "mf_name ` set fs" d']
        same_outside_trans [of "{mf_name f}" "(r, d)" "(r1, d1)" "mf_name ` set fs" "(r', d')"] by simp
  qed
qed

lemma check_files_done:
  assumes "check_files sha w recheck fs (r, d, missing) = (None, (r', d', missing'))"
    and "distinct (map mf_name fs)"
  shows "(recheck \<or> records_sound sha fs r d \<longrightarrow> all_verified sha fs r' d') \<and>
    missing' = missing @ filter (\<lambda>f. map_of (md_files d') (mf_name f) = None) fs \<and>
    (\<forall>f \<in> set fs. map_of (md_files d') (mf_name f) = None \<longrightarrow> dget (verified r') (mf_name f) = PNone)"
  using assms
proof (induction fs arbitrary: r d missing)
  case Nil
  then show ?case by (simp add: all_verified_def)
next
  case (Cons f fs)
  obtain e1 r1 d1 missing1 where one: "check_existing sha w recheck f (r, d, missing) = (e1, (r1, d1, missing1))"
    by (metis prod.exhaust)
  from Cons.prems(1) one have e1: "e1 = None" and rest: "check_files sha w recheck fs (r1, d1, missing1) = (None, (r', d', missing'))"
    by (auto split: option.splits)
  note one' = one [unfolded e1]
  note s = check_existing_any [OF one']
  have apart: "{mf_name f} \<inter> mf_name ` set fs = {}" "mf_name ` set fs \<inter> mf_name ` set [f] = {}" "mf_name f \<notin> mf_name ` set fs"
    using Cons.prems(2) by auto
  note out = check_files_any [OF rest]
  from Cons.IH [OF rest] Cons.prems(2)
  have ih: "recheck \<or> records_sound sha fs r1 d1 \<longrightarrow> all_verified sha fs r' d'"
    "missing' = missing1 @ filter (\<lambda>f. map_of (md_files d') (mf_name f) = None) fs"
    "\<forall>f \<in> set fs. map_of (md_files d') (mf_name f) = None \<longrightarrow> dget (verified r') (mf_name f) = PNone" by simp_all
  have "all_verified sha (f # fs) r' d'" if sound: "recheck \<or> records_sound sha (f # fs) r d"
  proof -
    have "recheck \<or> records_sound sha fs r1 d1"
      using sound records_sound_same [OF _ s(2) apart(1)] by (auto simp: records_sound_def)
    moreover have "all_verified sha [f] r1 d1"
      using sound by (intro check_existing_verifies [OF one']) (auto simp: records_sound_def)
    ultimately show ?thesis
      using ih(1) all_verified_same [OF _ _ apart(2)] out all_verified_append [of sha "[f]" fs] by auto
  qed
  moreover have "map_of (md_files d') (mf_name f) = map_of (md_files d1) (mf_name f)"
    "dget (verified r') (mf_name f) = dget (verified r1) (mf_name f)"
    using out apart(3) by (simp_all add: same_outside_def)
  ultimately show ?case using ih(2,3) s(6) by auto
qed

lemma remove_stray_files:
  "remove_stray_partials w entry d = (e, d') \<Longrightarrow>
     md_files d' = md_files d \<and> md_state d' = md_state d \<and> (\<forall>x. e = Some x \<longrightarrow> early x)"
proof -
  have "remove_strays w wanted ps = (e, ps') \<Longrightarrow> e = Some x \<Longrightarrow> early x" for wanted ps ps' x
    by (induction ps arbitrary: ps') (auto split: if_splits prod.splits option.splits)
  then show "remove_stray_partials w entry d = (e, d') \<Longrightarrow> ?thesis"
    by (auto simp: remove_stray_partials_def split: prod.splits)
qed

section \<open>The files that are missing\<close>

text \<open>
  A file in place is right, and recorded as such unless the pull was struck between moving the file and
  saving the records; then nothing is recorded of it.
\<close>

definition right_in_place ::
    "(string \<Rightarrow> string) \<Rightarrow> model_file list \<Rightarrow> pull_error option \<Rightarrow> records \<Rightarrow> model_dir \<Rightarrow> bool" where
  "right_in_place sha fs e r d \<longleftrightarrow>
     (\<forall>f \<in> set fs. \<forall>st. map_of (md_files d) (mf_name f) = Some st \<longrightarrow>
        verified_in sha r st f \<or>
        sha (content st) = mf_sha256 f \<and> known_sha256 r (Some st) (mf_name f) = None \<and>
          (\<exists>x. e = Some (Struck (Saving_moved (mf_name f)) x)))"

lemma all_verified_right: "all_verified sha fs r d \<Longrightarrow> right_in_place sha fs e r d"
  by (simp add: all_verified_def right_in_place_def)

lemma right_in_place_sound: "right_in_place sha fs e r d \<Longrightarrow> records_sound sha fs r d"
  unfolding right_in_place_def records_sound_def verified_in_def by fastforce

lemma right_in_place_same:
  assumes "right_in_place sha fs e r d" and "same_outside names (r, d) (r', d')" and "names \<inter> mf_name ` set fs = {}"
  shows "right_in_place sha fs e r' d'"
proof -
  have "mf_name f \<notin> names" if "f \<in> set fs" for f using assms(3) that by blast
  then have "map_of (md_files d) (mf_name f) = map_of (md_files d') (mf_name f)"
    and "known_sha256 r st (mf_name f) = known_sha256 r' st (mf_name f)" if "f \<in> set fs" for f st
    using assms(2) that unfolding same_outside_def by (auto intro: known_same)
  with assms(1) show ?thesis by (simp add: right_in_place_def verified_in_def)
qed

text \<open>What an error of the fetching loop can be\<close>

fun fetch_error :: "pull_error \<Rightarrow> bool" where
  "fetch_error (Mismatched names) = False"
| "fetch_error e = (\<not> early e)"

lemma fetch_error_facts: "fetch_error e \<Longrightarrow> \<not> early e \<and> (\<forall>names. e \<noteq> Mismatched names)"
  by (cases e) auto

lemma attempts_errors: "try_attempts fetch stamp f as s = (Inl e, s') \<Longrightarrow> fetch_error e"
  by (induction as arbitrary: s)
    (auto simp: try_download_def check_received_def failed_attempt_def Let_def
      split: prod.splits verdict.splits reply.splits option.splits failing.splits if_splits)

lemma unknown_dropped: "dget (verified r) n = PNone \<Longrightarrow> known_sha256 r st n = None"
  by (simp add: known_sha256_def)

lemma fetch_one_step:
  assumes "fetch_one sha w f (r, d, mm) = (e, (r', d', mm'))" and "map_of (md_files d) (mf_name f) = None"
    and "dget (verified r) (mf_name f) = PNone"
  shows "right_in_place sha [f] e r' d'" and "same_outside {mf_name f} (r, d) (r', d')"
    and "md_state d = saved r \<Longrightarrow> md_state d' = saved r'" and "e = Some x \<Longrightarrow> fetch_error x"
    and "n \<noteq> mf_name f \<Longrightarrow> n \<in> set (failed_names r') \<longleftrightarrow> n \<in> set (failed_names r)"
    and "e = None \<Longrightarrow> mm' = mm \<and> map_of (md_files d') (mf_name f) \<noteq> None \<or>
      mm' = mm @ [mf_name f] \<and> map_of (md_files d') (mf_name f) = None \<and> mf_name f \<in> set (failed_names r')"
proof -
  obtain res dl where dl: "download_file (fetching w (mf_name f)) (stamping w (mf_name f)) f
      (map_of (md_partials d) (partial_name f)) = (res, dl)" by (metis prod.exhaust)
  have failed: "res = Inl y \<Longrightarrow> fetch_error y" for y
    using dl attempts_errors unfolding download_file_def by blast
  note [simp] = assms(2) unknown_dropped [OF assms(3)]
  have "right_in_place sha [f] e r' d' \<and> same_outside {mf_name f} (r, d) (r', d') \<and>
    (md_state d = saved r \<longrightarrow> md_state d' = saved r') \<and> (\<forall>x. e = Some x \<longrightarrow> fetch_error x) \<and>
    (n \<noteq> mf_name f \<longrightarrow> n \<in> set (failed_names r') \<longleftrightarrow> n \<in> set (failed_names r)) \<and>
    (e = None \<longrightarrow> mm' = mm \<and> map_of (md_files d') (mf_name f) \<noteq> None \<or>
      mm' = mm @ [mf_name f] \<and> map_of (md_files d') (mf_name f) = None \<and> mf_name f \<in> set (failed_names r'))"
  proof (cases "strikes w (Fetching (mf_name f)) = None \<and> (\<exists>p. res = Inr () \<and> part dl = Some p)")
    case False
    with assms(1) dl have "r' = r \<and> md_files d' = md_files d \<and> md_state d' = md_state d \<and> (\<exists>x. e = Some x \<and> fetch_error x)"
      by (auto simp: fetch_one_def put_partial_def Let_def failed split: sum.splits option.splits)
    with assms(2) show ?thesis by (auto simp: right_in_place_def same_outside_def)
  next
    case True
    then obtain p where p: "strikes w (Fetching (mf_name f)) = None" "res = Inr ()" "part dl = Some p" by blast
    show ?thesis
    proof (cases "sha (content p) = mf_sha256 f")
      case True
      with assms(1,3) dl p show ?thesis
        by (auto simp: fetch_one_def Let_def put_partial_def right_in_place_def verified_in_def unknown_dropped
            same_outside_def known_remembered dict_simps remember_fields split: option.splits)
    next
      case False
      with assms dl p show ?thesis
        by (auto simp: fetch_one_def Let_def put_partial_def right_in_place_def same_outside_def split: if_splits option.splits)
    qed
  qed
  then show "right_in_place sha [f] e r' d'" and "same_outside {mf_name f} (r, d) (r', d')"
    and "md_state d = saved r \<Longrightarrow> md_state d' = saved r'" and "e = Some x \<Longrightarrow> fetch_error x"
    and "n \<noteq> mf_name f \<Longrightarrow> n \<in> set (failed_names r') \<longleftrightarrow> n \<in> set (failed_names r)"
    and "e = None \<Longrightarrow> mm' = mm \<and> map_of (md_files d') (mf_name f) \<noteq> None \<or>
      mm' = mm @ [mf_name f] \<and> map_of (md_files d') (mf_name f) = None \<and> mf_name f \<in> set (failed_names r')"
    by blast+
qed

lemma fetch_all_steps:
  assumes "fetch_all sha w fs (r, d, mm) = (e, (r', d', mm'))"
    and "distinct (map mf_name fs)"
    and "\<forall>f \<in> set fs. map_of (md_files d) (mf_name f) = None \<and> dget (verified r) (mf_name f) = PNone"
  shows "right_in_place sha fs e r' d' \<and> same_outside (mf_name ` set fs) (r, d) (r', d') \<and>
    (md_state d = saved r \<longrightarrow> md_state d' = saved r') \<and> (\<forall>x. e = Some x \<longrightarrow> fetch_error x) \<and>
    (\<forall>n. n \<notin> mf_name ` set fs \<longrightarrow> (n \<in> set (failed_names r') \<longleftrightarrow> n \<in> set (failed_names r))) \<and>
    (e = None \<longrightarrow> mm' = mm @ map mf_name (filter (\<lambda>f. map_of (md_files d') (mf_name f) = None) fs) \<and>
      (\<forall>f \<in> set fs. map_of (md_files d') (mf_name f) = None \<longrightarrow> mf_name f \<in> set (failed_names r')))"
  using assms
proof (induction fs arbitrary: r d mm)
  case Nil
  then show ?case by (simp add: right_in_place_def same_outside_def)
next
  case (Cons f fs)
  obtain e1 r1 d1 mm1 where one: "fetch_one sha w f (r, d, mm) = (e1, (r1, d1, mm1))" by (metis prod.exhaust)
  have absent: "map_of (md_files d) (mf_name f) = None" "dget (verified r) (mf_name f) = PNone" using Cons.prems(3) by simp_all
  note s = fetch_one_step [OF one absent]
  have apart: "{mf_name f} \<inter> mf_name ` set fs = {}" "mf_name ` set fs \<inter> mf_name ` set [f] = {}"
    "mf_name f \<notin> mf_name ` set fs" using Cons.prems(2) by auto
  have later: "\<forall>g \<in> set fs. map_of (md_files d1) (mf_name g) = None \<and> dget (verified r1) (mf_name g) = PNone"
    using Cons.prems(3) s(2) apart(3) unfolding same_outside_def by (auto; metis image_eqI)
  have both: "right_in_place sha (f # fs) x ra da" if "right_in_place sha [f] x ra da" "right_in_place sha fs x ra da" for x ra da
    using that by (simp add: right_in_place_def)
  show ?case
  proof (cases e1)
    case (Some x)
    with Cons.prems(1) one have same: "e = Some x" "r' = r1" "d' = d1" by simp_all
    have "right_in_place sha fs e r1 d1" using later by (simp add: right_in_place_def)
    then have "right_in_place sha (f # fs) e r' d'" using both s(1) Some same by simp
    moreover have "same_outside (mf_name ` set (f # fs)) (r, d) (r1, d1)"
      using s(2) by (simp add: same_outside_def)
    ultimately show ?thesis using s(3,4,5) same Some by auto
  next
    case None
    with Cons.prems(1) one have "fetch_all sha w fs (r1, d1, mm1) = (e, (r', d', mm'))" by simp
    from Cons.IH [OF this _ later] Cons.prems(2)
    have ih: "right_in_place sha fs e r' d'" "same_outside (mf_name ` set fs) (r1, d1) (r', d')"
      "md_state d1 = saved r1 \<longrightarrow> md_state d' = saved r'" "\<forall>x. e = Some x \<longrightarrow> fetch_error x"
      "\<forall>n. n \<notin> mf_name ` set fs \<longrightarrow> (n \<in> set (failed_names r') \<longleftrightarrow> n \<in> set (failed_names r1))"
      "e = None \<longrightarrow> mm' = mm1 @ map mf_name (filter (\<lambda>f. map_of (md_files d') (mf_name f) = None) fs) \<and>
        (\<forall>f \<in> set fs. map_of (md_files d') (mf_name f) = None \<longrightarrow> mf_name f \<in> set (failed_names r'))"
      by simp_all
    have "right_in_place sha [f] None r' d'" by (rule right_in_place_same [OF s(1) [unfolded None] ih(2) apart(2)])
    then have "right_in_place sha [f] e r' d'" by (simp add: right_in_place_def)
    with ih(1) have v: "right_in_place sha (f # fs) e r' d'" by (rule both [rotated])
    have o: "same_outside (mf_name ` set (f # fs)) (r, d) (r', d')"
      using same_outside_trans [OF s(2) ih(2)] by simp
    have f: "map_of (md_files d') (mf_name f) = map_of (md_files d1) (mf_name f)"
      "mf_name f \<in> set (failed_names r') \<longleftrightarrow> mf_name f \<in> set (failed_names r1)"
      using ih(2,5) apart(3) by (simp_all add: same_outside_def)
    have "mm1 = mm \<and> map_of (md_files d') (mf_name f) \<noteq> None \<or>
      mm1 = mm @ [mf_name f] \<and> map_of (md_files d') (mf_name f) = None \<and> mf_name f \<in> set (failed_names r')"
      using s(6) None f by simp
    with v o ih s(3,5) show ?thesis by auto
  qed
qed

section \<open>A pull\<close>

text \<open>A pull ends while it checks what is there, or goes on to fetch what is missing.\<close>

lemma pull_phases:
  assumes "distinct (map mf_name (me_files entry))" and "pull sha str_of recheck w entry d = (res, d')"
  obtains (stopped) e where "res = Inl e" and "early e" and "md_state d' = md_state d"
      and "kept_or_gone (mf_name ` set (me_files entry)) d d'"
    | (fetching) e r d1 mm n where "(res, d') = finish_pull w e (r, d1, mm) n"
      and "recheck \<or> records_sound sha (me_files entry) (load_records str_of d) d \<Longrightarrow>
        right_in_place sha (me_files entry) e r d1"
      and "same_outside (mf_name ` set (me_files entry)) (load_records str_of d, d) (r, d1)"
      and "\<forall>f \<in> set (me_files entry). map_of (md_files d1) (mf_name f) = map_of (md_files d) (mf_name f) \<or>
        (\<forall>st. map_of (md_files d1) (mf_name f) = Some st \<longrightarrow> sha (content st) = mf_sha256 f)"
      and "md_state d1 = saved r" and "\<And>x. e = Some x \<Longrightarrow> fetch_error x"
      and "e = None \<Longrightarrow> mm = map mf_name (filter (\<lambda>f. map_of (md_files d1) (mf_name f) = None) (me_files entry)) \<and>
        set mm \<subseteq> set (failed_names r)"
proof -
  let ?fs = "me_files entry"
  obtain e0 d0 where stray: "remove_stray_partials w entry d = (e0, d0)" by (metis prod.exhaust)
  from remove_stray_files [OF stray] have d0: "md_files d0 = md_files d" "md_state d0 = md_state d"
    "\<And>x. e0 = Some x \<Longrightarrow> early x" by blast+
  then have load: "load_records str_of d0 = load_records str_of d" by (simp add: load_records_def)
  obtain e2 r2 d2 missing where check: "check_files sha w recheck ?fs (load_records str_of d, d0, []) = (e2, (r2, d2, missing))"
    by (metis prod.exhaust)
  note any = check_files_any [OF check]
  have early_end: thesis if "res = Inl x" "early x" "d' = dx" "md_state dx = md_state d" "kept_or_gone (mf_name ` set ?fs) d dx" for x dx
    using stopped that by simp
  note unchanged = kept_or_gone_refl [of _ d "mf_name ` set ?fs"]
  note pull = assms(2) [unfolded pull_def stray load check prod.case option.case]
  show thesis
  proof (cases "strikes w Locking = None \<and> \<not> lock_held w \<and> e0 = None \<and> e2 = None \<and> strikes w Saving_checked = None")
    case False
    have "kept_or_gone (mf_name ` set ?fs) d d2" "md_state d2 = md_state d"
      using any d0 by (simp_all add: kept_or_gone_def)
    with False pull any d0 show thesis
      by (auto simp: stray load check split: option.splits if_splits
          intro: early_end [OF _ _ _ refl unchanged [OF refl]] early_end [OF _ _ _ d0(2) unchanged [OF d0(1)]] early_end)
  next
    case True
    define d3 where "d3 = save_records r2 d2"
    define n where "n = sum_list (map (left_to_fetch d3) missing)"
    from True pull have run: "fetch_missing sha w missing r2 d3 = (res, d')"
      by (simp add: stray load check d3_def struck_def)
    from True check have "check_files sha w recheck ?fs (load_records str_of d, d0, []) = (None, (r2, d2, missing))" by simp
    from check_files_done [OF this assms(1)] have found:
      "recheck \<or> records_sound sha ?fs (load_records str_of d) d \<Longrightarrow> all_verified sha ?fs r2 d3"
      "missing = filter (\<lambda>f. map_of (md_files d3) (mf_name f) = None) ?fs"
      "\<forall>f \<in> set missing. map_of (md_files d3) (mf_name f) = None \<and> dget (verified r2) (mf_name f) = PNone"
      using d0(1) by (auto simp: d3_def all_verified_def records_sound_def)
    have d3: "md_state d3 = saved r2" "kept_or_gone (mf_name ` set ?fs) d d3"
      "same_outside (mf_name ` set ?fs) (load_records str_of d, d) (r2, d3)"
      using any d0(1) by (simp_all add: d3_def kept_or_gone_def same_outside_def)
    show thesis
    proof (cases "n + DISK_MARGIN > free_space w")
      case True
      then have "(res, d') = finish_pull w (Some (Not_enough_space n (free_space w))) (r2, d3, []) n"
        using run by (auto simp: fetch_missing_def finish_pull_def n_def Let_def)
      then show thesis
        using d3 found(1) by (intro fetching [of _ r2 d3 "[]" n]) (auto simp: kept_or_gone_def intro: all_verified_right)
    next
      case False
      obtain e r d1 mm where all: "fetch_all sha w missing (r2, d3, []) = (e, (r, d1, mm))" by (metis prod.exhaust)
      have dist: "distinct (map mf_name missing)" using assms(1) by (simp add: found(2) distinct_map_filter)
      from fetch_all_steps [OF all dist found(3)] have f:
        "right_in_place sha missing e r d1" "same_outside (mf_name ` set missing) (r2, d3) (r, d1)"
        "md_state d1 = saved r" "\<And>x. e = Some x \<Longrightarrow> fetch_error x"
        "e = None \<Longrightarrow> mm = map mf_name (filter (\<lambda>f. map_of (md_files d1) (mf_name f) = None) missing) \<and>
          (\<forall>f \<in> set missing. map_of (md_files d1) (mf_name f) = None \<longrightarrow> mf_name f \<in> set (failed_names r))"
        using d3(1) by simp_all
      define there where "there = filter (\<lambda>f. map_of (md_files d3) (mf_name f) \<noteq> None) ?fs"
      have split: "set ?fs = set missing \<union> set there" by (auto simp: found(2) there_def)
      have apart: "mf_name ` set missing \<inter> mf_name ` set there = {}" by (auto simp: found(2) there_def)
      have same: "map_of (md_files d1) (mf_name x) = map_of (md_files d3) (mf_name x)" if "x \<in> set there" for x
      proof -
        have "mf_name x \<notin> mf_name ` set missing" using apart that by blast
        then show ?thesis using f(2) by (simp add: same_outside_def)
      qed
      have v: "right_in_place sha ?fs e r d1" if "recheck \<or> records_sound sha ?fs (load_records str_of d) d"
      proof -
        have "right_in_place sha there e r2 d3"
          using found(1) [OF that] by (intro all_verified_right) (simp add: all_verified_def there_def)
        from right_in_place_same [OF this f(2) apart] f(1) show ?thesis
          unfolding right_in_place_def split by blast
      qed
      have sub: "mf_name ` set missing \<subseteq> mf_name ` set ?fs" by (auto simp: found(2))
      have o: "same_outside (mf_name ` set ?fs) (load_records str_of d, d) (r, d1)"
        using same_outside_trans [OF d3(3) f(2)] sub by (simp add: Un_absorb2)
      have fates: "map_of (md_files d1) (mf_name x) = map_of (md_files d) (mf_name x) \<or>
          (\<forall>st. map_of (md_files d1) (mf_name x) = Some st \<longrightarrow> sha (content st) = mf_sha256 x)" if "x \<in> set ?fs" for x
      proof (cases "x \<in> set missing")
        case True
        with f(1) show ?thesis by (auto simp: right_in_place_def verified_in_def)
      next
        case False
        with that split have x: "x \<in> set there" by blast
        then have "map_of (md_files d3) (mf_name x) \<noteq> None" by (simp add: there_def)
        with d3(2) same [OF x] show ?thesis unfolding kept_or_gone_def by metis
      qed
      have gone: "map_of (md_files d3) (mf_name x) = None" if "x \<in> set ?fs" "map_of (md_files d1) (mf_name x) = None" for x
        using same [of x] that by (cases "map_of (md_files d3) (mf_name x)") (auto simp: there_def)
      have filters: "filter (\<lambda>f. map_of (md_files d1) (mf_name f) = None) missing =
          filter (\<lambda>f. map_of (md_files d1) (mf_name f) = None) ?fs"
        unfolding found(2) filter_filter using gone by (intro filter_cong refl) blast
      have mismatches: "mm = map mf_name (filter (\<lambda>f. map_of (md_files d1) (mf_name f) = None) ?fs) \<and>
          set mm \<subseteq> set (failed_names r)" if "e = None"
        using f(5) [OF that] unfolding filters [symmetric] by auto
      have "(res, d') = finish_pull w e (r, d1, mm) n"
        using run False all by (simp add: fetch_missing_def n_def Let_def)
      from fetching [OF this v o ballI [OF fates] f(3,4) mismatches] show thesis by simp
    qed
  qed
qed

lemma downloaded_state:
  assumes "all_verified sha fs (load_records str_of d) d" and "failed_names (load_records str_of d) = []"
    and "fs = me_files entry" and "\<forall>f \<in> set fs. map_of (md_files d) (mf_name f) \<noteq> None"
  shows "local_state str_of entry d = Downloaded"
proof -
  have "filter (\<lambda>f. map_of (md_files d) (mf_name f) \<noteq> None) fs = fs" using assms(4) by simp
  moreover have "known_sha256 (load_records str_of d) (map_of (md_files d) (mf_name f)) (mf_name f) = Some (mf_sha256 f)"
    if "f \<in> set fs" for f
    using assms(1,4) that by (auto simp: all_verified_def verified_in_def)
  ultimately show ?thesis
    using assms(2-4) by (simp add: local_state_def list_all_iff list_ex_iff Let_def)
qed

lemma failed_state:
  assumes "x \<in> mf_name ` set (me_files entry)" and "x \<in> set (failed_names (load_records str_of d))"
  shows "local_state str_of entry d = Failed_verification"
  using assms by (auto simp: local_state_def list_ex_iff Let_def)

lemma finish_pull_files:
  assumes "finish_pull w e (r, d, mm) n = (res, d')"
  shows "md_files d' = md_files d"
    and "md_state d = saved r \<Longrightarrow> load_records str_of d' = r \<or> load_records str_of d' = r\<lparr>failed_names := []\<rparr>"
    and "md_state d = saved r \<Longrightarrow> res = Inr bytes \<Longrightarrow> e = None \<and> mm = [] \<and> failed_names (load_records str_of d') = []"
    and "md_state d = saved r \<Longrightarrow> res = Inl (Mismatched names) \<Longrightarrow> (\<And>x. e = Some x \<Longrightarrow> fetch_error x) \<Longrightarrow>
      e = None \<and> mm = names \<and> mm \<noteq> [] \<and> load_records str_of d' = r"
    and "e = Some x \<Longrightarrow> res = Inl x"
  using assms load_saved [of d r] load_saved [of "save_records (r\<lparr>failed_names := []\<rparr>) d" "r\<lparr>failed_names := []\<rparr>"]
  by (auto simp: finish_pull_def split: option.splits if_splits)

lemma finish_pull_late:
  assumes "finish_pull w e st n = (res, d')" and "\<And>x. e = Some x \<Longrightarrow> fetch_error x"
  shows "\<And>x. res = Inl x \<Longrightarrow> \<not> early x"
  using assms fetch_error_facts
  by (cases st) (auto simp: finish_pull_def split: option.splits if_splits)

lemma pull_ends:
  assumes "distinct (map mf_name (me_files entry))" and "pull sha str_of recheck w entry d = (res, d')"
  shows "(\<forall>n. n \<notin> mf_name ` set (me_files entry) \<longrightarrow> map_of (md_files d') n = map_of (md_files d) n) \<and>
    (\<forall>f \<in> set (me_files entry). map_of (md_files d') (mf_name f) = map_of (md_files d) (mf_name f) \<or>
       (\<forall>st. map_of (md_files d') (mf_name f) = Some st \<longrightarrow> sha (content st) = mf_sha256 f)) \<and>
    (records_sound sha (me_files entry) (load_records str_of d) d \<longrightarrow>
       records_sound sha (me_files entry) (load_records str_of d') d') \<and>
    ((recheck \<or> records_sound sha (me_files entry) (load_records str_of d) d) \<and> (\<forall>e. res = Inl e \<longrightarrow> \<not> early e) \<longrightarrow>
       right_in_place sha (me_files entry) (case res of Inl e \<Rightarrow> Some e | Inr _ \<Rightarrow> None) (load_records str_of d') d' \<and>
       (\<forall>bytes. res = Inr bytes \<longrightarrow> local_state str_of entry d' = Downloaded)) \<and>
    (\<forall>bytes. res = Inr bytes \<longrightarrow> (\<forall>f \<in> set (me_files entry). map_of (md_files d') (mf_name f) \<noteq> None)) \<and>
    (\<forall>names. res = Inl (Mismatched names) \<longrightarrow> local_state str_of entry d' = Failed_verification \<and>
      (\<forall>x \<in> set names. x \<in> mf_name ` set (me_files entry) \<and> map_of (md_files d') x = None))"
  using assms
proof (cases rule: pull_phases)
  case (stopped e)
  let ?fs = "me_files entry"
  have "load_records str_of d' = load_records str_of d" using stopped(3) by (simp add: load_records_def)
  then have "records_sound sha ?fs (load_records str_of d) d \<longrightarrow> records_sound sha ?fs (load_records str_of d') d'"
    using stopped(4) unfolding records_sound_def kept_or_gone_def by (metis option.distinct(1))
  moreover have "e \<noteq> Mismatched names" for names using stopped(2) by auto
  ultimately show ?thesis using stopped unfolding kept_or_gone_def by auto
next
  case (fetching e r d1 mm n)
  let ?fs = "me_files entry"
  note fin = finish_pull_files [OF fetching(1) [symmetric]]
  note late = finish_pull_late [OF fetching(1) [symmetric] fetching(6)]
  have "known_sha256 (r\<lparr>failed_names := []\<rparr>) = known_sha256 r" by (intro ext) (simp add: known_sha256_def)
  then have known: "known_sha256 (load_records str_of d') = known_sha256 r"
    using fin(2) [OF fetching(5), of str_of] by metis
  have right: "right_in_place sha ?fs e (load_records str_of d') d'"
    if "recheck \<or> records_sound sha ?fs (load_records str_of d) d"
    using fetching(2) [OF that] by (simp add: right_in_place_def verified_in_def known fin(1))
  have exn: "right_in_place sha ?fs e ra da \<Longrightarrow> right_in_place sha ?fs (case res of Inl e \<Rightarrow> Some e | Inr _ \<Rightarrow> None) ra da" for ra da
    using fin(5) by (cases e) (auto simp: right_in_place_def)
  have outside: "map_of (md_files d') m = map_of (md_files d) m" if "m \<notin> mf_name ` set ?fs" for m
    using fetching(3) that by (simp add: same_outside_def fin(1))
  have there: "\<forall>f \<in> set ?fs. map_of (md_files d') (mf_name f) \<noteq> None" if "res = Inr bytes" for bytes
    using fin(3) [OF fetching(5) that] fetching(7) by (simp add: fin(1) filter_empty_conv)
  have returned: "local_state str_of entry d' = Downloaded"
    if "res = Inr bytes" "recheck \<or> records_sound sha ?fs (load_records str_of d) d" for bytes
  proof -
    note b = fin(3) [OF fetching(5) that(1)]
    have "all_verified sha ?fs (load_records str_of d') d'"
      using right [OF that(2)] b by (auto simp: right_in_place_def all_verified_def)
    then show ?thesis using downloaded_state [OF _ _ refl] b there [OF that(1)] by blast
  qed
  have mismatched: "local_state str_of entry d' = Failed_verification \<and>
      (\<forall>x \<in> set names. x \<in> mf_name ` set ?fs \<and> map_of (md_files d') x = None)"
    if "res = Inl (Mismatched names)" for names
  proof -
    note e = fin(4) [OF fetching(5) that fetching(6)]
    then have mm: "names = map mf_name (filter (\<lambda>f. map_of (md_files d1) (mf_name f) = None) ?fs)" "set names \<subseteq> set (failed_names r)"
      using fetching(7) by auto
    have there: "x \<in> mf_name ` set ?fs \<and> map_of (md_files d') x = None" if "x \<in> set names" for x
      using that unfolding mm(1) fin(1) by auto
    moreover obtain x where "x \<in> set names" using e by (cases names) auto
    ultimately have "local_state str_of entry d' = Failed_verification"
      using mm(2) e by (intro failed_state [of x]) auto
    with there show ?thesis by blast
  qed
  show ?thesis
    using outside fetching(4) right exn right_in_place_sound there returned mismatched unfolding fin(1) by blast
qed

lemma downloaded_files:
  assumes "local_state shown entry d = Downloaded"
    and "records_sound sha (me_files entry) (load_records shown d) d" and "f \<in> set (me_files entry)"
  shows "\<exists>st. map_of (md_files d) (mf_name f) = Some st \<and> sha (disk_file.content st) = mf_sha256 f"
proof -
  let ?there = "\<lambda>f. map_of (md_files d) (mf_name f) \<noteq> None"
  have all: "length (filter ?there (me_files entry)) = length (me_files entry)"
    and known: "list_all (\<lambda>f. known_sha256 (load_records shown d) (map_of (md_files d) (mf_name f)) (mf_name f) =
      Some (mf_sha256 f)) (filter ?there (me_files entry))"
    using assms(1) by (auto simp: local_state_def Let_def split: if_splits)
  from all have "filter ?there (me_files entry) = me_files entry"
    by (metis filter_id_conv length_filter_less linorder_neqE_nat nat_neq_iff)
  from known [unfolded this] assms(3)
  have k: "known_sha256 (load_records shown d) (map_of (md_files d) (mf_name f)) (mf_name f) = Some (mf_sha256 f)"
    by (simp add: list_all_iff)
  then obtain st where "map_of (md_files d) (mf_name f) = Some st"
    by (cases "map_of (md_files d) (mf_name f)") (auto simp: known_sha256_def split: pyval.splits)
  with k assms(2,3) show ?thesis by (auto simp: records_sound_def)
qed

text \<open>
  C29: Whatever the server sends, and wherever a pull ends - with a result, an error, Ctrl-C or an exception of the
  system before any of its effects: files of other names are not touched; each file of the entry is as it was before,
  or gone, or hashes to what the registry says; and records that told the truth of the files in place still do, so
  that a model which then counts as downloaded has all its files with their hashes. Once the files that were there
  have been checked, against such records or by hashing them all, and the records saved, every file in place is right,
  and recorded so unless the pull was struck between moving this file and saving the records. If a pull returns, every file is in place and
  the model counts as downloaded; if it says that files did not match, these are gone and the model counts as failed.
\<close>

theorem pull_leaves_verified_files:
  assumes "distinct (map mf_name (me_files entry))" and "pull sha str_of recheck w entry d = (res, d')"
  shows "(\<forall>n. n \<notin> mf_name ` set (me_files entry) \<longrightarrow> map_of (md_files d') n = map_of (md_files d) n) \<and>
    (\<forall>f \<in> set (me_files entry). map_of (md_files d') (mf_name f) = map_of (md_files d) (mf_name f) \<or>
       (\<forall>st. map_of (md_files d') (mf_name f) = Some st \<longrightarrow> sha (content st) = mf_sha256 f)) \<and>
    (records_sound sha (me_files entry) (load_records str_of d) d \<longrightarrow>
       records_sound sha (me_files entry) (load_records str_of d') d' \<and>
       (local_state str_of entry d' = Downloaded \<longrightarrow>
         (\<forall>f \<in> set (me_files entry). \<exists>st. map_of (md_files d') (mf_name f) = Some st \<and> sha (content st) = mf_sha256 f))) \<and>
    ((recheck \<or> records_sound sha (me_files entry) (load_records str_of d) d) \<and> (\<forall>e. res = Inl e \<longrightarrow> \<not> early e) \<longrightarrow>
       right_in_place sha (me_files entry) (case res of Inl e \<Rightarrow> Some e | Inr _ \<Rightarrow> None) (load_records str_of d') d' \<and>
       (\<forall>bytes. res = Inr bytes \<longrightarrow> local_state str_of entry d' = Downloaded)) \<and>
    (\<forall>bytes. res = Inr bytes \<longrightarrow> (\<forall>f \<in> set (me_files entry). map_of (md_files d') (mf_name f) \<noteq> None)) \<and>
    (\<forall>names. res = Inl (Mismatched names) \<longrightarrow> local_state str_of entry d' = Failed_verification \<and>
      (\<forall>x \<in> set names. x \<in> mf_name ` set (me_files entry) \<and> map_of (md_files d') x = None))"
  using pull_ends [OF assms] downloaded_files [of str_of entry d' sha] by blast

definition one_file :: model_entry where
  "one_file = \<lparr>me_id = ''m'', me_description = ''d'', me_repo = ''o/n'', me_revision = ''r'',
     me_disk_space = 1, me_files = [\<lparr>mf_name = ''a'', mf_size = 2, mf_sha256 = ''xy''\<rparr>]\<rparr>"

definition good_world :: world where
  "good_world = \<lparr>fetching = \<lambda>_ a k. Reply 200 [''x'', ''y''] None, stamping = \<lambda>_. int,
     free_space = 2 ^ 40, lock_held = False, strikes = \<lambda>_. None\<rparr>"

definition empty_dir :: model_dir where
  "empty_dir = \<lparr>md_files = [], md_partials = [], md_state = None\<rparr>"

definition stopped_world :: world where
  "stopped_world = good_world\<lparr>strikes := \<lambda>p. if p = Saving_moved ''a'' then Some ''KeyboardInterrupt'' else None\<rparr>"

lemma one_download:
  "download_file (\<lambda>a k. Reply 200 [''x'', ''y''] None) int \<lparr>mf_name = ''a'', mf_size = 2, mf_sha256 = ''xy''\<rparr> None =
     (Inr (), \<lparr>part = Some \<lparr>content = ''xy'', mtime_ns = 1\<rparr>, asked = [0], slept = []\<rparr>)"
  by (simp add: download_file_def RETRIES_def upt_rec try_download_def check_received_def part_data_def Let_def)

lemmas pull_eval = pull_def fetch_missing_def finish_pull_def struck_def remove_stray_partials_def check_existing_def
  load_records_def left_to_fetch_def DISK_MARGIN_def fetch_one_def put_partial_def save_records_def no_records_def
  forget_def Let_def

text \<open>A pull that returns, and one that is interrupted just before it records what it moved into place.\<close>

theorem pull_leaves_verified_files_witness:
  "\<exists>d1 d2. pull (\<lambda>x. x) (\<lambda>_. []) False good_world one_file empty_dir = (Inr 2, d1) \<and>
     local_state (\<lambda>_. []) one_file d1 = Downloaded \<and>
     pull (\<lambda>x. x) (\<lambda>_. []) False stopped_world one_file empty_dir = (Inl (Struck (Saving_moved ''a'') ''KeyboardInterrupt''), d2) \<and>
     records_sound (\<lambda>x. x) (me_files one_file) (load_records (\<lambda>_. []) d2) d2"
proof -
  let ?p = "pull (\<lambda>x. x) (\<lambda>_. []) False good_world one_file empty_dir"
  let ?q = "pull (\<lambda>x. x) (\<lambda>_. []) False stopped_world one_file empty_dir"
  have "fst ?p = Inr 2"
    by (simp add: pull_eval one_download good_world_def one_file_def empty_dir_def)
  moreover have "fst ?q = Inl (Struck (Saving_moved ''a'') ''KeyboardInterrupt'')"
    by (simp add: pull_eval one_download good_world_def stopped_world_def one_file_def empty_dir_def)
  ultimately obtain d1 d2 where p: "?p = (Inr 2, d1)" and q: "?q = (Inl (Struck (Saving_moved ''a'') ''KeyboardInterrupt''), d2)"
    by (metis prod.collapse)
  have dist: "distinct (map mf_name (me_files one_file))" by (simp add: one_file_def)
  have sound: "records_sound (\<lambda>x. x) (me_files one_file) (load_records (\<lambda>_. []) empty_dir) empty_dir"
    by (simp add: records_sound_def empty_dir_def)
  have "local_state (\<lambda>_. []) one_file d1 = Downloaded"
    using pull_leaves_verified_files [OF dist p] sound by simp
  moreover have "records_sound (\<lambda>x. x) (me_files one_file) (load_records (\<lambda>_. []) d2) d2"
    using pull_leaves_verified_files [OF dist q] sound by blast
  ultimately show ?thesis using p q by simp
qed

end
