(* ===== verification/Download_Client.thy ===== *)
theory Download_Client
  imports Pull_Properties Registry_Sizes
begin

text \<open>
  What \<open>pull.py\<close> puts between the download and the network: \<open>_hf_fetch\<close>, the exceptions that are
  tried again, and hashing a file by pieces. The session and \<open>raise_for_status\<close> are third-party
  code and parameters; so is the hash object of \<open>hashlib\<close>.
\<close>

section \<open>One request\<close>

text \<open>The exceptions of a session, by what \<open>_transient_errors\<close> tells apart.\<close>

datatype http_exn = Transport_error string | Os_error string | Other_error string

definition failing_of :: "http_exn \<Rightarrow> failing" where
  "failing_of e =
     (case e of
        Transport_error s \<Rightarrow> Transient s
      | Os_error s \<Rightarrow> Transient s
      | Other_error s \<Rightarrow> Fatal s)"

text \<open>What comes of a request: no answer, or a status and the pieces of a body that may break off.\<close>

datatype exchange = Unanswered http_exn | Answered nat "string list" "http_exn option"

type_synonym headers = "(string \<times> string) list"

definition request_headers :: "headers \<Rightarrow> nat \<Rightarrow> headers" where
  "request_headers common offset =
     (if offset \<noteq> 0 then AList.update ''Range'' (''bytes='' @ show_nat offset @ ''-'') common else common)"

text \<open>\<open>refuses\<close> is \<open>hf_raise_for_status\<close>: the text of its exception, if it raises one.\<close>

definition hf_fetch ::
    "(nat \<Rightarrow> string option) \<Rightarrow> headers \<Rightarrow> string \<Rightarrow> (nat \<Rightarrow> headers \<Rightarrow> exchange) \<Rightarrow> nat \<Rightarrow> nat \<Rightarrow> reply" where
  "hf_fetch refuses common url web attempt offset =
     (case web attempt (request_headers common offset) of
        Unanswered e \<Rightarrow> No_reply (failing_of e)
      | Answered status chunks broken \<Rightarrow>
          if status = 429 \<or> status \<ge> 500
          then No_reply (Transient (''HTTP '' @ show_nat status @ '' from '' @ url))
          else case refuses status of
            Some text \<Rightarrow> No_reply (Fatal (''cannot download '' @ url @ '': '' @ text))
          | None \<Rightarrow> Reply status chunks (map_option failing_of broken))"

section \<open>Hashing by pieces\<close>

text \<open>A hash object: its start, \<open>update\<close> and \<open>hexdigest\<close>.\<close>

record 'h hash_object =
  fresh_hash :: 'h
  feed_hash :: "'h \<Rightarrow> string \<Rightarrow> 'h"
  hex_of :: "'h \<Rightarrow> string"

definition CHUNK :: nat where
  "CHUNK = 1024 ^ 2"

text \<open>The loop over \<open>read\<close>, which returns nothing at the end of the file.\<close>

function feed_file :: "('h \<Rightarrow> string \<Rightarrow> 'h) \<Rightarrow> nat \<Rightarrow> 'h \<Rightarrow> string \<Rightarrow> 'h" where
  "feed_file feed n h data =
     (if take n data = [] then h else feed_file feed n (feed h (take n data)) (drop n data))"
  by auto
termination by (relation "measure (\<lambda>(_, _, _, data). length data)") auto

declare feed_file.simps [simp del]

definition sha256_file :: "'h hash_object \<Rightarrow> string \<Rightarrow> string" where
  "sha256_file h data = hex_of h (feed_file (feed_hash h) CHUNK (fresh_hash h) data)"

text \<open>What \<open>hashlib\<close> documents: feeding pieces is feeding what they make together.\<close>

definition feeds_pieces :: "'h hash_object \<Rightarrow> bool" where
  "feeds_pieces h \<longleftrightarrow>
     (\<forall>s a b. feed_hash h (feed_hash h s a) b = feed_hash h s (a @ b)) \<and> (\<forall>s. feed_hash h s [] = s)"

lemma feed_file_whole:
  assumes "feeds_pieces h" and "0 < n"
  shows "feed_file (feed_hash h) n s data = feed_hash h s data"
  using assms(2)
proof (induction "feed_hash h" n s data rule: feed_file.induct)
  case (1 n s data)
  show ?case
  proof (cases "take n data = []")
    case True
    with "1.prems" have "data = []" by auto
    with assms(1) show ?thesis by (simp add: feed_file.simps feeds_pieces_def)
  next
    case False
    with 1 have "feed_file (feed_hash h) n s data = feed_hash h (feed_hash h s (take n data)) (drop n data)"
      by (subst feed_file.simps) simp
    with assms(1) show ?thesis by (simp add: feeds_pieces_def)
  qed
qed

lemma hash_of_file: "feeds_pieces h \<Longrightarrow> sha256_file h data = hex_of h (feed_hash h (fresh_hash h) data)"
  by (simp add: sha256_file_def feed_file_whole CHUNK_def)

section \<open>A web server that has the file\<close>

text \<open>The offset that a request asks for, as a server reads it.\<close>

definition asked_offset :: "headers \<Rightarrow> nat" where
  "asked_offset hs =
     (case map_of hs ''Range'' of
        None \<Rightarrow> 0
      | Some r \<Rightarrow> read_nat (takeWhile (\<lambda>c. c \<noteq> CHR ''-'') (drop 6 r)))"

text \<open>
  Its body is a beginning of what was asked for when the status is 206, and of the file for any
  other status that is not an error; what it sends with an error is up to it.
\<close>

definition has_file :: "string \<Rightarrow> (nat \<Rightarrow> headers \<Rightarrow> exchange) \<Rightarrow> bool" where
  "has_file data web \<longleftrightarrow>
     (\<forall>a hs status chunks broken. web a hs = Answered status chunks broken \<and> status < 400 \<longrightarrow>
        prefix (concat chunks) (if status = 206 then drop (asked_offset hs) data else data))"

text \<open>\<open>raise_for_status\<close> raises exactly for client and server errors.\<close>

definition raises_for_errors :: "(nat \<Rightarrow> string option) \<Rightarrow> bool" where
  "raises_for_errors refuses \<longleftrightarrow> (\<forall>status. refuses status \<noteq> None \<longleftrightarrow> 400 \<le> status)"

lemma show_nat_no_dash: "takeWhile (\<lambda>c. c \<noteq> CHR ''-'') (show_nat n @ ''-'') = show_nat n"
proof -
  have "\<forall>c \<in> set (show_nat n). c \<noteq> CHR ''-''"
    using show_nat_digits [of n] by (auto simp: list_all_iff is_ascii_digit_def code_def)
  then show ?thesis by (simp add: takeWhile_append2)
qed

lemma asked_offset_request:
  assumes "map_of common ''Range'' = None"
  shows "asked_offset (request_headers common n) = n"
  using assms by (simp add: asked_offset_def request_headers_def update_conv' read_show_nat show_nat_no_dash)

lemma fetched_honest:
  assumes "has_file data web" and "raises_for_errors refuses" and "map_of common ''Range'' = None"
  shows "honest data (hf_fetch refuses common url web)"
proof -
  have "prefix (concat chunks) (sent_from data k status)"
    if "hf_fetch refuses common url web a k = Reply status chunks broken" for a k status chunks broken
  proof -
    from that obtain b where web: "web a (request_headers common k) = Answered status chunks b"
      and ok: "refuses status = None"
      by (auto simp: hf_fetch_def split: exchange.splits if_splits option.splits)
    have "refuses status \<noteq> None \<longleftrightarrow> 400 \<le> status" using assms(2) unfolding raises_for_errors_def by blast
    with ok have "status < 400" by simp
    with assms(1) web have "prefix (concat chunks) (if status = 206 then drop (asked_offset (request_headers common k)) data else data)"
      unfolding has_file_def by blast
    then show ?thesis unfolding asked_offset_request [OF assms(3)] by (simp add: sent_from_def)
  qed
  then show ?thesis by (auto simp: honest_def)
qed

section \<open>Downloading from it\<close>

text \<open>Whether an attempt is answered with an error that trying again cannot mend.\<close>

definition refused_for_good :: "exchange \<Rightarrow> bool" where
  "refused_for_good x = (case x of Answered status _ _ \<Rightarrow> 400 \<le> status \<and> status < 500 \<and> status \<noteq> 429 | _ \<Rightarrow> False)"

text \<open>Whether it is one that \<open>_download\<close> waits out.\<close>

definition waited_out :: "exchange \<Rightarrow> bool" where
  "waited_out x =
     (case x of
        Answered status _ _ \<Rightarrow> status = 429 \<or> 500 \<le> status
      | Unanswered e \<Rightarrow> \<exists>s. failing_of e = Transient s)"

lemma refused_fetch:
  assumes "refused_for_good (web a (request_headers common k))" and "raises_for_errors refuses"
  shows "\<exists>text. hf_fetch refuses common url web a k = No_reply (Fatal text)"
proof -
  from assms(1) obtain status chunks broken where web: "web a (request_headers common k) = Answered status chunks broken"
    "400 \<le> status" "status < 500" "status \<noteq> 429" by (auto simp: refused_for_good_def split: exchange.splits)
  with assms(2) obtain msg where "refuses status = Some msg" by (auto simp: raises_for_errors_def)
  with web show ?thesis by (simp add: hf_fetch_def)
qed

lemma waited_out_fetch:
  "waited_out (web a (request_headers common k)) \<Longrightarrow> \<exists>text. hf_fetch refuses common url web a k = No_reply (Transient text)"
  by (auto simp: waited_out_def hf_fetch_def split: exchange.splits)

text \<open>What one attempt adds to the requests and the sleep.\<close>

lemma attempt_costs:
  assumes "try_download fetch stamp f a s = (v, s')"
  shows "length (asked s') \<le> Suc (length (asked s)) \<and>
    (slept s' = slept s \<or> a < 3 \<and> slept s' = slept s @ [2 ^ a] \<or> 3 < a)"
  using assms
  by (auto simp: try_download_def failed_attempt_def check_received_def RETRIES_def Let_def
      split: if_splits reply.splits option.splits failing.splits prod.splits)

lemma attempts_cost:
  assumes "try_attempts fetch stamp f as s = (res, s')" and "list_all (\<lambda>a. a \<le> 3) as"
  shows "length (asked s') \<le> length (asked s) + length as \<and>
    sum_list (slept s') \<le> sum_list (slept s) + sum_list (map (\<lambda>a. if a < 3 then 2 ^ a else 0) as)"
  using assms
proof (induction as arbitrary: s)
  case (Cons a as)
  obtain v s1 where one: "try_download fetch stamp f a s = (v, s1)" by (metis prod.exhaust)
  have cost: "length (asked s1) \<le> Suc (length (asked s))"
    "sum_list (slept s1) \<le> sum_list (slept s) + (if a < 3 then 2 ^ a else 0)"
    using attempt_costs [OF one] Cons.prems(2) by auto
  show ?case
  proof (cases v)
    case Try_again
    with Cons.prems one have "try_attempts fetch stamp f as s1 = (res, s')" "list_all (\<lambda>a. a \<le> 3) as" by simp_all
    from Cons.IH [OF this] cost show ?thesis by simp
  qed (use Cons.prems(1) one cost in \<open>auto intro: trans_le_add1\<close>)
qed simp

lemma three_attempts: "[1..<RETRIES + 1] = [1, 2] @ [RETRIES]"
  by (simp add: RETRIES_def upt_rec)

lemma no_reply_attempt:
  assumes "fetch a (length (part_data s)) = No_reply e" and "int (length (part_data s)) < mf_size f"
  shows "try_download fetch stamp f a s = failed_attempt f a e (s\<lparr>asked := asked s @ [length (part_data s)]\<rparr>)"
  using assms by (simp add: try_download_def Let_def)

lemma part_data_kept: "part_data (s\<lparr>asked := x\<rparr>) = part_data s" "part_data (s\<lparr>slept := y\<rparr>) = part_data s"
  by (simp_all add: part_data_def)

lemma busy_attempts:
  assumes "\<And>a. fetch a (length (part_data s)) = No_reply (Transient (msg a))" and "int (length (part_data s)) < mf_size f"
  shows "\<exists>s'. try_attempts fetch stamp f ([1, 2] @ [RETRIES]) s = (Inl (Attempts_failed (mf_name f) (msg 3)), s')
    \<and> slept s' = slept s @ [2, 4]"
proof -
  note attempt = no_reply_attempt [of fetch]
  let ?k = "length (part_data s)"
  define s1 where "s1 = s\<lparr>asked := asked s @ [?k], slept := slept s @ [2]\<rparr>"
  define s2 where "s2 = s1\<lparr>asked := asked s1 @ [?k], slept := slept s1 @ [4]\<rparr>"
  have same: "part_data s1 = part_data s" "part_data s2 = part_data s" by (simp_all add: s1_def s2_def part_data_kept)
  have "try_download fetch stamp f 1 s = (Try_again, s1)"
    using attempt [OF assms(1,2), of stamp 1] by (simp add: failed_attempt_def RETRIES_def s1_def)
  moreover have "try_download fetch stamp f 2 s1 = (Try_again, s2)"
    using attempt [of 2 s1 "Transient (msg 2)" f stamp] assms by (simp add: failed_attempt_def RETRIES_def s2_def same)
  moreover have "try_download fetch stamp f RETRIES s2 =
      (Give_up (Attempts_failed (mf_name f) (msg 3)), s2\<lparr>asked := asked s2 @ [?k]\<rparr>)"
    using attempt [of RETRIES s2 "Transient (msg RETRIES)" f stamp] assms
    by (simp add: failed_attempt_def RETRIES_def same)
  ultimately show ?thesis by (simp add: s1_def s2_def)
qed

section \<open>The property\<close>

text \<open>
  C30: A download over the network, from what is already there, which must be a beginning of the file (or nothing),
  with a server that has the file: what it sends with a status below 400 is a beginning of what was asked for, and
  what it sends with an error is up to it. What is kept is then always a beginning of the file, and a download that
  returns has the file, with the hash of the registry, also when it is fed to SHA-256 by pieces. One attempt that
  brings all it asks for is enough, if no other raises what is not tried again. While ranges are honoured nothing
  that was received is thrown away or fetched again: the file is what was there followed by all that ever came, and
  each request asks from where that ended. There are at most three requests and six seconds of sleep. An error of
  the client (4xx but 429) in answer to any of the requests is the last answer, and the file stays as it was; when the
  server is overloaded or out of reach three times, the download ends with an error after having slept for two and
  four seconds.
\<close>

theorem download_over_the_network:
  assumes "has_file data web" and "raises_for_errors refuses" and "map_of common ''Range'' = None"
    and "mf_size f = int (length data)" and "prefix (part_data start) data"
    and "start = \<lparr>part = p, asked = [], slept = []\<rparr>"
    and "feeds_pieces h" and "mf_sha256 f = hex_of h (feed_hash h (fresh_hash h) data)"
    and "download_file (hf_fetch refuses common url web) stamp f p = (res, s)"
  shows "prefix (part_data s) data \<and>
    (res = Inr () \<longrightarrow> part_data s = data \<and> sha256_file h (part_data s) = mf_sha256 f) \<and>
    ((\<exists>a \<in> {1, 2, 3}. delivers data (hf_fetch refuses common url web) a) \<and>
       never_fatal (hf_fetch refuses common url web) \<longrightarrow> res = Inr ()) \<and>
    (resumes (hf_fetch refuses common url web) \<longrightarrow>
       part_data s = part_data start @ all_brought (hf_fetch refuses common url web) [1, 2, 3] (asked s) \<and>
       (\<forall>i < length (asked s). asked s ! i =
          length (part_data start) + length (all_brought (hf_fetch refuses common url web) (take i [1, 2, 3]) (take i (asked s))))) \<and>
    (\<forall>i < length (asked s). refused_for_good (web (Suc i) (request_headers common (asked s ! i))) \<longrightarrow>
       Suc i = length (asked s) \<and> (\<exists>text. res = Inl (Uncaught text)) \<and> part_data s = take (asked s ! i) data) \<and>
    length (asked s) \<le> 3 \<and> sum_list (slept s) \<le> 6 \<and>
    (part_data start \<noteq> data \<and> refused_for_good (web 1 (request_headers common (length (part_data start)))) \<longrightarrow>
      (\<exists>text. res = Inl (Uncaught text)) \<and> s = start\<lparr>asked := [length (part_data start)]\<rparr>) \<and>
    (part_data start \<noteq> data \<and> (\<forall>a. waited_out (web a (request_headers common (length (part_data start))))) \<longrightarrow>
      (\<exists>text. res = Inl (Attempts_failed (mf_name f) text)) \<and> slept s = [2, 4])"
proof -
  let ?fetch = "hf_fetch refuses common url web" and ?k = "length (part_data start)"
  from assms(9) have run: "try_attempts ?fetch stamp f ([1, 2] @ [RETRIES]) start = (res, s)"
    by (simp only: download_file_def three_attempts assms(6))
  note honest = honest_attempts [OF fetched_honest [OF assms(1-3)] assms(4,5) run]
  have bounds: "length (asked s) \<le> 3" "sum_list (slept s) \<le> 6"
    using attempts_cost [OF run] by (simp_all add: RETRIES_def assms(6))
  have short: "int ?k < mf_size f" if "part_data start \<noteq> data"
    using assms(4,5) that by (auto simp: prefix_def)
  note attempt = no_reply_attempt [of ?fetch, unfolded failed_attempt_def Let_def]
  have refused: "(\<exists>text. res = Inl (Uncaught text)) \<and> s = start\<lparr>asked := [?k]\<rparr>"
    if left: "part_data start \<noteq> data" and no: "refused_for_good (web 1 (request_headers common ?k))"
  proof -
    from refused_fetch [of web 1 common ?k, OF no assms(2)] obtain msg where "?fetch 1 ?k = No_reply (Fatal msg)" by blast
    from attempt [OF this short [OF left]] run show ?thesis by (auto simp: assms(6))
  qed
  have busy: "(\<exists>text. res = Inl (Attempts_failed (mf_name f) text)) \<and> slept s = [2, 4]"
    if left: "part_data start \<noteq> data" and always: "\<forall>a. waited_out (web a (request_headers common ?k))"
  proof -
    have "\<exists>text. ?fetch a ?k = No_reply (Transient text)" for a using waited_out_fetch always by blast
    then obtain msg where "\<And>a. ?fetch a ?k = No_reply (Transient (msg a))" by metis
    then have ended: "\<exists>s'. try_attempts ?fetch stamp f ([1, 2] @ [RETRIES]) start = (Inl (Attempts_failed (mf_name f) (msg 3)), s')
      \<and> slept s' = slept start @ [2, 4]" by (rule busy_attempts [OF _ short [OF left]])
    with run show ?thesis by (auto simp: assms(6))
  qed
  have acc: "accounts ?fetch [1, 2, 3] (asked s) start s res"
    using honest by (auto simp: RETRIES_def assms(6) accounts_def)
  have last: "Suc i = length (asked s) \<and> (\<exists>text. res = Inl (Uncaught text)) \<and> part_data s = take (asked s ! i) data"
    if i: "i < length (asked s)" and no: "refused_for_good (web (Suc i) (request_headers common (asked s ! i)))" for i
  proof -
    from refused_fetch [of web "Suc i" common "asked s ! i", OF no assms(2)]
    obtain msg where msg: "?fetch (Suc i) (asked s ! i) = No_reply (Fatal msg)" by blast
    have "i < 3" using i bounds(1) by simp
    then have "[1, 2, 3] ! i = Suc i" by (auto simp: less_Suc_eq numeral_3_eq_3)
    with acc i msg have "Suc i = length (asked s) \<and> res = Inl (Uncaught msg) \<and> length (part_data s) = asked s ! i"
      unfolding accounts_def by metis
    moreover have "part_data s = take (length (part_data s)) data" using honest by (auto simp: prefix_def)
    ultimately show ?thesis by metis
  qed
  have ends: "(\<exists>a \<in> {1, 2, 3}. delivers data ?fetch a) \<and> never_fatal ?fetch \<longrightarrow> res = Inr ()"
    using honest by (auto simp: RETRIES_def)
  have kept: "prefix (part_data s) data" "res = Inr () \<longrightarrow> part_data s = data" using honest by blast+
  then have hashed: "res = Inr () \<longrightarrow> part_data s = data \<and> sha256_file h (part_data s) = mf_sha256 f"
    using assms(8) by (simp add: hash_of_file [OF assms(7)])
  have resumed: "resumes ?fetch \<longrightarrow> part_data s = part_data start @ all_brought ?fetch [1, 2, 3] (asked s) \<and>
      (\<forall>i < length (asked s). asked s ! i =
        length (part_data start) + length (all_brought ?fetch (take i [1, 2, 3]) (take i (asked s))))"
    using acc unfolding accounts_def by blast
  show ?thesis using kept(1) hashed ends resumed last bounds refused busy by (intro conjI; blast)
qed

text \<open>A server that is overloaded at first and then has the file.\<close>

definition busy_once :: "nat \<Rightarrow> headers \<Rightarrow> exchange" where
  "busy_once a hs =
     (if a = 1 then Answered 503 [''try later''] None
      else if map_of hs ''Range'' = None then Answered 200 [''x'', ''y''] None
      else Answered 206 [drop (asked_offset hs) ''xy''] None)"

definition plain_refusal :: "nat \<Rightarrow> string option" where
  "plain_refusal status = (if 400 \<le> status then Some ''error'' else None)"

definition joined :: "string hash_object" where
  "joined = \<lparr>fresh_hash = [], feed_hash = (@), hex_of = rev\<rparr>"

definition two_letters :: model_file where
  "two_letters = \<lparr>mf_name = ''a'', mf_size = 2, mf_sha256 = ''yx''\<rparr>"

lemma busy_once_downloads:
  "download_file (hf_fetch plain_refusal [] ''u'' busy_once) int two_letters None =
     (Inr (), \<lparr>part = Some \<lparr>content = ''xy'', mtime_ns = 2\<rparr>, asked = [0, 0], slept = [2]\<rparr>)"
  by (simp add: download_file_def upt_rec try_download_def part_data_def two_letters_def hf_fetch_def
      busy_once_def request_headers_def plain_refusal_def failed_attempt_def check_received_def RETRIES_def Let_def)

lemma download_over_the_network_witness:
  "\<exists>s. download_file (hf_fetch plain_refusal [] ''u'' busy_once) int two_letters None = (Inr (), s) \<and>
     part_data s = ''xy'' \<and> sha256_file joined (part_data s) = ''yx'' \<and> length (asked s) \<le> 3"
proof -
  let ?start = "\<lparr>part = None, asked = [], slept = []\<rparr>"
  have kept: "has_file ''xy'' busy_once"
    by (auto simp: has_file_def busy_once_def asked_offset_def split: if_splits)
  have refusal: "raises_for_errors plain_refusal" by (simp add: raises_for_errors_def plain_refusal_def)
  have hash: "feeds_pieces joined" by (simp add: feeds_pieces_def joined_def)
  have sizes: "mf_size two_letters = int (length ''xy'')" "prefix (part_data ?start) ''xy''"
    "mf_sha256 two_letters = hex_of joined (feed_hash joined (fresh_hash joined) ''xy'')"
    by (simp_all add: two_letters_def part_data_def joined_def)
  let ?s = "\<lparr>part = Some \<lparr>content = ''xy'', mtime_ns = 2\<rparr>, asked = [0, 0], slept = [2]\<rparr>"
  have plain: "map_of ([] :: headers) ''Range'' = None" by simp
  note d = download_over_the_network [OF kept refusal plain sizes(1,2) refl hash sizes(3) busy_once_downloads]
  have "part_data ?s = ''xy''" "sha256_file joined (part_data ?s) = mf_sha256 two_letters"
    using mp [OF conjunct1 [OF conjunct2 [OF d]] refl] by blast+
  moreover have "length (asked ?s) \<le> 3" by simp
  moreover have "mf_sha256 two_letters = ''yx''" by (simp add: two_letters_def)
  ultimately show ?thesis using busy_once_downloads by (metis (no_types))
qed

end
