(* ===== verification/Transfer_Rate.thy ===== *)
theory Transfer_Rate
  imports Registry
begin

text \<open>
  The two helpers of a download in \<open>pull.py\<close>: the progress line and the limit on its rate. The clock is
  monotonic, so differences of its readings are not negative.
\<close>

section \<open>Progress\<close>

record progress =
  pg_name :: string
  pg_total :: int
  fetched :: int
  on_terminal :: bool
  begun_at :: rat
  bytes_before :: int
  shown_at :: rat

definition new_progress :: "string \<Rightarrow> int \<Rightarrow> int \<Rightarrow> bool \<Rightarrow> rat \<Rightarrow> progress" where
  "new_progress name expected have tty t =
     \<lparr>pg_name = name, pg_total = expected, fetched = have, on_terminal = tty, begun_at = t, bytes_before = have,
      shown_at = (if tty then 0 else t)\<rparr>"

definition interval :: "bool \<Rightarrow> rat" where
  "interval tty = (if tty then 1 / 2 else 30)"

fun below :: "pyfloat \<Rightarrow> rat \<Rightarrow> bool" where
  "below (Fin q) x = (q < x)"
| "below NegInf x = True"
| "below _ x = False"

text \<open>\<open>a / max(d, 1e-6)\<close>, and \<open>f"{x:.0f}"\<close>\<close>

definition per_second :: "int \<Rightarrow> rat \<Rightarrow> py_exn + int" where
  "per_second n seconds =
     (case (round_double seconds, round_double (1 / 10 ^ 6)) of
        (Fin d, Fin least) \<Rightarrow>
          and_then (case round_double (of_int n) of PosInf \<Rightarrow> Inl OverflowError | f \<Rightarrow> Inr f) (\<lambda>f.
            (case f of Fin x \<Rightarrow> int_of_float (round_double (x / max d least)) | _ \<Rightarrow> Inl ValueError))
      | _ \<Rightarrow> Inr 0)"

definition percent_text :: "pyfloat \<Rightarrow> string" where
  "percent_text f =
     (case f of Fin q \<Rightarrow> show_int (round_half_even q) | NaN \<Rightarrow> ''nan'' | PosInf \<Rightarrow> ''inf'' | NegInf \<Rightarrow> ''-inf'')"

definition progress_line :: "progress \<Rightarrow> rat \<Rightarrow> py_exn + string" where
  "progress_line p t =
     and_then (per_second (fetched p - bytes_before p) (t - begun_at p)) (\<lambda>rate.
     and_then (if pg_total p \<noteq> 0 then int_div (100 * fetched p) (nat (pg_total p)) else Inr (Fin 100)) (\<lambda>pct.
     and_then (format_size (fetched p)) (\<lambda>got.
     and_then (format_size (pg_total p)) (\<lambda>all.
     and_then (format_size rate) (\<lambda>speed.
     Inr (''  '' @ pg_name p @ '': '' @ got @ '' / '' @ all @ '' ('' @ percent_text pct @ ''%, '' @ speed @ ''/s)''))))))"

text \<open>\<open>update\<close>: what is written, if anything\<close>

definition update_progress :: "int \<Rightarrow> rat \<Rightarrow> progress \<Rightarrow> py_exn + string option \<times> progress" where
  "update_progress n t p0 =
     (let p = p0\<lparr>fetched := fetched p0 + n\<rparr>
      in if below (round_double (t - shown_at p)) (interval (on_terminal p)) then Inr (None, p)
         else
           let p' = p\<lparr>shown_at := t\<rparr>
           in and_then (progress_line p' t) (\<lambda>l.
                Inr (Some (if on_terminal p then CHR 0x0D # l @ ''   '' else l @ [CHR 0x0A]), p')))"

text \<open>The updates of a download, with the moments of the lines that are written\<close>

fun update_all :: "(int \<times> rat) list \<Rightarrow> progress \<Rightarrow> py_exn + rat list \<times> progress" where
  "update_all [] p = Inr ([], p)"
| "update_all ((n, t) # us) p =
     and_then (update_progress n t p) (\<lambda>(line, p').
     and_then (update_all us p') (\<lambda>(ts, p'').
     Inr (case line of None \<Rightarrow> ts | Some _ \<Rightarrow> t # ts, p'')))"

fun spaced :: "rat \<Rightarrow> rat \<Rightarrow> rat list \<Rightarrow> bool" where
  "spaced gap t [] = True"
| "spaced gap t (u # us) = (\<not> below (round_double (u - t)) gap \<and> spaced gap u us)"

text \<open>
  All bytes are counted, and the lines are an interval apart, the first one from the start unless there is
  a terminal.
\<close>

lemma update_progress_result:
  assumes "update_progress n t p = Inr (line, p')"
  shows "fetched p' = fetched p + n \<and> on_terminal p' = on_terminal p \<and>
    (line = None \<longrightarrow> shown_at p' = shown_at p) \<and>
    (line \<noteq> None \<longrightarrow> shown_at p' = t \<and> \<not> below (round_double (t - shown_at p)) (interval (on_terminal p)))"
  using assms by (auto simp: update_progress_def Let_def and_then_eq_Inr split: if_splits)

lemma progress_is_spaced:
  assumes "update_all us p = Inr (ts, p')"
  shows "spaced (interval (on_terminal p)) (shown_at p) ts \<and> fetched p' = fetched p + sum_list (map fst us)"
  using assms
proof (induction us arbitrary: p ts)
  case (Cons u us)
  obtain n t where u: "u = (n, t)" by (cases u)
  with Cons.prems obtain line q ts' where one: "update_progress n t p = Inr (line, q)"
    and rest: "update_all us q = Inr (ts', p')" and ts: "ts = (case line of None \<Rightarrow> ts' | Some _ \<Rightarrow> t # ts')"
    by (auto simp: and_then_eq_Inr)
  from Cons.IH [OF rest] update_progress_result [OF one] ts u show ?case
    by (cases line) auto
qed simp

section \<open>The rate\<close>

record limiter =
  rate_limit :: "int option"
  limit_from :: rat
  sent :: int

text \<open>\<open>wait\<close>: the seconds slept, if any, after \<open>n\<close> more bytes at the moment \<open>t\<close>\<close>

definition wait_rate :: "int \<Rightarrow> rat \<Rightarrow> limiter \<Rightarrow> py_exn + pyfloat option \<times> limiter" where
  "wait_rate n t l =
     (case rate_limit l of
        None \<Rightarrow> Inr (None, l)
      | Some r \<Rightarrow>
          if r = 0 then Inr (None, l)
          else
            let l' = l\<lparr>sent := sent l + n\<rparr>
            in and_then (int_div (sent l') (nat r)) (\<lambda>due.
              (case (due, round_double (t - limit_from l)) of
                 (Fin a, Fin b) \<Rightarrow> Inr (if a > b then Some (round_double (a - b)) else None, l')
               | _ \<Rightarrow> Inr (None, l'))))"

text \<open>
  Where the clock's values are exact, no more has been sent when the sleep is over than the rate allows.
\<close>

lemma limiter_holds_the_rate:
  assumes "wait_rate n t l = Inr (slept, l')" and "rate_limit l = Some r" and "0 < r"
    and due: "due = of_int (sent l + n) / of_int r"
    and exact: "round_double due = Fin due" "round_double (t - limit_from l) = Fin (t - limit_from l)"
      "round_double (due - (t - limit_from l)) = Fin (due - (t - limit_from l))"
    and sleeps: "\<And>s. slept = Some (Fin s) \<Longrightarrow> t + s \<le> woken" "slept = None \<Longrightarrow> woken = t"
  shows "of_int (sent l') \<le> of_int r * (woken - limit_from l)"
proof -
  have "int_div (sent l + n) (nat r) = Inr (Fin due)"
    using exact(1) assms(3) by (simp add: int_div_def of_nat_nat due)
  then have slept: "slept = (if due > t - limit_from l then Some (Fin (due - (t - limit_from l))) else None)"
    and l': "sent l' = sent l + n"
    using assms(1-3) exact(2,3) by (auto simp: wait_rate_def Let_def)
  have "due \<le> woken - limit_from l"
  proof (cases "due > t - limit_from l")
    case True
    then have "t + (due - (t - limit_from l)) \<le> woken" by (intro sleeps(1)) (simp add: slept)
    then show ?thesis by simp
  next
    case False
    then show ?thesis using slept sleeps(2) by simp
  qed
  then show ?thesis using assms(3) by (simp add: l' due pos_divide_le_eq mult.commute)
qed

end
