(* ===== verification/Process_Properties.thy ===== *)
theory Process_Properties
  imports Processes "HOL-Library.Sublist"
begin

text \<open>
  Starting and stopping a service: the waits end, signals only go to the process they are meant for,
  and what is left behind tells the truth about it.
\<close>

section \<open>The waits end\<close>

text \<open>A clock that goes on: every moment is at least \<open>step\<close> seconds after the one before.\<close>

definition ticks :: "rat \<Rightarrow> moments \<Rightarrow> bool" where
  "ticks step w \<longleftrightarrow> 0 < step \<and> (\<forall>n. now (w n) + step \<le> now (w (Suc n)))"

lemma ticks_forever:
  assumes "ticks step w"
  shows "\<exists>k. t < now (w (n + k))"
proof -
  have grow: "now (w n) + of_nat k * step \<le> now (w (n + k))" for k
  proof (induction k)
    case (Suc k)
    have "now (w (n + k)) + step \<le> now (w (Suc (n + k)))" using assms by (simp add: ticks_def)
    with Suc show ?case by (simp add: algebra_simps)
  qed simp
  obtain k where "(t - now (w n)) / step < of_nat k" using reals_Archimedean2 by blast
  then have "t - now (w n) < of_nat k * step" using assms by (simp add: ticks_def divide_less_eq)
  with grow [of k] have "t < now (w (n + k))" by linarith
  then show ?thesis ..
qed

lemma wait_exit_ends:
  assumes "ticks step w"
  shows "\<exists>r. wait_exit svc w child p deadline n = Some r"
proof -
  obtain k where "deadline < now (w (n + k))" using ticks_forever [OF assms] by blast
  then show ?thesis
  proof (induction k arbitrary: n)
    case 0
    then show ?case by (simp add: wait_exit.simps [of svc w child p deadline n])
  next
    case (Suc k)
    then show ?case
      by (subst wait_exit.simps) (auto split: sum.split)
  qed
qed

lemma wait_ready_ends:
  assumes "ticks step w"
  shows "\<exists>r. wait_ready svc w r0 deadline n = Some r"
proof -
  obtain k where "deadline < now (w (n + k))" using ticks_forever [OF assms] by blast
  then show ?thesis
  proof (induction k arbitrary: n)
    case 0
    then show ?case by (simp add: wait_ready.simps [of svc w r0 deadline n] Let_def split: option.split)
  next
    case (Suc k)
    then show ?case by (subst wait_ready.simps) (auto simp: Let_def split: option.split)
  qed
qed

section \<open>What the waits have seen\<close>

definition exit_seen :: "service \<Rightarrow> moments \<Rightarrow> bool \<Rightarrow> int \<Rightarrow> rat \<Rightarrow> nat \<Rightarrow> (py_exn + bool) \<times> nat \<Rightarrow> bool" where
  "exit_seen svc w child p deadline n r \<longleftrightarrow>
     (case r of (res, m) \<Rightarrow>
        n \<le> m \<and> (res = Inr True \<longrightarrow> (\<exists>k. gone svc child p (w k) = Inr True)) \<and>
        (res = Inr False \<longrightarrow> deadline \<le> now (w m) \<and>
          (\<forall>k. n \<le> k \<and> k < m \<longrightarrow> gone svc child p (w k) = Inr False)))"

lemma wait_exit_seen:
  assumes "wait_exit svc w child p deadline n = Some r"
  shows "exit_seen svc w child p deadline n r"
proof (rule wait_exit.raw_induct [of exit_seen, OF _ assms])
  fix rec svc w child p deadline n r
  assume ih: "\<And>svc w child p deadline n r. rec svc w child p deadline n = Some r \<Longrightarrow>
      exit_seen svc w child p deadline n r"
    and body: "(if now (w n) < deadline
      then (case gone svc child p (w n) of
              Inl e \<Rightarrow> Some (Inl e, Suc n)
            | Inr left \<Rightarrow> if left then Some (Inr True, Suc n) else rec svc w child p deadline (Suc n))
      else Some (Inr False, n)) = Some r"
  show "exit_seen svc w child p deadline n r"
  proof (cases "now (w n) < deadline \<and> gone svc child p (w n) = Inr False")
    case True
    with body have "rec svc w child p deadline (Suc n) = Some r" by simp
    from ih [OF this] True show ?thesis
      by (auto simp: exit_seen_def Suc_le_eq; metis le_neq_implies_less)
  next
    case False
    with body show ?thesis by (auto simp: exit_seen_def split: if_splits sum.splits)
  qed
qed

definition ready_seen :: "service \<Rightarrow> moments \<Rightarrow> run_record \<Rightarrow> rat \<Rightarrow> nat \<Rightarrow> (svc_failure + status) \<times> nat \<Rightarrow> bool" where
  "ready_seen svc w rec deadline n r \<longleftrightarrow>
     (case r of (res, m) \<Rightarrow>
        (\<forall>st. res = Inr st \<longrightarrow> (\<exists>k. polled (w k) (pid rec) = None \<and>
           read_record (json_of (w k) (ready_file svc)) (pid rec) \<noteq> None \<and>
           healthy svc (answers (w k) (port rec) (health_path svc)) \<and> st_state st = RUNNING \<and> st_record st = Some rec)) \<and>
        (\<forall>x. res = Inl (Exited_early x) \<longrightarrow> (\<exists>k. polled (w k) (pid rec) = Some x)))"

lemma wait_ready_seen:
  assumes "wait_ready svc w rec deadline n = Some r"
  shows "ready_seen svc w rec deadline n r"
proof (rule wait_ready.raw_induct [of ready_seen, OF _ assms])
  fix again svc w rec deadline n r
  assume ih: "\<And>svc w rec deadline n r. again svc w rec deadline n = Some r \<Longrightarrow> ready_seen svc w rec deadline n r"
    and body: "(case polled (w n) (pid rec) of
        Some ended \<Rightarrow> Some (Inl (Exited_early ended), Suc n)
      | None \<Rightarrow>
          let ready = read_record (json_of (w n) (ready_file svc)) (pid rec)
          in if ready \<noteq> None \<and> healthy svc (answers (w n) (port rec) (health_path svc))
             then Some (Inr (full_status svc (w n) RUNNING rec ready), Suc n)
             else if now (w n) > deadline then Some (Inl Not_ready, Suc n)
             else if interrupted (w n) then Some (Inl Interrupted, Suc n)
             else again svc w rec deadline (Suc n)) = Some r"
  then show "ready_seen svc w rec deadline n r"
    by (auto simp: ready_seen_def full_status_def Let_def split: option.splits if_splits dest!: ih)
qed

section \<open>Signals\<close>

lemma send_effects: "send sig w p n = Inr effs \<Longrightarrow> effs = [] \<or> effs = [Signal sig p n]"
  by (auto simp: send_def split: if_splits)

text \<open>
  A signal sent by \<open>terminate\<close> at moment \<open>k\<close>: for an own child, it was seen not to have been reaped;
  SIGKILL only after the timeout, and only if every look since SIGTERM found the process.
\<close>

definition signal_ok :: "service \<Rightarrow> moments \<Rightarrow> bool \<Rightarrow> int \<Rightarrow> rat \<Rightarrow> nat \<Rightarrow> effect \<Rightarrow> bool" where
  "signal_ok svc w child p timeout n x \<longleftrightarrow>
     (\<exists>sig k. x = Signal sig p k \<and> n < k \<and> (child \<longrightarrow> polled (w n) p = None) \<and>
        (sig = SIGKILL \<longrightarrow> now (w (n + 2)) + timeout \<le> now (w k) \<and>
           (\<forall>j. n + 3 \<le> j \<and> j < k \<longrightarrow> gone svc child p (w j) = Inr False)))"

lemma terminate_seen:
  assumes "terminate svc w child p timeout n = Some (res, effs, m)"
  shows "list_all (signal_ok svc w child p timeout n) effs \<and> length effs \<le> 2 \<and>
    (\<forall>b. res = Inr b \<longrightarrow> (\<exists>k. gone svc child p (w k) = Inr True))"
proof (cases "child \<and> polled (w n) p \<noteq> None")
  case True
  with assms have "res = Inr False" "effs = []" "gone svc child p (w n) = Inr True"
    by (auto simp: terminate_def gone_def)
  then show ?thesis by auto
next
  case False
  then have polled: "child \<longrightarrow> polled (w n) p = None" by simp
  let ?dl = "now (w (n + 2)) + timeout"
  show ?thesis
  proof (cases "send SIGTERM w p (Suc n)")
    case (Inl e)
    with assms polled have "effs = []" "res = Inl e" by (auto simp: terminate_def)
    then show ?thesis by simp
  next
    case (Inr sent)
    then have sent: "list_all (signal_ok svc w child p timeout n) sent" "length sent \<le> 1"
      using send_effects [OF Inr] polled by (auto simp: signal_ok_def)
    obtain r m1 where e1: "wait_exit svc w child p ?dl (n + 3) = Some (r, m1)"
      using assms polled Inr by (cases "wait_exit svc w child p ?dl (n + 3)") (auto simp: terminate_def)
    note s1 = wait_exit_seen [OF e1, unfolded exit_seen_def prod.case]
    show ?thesis
    proof (cases "r = Inr False")
      case False
      then consider x where "r = Inl x" | "r = Inr True" by (cases r) auto
      then show ?thesis using assms polled Inr e1 sent s1 by cases (auto simp: terminate_def)
    next
      case True
      show ?thesis
      proof (cases "send SIGKILL w p m1")
        case (Inl e)
        with assms polled Inr e1 True sent \<open>send SIGTERM w p (Suc n) = Inr sent\<close>
        have "effs = sent" "res = Inl e" by (auto simp: terminate_def)
        with sent show ?thesis by simp
      next
        case killed: (Inr killed)
        have k: "list_all (signal_ok svc w child p timeout n) killed" "length killed \<le> 1"
          using send_effects [OF killed] polled s1 True by (auto simp: signal_ok_def)
        obtain r2 m2 where e2: "wait_exit svc w child p (now (w (Suc m1)) + 5) (m1 + 2) = Some (r2, m2)"
          using assms polled Inr e1 True killed
          by (cases "wait_exit svc w child p (now (w (Suc m1)) + 5) (m1 + 2)") (auto simp: terminate_def)
        note s2 = wait_exit_seen [OF e2, unfolded exit_seen_def prod.case]
        have effs: "effs = sent @ killed" "\<forall>b. res = Inr b \<longrightarrow> r2 = Inr True"
          using assms polled Inr e1 True killed e2 by (auto simp: terminate_def split: sum.splits bool.splits)
        with sent k s2 show ?thesis by auto
      qed
    qed
  qed
qed

lemma terminate_ends:
  assumes "ticks step w"
  shows "\<exists>r. terminate svc w child p timeout n = Some r"
proof -
  obtain r1 m1 where "wait_exit svc w child p (now (w (n + 2)) + timeout) (n + 3) = Some (r1, m1)"
    using wait_exit_ends [OF assms] by (metis prod.exhaust)
  moreover obtain r2 m2 where "wait_exit svc w child p (now (w (Suc m1)) + 5) (m1 + 2) = Some (r2, m2)"
    using wait_exit_ends [OF assms] by (metis prod.exhaust)
  ultimately show ?thesis by (auto simp: terminate_def split: sum.splits bool.splits)
qed

lemma gone_foreign: "gone svc False p v = Inr b \<longleftrightarrow> runs_module (entry_module svc) v p = Inr (\<not> b)"
  by (auto simp: gone_def and_then_eq_Inr)

section \<open>Stopping and starting\<close>

lemma stop_quiet:
  assumes "\<not> (\<exists>r. load_record (json_of (w 0) (state_file svc)) = Inr (Some r) \<and>
    runs_module (entry_module svc) (w 0) (pid r) = Inr True)"
  shows "(\<exists>e. stop svc w timeout = Some (Inl e, [])) \<or>
    (\<exists>x. stop svc w timeout = Some (Inr (x, False), [Clear_files]) \<and>
      (\<forall>r. x = Some r \<longrightarrow> runs_module (entry_module svc) (w 0) (pid r) = Inr False))"
  using assms by (auto simp: stop_def split: sum.split option.split bool.split)

lemma terminate_foreign:
  assumes "terminate svc w False p timeout 0 = Some (res, effs, m)"
  shows "Clear_files \<notin> set effs \<and> length effs \<le> 2 \<and>
    (\<forall>sig q k. Signal sig q k \<in> set effs \<longrightarrow> q = p \<and>
      (sig = SIGKILL \<longrightarrow> now (w 2) + timeout \<le> now (w k) \<and>
        (\<forall>j. 3 \<le> j \<and> j < k \<longrightarrow> runs_module (entry_module svc) (w j) p = Inr True))) \<and>
    (\<forall>b. res = Inr b \<longrightarrow> (\<exists>k. runs_module (entry_module svc) (w k) p = Inr False))"
proof -
  note seen = terminate_seen [OF assms]
  then have "signal_ok svc w False p timeout 0 x" if "x \<in> set effs" for x
    using that by (simp add: list_all_iff)
  then have "Clear_files \<notin> set effs"
    and "Signal sig q k \<in> set effs \<Longrightarrow> q = p \<and> (sig = SIGKILL \<longrightarrow> now (w 2) + timeout \<le> now (w k) \<and>
        (\<forall>j. 3 \<le> j \<and> j < k \<longrightarrow> runs_module (entry_module svc) (w j) p = Inr True))" for sig q k
    unfolding signal_ok_def by (fastforce simp: gone_foreign numeral_2_eq_2)+
  moreover have "\<forall>b. res = Inr b \<longrightarrow> (\<exists>k. runs_module (entry_module svc) (w k) p = Inr False)"
    using seen by (auto simp: gone_foreign)
  ultimately show ?thesis using seen by blast
qed

text \<open>
  C31: \<open>stop\<close> ends, and whatever other processes do meanwhile it signals only the recorded pid, only
  after this very process was seen to run the service, at most once with each signal, and with
  SIGKILL only when the timeout is over and every look since found the service still running. If it
  returns, the records are cleared and the process was seen gone; if it fails, they stay, so that it
  can be tried again.
\<close>

theorem stop_ends_only_its_service:
  assumes "ticks step w"
  shows "\<exists>res effs. stop svc w timeout = Some (res, effs) \<and> length effs \<le> 3 \<and>
    (\<forall>sig p k. Signal sig p k \<in> set effs \<longrightarrow>
      (\<exists>r. load_record (json_of (w 0) (state_file svc)) = Inr (Some r) \<and> p = pid r) \<and>
      runs_module (entry_module svc) (w 0) p = Inr True \<and>
      (sig = SIGKILL \<longrightarrow> now (w 2) + timeout \<le> now (w k) \<and>
        (\<forall>j. 3 \<le> j \<and> j < k \<longrightarrow> runs_module (entry_module svc) (w j) p = Inr True))) \<and>
    (case res of
       Inl e \<Rightarrow> Clear_files \<notin> set effs
     | Inr (x, running) \<Rightarrow> Clear_files \<in> set effs \<and>
         (\<forall>r. x = Some r \<longrightarrow> (\<exists>k. runs_module (entry_module svc) (w k) (pid r) = Inr False)))"
proof -
  let ?m = "entry_module svc" and ?rec = "load_record (json_of (w 0) (state_file svc))"
  show ?thesis
  proof (cases "\<exists>r. ?rec = Inr (Some r) \<and> runs_module ?m (w 0) (pid r) = Inr True")
    case True
    then obtain r where some: "?rec = Inr (Some r)" and yes: "runs_module ?m (w 0) (pid r) = Inr True" by blast
    obtain res effs m where t: "terminate svc w False (pid r) timeout 0 = Some (res, effs, m)"
      using terminate_ends [OF assms] by (metis prod.exhaust)
    note seen = terminate_foreign [OF t]
    show ?thesis
    proof (cases res)
      case (Inl e)
      with some yes t have "stop svc w timeout = Some (Inl e, effs)" by (simp add: stop_def)
      moreover note seen some yes
      ultimately show ?thesis by (intro exI [of _ "Inl e"] exI [of _ effs]) (simp, blast)
    next
      case (Inr b)
      with some yes t have "stop svc w timeout = Some (Inr (Some r, True), effs @ [Clear_files])"
        by (simp add: stop_def)
      moreover note seen some yes Inr
      ultimately show ?thesis
        by (intro exI [of _ "Inr (Some r, True)"] exI [of _ "effs @ [Clear_files]"]) (simp, blast)
    qed
  next
    case False
    from stop_quiet [where w = w, OF this, of timeout]
    consider (failed) e where "stop svc w timeout = Some (Inl e, [])"
      | (clear) x where "stop svc w timeout = Some (Inr (x, False), [Clear_files])"
        "\<forall>r. x = Some r \<longrightarrow> runs_module ?m (w 0) (pid r) = Inr False" by blast
    then show ?thesis
    proof cases
      case failed
      then show ?thesis by (intro exI [of _ "Inl e"] exI [of _ "[]"]) simp
    next
      case clear
      then show ?thesis by (intro exI [of _ "Inr (x, False)"] exI [of _ "[Clear_files]"]) auto
    qed
  qed
qed

text \<open>A gateway with pid 7 that runs until moment 4, and one that comes up at moment 2.\<close>

definition stopping :: moments where
  "stopping n = \<lparr>json_of = (\<lambda>f. if f = ''gateway.json'' then Some (PDict [(''pid'', PInt 7)]) else None),
     command_of = (\<lambda>_. if n < 5 then Some ''python -m agent_lab.gateway'' else None), may_signal = \<lambda>_. True,
     answers = \<lambda>_ _. None, rss_of = \<lambda>_. None, polled = \<lambda>_. None, now = of_nat n, interrupted = False\<rparr>"

lemma stopping_ticks: "ticks 1 stopping"
  by (simp add: ticks_def stopping_def)

lemma stopping_stops:
  "\<exists>effs. stop gateway_service stopping 10 =
     Some (Inr (Some \<lparr>pid = 7, port = 0, profile = ''unknown'', model_id = ''unknown'', started_at = Fin 0\<rparr>, True), effs)"
  by (simp add: stop_def gateway_service_def stopping_def load_record_def int_field_def str_field_def float_field_def
      runs_module_def PID_MAX_def is_space_def code_def terminate_def send_def wait_exit.simps gone_def)

theorem stop_ends_only_its_service_witness:
  "\<exists>effs k. stop gateway_service stopping 10 =
     Some (Inr (Some \<lparr>pid = 7, port = 0, profile = ''unknown'', model_id = ''unknown'', started_at = Fin 0\<rparr>, True), effs) \<and>
     Clear_files \<in> set effs \<and> runs_module ''agent_lab.gateway'' (stopping k) 7 = Inr False"
  using stop_ends_only_its_service [OF stopping_ticks, of gateway_service 10] stopping_stops
  by (auto simp: gateway_service_def)

section \<open>Starting\<close>

lemma terminate_child:
  assumes "terminate svc w True p timeout n = Some (res, effs, m)"
  shows "(\<forall>x \<in> set effs. \<exists>sig k. x = Signal sig p k \<and> (\<exists>j < k. polled (w j) p = None)) \<and>
    (\<forall>b. res = Inr b \<longrightarrow> (\<exists>k. polled (w k) p \<noteq> None))"
proof -
  note seen = terminate_seen [OF assms]
  then have "signal_ok svc w True p timeout n x" if "x \<in> set effs" for x
    using that by (simp add: list_all_iff)
  then have "\<forall>x \<in> set effs. \<exists>sig k. x = Signal sig p k \<and> (\<exists>j < k. polled (w j) p = None)"
    unfolding signal_ok_def by blast
  with seen show ?thesis by (auto simp: gone_def)
qed

lemma new_record_fields [simp]: "pid (new_record l v) = child_pid l" "port (new_record l v) = launch_port l"
  by (simp_all add: new_record_def)

text \<open>What may be among the effects of a start that has made its child.\<close>

definition child_effect :: "moments \<Rightarrow> launch \<Rightarrow> effect \<Rightarrow> bool" where
  "child_effect w l x \<longleftrightarrow>
     x \<in> {Clear_files, Keep_console, Spawn (child_pid l), Save (new_record l (w 1))} \<or>
     (\<exists>sig k. x = Signal sig (child_pid l) k \<and> (\<exists>j < k. polled (w j) (child_pid l) = None))"

text \<open>The ways in which a child is not ended: it is no longer ours to signal, or survives SIGKILL, or its pid is none.\<close>

definition cannot_end :: "launch \<Rightarrow> svc_failure \<Rightarrow> bool" where
  "cannot_end l e \<longleftrightarrow>
     e = Not_permitted \<or> e = Did_not_exit (child_pid l) \<or> e = Exception OverflowError \<and> child_pid l > PID_MAX"

definition child_gone :: "moments \<Rightarrow> launch \<Rightarrow> bool" where
  "child_gone w l \<longleftrightarrow> (\<exists>k. polled (w k) (child_pid l) \<noteq> None)"

text \<open>Whether the record of the child is there after these effects, so that \<open>stop\<close> finds it.\<close>

fun on_record :: "run_record \<Rightarrow> bool \<Rightarrow> effect list \<Rightarrow> bool" where
  "on_record r there [] = there"
| "on_record r there (x # xs) =
     on_record r (if x = Save r then True else if x = Clear_files then False else there) xs"

lemma on_record_append [simp]: "on_record r there (xs @ ys) = on_record r (on_record r there xs) ys"
  by (induction xs arbitrary: there) simp_all

lemma on_record_keeps: "Clear_files \<notin> set xs \<Longrightarrow> on_record r True xs"
  by (induction xs) auto

lemma wait_exit_child:
  assumes "wait_exit svc w child p deadline n = Some r"
  shows "child \<longrightarrow> (\<forall>e. fst r \<noteq> Inl e)"
  by (rule wait_exit.raw_induct [of "\<lambda>svc w child p deadline n r. child \<longrightarrow> (\<forall>e. fst r \<noteq> Inl e)", OF _ assms])
    (fastforce simp: gone_def split: if_splits sum.splits)

lemma terminate_child_fails:
  assumes "terminate svc w True (child_pid l) timeout n = Some (Inl e, effs, m)"
  shows "cannot_end l e"
  using assms
  by (auto simp: terminate_def send_def cannot_end_def dest!: wait_exit_child
      split: if_splits option.splits sum.splits prod.splits bool.splits)

lemma undo_start_seen:
  assumes "undo_start svc w (new_record l (w 1)) e n = Some (res, effs)"
  shows "\<exists>e'. res = Failed e' \<and> (child_gone w l \<or> cannot_end l e' \<and> Clear_files \<notin> set effs) \<and>
    (\<forall>x \<in> set effs. child_effect w l x)"
proof -
  let ?p = "child_pid l"
  obtain r sent m where t: "terminate svc w True ?p (stop_timeout svc) n = Some (r, sent, m)"
    using assms by (auto simp: undo_start_def split: option.splits)
  note c = terminate_child [OF t]
  have sent: "\<forall>x \<in> set sent. child_effect w l x" "Clear_files \<notin> set sent" using c by (auto simp: child_effect_def)
  show ?thesis
  proof (cases r)
    case (Inl e')
    with assms t have "res = Failed e'" "effs = sent" by (auto simp: undo_start_def)
    with sent terminate_child_fails [of svc w l] t Inl show ?thesis by auto
  next
    case (Inr b)
    with c have "child_gone w l" by (auto simp: child_gone_def)
    with Inr assms t sent c show ?thesis
      by (auto simp: undo_start_def child_effect_def split: sum.splits if_splits)
  qed
qed

lemma undo_start_ends: "ticks step w \<Longrightarrow> \<exists>r. undo_start svc w r0 e n = Some r"
  using terminate_ends [of step w svc True "pid r0" "stop_timeout svc" n]
  by (auto simp: undo_start_def split: sum.split)

text \<open>How a start goes on once the child is made.\<close>

definition start_outcome :: "service \<Rightarrow> moments \<Rightarrow> launch \<Rightarrow> started \<Rightarrow> effect list \<Rightarrow> bool" where
  "start_outcome svc w l res effs \<longleftrightarrow>
     (\<forall>x \<in> set effs. child_effect w l x) \<and> Spawn (child_pid l) \<in> set effs \<and>
     (case res of
        Already st \<Rightarrow> False
      | Started st \<Rightarrow> st_state st = RUNNING \<and> st_record st = Some (new_record l (w 1)) \<and>
          (\<forall>sig p k. Signal sig p k \<notin> set effs) \<and>
          (\<exists>k. polled (w k) (child_pid l) = None \<and>
            read_record (json_of (w k) (ready_file svc)) (child_pid l) \<noteq> None \<and>
            healthy svc (answers (w k) (launch_port l) (health_path svc)))
      | Failed e \<Rightarrow>
          (child_gone w l \<or> cannot_end l e \<and> (saves l \<longrightarrow> on_record (new_record l (w 1)) False effs))) \<and>
     (\<forall>pre. prefix pre effs \<and> Spawn (child_pid l) \<in> set pre \<longrightarrow>
        last pre = Spawn (child_pid l) \<or> \<not> saves l \<or> on_record (new_record l (w 1)) False pre \<or> child_gone w l)"

definition made :: "service \<Rightarrow> launch \<Rightarrow> effect list" where
  "made svc l = [Clear_files] @ (if keeps_console svc \<and> console_used l then [Keep_console] else []) @
     [Spawn (child_pid l)]"

lemma made_effects: "\<forall>x \<in> set (made svc l). child_effect w l x" "Spawn (child_pid l) \<in> set (made svc l)"
  "Signal sig p k \<notin> set (made svc l)" "child_effect w l (Save (new_record l (w 1)))"
  by (auto simp: made_def child_effect_def)

lemma start_unsaved:
  assumes "ticks step w" and "status svc (w 0) = Inr st" and "st_state st \<in> {STOPPED, EXITED}" and "\<not> saves l"
  shows "\<exists>res effs. start svc w l timeout = Some (res, effs) \<and> start_outcome svc w l res effs"
proof -
  obtain r sent m where t: "terminate svc w True (child_pid l) (stop_timeout svc) 2 = Some (r, sent, m)"
    using terminate_ends [OF assms(1)] by (metis prod.exhaust)
  define e where "e = (case r of Inl e \<Rightarrow> e | Inr _ \<Rightarrow> Not_saved)"
  have "start svc w l timeout = Some (Failed e, made svc l @ sent)"
    using assms t by (auto simp: start_def e_def made_def Let_def split: sum.split)
  moreover have "\<forall>x \<in> set sent. child_effect w l x" using terminate_child [OF t] by (auto simp: child_effect_def)
  moreover have "child_gone w l \<or> cannot_end l e"
    using terminate_child [OF t] terminate_child_fails t by (auto simp: e_def child_gone_def split: sum.splits)
  ultimately show ?thesis using made_effects assms(4) by (auto simp: start_outcome_def)
qed

text \<open>Wherever a start that has saved its record is cut off: the record is there, or the child was gone before.\<close>

lemma saved_prefixes:
  assumes "prefix pre (made svc l @ [Save r] @ effs)" and "Spawn (child_pid l) \<in> set pre"
    and "child_gone w l \<or> Clear_files \<notin> set effs"
  shows "last pre = Spawn (child_pid l) \<or> on_record r False pre \<or> child_gone w l"
proof (cases "prefix pre (made svc l)")
  case True
  then show ?thesis using assms(2) by (auto simp: made_def prefix_Cons prefix_append split: if_splits)
next
  case False
  with assms(1) obtain ys where pre: "pre = made svc l @ ys" "prefix ys ([Save r] @ effs)" "ys \<noteq> []"
    by (auto simp: prefix_append)
  then obtain zs where zs: "ys = Save r # zs" "prefix zs effs" by (auto simp: prefix_Cons)
  show ?thesis
  proof (cases "child_gone w l")
    case False
    with assms(3) zs(2) have "Clear_files \<notin> set zs" by (auto dest: set_mono_prefix)
    then show ?thesis using pre(1) zs(1) by (simp add: on_record_keeps)
  qed simp
qed

lemma start_saved:
  assumes "ticks step w" and "status svc (w 0) = Inr st" and "st_state st \<in> {STOPPED, EXITED}" and "saves l"
  shows "\<exists>res effs. start svc w l timeout = Some (res, effs) \<and> start_outcome svc w l res effs"
proof -
  let ?r = "new_record l (w 1)"
  obtain res n where r: "wait_ready svc w ?r (now (w 2) + timeout) 3 = Some (res, n)"
    using wait_ready_ends [OF assms(1)] by (metis prod.exhaust)
  note seen = wait_ready_seen [OF r, unfolded ready_seen_def prod.case]
  show ?thesis
  proof (cases res)
    case up: (Inr st')
    have "start svc w l timeout = Some (Started st', made svc l @ [Save ?r])"
      using assms r up by (auto simp: start_def made_def Let_def)
    with made_effects seen up saved_prefixes [of _ svc l ?r "[]" w] show ?thesis
      by (auto simp: start_outcome_def simp del: prefix_snoc)
  next
    case failed: (Inl e)
    obtain res' effs where u: "undo_start svc w ?r e n = Some (res', effs)"
      using undo_start_ends [OF assms(1)] by (metis prod.exhaust)
    from undo_start_seen [OF u] obtain e' where e': "res' = Failed e'"
      "child_gone w l \<or> cannot_end l e' \<and> Clear_files \<notin> set effs" "\<forall>x \<in> set effs. child_effect w l x" by blast
    have run: "start svc w l timeout = Some (Failed e', made svc l @ [Save ?r] @ effs)"
      using assms r failed u e' by (auto simp: start_def made_def Let_def)
    have "last pre = Spawn (child_pid l) \<or> on_record ?r False pre \<or> child_gone w l"
      if "prefix pre (made svc l @ [Save ?r] @ effs)" "Spawn (child_pid l) \<in> set pre" for pre
      using saved_prefixes [OF that] e'(2) by blast
    moreover have "child_gone w l \<or> cannot_end l e' \<and> on_record ?r False (made svc l @ [Save ?r] @ effs)"
      using e'(2) on_record_keeps by auto
    ultimately have "start_outcome svc w l (Failed e') (made svc l @ [Save ?r] @ effs)"
      using made_effects e'(3) unfolding start_outcome_def by (auto simp del: on_record_append)
    with run show ?thesis by blast
  qed
qed

lemma start_cases:
  assumes "ticks step w"
  shows "\<exists>res effs. start svc w l timeout = Some (res, effs) \<and>
    (effs \<noteq> [] \<longrightarrow> (\<exists>st. status svc (w 0) = Inr st \<and> st_state st \<in> {STOPPED, EXITED}) \<and>
      (\<forall>x \<in> set effs. child_effect w l x)) \<and>
    (case res of
       Already st \<Rightarrow> effs = [] \<and> status svc (w 0) = Inr st \<and> st_state st \<in> {RUNNING, LOADING, UNHEALTHY}
     | Started st \<Rightarrow> st_state st = RUNNING \<and> st_record st = Some (new_record l (w 1)) \<and>
         Spawn (child_pid l) \<in> set effs \<and> (\<forall>sig p k. Signal sig p k \<notin> set effs) \<and>
         (\<exists>k. polled (w k) (child_pid l) = None \<and>
           read_record (json_of (w k) (ready_file svc)) (child_pid l) \<noteq> None \<and>
           healthy svc (answers (w k) (launch_port l) (health_path svc)))
     | Failed e \<Rightarrow> effs = [] \<and> (\<exists>x. status svc (w 0) = Inl x \<and> e = Exception x) \<or> child_gone w l \<or>
         cannot_end l e \<and> (saves l \<longrightarrow> on_record (new_record l (w 1)) False effs)) \<and>
    (\<forall>pre. prefix pre effs \<and> Spawn (child_pid l) \<in> set pre \<longrightarrow>
       last pre = Spawn (child_pid l) \<or> \<not> saves l \<or> on_record (new_record l (w 1)) False pre \<or> child_gone w l)"
proof (cases "\<exists>st. status svc (w 0) = Inr st \<and> st_state st \<in> {STOPPED, EXITED}")
  case True
  then obtain st where "status svc (w 0) = Inr st" "st_state st \<in> {STOPPED, EXITED}" by blast
  then obtain res effs where "start svc w l timeout = Some (res, effs)" "start_outcome svc w l res effs"
    using start_saved [OF assms] start_unsaved [OF assms] by blast
  with True show ?thesis
    by (intro exI [of _ res] exI [of _ effs]) (auto simp: start_outcome_def simp del: on_record_append split: started.splits)
next
  case False
  then show ?thesis
    using state.exhaust by (cases "status svc (w 0)") (auto simp: start_def)
qed

text \<open>
  C32: \<open>start\<close> ends, and starts a process only if the recorded one is not running; all it signals is
  this child, and only while it has not been reaped. It says that it started the service only after
  the service's own record of the loaded model and a healthy answer were seen. When it fails, it has done nothing
  because the status could not be read, or the child was seen to be gone, or the failure says that the child cannot
  be ended (it may not be signalled, survives SIGKILL, or has a pid that is none); then its record is still there for
  \<open>stop\<close>, if it could be written. A second Ctrl-C during the undo, or the end of the command itself, leaves the
  effects up to there: after any of them the child is on record or was seen to be gone, but for the moment between
  \<open>Popen\<close> and the writing of the record (or if that cannot be written).
\<close>

theorem start_leaves_one_or_none:
  assumes "ticks step w"
  shows "\<exists>res effs. start svc w l timeout = Some (res, effs) \<and>
    (effs \<noteq> [] \<longrightarrow> (\<exists>st. status svc (w 0) = Inr st \<and> st_state st \<in> {STOPPED, EXITED}) \<and>
      (\<forall>x \<in> set effs. child_effect w l x)) \<and>
    (case res of
       Already st \<Rightarrow> effs = [] \<and> status svc (w 0) = Inr st \<and> st_state st \<in> {RUNNING, LOADING, UNHEALTHY}
     | Started st \<Rightarrow> st_state st = RUNNING \<and> st_record st = Some (new_record l (w 1)) \<and>
         Spawn (child_pid l) \<in> set effs \<and> (\<forall>sig p k. Signal sig p k \<notin> set effs) \<and>
         (\<exists>k. polled (w k) (child_pid l) = None \<and>
           read_record (json_of (w k) (ready_file svc)) (child_pid l) \<noteq> None \<and>
           healthy svc (answers (w k) (launch_port l) (health_path svc)))
     | Failed e \<Rightarrow> effs = [] \<and> (\<exists>x. status svc (w 0) = Inl x \<and> e = Exception x) \<or> child_gone w l \<or>
         cannot_end l e \<and> (saves l \<longrightarrow> on_record (new_record l (w 1)) False effs)) \<and>
    (\<forall>pre. prefix pre effs \<and> Spawn (child_pid l) \<in> set pre \<longrightarrow>
       last pre = Spawn (child_pid l) \<or> \<not> saves l \<or> on_record (new_record l (w 1)) False pre \<or> child_gone w l)"
  by (rule start_cases [OF assms])

definition starting :: moments where
  "starting n = \<lparr>json_of = (\<lambda>f. if n \<ge> 2 \<and> f = ''gateway.ready.json'' then Some (PDict [(''pid'', PInt 7)]) else None),
     command_of = \<lambda>_. None, may_signal = \<lambda>_. True, answers = \<lambda>_ _. Some 200, rss_of = \<lambda>_. None,
     polled = \<lambda>_. None, now = of_nat n, interrupted = False\<rparr>"

definition gateway_launch :: launch where
  "gateway_launch = \<lparr>child_pid = 7, launch_port = 8080, launch_profile = ''mac'', launch_model = ''qwen'',
     console_used = False, saves = True\<rparr>"

lemma starting_starts: "\<exists>st effs. start gateway_service starting gateway_launch 120 = Some (Started st, effs)"
  by (simp add: start_def status_def load_record_def gateway_service_def starting_def gateway_launch_def
      wait_ready.simps read_record_def Let_def)

theorem start_leaves_one_or_none_witness:
  "\<exists>st effs. start gateway_service starting gateway_launch 120 = Some (Started st, effs) \<and>
     st_state st = RUNNING \<and> Spawn 7 \<in> set effs"
proof -
  have "ticks 1 starting" by (simp add: ticks_def starting_def)
  from start_leaves_one_or_none [OF this, of gateway_service gateway_launch 120] starting_starts
  show ?thesis by (auto simp: gateway_launch_def)
qed

end
