(* ===== verification/Service_Runs.thy ===== *)
theory Service_Runs
  imports Process_Properties
begin

text \<open>
  \<open>alab serve\<close> and \<open>alab stop\<close> of \<open>backend/process.py\<close> and \<open>gateway/process.py\<close> at the same time,
  from several terminals, with processes that die in between: the sections under the lock file
  as steps of a machine over the live processes of a service and its record.
\<close>

section \<open>The part of a start under the lock\<close>

datatype begun = Was_running status | Begun run_record | Not_begun svc_failure

definition start_locked :: "service \<Rightarrow> moments \<Rightarrow> launch \<Rightarrow> (begun \<times> effect list) option" where
  "start_locked svc w l =
     (case status svc (w 0) of
        Inl e \<Rightarrow> Some (Not_begun (Exception e), [])
      | Inr current \<Rightarrow>
          if st_state current \<in> {RUNNING, LOADING, UNHEALTHY} then Some (Was_running current, [])
          else
            let r = new_record l (w 1);
                made = [Clear_files] @ (if keeps_console svc \<and> console_used l then [Keep_console] else []) @
                       [Spawn (child_pid l)]
            in if saves l then Some (Begun r, made @ [Save r])
               else (case terminate svc w True (pid r) (stop_timeout svc) 2 of
                       None \<Rightarrow> None
                     | Some (Inl e, sent, m) \<Rightarrow> Some (Not_begun e, made @ sent)
                     | Some (Inr _, sent, m) \<Rightarrow> Some (Not_begun Not_saved, made @ sent)))"

text \<open>The rest of a start waits without the lock and takes it again to undo.\<close>

lemma start_is_locked_then_waits:
  "start svc w l timeout =
     (case start_locked svc w l of
        None \<Rightarrow> None
      | Some (Was_running st, effs) \<Rightarrow> Some (Already st, effs)
      | Some (Not_begun e, effs) \<Rightarrow> Some (Failed e, effs)
      | Some (Begun r, effs) \<Rightarrow>
          (case wait_ready svc w r (now (w 2) + timeout) 3 of
             None \<Rightarrow> None
           | Some (Inr st, n) \<Rightarrow> Some (Started st, effs)
           | Some (Inl e, n) \<Rightarrow>
               (case undo_start svc w r e n of
                  None \<Rightarrow> None
                | Some (res, undone) \<Rightarrow> Some (res, effs @ undone))))"
  by (simp add: start_def start_locked_def Let_def split: sum.split option.split prod.split)

section \<open>How a process is known\<close>

text \<open>
  The command and the environment of the new process. \<open>ps\<close> shows a command with blanks between
  its words, and \<open>process_command\<close> strips what it prints; \<open>width\<close> is the number of columns after
  which \<open>ps\<close> cuts a line, if it does.
\<close>

definition launch_command :: "service \<Rightarrow> string \<Rightarrow> string \<Rightarrow> string list" where
  "launch_command svc exe prof = [exe, ''-m'', entry_module svc, ''--profile'', prof]"

definition child_env :: "(string \<times> string) list \<Rightarrow> (string \<times> string) list \<Rightarrow> string \<Rightarrow> (string \<times> string) list" where
  "child_env environ offline home = AList.update ''AGENT_LAB_HOME'' home (dict_merge environ offline)"

definition shown_command :: "nat option \<Rightarrow> string list \<Rightarrow> string" where
  "shown_command width argv =
     (let l = join_with '' '' argv
      in strip (case width of None \<Rightarrow> l | Some n \<Rightarrow> take n l))"

lemma words_at_space: "is_space c \<Longrightarrow> words_from w (a @ c # b) = words_from w a @ words_from [] b"
  by (induction w a rule: words_from.induct) auto

lemma words_of_word: "list_all (\<lambda>c. \<not> is_space c) a \<Longrightarrow> words_from w a = (if w @ a = [] then [] else [w @ a])"
  by (induction w a rule: words_from.induct) auto

lemma words_strip: "words_from [] (strip s) = words_from [] s"
proof -
  have front: "words_from [] (dropWhile is_space s) = words_from [] s" for s
    by (induction s) auto
  have end_space: "words_from w (rev (dropWhile is_space (rev s))) = words_from w s" for w s
    by (induction s rule: rev_induct) (auto simp: words_at_space [where b = "[]", simplified])
  show ?thesis by (simp add: strip_def end_space front)
qed

lemma modules_are_words:
  "svc \<in> {backend_service, gateway_service} \<Longrightarrow> entry_module svc \<noteq> [] \<and> list_all (\<lambda>c. \<not> is_space c) (entry_module svc)"
proof -
  have "list_all (\<lambda>c. \<not> is_space c) ''agent_lab.backend.launch''" "list_all (\<lambda>c. \<not> is_space c) ''agent_lab.gateway''"
    by code_simp+
  then show "svc \<in> {backend_service, gateway_service} \<Longrightarrow> ?thesis"
    by (auto simp: backend_service_def gateway_service_def)
qed

lemma command_words:
  assumes "svc \<in> {backend_service, gateway_service}"
  shows "words_from [] (shown_command None (launch_command svc exe prof)) =
    words_from [] exe @ [''-m'', entry_module svc, ''--profile''] @ words_from [] prof"
proof -
  have space: "is_space (CHR '' '')" by code_simp
  have fixed: "list_all (\<lambda>c. \<not> is_space c) ''-m''" "list_all (\<lambda>c. \<not> is_space c) ''--profile''" by code_simp+
  have words: "words_from [] (w @ CHR '' '' # b) = w # words_from [] b"
    if "list_all (\<lambda>c. \<not> is_space c) w" "w \<noteq> []" for w b
    using that by (simp add: words_at_space [OF space] words_of_word)
  have "join_with '' '' (launch_command svc exe prof) =
      exe @ CHR '' '' # (''-m'' @ CHR '' '' # (entry_module svc @ CHR '' '' # (''--profile'' @ CHR '' '' # prof)))"
    by (simp add: launch_command_def)
  then have "words_from [] (shown_command None (launch_command svc exe prof)) =
      words_from [] exe @ words_from [] (''-m'' @ CHR '' '' # (entry_module svc @ CHR '' '' # (''--profile'' @ CHR '' '' # prof)))"
    by (simp only: shown_command_def Let_def option.case words_strip words_at_space [OF space])
  also have "words_from [] (''-m'' @ CHR '' '' # (entry_module svc @ CHR '' '' # (''--profile'' @ CHR '' '' # prof))) =
      ''-m'' # entry_module svc # ''--profile'' # words_from [] prof"
    by (simp only: words [OF fixed(1) list.distinct(2)] words [OF fixed(2) list.distinct(2)]
        words [OF modules_are_words [OF assms, THEN conjunct2] modules_are_words [OF assms, THEN conjunct1]])
  finally show ?thesis by simp
qed

definition possible_pid :: "int \<Rightarrow> bool" where
  "possible_pid p \<longleftrightarrow> 0 < p \<and> p \<le> PID_MAX"

text \<open>
  A process that was launched is recognised as its service, and not as the other one unless the
  interpreter's path or the profile's name has the other's module as a word.
\<close>

lemma launched_is_recognised:
  assumes "svc \<in> {backend_service, gateway_service}" and "possible_pid p"
    and "command_of v p = Some (shown_command None (launch_command svc exe prof))"
  shows "runs_module (entry_module svc) v p = Inr True"
    and "m \<notin> {entry_module svc, ''-m'', ''--profile''} \<union> set (words_from [] exe) \<union> set (words_from [] prof) \<Longrightarrow>
      runs_module m v p = Inr False"
  using assms(2,3) command_words [OF assms(1)] by (auto simp: runs_module_def possible_pid_def)

text \<open>
  \<open>ps\<close> is called without \<open>-ww\<close>: if it cuts a line at the width of the window, a long path of
  the interpreter hides the module, and a live process counts as gone.
\<close>

lemma cut_command_is_not_recognised:
  assumes "possible_pid p" and "command_of v p = Some (shown_command (Some n) (launch_command svc exe prof))"
    and "n \<le> length exe" and "entry_module svc \<notin> set (words_from [] (take n exe))"
  shows "runs_module (entry_module svc) v p = Inr False"
proof -
  have "take n (join_with '' '' (launch_command svc exe prof)) = take n exe"
    using assms(3) by (simp add: launch_command_def)
  with assms show ?thesis by (simp add: runs_module_def possible_pid_def shown_command_def words_strip Let_def)
qed

section \<open>Several commands at once\<close>

text \<open>
  \<open>alive\<close> are the processes whose command names the service's module, \<open>recorded\<close> is what the
  state file says, \<open>under_way\<close> the starts that wait for their process, and \<open>lost\<close> the processes
  that a start reported as still there after SIGKILL when it could not record them.
\<close>

record services =
  the_service :: service
  alive :: "int set"
  recorded :: "run_record option"
  under_way :: "run_record list"
  lost :: "int set"

text \<open>What is seen of the files and of the processes at a moment is how they are.\<close>

definition shows_file :: "service \<Rightarrow> run_record option \<Rightarrow> view \<Rightarrow> bool" where
  "shows_file svc f v \<longleftrightarrow> load_record (json_of v (state_file svc)) = Inr f"

definition shows_alive :: "service \<Rightarrow> int set \<Rightarrow> view \<Rightarrow> bool" where
  "shows_alive svc A v \<longleftrightarrow>
     (\<forall>p. possible_pid p \<longrightarrow> runs_module (entry_module svc) v p = Inr (p \<in> A)) \<and>
     (\<forall>p. polled v p = None \<longleftrightarrow> p \<in> A) \<and> (\<forall>p. command_of v p \<noteq> None \<longrightarrow> may_signal v p)"

text \<open>While a command holds the lock, processes can only end; \<open>B\<close> are those left at its end.\<close>

definition watched :: "service \<Rightarrow> moments \<Rightarrow> (nat \<Rightarrow> int set) \<Rightarrow> int set \<Rightarrow> int set \<Rightarrow> bool" where
  "watched svc w A before B \<longleftrightarrow>
     A 0 \<subseteq> before \<and> (\<forall>k. A (Suc k) \<subseteq> A k \<and> shows_alive svc (A k) (w k) \<and> B \<subseteq> A k)"

fun file_after :: "effect list \<Rightarrow> run_record option \<Rightarrow> run_record option" where
  "file_after [] f = f"
| "file_after (Clear_files # es) f = file_after es None"
| "file_after (Save r # es) f = file_after es (Some r)"
| "file_after (_ # es) f = file_after es f"

datatype command =
    Begin begun
  | Ready status
  | Undo started
  | Stop "svc_failure + run_record option \<times> bool"
  | Die

text \<open>
  A new process has a pid that no process of the service and no start under way has.
\<close>

inductive service_step :: "services \<Rightarrow> command \<Rightarrow> services \<Rightarrow> bool" where
  begin_start: "start_locked (the_service g) w l = Some (res, effs) \<Longrightarrow>
     shows_file (the_service g) (recorded g) (w 0) \<Longrightarrow> shows_alive (the_service g) (alive g) (w 0) \<Longrightarrow>
     possible_pid (child_pid l) \<Longrightarrow> child_pid l \<notin> alive g \<union> lost g \<union> pid ` set (under_way g) \<Longrightarrow>
     watched (the_service g) (\<lambda>k. w (Suc k)) A
       (if Spawn (child_pid l) \<in> set effs then insert (child_pid l) (alive g) else alive g) B \<Longrightarrow>
     service_step g (Begin res)
       (g\<lparr>alive := B, recorded := file_after effs (recorded g),
          under_way := (case res of Begun r \<Rightarrow> r # under_way g | _ \<Rightarrow> under_way g),
          lost := lost g \<union> {p. res = Not_begun (Did_not_exit p)}\<rparr>)"
| ready: "r \<in> set (under_way g) \<Longrightarrow> wait_ready (the_service g) w r deadline n = Some (Inr st, m) \<Longrightarrow>
     service_step g (Ready st) (g\<lparr>under_way := remove1 r (under_way g)\<rparr>)"
| undo: "r \<in> set (under_way g) \<Longrightarrow> undo_start (the_service g) w r e n = Some (res, effs) \<Longrightarrow>
     \<forall>k. shows_file (the_service g) (recorded g) (w k) \<Longrightarrow> watched (the_service g) w A (alive g) B \<Longrightarrow>
     service_step g (Undo res)
       (g\<lparr>alive := B, recorded := file_after effs (recorded g), under_way := remove1 r (under_way g)\<rparr>)"
| stop_it: "stop (the_service g) w timeout = Some (res, effs) \<Longrightarrow>
     \<forall>k. shows_file (the_service g) (recorded g) (w k) \<Longrightarrow> watched (the_service g) w A (alive g) B \<Longrightarrow>
     service_step g (Stop res) (g\<lparr>alive := B, recorded := file_after effs (recorded g)\<rparr>)"
| die: "B \<subseteq> alive g \<Longrightarrow> service_step g Die (g\<lparr>alive := B\<rparr>)"

definition no_service :: "service \<Rightarrow> run_record option \<Rightarrow> services" where
  "no_service svc f = \<lparr>the_service = svc, alive = {}, recorded = f, under_way = [], lost = {}\<rparr>"

section \<open>What the steps keep\<close>

definition services_inv :: "services \<Rightarrow> bool" where
  "services_inv g \<longleftrightarrow>
     alive g \<subseteq> lost g \<union> pid ` set_option (recorded g) \<and>
     (\<forall>r \<in> set_option (recorded g) \<union> set (under_way g). possible_pid (pid r))"

lemma file_after_append [simp]: "file_after (xs @ ys) f = file_after ys (file_after xs f)"
  by (induction xs f rule: file_after.induct) auto

lemma file_after_signals: "\<forall>x \<in> set es. \<exists>sig p k. x = Signal sig p k \<Longrightarrow> file_after es f = f"
  by (induction es) auto

lemma terminate_signals:
  assumes "terminate svc w child p timeout n = Some (res, effs, m)"
  shows "file_after effs f = f"
  using terminate_seen [OF assms]
  by (intro file_after_signals) (auto simp: list_all_iff signal_ok_def)

lemma watched_start: "watched svc w A S B \<Longrightarrow> B \<subseteq> S"
  unfolding watched_def by blast

lemma wait_exit_gone:
  assumes "wait_exit svc w child p deadline n = Some (Inr True, m)"
  shows "\<exists>k \<ge> n. gone svc child p (w k) = Inr True"
proof -
  have "fst (Inr True :: py_exn + bool, m) = Inr True \<longrightarrow> (\<exists>k \<ge> n. gone svc child p (w k) = Inr True)"
  proof (rule wait_exit.raw_induct
      [of "\<lambda>svc w child p deadline n r. fst r = Inr True \<longrightarrow> (\<exists>k \<ge> n. gone svc child p (w k) = Inr True)",
        OF _ assms])
    fix rec svc w child p deadline n r
    assume ih: "\<And>svc w child p deadline n r. rec svc w child p deadline n = Some r \<Longrightarrow>
        fst r = Inr True \<longrightarrow> (\<exists>k \<ge> n. gone svc child p (w k) = Inr True)"
      and body: "(if now (w n) < deadline
        then (case gone svc child p (w n) of
                Inl e \<Rightarrow> Some (Inl e, Suc n)
              | Inr left \<Rightarrow> if left then Some (Inr True, Suc n) else rec svc w child p deadline (Suc n))
        else Some (Inr False, n)) = Some r"
    show "fst r = Inr True \<longrightarrow> (\<exists>k \<ge> n. gone svc child p (w k) = Inr True)"
      using body by (auto split: if_splits sum.splits dest: ih intro: Suc_leD)
  qed
  then show ?thesis by simp
qed

lemma terminate_waits:
  assumes "terminate svc w child p timeout n = Some (Inr b, effs, m)" and "\<not> (child \<and> polled (w n) p \<noteq> None)"
  shows "\<exists>d k m'. wait_exit svc w child p d k = Some (Inr True, m') \<and> n \<le> k"
proof -
  let ?d = "now (w (n + 2)) + timeout"
  obtain r m1 where first: "wait_exit svc w child p ?d (n + 3) = Some (r, m1)"
    using assms by (cases "wait_exit svc w child p ?d (n + 3)") (auto simp: terminate_def split: sum.splits if_splits)
  from wait_exit_seen [OF first] have later: "n + 3 \<le> m1" by (simp add: exit_seen_def)
  show ?thesis
  proof (cases "r = Inr True")
    case True
    with first show ?thesis by (intro exI [of _ ?d] exI [of _ "n + 3"] exI [of _ m1]) simp
  next
    case False
    with assms first obtain m2 where
      "wait_exit svc w child p (now (w (Suc m1)) + 5) (m1 + 2) = Some (Inr True, m2)"
      by (auto simp: terminate_def split: if_splits sum.splits option.splits prod.splits bool.splits)
    with later show ?thesis by (intro exI [of _ "now (w (Suc m1)) + 5"] exI [of _ "m1 + 2"] exI [of _ m2]) simp
  qed
qed

lemma terminate_gone:
  assumes "terminate svc w child p timeout n = Some (Inr b, effs, m)"
  shows "\<exists>k \<ge> n. gone svc child p (w k) = Inr True"
proof (cases "child \<and> polled (w n) p \<noteq> None")
  case True
  then show ?thesis by (intro exI [of _ n]) (simp add: gone_def)
next
  case False
  from terminate_waits [OF assms this] show ?thesis by (meson order_trans wait_exit_gone)
qed

lemma watched_gone:
  assumes "watched svc w A S B" and "gone svc child p (w k) = Inr True" and "possible_pid p"
  shows "p \<notin> B"
proof -
  from assms(1) have A: "shows_alive svc (A k) (w k)" "B \<subseteq> A k" by (auto simp: watched_def)
  have "p \<notin> A k" using assms(2,3) A(1)
    by (cases child) (simp_all add: gone_def shows_alive_def and_then_eq_Inr, metis option.distinct(1))
  with A(2) show ?thesis by blast
qed

lemma terminate_kills:
  assumes "watched svc (\<lambda>k. w (i + k)) A S B" and "possible_pid p" and "i \<le> n"
    and "terminate svc w child p timeout n = Some (Inr b, effs, m)"
  shows "p \<notin> B"
proof -
  from terminate_gone [OF assms(4)] obtain k where "n \<le> k" "gone svc child p (w k) = Inr True" by blast
  with assms(3) watched_gone [OF assms(1) _ assms(2), of child "k - i"] show ?thesis by simp
qed

lemma send_permitted: "shows_alive svc A (w k) \<Longrightarrow> possible_pid p \<Longrightarrow> send sig w p k \<noteq> Inl e"
  by (auto simp: send_def shows_alive_def possible_pid_def)

lemma wait_exit_no_error: "wait_exit svc w True p deadline n \<noteq> Some (Inl e, m)"
proof
  assume "wait_exit svc w True p deadline n = Some (Inl e, m)"
  then have "True \<longrightarrow> fst (Inl e :: py_exn + bool, m) \<noteq> Inl e"
  proof (rule wait_exit.raw_induct [of "\<lambda>svc w child p deadline n r. child \<longrightarrow> fst r \<noteq> Inl e", rotated])
    fix rec svc w child p deadline n r
    assume ih: "\<And>svc w child p deadline n r. rec svc w child p deadline n = Some r \<Longrightarrow>
        child \<longrightarrow> fst r \<noteq> Inl e"
      and body: "(if now (w n) < deadline
        then (case gone svc child p (w n) of
                Inl e \<Rightarrow> Some (Inl e, Suc n)
              | Inr left \<Rightarrow> if left then Some (Inr True, Suc n) else rec svc w child p deadline (Suc n))
        else Some (Inr False, n)) = Some r"
    show "child \<longrightarrow> fst r \<noteq> Inl e"
      using ih body by (auto simp: gone_def split: if_splits)
  qed
  then show False by simp
qed

text \<open>An own child can only outlive a start by outliving SIGKILL.\<close>

lemma terminate_child_failure:
  assumes "\<forall>k. shows_alive svc (A k) (w k)" and "possible_pid p"
    and "terminate svc w True p timeout n = Some (Inl e, effs, m)"
  shows "e = Did_not_exit p"
proof -
  have "send sig w p k \<noteq> Inl e" for sig k e using assms(1,2) send_permitted by blast
  with assms(3) show ?thesis
    by (auto simp: terminate_def wait_exit_no_error
        split: if_splits sum.splits option.splits prod.splits bool.splits)
qed

section \<open>The invariant\<close>

lemma status_cases:
  assumes "status svc v = Inr st" and "st_state st \<notin> {RUNNING, LOADING, UNHEALTHY}"
  shows "load_record (json_of v (state_file svc)) = Inr None \<or>
    (\<exists>r. load_record (json_of v (state_file svc)) = Inr (Some r) \<and> runs_module (entry_module svc) v (pid r) = Inr False)"
proof -
  obtain f where f: "load_record (json_of v (state_file svc)) = Inr f"
    using assms(1) by (auto simp: status_def and_then_eq_Inr)
  show ?thesis
  proof (cases f)
    case (Some r)
    obtain runs where runs: "runs_module (entry_module svc) v (pid r) = Inr runs"
      using assms(1) f Some by (auto simp: status_def and_then_eq_Inr)
    have "\<not> runs"
    proof
      assume "runs"
      with f Some runs have st: "status svc v = Inr (full_status svc v
          (if read_record (json_of v (ready_file svc)) (pid r) = None then LOADING
           else if healthy svc (answers v (port r) (health_path svc)) then RUNNING else UNHEALTHY)
          r (read_record (json_of v (ready_file svc)) (pid r)))"
        by (simp add: status_def Let_def)
      from trans [OF assms(1) [symmetric] st] have "st_state st = (if read_record (json_of v (ready_file svc)) (pid r) = None then LOADING
           else if healthy svc (answers v (port r) (health_path svc)) then RUNNING else UNHEALTHY)"
        by (simp only: sum.inject full_status_def) simp
      moreover have "(if a then LOADING else if b then RUNNING else UNHEALTHY) \<in> {RUNNING, LOADING, UNHEALTHY}" for a b
        by simp
      ultimately have "st_state st \<in> {RUNNING, LOADING, UNHEALTHY}" by (simp only:)
      with assms(2) show False by simp
    qed
    with f Some runs show ?thesis by simp
  qed (use f in simp)
qed

text \<open>A start makes a process only when every live one is a lost one.\<close>

lemma made_only_when_none:
  assumes "services_inv g" and "start_locked (the_service g) w l = Some (res, effs)" and "effs \<noteq> []"
    and "shows_file (the_service g) (recorded g) (w 0)" and "shows_alive (the_service g) (alive g) (w 0)"
  shows "alive g \<subseteq> lost g"
proof -
  from assms(2,3) obtain st where st: "status (the_service g) (w 0) = Inr st"
    "st_state st \<notin> {RUNNING, LOADING, UNHEALTHY}"
    by (auto simp: start_locked_def split: sum.splits if_splits)
  from status_cases [OF st] assms(4) have "recorded g = None \<or>
      (\<exists>r. recorded g = Some r \<and> runs_module (entry_module (the_service g)) (w 0) (pid r) = Inr False)"
    by (auto simp: shows_file_def)
  then show ?thesis using assms(1,5) by (auto simp: services_inv_def shows_alive_def)
qed

text \<open>How a start under the lock can end.\<close>

lemma start_locked_cases:
  assumes "start_locked svc w l = Some (res, effs)"
  obtains (none) "effs = []" "\<forall>r. res \<noteq> Begun r" "\<forall>p. res \<noteq> Not_begun (Did_not_exit p)"
  | (made) r where "res = Begun r" "pid r = child_pid l" "\<And>f. file_after effs f = Some r" "effs \<noteq> []"
      "Spawn (child_pid l) \<in> set effs"
  | (unsaved) b sent m e where "res = Not_begun e" "\<And>f. file_after effs f = None" "effs \<noteq> []"
      "Spawn (child_pid l) \<in> set effs"
      "terminate svc w True (child_pid l) (stop_timeout svc) 2 = Some (b, sent, m)"
      "b = Inl e \<or> (\<exists>x. b = Inr x) \<and> e = Not_saved"
proof (cases "status svc (w 0)")
  case (Inl x)
  with assms none show ?thesis by (auto simp: start_locked_def)
next
  case (Inr st)
  show ?thesis
  proof (cases "st_state st \<in> {RUNNING, LOADING, UNHEALTHY}")
    case True
    with Inr assms none show ?thesis by (auto simp: start_locked_def)
  next
    case False
    show ?thesis
    proof (cases "saves l")
      case True
      with Inr False assms made [of "new_record l (w 1)"] show ?thesis
        by (auto simp: start_locked_def Let_def)
    next
      case unsaved': False
      with Inr False assms obtain b sent m
        where t: "terminate svc w True (child_pid l) (stop_timeout svc) 2 = Some (b, sent, m)"
        by (auto simp: start_locked_def Let_def split: option.splits)
      note t' = terminate_signals [OF t]
      with Inr False assms unsaved' t unsaved [OF _ _ _ _ t] show ?thesis
        by (auto simp: start_locked_def Let_def split: sum.splits)
    qed
  qed
qed

lemma services_invI:
  assumes "alive g \<subseteq> lost g \<union> pid ` set_option (recorded g)"
    and "\<And>r. recorded g = Some r \<Longrightarrow> possible_pid (pid r)" and "\<And>r. r \<in> set (under_way g) \<Longrightarrow> possible_pid (pid r)"
  shows "services_inv g"
  using assms by (auto simp: services_inv_def)

lemma services_invD:
  assumes "services_inv g"
  shows "alive g \<subseteq> lost g \<union> pid ` set_option (recorded g)"
    and "recorded g = Some r \<Longrightarrow> possible_pid (pid r)" and "r \<in> set (under_way g) \<Longrightarrow> possible_pid (pid r)"
  using assms by (auto simp: services_inv_def)

lemma services_inv_begin:
  assumes inv: "services_inv g" and made: "start_locked (the_service g) w l = Some (res, effs)"
    and kept: "shows_file (the_service g) (recorded g) (w 0)" and seen: "shows_alive (the_service g) (alive g) (w 0)"
    and new: "possible_pid (child_pid l)" "child_pid l \<notin> alive g \<union> lost g \<union> pid ` set (under_way g)"
    and watch: "watched (the_service g) (\<lambda>k. w (Suc k)) A
       (if Spawn (child_pid l) \<in> set effs then insert (child_pid l) (alive g) else alive g) B"
  shows "services_inv (g\<lparr>alive := B, recorded := file_after effs (recorded g),
          under_way := (case res of Begun r \<Rightarrow> r # under_way g | _ \<Rightarrow> under_way g),
          lost := lost g \<union> {p. res = Not_begun (Did_not_exit p)}\<rparr>)"
proof -
  note D = services_invD [OF inv]
  note B = watched_start [OF watch]
  note empty = made_only_when_none [OF inv made _ kept seen]
  have shown: "\<exists>A. \<forall>k. shows_alive (the_service g) (A k) (w k)"
  proof (intro exI allI)
    show "shows_alive (the_service g) (case k of 0 \<Rightarrow> alive g | Suc k \<Rightarrow> A k) (w k)" for k
      using seen watch by (cases k) (auto simp: watched_def)
  qed
  from made show ?thesis
  proof (cases rule: start_locked_cases)
    case none
    with B D have "B \<subseteq> lost g \<union> pid ` set_option (recorded g)" by auto
    with none D show ?thesis by (intro services_invI) (auto split: begun.splits)
  next
    case (made r)
    with B empty new D show ?thesis by (intro services_invI) (auto split: begun.splits)
  next
    case (unsaved b sent m e)
    have "B \<subseteq> lost g \<union> {p. res = Not_begun (Did_not_exit p)}"
    proof (cases "b = Inl e")
      case True
      from shown terminate_child_failure [OF _ new(1) unsaved(5) [unfolded True]]
      have "e = Did_not_exit (child_pid l)" by blast
      with B empty unsaved(1,3,4) show ?thesis by auto
    next
      case False
      with unsaved(6) obtain x where b: "b = Inr x" by blast
      from watch have "watched (the_service g) (\<lambda>k. w (1 + k)) A
        (if Spawn (child_pid l) \<in> set effs then insert (child_pid l) (alive g) else alive g) B" by simp
      from terminate_kills [OF this new(1) _ unsaved(5) [unfolded b]] B empty unsaved(3,4)
      show ?thesis by auto
    qed
    with unsaved(1,2) D show ?thesis by (intro services_invI) (auto split: begun.splits)
  qed
qed

lemma undo_start_cases:
  assumes "undo_start svc w r e n = Some (res, effs)" and "\<forall>k. shows_file svc f (w k)"
  obtains (failed) "\<And>f. file_after effs f = f"
  | (undone) b sent m where "terminate svc w True (pid r) (stop_timeout svc) n = Some (Inr b, sent, m)"
      "\<And>x. file_after effs x = (if f = Some r then None else x)"
proof -
  from assms obtain b sent m where t: "terminate svc w True (pid r) (stop_timeout svc) n = Some (b, sent, m)"
    by (auto simp: undo_start_def split: option.splits)
  note t' = terminate_signals [OF t]
  show ?thesis
  proof (cases b)
    case (Inl e')
    with t t' assms(1) failed show ?thesis by (auto simp: undo_start_def)
  next
    case (Inr x)
    have "load_record (json_of (w m) (state_file svc)) = Inr f" using assms(2) by (simp add: shows_file_def)
    with t t' assms(1) Inr undone show ?thesis by (auto simp: undo_start_def)
  qed
qed

lemma stop_cases:
  assumes "stop svc w timeout = Some (res, effs)" and "shows_file svc f (w 0)"
  obtains (failed) e where "res = Inl e" "\<And>f. file_after effs f = f"
  | (cleared) x b where "res = Inr (x, b)" "\<And>f. file_after effs f = None" "f = x"
      "\<forall>r. x = Some r \<longrightarrow> runs_module (entry_module svc) (w 0) (pid r) = Inr False \<or>
         (\<exists>b sent m. terminate svc w False (pid r) timeout 0 = Some (Inr b, sent, m))"
proof -
  from assms(2) have f: "load_record (json_of (w 0) (state_file svc)) = Inr f" by (simp add: shows_file_def)
  show ?thesis
  proof (cases f)
    case None
    with f assms(1) show ?thesis by (intro cleared [of None False]) (auto simp: stop_def)
  next
    case (Some r)
    show ?thesis
    proof (cases "runs_module (entry_module svc) (w 0) (pid r)")
      case (Inl e)
      with f Some assms(1) failed show ?thesis by (auto simp: stop_def)
    next
      case (Inr runs)
      show ?thesis
      proof (cases runs)
        case False
        with f Some Inr assms(1) cleared show ?thesis by (auto simp: stop_def)
      next
        case True
        with f Some Inr assms(1) obtain b sent m where t: "terminate svc w False (pid r) timeout 0 = Some (b, sent, m)"
          by (auto simp: stop_def split: option.splits)
        note t' = terminate_signals [OF t]
        with f Some Inr True t assms(1) failed cleared show ?thesis by (auto simp: stop_def split: sum.splits)
      qed
    qed
  qed
qed

text \<open>After a stop that returned, only lost processes are left.\<close>

lemma stopped_all:
  assumes "services_inv g" and "watched (the_service g) w A (alive g) B" and "recorded g = x"
    and "\<forall>r. x = Some r \<longrightarrow> runs_module (entry_module (the_service g)) (w 0) (pid r) = Inr False \<or>
         (\<exists>b sent m. terminate (the_service g) w False (pid r) timeout 0 = Some (Inr b, sent, m))"
  shows "B \<subseteq> lost g"
proof (cases x)
  case None
  with services_invD(1) [OF assms(1)] watched_start [OF assms(2)] assms(3) show ?thesis by auto
next
  case (Some r)
  with assms(3) services_invD(2) [OF assms(1)] have pos: "possible_pid (pid r)" by simp
  have "pid r \<notin> B"
    using assms(4) Some
  proof (elim allE impE disjE exE)
    assume "runs_module (entry_module (the_service g)) (w 0) (pid r) = Inr False"
    then have "gone (the_service g) False (pid r) (w 0) = Inr True" by (simp add: gone_foreign)
    from watched_gone [OF assms(2) this pos] show ?thesis .
  next
    fix b sent m
    assume t: "terminate (the_service g) w False (pid r) timeout 0 = Some (Inr b, sent, m)"
    from assms(2) have "watched (the_service g) (\<lambda>k. w (0 + k)) A (alive g) B" by simp
    from terminate_kills [OF this pos _ t] show ?thesis by simp
  qed simp
  with services_invD(1) [OF assms(1)] watched_start [OF assms(2)] assms(3) Some show ?thesis by auto
qed

lemma services_inv_step:
  assumes "services_inv g" and "service_step g c h"
  shows "services_inv h"
  using assms(2)
proof cases
  case (begin_start w l res effs A B)
  show ?thesis unfolding begin_start(1,2)
    by (rule services_inv_begin [OF assms(1) begin_start(3-8)])
next
  case (ready r w deadline n st m)
  with assms(1) show ?thesis by (auto simp: services_inv_def dest: notin_set_remove1)
next
  case (undo r w e n res effs A B)
  note D = services_invD [OF assms(1)]
  note B = watched_start [OF undo(6)]
  have rest: "r' \<in> set (remove1 r (under_way g)) \<Longrightarrow> possible_pid (pid r')" for r'
    using D(3) by (meson notin_set_remove1)
  from undo(4,5) show ?thesis
  proof (cases rule: undo_start_cases)
    case failed
    with B D rest undo(2) show ?thesis by (intro services_invI) auto
  next
    case (undone b sent m)
    from undo(6) have "watched (the_service g) (\<lambda>k. w (0 + k)) A (alive g) B" by simp
    from terminate_kills [OF this D(3) [OF undo(3)] _ undone(1)] have "pid r \<notin> B" by simp
    with undone B D rest undo(2) show ?thesis by (intro services_invI) (auto split: if_splits)
  qed
next
  case (stop_it w timeout res effs A B)
  note D = services_invD [OF assms(1)]
  note B = watched_start [OF stop_it(5)]
  from stop_it(4) have "shows_file (the_service g) (recorded g) (w 0)" by simp
  from stop_it(3) this show ?thesis
  proof (cases rule: stop_cases)
    case (failed e)
    with B D stop_it(2) show ?thesis by (intro services_invI) auto
  next
    case (cleared x b)
    with stopped_all [OF assms(1) stop_it(5)] D stop_it(2) show ?thesis
      by (intro services_invI) auto
  qed
next
  case (die B)
  with assms(1) show ?thesis by (auto simp: services_inv_def)
qed

definition services_initial :: "services \<Rightarrow> bool" where
  "services_initial g \<longleftrightarrow> (\<exists>f. g = no_service (the_service g) f \<and> (\<forall>r. f = Some r \<longrightarrow> possible_pid (pid r)))"

interpretation services: machine services_initial service_step services_inv
proof
  fix g c h
  assume "services_initial g"
  then obtain svc f where g: "g = no_service svc f" "\<forall>r. f = Some r \<longrightarrow> possible_pid (pid r)"
    by (auto simp: services_initial_def)
  then show "services_inv g" by (intro services_invI) (auto simp: no_service_def)
qed (rule services_inv_step)

text \<open>A record that was saved reads back as it is.\<close>

lemma saved_record_reads_back: "0 < pid r \<Longrightarrow> load_record (Some (record_json r)) = Inr (Some r)"
  by (simp add: load_record_def record_json_def int_field_def str_field_def float_field_def)

section \<open>Properties\<close>

lemma gained_lost:
  "services.run g cs h \<Longrightarrow> lost h \<subseteq> lost g \<union> {p. Begin (Not_begun (Did_not_exit p)) \<in> set cs}"
proof (induction rule: services.run.induct)
  case (run_cons s a t as u)
  from run_cons.hyps(1) have "lost t \<subseteq> lost s \<union> {p. a = Begin (Not_begun (Did_not_exit p))}"
    by cases auto
  with run_cons.IH show ?case by auto
qed simp

text \<open>
  C33: Two at once cannot start two. However many starts, undone starts and stops of a service
  run at once and whenever its processes die, every live process of it is the recorded one, up
  to those that a start reported as still there after SIGKILL; without such a report at most one
  is alive. A start that makes a process leaves its record, or nothing; a stop that returns
  leaves no live process and no record.
\<close>

theorem never_two_of_a_service:
  assumes "services.run (no_service svc f) cs g" and "\<forall>r. f = Some r \<longrightarrow> possible_pid (pid r)"
  shows "alive g \<subseteq> lost g \<union> pid ` set_option (recorded g) \<and>
         lost g \<subseteq> {p. Begin (Not_begun (Did_not_exit p)) \<in> set cs} \<and>
         (lost g = {} \<longrightarrow> card (alive g) \<le> 1) \<and>
         (service_step g (Begin (Begun r)) h \<longrightarrow> alive g \<subseteq> lost g \<and> recorded h = Some r) \<and>
         (service_step g (Stop (Inr x)) h \<longrightarrow> alive h \<subseteq> lost h \<and> recorded h = None)"
proof -
  have "services_initial (no_service svc f)" using assms(2) by (simp add: services_initial_def no_service_def)
  from services.reachable_inv [OF this assms(1)] have inv: "services_inv g" .
  then have sub: "alive g \<subseteq> lost g \<union> pid ` set_option (recorded g)" by (rule services_invD)
  have losses: "lost g \<subseteq> {p. Begin (Not_begun (Did_not_exit p)) \<in> set cs}"
    using gained_lost [OF assms(1)] by (simp add: no_service_def)
  have one: "card (alive g) \<le> 1" if "lost g = {}"
  proof (cases "recorded g")
    case (Some r)
    with sub that have "alive g \<subseteq> {pid r}" by auto
    from card_mono [OF _ this] show ?thesis by simp
  qed (use sub that in simp)
  have begun: "alive g \<subseteq> lost g \<and> recorded h = Some r" if "service_step g (Begin (Begun r)) h"
    using that
  proof cases
    case (begin_start w l effs A B)
    from begin_start(2) show ?thesis
    proof (cases rule: start_locked_cases)
      case (made r')
      with made_only_when_none [OF inv begin_start(2) made(4) begin_start(3,4)] begin_start(1)
      show ?thesis by simp
    qed simp_all
  qed
  have stopped: "alive h \<subseteq> lost h \<and> recorded h = None" if "service_step g (Stop (Inr x)) h"
    using that
  proof cases
    case (stop_it w timeout effs A B)
    from stop_it(3) have "shows_file (the_service g) (recorded g) (w 0)" by simp
    from stop_it(2) this show ?thesis
    proof (cases rule: stop_cases)
      case (cleared y b)
      with stopped_all [OF inv stop_it(4) cleared(3)] stop_it(1) show ?thesis by simp
    qed simp
  qed
  show ?thesis using sub losses one begun stopped by blast
qed

text \<open>A gateway is started, dies, and is stopped.\<close>

definition how_it_is :: "int set \<Rightarrow> run_record option \<Rightarrow> nat \<Rightarrow> view" where
  "how_it_is A f n =
     \<lparr>json_of = (\<lambda>name. if name = ''gateway.json'' then map_option record_json f else None),
      command_of = (\<lambda>p. if p \<in> A then Some ''agent_lab.gateway'' else None), may_signal = \<lambda>_. True,
      answers = \<lambda>_ _. None, rss_of = \<lambda>_. None, polled = (\<lambda>p. if p \<in> A then None else Some 0),
      now = of_nat n, interrupted = False\<rparr>"

lemma one_word: "words_from [] ''agent_lab.gateway'' = [''agent_lab.gateway'']"
  by code_simp

lemma how_it_is_alive: "shows_alive gateway_service A (how_it_is A f n)"
proof -
  have "runs_module ''agent_lab.gateway'' (how_it_is A f n) p = Inr (p \<in> A)" if "possible_pid p" for p
    using that by (cases "p \<in> A") (simp_all add: runs_module_def how_it_is_def one_word possible_pid_def del: words_from.simps)
  then show ?thesis by (simp add: shows_alive_def gateway_service_def) (simp add: how_it_is_def)
qed

lemma how_it_is_file:
  assumes "\<And>r. f = Some r \<Longrightarrow> 0 < pid r"
  shows "shows_file gateway_service f (how_it_is A f n)"
proof -
  have "json_of (how_it_is A f n) (state_file gateway_service) = map_option record_json f"
    by (simp add: how_it_is_def gateway_service_def)
  then show ?thesis
    using assms by (cases f) (simp_all add: shows_file_def saved_record_reads_back, simp add: load_record_def)
qed

definition gateway_record :: run_record where
  "gateway_record = new_record gateway_launch (how_it_is {7} None 1)"

definition with_gateway :: services where
  "with_gateway = (no_service gateway_service None)
     \<lparr>alive := {7}, recorded := Some gateway_record, under_way := [gateway_record]\<rparr>"

lemma gateway_begins: "service_step (no_service gateway_service None) (Begin (Begun gateway_record)) with_gateway"
proof -
  let ?w = "\<lambda>n. how_it_is (if n = 0 then {} else {7}) None n" and ?g = "no_service gateway_service None"
  have made: "start_locked gateway_service ?w gateway_launch =
      Some (Begun gateway_record, [Clear_files, Spawn 7, Save gateway_record])"
    by (simp add: start_locked_def status_def load_record_def how_it_is_def gateway_service_def
        gateway_launch_def gateway_record_def Let_def)
  have "watched gateway_service (\<lambda>k. ?w (Suc k)) (\<lambda>_. {7}) {7} {7}"
    using how_it_is_alive by (simp add: watched_def)
  then show ?thesis
    using service_step.begin_start [of ?g ?w gateway_launch _ _ "\<lambda>_. {7}" "{7}", simplified no_service_def services.simps, OF made]
      how_it_is_file [of None] how_it_is_alive [of "{}" None 0]
    by (simp add: no_service_def with_gateway_def possible_pid_def PID_MAX_def gateway_launch_def)
qed

lemma gateway_stops: "service_step with_gateway (Stop (Inr (Some gateway_record, False)))
    (with_gateway\<lparr>alive := {}, recorded := None\<rparr>)"
proof -
  let ?w = "how_it_is {} (Some gateway_record)"
  have pid: "pid gateway_record = 7" by (simp add: gateway_record_def gateway_launch_def)
  have saved: "shows_file gateway_service (Some gateway_record) (?w n)" for n
    by (rule how_it_is_file) (simp add: pid)
  have "runs_module (entry_module gateway_service) (?w 0) 7 = Inr False"
    using how_it_is_alive [of "{}"] by (simp add: shows_alive_def possible_pid_def PID_MAX_def)
  with saved [of 0] have "stop gateway_service ?w 10 = Some (Inr (Some gateway_record, False), [Clear_files])"
    by (simp add: stop_def shows_file_def pid)
  moreover have "watched gateway_service ?w (\<lambda>_. {}) {7} {}" using how_it_is_alive by (simp add: watched_def)
  ultimately show ?thesis
    using service_step.stop_it [of with_gateway ?w 10 _ _ "\<lambda>_. {}" "{}"] saved
    by (simp add: with_gateway_def no_service_def)
qed

lemma never_two_of_a_service_witness:
  "services.run (no_service gateway_service None) [Begin (Begun gateway_record)] with_gateway \<and>
   alive with_gateway = {7} \<and> alive with_gateway \<subseteq> pid ` set_option (recorded with_gateway) \<and>
   (\<exists>h. service_step with_gateway (Stop (Inr (Some gateway_record, False))) h \<and> recorded h = None)"
proof -
  have run: "services.run (no_service gateway_service None) [Begin (Begun gateway_record)] with_gateway"
    using gateway_begins by (blast intro: services.run.intros)
  have "lost with_gateway = {}" "alive with_gateway = {7}" by (simp_all add: with_gateway_def no_service_def)
  with never_two_of_a_service [OF run, of gateway_record "with_gateway\<lparr>alive := {}, recorded := None\<rparr>" "(Some gateway_record, False)"] gateway_stops run show ?thesis by auto
qed

end
