(* ===== verification/Serve_Properties.thy ===== *)
theory Serve_Properties
  imports Serve Pull_Properties Process_Properties
begin

text \<open>
  What the parts promise together: a backend is only started on a verified model and within the GPU
  limit, and a gateway only in front of a backend that is up.
\<close>

text \<open>The GPU limit in force is known and is what the profile needs or more.\<close>

definition limit_enough :: "serving \<Rightarrow> profile \<Rightarrow> bool" where
  "limit_enough s p \<longleftrightarrow> system (info_found s) = ''Darwin'' \<and>
     (\<exists>n. effective_mb (limits_found s) = Some n \<and> gpu_wired_limit_mb p \<le> n)"

lemma gpu_check_passed:
  "outcome (check_gpu_limit (info_found s) p (limits_found s)) = OK \<Longrightarrow> limit_enough s p"
  by (auto simp: check_gpu_limit_def limit_enough_def Check_def Let_def split: if_splits option.splits)

lemma preflight_passed:
  assumes "preflight s p force = Inr warnings"
  shows "\<exists>reg entry. registry_found s = Inr reg \<and> get_entry (profile.model_id p) reg = Inr entry \<and>
    model_state s entry = Downloaded \<and> \<not> used_port s (backend_port (backend p)) \<and>
    (limit_enough s p \<or> force \<and> (\<exists>t. Gpu_warning t \<in> set warnings))"
  using assms gpu_check_passed
  by (auto simp: preflight_def Let_def and_then_eq_Inr split: sum.splits if_splits)

text \<open>The service a report is about, and whether it was up when it was looked at.\<close>

fun status_in :: "report \<Rightarrow> status" where
  "status_in (Already_up st) = st"
| "status_in (Other_started st) = st"
| "status_in (Is_ready st) = st"

lemma start_up:
  assumes "start svc w l timeout = Some (res, effs)" and "ticks step w"
  shows "(\<forall>st. res = Already st \<longrightarrow> up (st_state st) \<and> effs = []) \<and>
    (\<forall>st. res = Started st \<longrightarrow> up (st_state st) \<and> st_record st = Some (new_record l (w 1))) \<and>
    (effs \<noteq> [] \<longrightarrow> (\<forall>x \<in> set effs. child_effect w l x))"
  using start_cases [OF assms(2), of svc l timeout] assms(1)
  by (auto simp: up_def split: started.splits)

lemma backend_started:
  assumes "start_backend s p force = Some (Inr (warnings, r), b)" and "ticks step (backend_moments s)"
  shows "up (st_state (status_in r)) \<and> (\<forall>st. r = Already_up st \<longrightarrow> profile_of st = profile_name p \<and> b = []) \<and>
    (\<forall>st. r = Is_ready st \<longrightarrow> st_record st = Some (new_record (backend_child s) (backend_moments s 1)))"
proof -
  obtain current where c: "backend_status (before_backend s) = Inr current"
    using assms(1) by (auto simp: start_backend_def split: sum.splits)
  show ?thesis
  proof (cases "up (st_state current)")
    case True
    with c assms(1) show ?thesis by (auto simp: start_backend_def split: if_splits)
  next
    case False
    with c assms(1) obtain res where st: "backend_start (backend_moments s) (backend_child s)
        (of_int (start_timeout_seconds (backend p))) = Some (res, b)"
      and r: "(\<exists>st. res = Already st \<and> r = Other_started st) \<or> (\<exists>st. res = Started st \<and> r = Is_ready st)"
      by (auto simp: start_backend_def split: sum.splits option.splits started.splits)
    from start_up [OF st [unfolded backend_start_def] assms(2)] r show ?thesis by auto
  qed
qed

lemma backend_touched:
  assumes "start_backend s p force = Some (res, b)" and "b \<noteq> []"
  shows "\<exists>warnings. preflight s p force = Inr warnings \<and> (\<forall>ws r. res = Inr (ws, r) \<longrightarrow> ws = warnings)"
  using assms by (auto simp: start_backend_def split: sum.splits option.splits started.splits if_splits)

lemma gateway_started:
  assumes "start_gateway s p = Some (res, g)" and "ticks step (gateway_moments s)"
  shows "(\<forall>r. res = Inr r \<longrightarrow> up (st_state (status_in r)) \<and> (\<forall>st. r = Already_up st \<longrightarrow> profile_of st = profile_name p)) \<and>
    (g \<noteq> [] \<longrightarrow> \<not> used_port s (gateway_port (gateway p)))"
proof -
  show ?thesis
  proof (cases "gateway_start (gateway_moments s) (gateway_child s)")
    case None
    with assms(1) show ?thesis by (auto simp: start_gateway_def Let_def split: sum.splits if_splits)
  next
    case (Some x)
    obtain r effs where x: "x = (r, effs)" by (cases x)
    from start_up [OF Some [unfolded gateway_start_def x] assms(2)] assms(1) Some x show ?thesis
      by (auto simp: start_gateway_def Let_def split: sum.splits if_splits started.splits)
  qed
qed

lemma backend_on_verified_model:
  assumes "start_backend s p force = Some (rb, b)" and "b \<noteq> []"
    and "model_state s = (\<lambda>e. local_state shown e (dirs e))"
    and "\<And>e. records_sound sha (me_files e) (load_records shown (dirs e)) (dirs e)"
  shows "(\<exists>reg entry. registry_found s = Inr reg \<and> get_entry (profile.model_id p) reg = Inr entry \<and>
        (\<forall>f \<in> set (me_files entry). \<exists>st. map_of (md_files (dirs entry)) (mf_name f) = Some st \<and>
          sha (disk_file.content st) = mf_sha256 f)) \<and>
      \<not> used_port s (backend_port (backend p)) \<and> (limit_enough s p \<or> force) \<and>
      (limit_enough s p \<or> (\<forall>warnings r. rb = Inr (warnings, r) \<longrightarrow> (\<exists>t. Gpu_warning t \<in> set warnings)))"
proof -
  obtain warnings where w: "preflight s p force = Inr warnings" "\<forall>ws r. rb = Inr (ws, r) \<longrightarrow> ws = warnings"
    using backend_touched [OF assms(1,2)] by blast
  from preflight_passed [OF w(1)] obtain reg entry where e: "registry_found s = Inr reg"
    "get_entry (profile.model_id p) reg = Inr entry" "local_state shown entry (dirs entry) = Downloaded"
    "\<not> used_port s (backend_port (backend p))"
    "limit_enough s p \<or> force \<and> (\<exists>t. Gpu_warning t \<in> set warnings)"
    unfolding assms(3) by blast
  have "\<exists>st. map_of (md_files (dirs entry)) (mf_name f) = Some st \<and> sha (disk_file.content st) = mf_sha256 f"
    if "f \<in> set (me_files entry)" for f
    by (rule downloaded_files [OF e(3) assms(4) that])
  with e w(2) show ?thesis by blast
qed

text \<open>
  C35: \<open>serve\<close> touches the backend only if a key exists, the profile's model is in the registry and counts as
  downloaded - so that every file of it is in place with the registry's hash, if its records tell the truth, as
  \<open>pull\<close> leaves them (C29) -, the backend's port is free, and the GPU limit in force is known to be enough. With
  \<open>--force\<close> the limit may be too low or unknown, and a warning says so. It touches the gateway only behind a
  backend that is up, on a free port; and when it returns, both services are up, and one that was already up serves
  this profile. The clocks of the two starts go on.
\<close>

theorem serve_starts_what_can_run:
  assumes "serve s p force = Some (res, b, g)"
    and "ticks step (backend_moments s)" and "ticks step (gateway_moments s)"
    and "model_state s = (\<lambda>e. local_state shown e (dirs e))"
    and "\<And>e. records_sound sha (me_files e) (load_records shown (dirs e)) (dirs e)"
  shows "(b \<noteq> [] \<or> g \<noteq> [] \<longrightarrow> (\<exists>k ks. keys_found s = Inr (k # ks))) \<and>
    (b \<noteq> [] \<longrightarrow> (\<exists>reg entry. registry_found s = Inr reg \<and> get_entry (profile.model_id p) reg = Inr entry \<and>
        (\<forall>f \<in> set (me_files entry). \<exists>st. map_of (md_files (dirs entry)) (mf_name f) = Some st \<and>
          sha (disk_file.content st) = mf_sha256 f)) \<and>
      \<not> used_port s (backend_port (backend p)) \<and>
      (limit_enough s p \<or> force)) \<and>
    (g \<noteq> [] \<longrightarrow> \<not> used_port s (gateway_port (gateway p)) \<and>
      (\<exists>warnings r. start_backend s p force = Some (Inr (warnings, r), b) \<and> up (st_state (status_in r)))) \<and>
    (\<forall>warnings r r'. res = Inr (warnings, r, r') \<longrightarrow>
      up (st_state (status_in r)) \<and> up (st_state (status_in r')) \<and>
      (\<forall>st. r = Already_up st \<or> r' = Already_up st \<longrightarrow> profile_of st = profile_name p) \<and>
      (b \<noteq> [] \<and> \<not> limit_enough s p \<longrightarrow> (\<exists>t. Gpu_warning t \<in> set warnings)))"
proof (cases "\<exists>k ks. keys_found s = Inr (k # ks)")
  case False
  then have "b = [] \<and> g = [] \<and> (\<exists>e. res = Inl e)"
    using assms(1) by (auto simp: serve_def split: sum.splits list.splits)
  then show ?thesis by auto
next
  case True
  then obtain k ks where keys: "keys_found s = Inr (k # ks)" by blast
  obtain rb where bk: "start_backend s p force = Some (rb, b)"
    using assms(1) keys by (auto simp: serve_def split: option.splits prod.splits sum.splits)
  note touched = backend_on_verified_model [OF bk _ assms(4,5)]
  show ?thesis
  proof (cases rb)
    case (Inl e)
    then have "g = []" "res = Inl e" using assms(1) keys bk by (simp_all add: serve_def)
    with True touched show ?thesis by blast
  next
    case (Inr wr)
    obtain warnings r where wr: "wr = (warnings, r)" by (cases wr)
    note up_b = backend_started [OF bk [unfolded Inr wr] assms(2)]
    obtain rg where gate: "start_gateway s p = Some (rg, g)"
      and res: "res = (case rg of Inl e \<Rightarrow> Inl e | Inr r' \<Rightarrow> Inr (warnings, r, r'))"
      using assms(1) keys bk Inr wr by (auto simp: serve_def split: option.splits prod.splits sum.splits)
    note up_g = gateway_started [OF gate assms(3)]
    have "start_backend s p force = Some (Inr (warnings, r), b)" using bk Inr wr by simp
    with True touched [unfolded Inr wr] up_b up_g res show ?thesis by (auto split: sum.splits)
  qed
qed

text \<open>
  A Mac with a GPU limit of 20480 MB, on which the model of \<open>some_profile\<close> is in place and nothing runs yet: the
  backend and the gateway come up at moment 2.
\<close>

definition model_file_in_place :: disk_file where
  "model_file_in_place = \<lparr>disk_file.content = ''xy'', mtime_ns = 1\<rparr>"

definition model_in_place :: model_dir where
  "model_in_place = \<lparr>md_files = [(''a'', model_file_in_place)], md_partials = [],
     md_state = saved \<lparr>verified = [(''a'', record_of model_file_in_place ''xy'')], failed_names = []\<rparr>\<rparr>"

definition backend_starting :: moments where
  "backend_starting n =
     \<lparr>json_of = (\<lambda>f. if n \<ge> 2 \<and> f = ''backend.ready.json'' then Some (PDict [(''pid'', PInt 9)]) else None),
      command_of = \<lambda>_. None, may_signal = \<lambda>_. True, answers = \<lambda>_ _. Some 200, rss_of = \<lambda>_. None,
      polled = \<lambda>_. None, now = of_nat n, interrupted = False\<rparr>"

definition ready_machine :: serving where
  "ready_machine =
     \<lparr>keys_found = Inr [\<lparr>entry_name = ''cursor'', entry_hash = ''h'', entry_created = ''today''\<rparr>],
      registry_found = Inr [(''m'', one_file)],
      model_state = (\<lambda>e. local_state (\<lambda>_. []) e model_in_place),
      info_found = \<lparr>system = ''Darwin'', machine_name = ''arm64'', chip = [], memory_bytes = None, macos_version = []\<rparr>,
      limits_found = \<lparr>wired_limit_mb = Some 20480, metal = \<lparr>recommended_bytes = None, metal_note = []\<rparr>,
        memory_of = Some (24 * 1024 ^ 3)\<rparr>,
      stats_found = None, used_port = \<lambda>_. False, owner_of = \<lambda>_. [],
      before_backend = backend_starting 0, at_port_check = backend_starting 0,
      backend_moments = backend_starting,
      backend_child = \<lparr>child_pid = 9, launch_port = 8081, launch_profile = ''mac'', launch_model = ''m'',
        console_used = False, saves = True\<rparr>,
      before_gateway = starting 0, gateway_moments = starting, gateway_child = gateway_launch\<rparr>"

lemma in_place_files: "md_files model_in_place = [(''a'', model_file_in_place)]"
  by (simp add: model_in_place_def)

lemma in_place_records: "load_records shown model_in_place =
    \<lparr>verified = [(''a'', record_of model_file_in_place ''xy'')], failed_names = []\<rparr>"
  by (rule load_saved) (simp add: model_in_place_def)

lemma in_place_known: "known_sha256 (load_records shown model_in_place) (map_of (md_files model_in_place) n) n =
    (if n = ''a'' then Some ''xy'' else None)"
  by (simp add: in_place_records in_place_files known_sha256_def record_of_def)

lemma ready_model: "local_state shown one_file model_in_place = Downloaded"
  using in_place_known [of shown "''a''"]
  by (simp add: local_state_def one_file_def in_place_files in_place_records Let_def)

lemma ready_sound: "records_sound (\<lambda>x. x) fs (load_records shown model_in_place) model_in_place"
proof -
  have "disk_file.content st = k" if "map_of (md_files model_in_place) n = Some st"
    "known_sha256 (load_records shown model_in_place) (Some st) n = Some k" for n st k
    using in_place_known [of shown n] that
    by (auto simp: in_place_files model_file_in_place_def split: if_splits)
  then show ?thesis by (simp add: records_sound_def)
qed

lemma ready_fields:
  "keys_found ready_machine = Inr [\<lparr>entry_name = ''cursor'', entry_hash = ''h'', entry_created = ''today''\<rparr>]"
  "registry_found ready_machine = Inr [(''m'', one_file)]"
  "model_state ready_machine = (\<lambda>e. local_state (\<lambda>_. []) e model_in_place)"
  "system (info_found ready_machine) = ''Darwin''" "stats_found ready_machine = None"
  "limits_found ready_machine = \<lparr>wired_limit_mb = Some 20480, metal = \<lparr>recommended_bytes = None, metal_note = []\<rparr>,
     memory_of = Some (24 * 1024 ^ 3)\<rparr>"
  "used_port ready_machine = (\<lambda>_. False)"
  "before_backend ready_machine = backend_starting 0" "backend_moments ready_machine = backend_starting"
  "backend_child ready_machine = \<lparr>child_pid = 9, launch_port = 8081, launch_profile = ''mac'', launch_model = ''m'',
        console_used = False, saves = True\<rparr>"
  "before_gateway ready_machine = starting 0" "gateway_moments ready_machine = starting"
  "gateway_child ready_machine = gateway_launch"
  by (simp_all add: ready_machine_def)

lemma ready_limit: "outcome (check_gpu_limit (info_found ready_machine) some_profile (limits_found ready_machine)) = OK"
  by (simp add: check_gpu_limit_def Check_def ready_fields some_profile_def ceiling_mb_def MIB_def HEADROOM_MB_def
      effective_mb_def Let_def)

lemma ready_preflight: "\<exists>w. preflight ready_machine some_profile False = Inr w"
  using ready_model ready_limit
  by (simp add: preflight_def ready_fields some_profile_def get_entry_def check_memory_pressure_def Let_def)

lemma backend_starting_starts:
  "\<exists>st effs. start backend_service backend_starting
     \<lparr>child_pid = 9, launch_port = 8081, launch_profile = ''mac'', launch_model = ''m'',
        console_used = False, saves = True\<rparr> timeout = Some (Started st, effs)"
  by (simp add: start_def status_def load_record_def backend_service_def backend_starting_def
      wait_ready.simps read_record_def Let_def)

lemma none_running: "backend_status (backend_starting 0) = Inr st \<Longrightarrow> \<not> up (st_state st)"
  "\<exists>st. backend_status (backend_starting 0) = Inr st"
  "gateway_status (starting 0) = Inr st \<Longrightarrow> \<not> up (st_state st)"
  "\<exists>st. gateway_status (starting 0) = Inr st"
  by (auto simp: backend_status_def gateway_status_def status_def load_record_def backend_service_def
      gateway_service_def backend_starting_def starting_def up_def)

lemma ready_serves: "\<exists>w st st' b g. serve ready_machine some_profile False = Some (Inr (w, Is_ready st, Is_ready st'), b, g) \<and> b \<noteq> []"
proof -
  obtain w where pre: "preflight ready_machine some_profile False = Inr w" using ready_preflight by blast
  obtain sb where sb: "backend_status (backend_starting 0) = Inr sb" using none_running(2) by blast
  obtain sg where sg: "gateway_status (starting 0) = Inr sg" using none_running(4) by blast
  obtain st b where x: "start backend_service backend_starting
     \<lparr>child_pid = 9, launch_port = 8081, launch_profile = ''mac'', launch_model = ''m'',
        console_used = False, saves = True\<rparr> (of_int (start_timeout_seconds (backend some_profile))) = Some (Started st, b)"
    using backend_starting_starts by blast
  have b: "start_backend ready_machine some_profile False = Some (Inr (w, Is_ready st), b)"
    by (simp add: start_backend_def ready_fields backend_start_def pre sb none_running(1) [OF sb] x)
  obtain st' g where y: "start gateway_service starting gateway_launch 120 = Some (Started st', g)"
    using starting_starts by blast
  have g: "start_gateway ready_machine some_profile = Some (Inr (Is_ready st'), g)"
    by (simp add: start_gateway_def ready_fields gateway_start_def Let_def sg none_running(3) [OF sg] y)
  have "b \<noteq> []" using x by (auto simp: start_def Let_def split: sum.splits if_splits option.splits prod.splits)
  with b g show ?thesis by (simp add: serve_def ready_fields)
qed

theorem serve_starts_what_can_run_witness:
  "\<exists>w st st' b g. serve ready_machine some_profile False = Some (Inr (w, Is_ready st, Is_ready st'), b, g) \<and>
    b \<noteq> [] \<and> limit_enough ready_machine some_profile \<and> up (st_state st) \<and> up (st_state st')"
proof -
  obtain w st st' b g where s: "serve ready_machine some_profile False = Some (Inr (w, Is_ready st, Is_ready st'), b, g)"
    and b: "b \<noteq> []"
    using ready_serves by blast
  have "ticks 1 (backend_moments ready_machine)" "ticks 1 (gateway_moments ready_machine)"
    by (simp_all add: ready_fields ticks_def backend_starting_def starting_def)
  from serve_starts_what_can_run [OF s this ready_fields(3) ready_sound] s b show ?thesis by auto
qed

end
