(* ===== verification/Launcher_Properties.thy ===== *)
theory Launcher_Properties
  imports Launcher Registry_Sizes
begin

text \<open>
  What the launcher guarantees: the log has the server's lines whole, without request bodies; the
  watchdog reports the first reading above the limit; and the ready record is only written once the
  model is loaded.
\<close>

section \<open>The redirected output\<close>

lemma split_at_join:
  "split_at c (s @ t) = butlast (split_at c s) @ split_at c (last (split_at c s) @ t)"
proof (induction s)
  case Nil
  then show ?case by simp
next
  case (Cons x s)
  then show ?case
    by (cases "split_at c s"; cases "split_at c (last (split_at c s) @ t)") auto
qed

lemma stream_writes_lines:
  "fst (stream_writes b ts) @ log_line (snd (stream_writes b ts)) =
     concat (map log_line (split_at NEWLINE (b @ concat ts)))"
  if "NEWLINE \<notin> set b"
  using that
proof (induction ts arbitrary: b)
  case Nil
  then show ?case by (simp add: split_at_free)
next
  case (Cons t ts)
  let ?ls = "split_at NEWLINE (b @ t)"
  have "NEWLINE \<notin> set (last ?ls)" by (rule split_at_no_sep [of _ _ "b @ t"]) simp
  from Cons.IH [OF this] show ?case
    using split_at_join [of NEWLINE "b @ t" "concat ts"]
    by (simp add: stream_write_def split_beta Let_def)
qed

lemma log_lines:
  "concat (map log_line ls) = map rstrip (filter (\<lambda>l. strip l \<noteq> []) ls)"
  by (induction ls) (auto simp: log_line_def)

text \<open>
  However the text is cut into writes, what the redirected output logs up to the last flush is the
  lines of the whole text, in order, each once and whole, without trailing blanks and without those
  that are blank.
\<close>

lemma output_logged_by_lines:
  "fst (stream_writes [] ts) @ fst (stream_flush (snd (stream_writes [] ts))) =
     map rstrip (filter (\<lambda>l. strip l \<noteq> []) (split_at NEWLINE (concat ts)))"
  using stream_writes_lines [of "[]" ts] by (simp add: stream_flush_def log_lines)

section \<open>Request bodies\<close>

lemma text_before_eq:
  "text_before m s = Some p \<Longrightarrow> \<exists>r. s = p @ m @ r"
proof (induction s arbitrary: p)
  case Nil
  then show ?case by (simp split: if_splits)
next
  case (Cons c s)
  then show ?case by (auto split: if_splits elim: prefixE)
qed

lemma text_before_None: "text_before m s = None \<longleftrightarrow> \<not> sublist m s"
  by (induction s) (auto simp: sublist_Cons_right)

text \<open>Where a marker is found does not depend on what follows it.\<close>

lemma text_before_append:
  "text_before m u = Some q \<Longrightarrow> text_before m (u @ b) = Some q"
proof (induction u arbitrary: q)
  case Nil
  then show ?case by (cases b) (simp_all split: if_splits)
next
  case (Cons c u)
  show ?case
  proof (cases "prefix m (c # u)")
    case True
    then have "prefix m (c # u @ b)" by (metis append_Cons prefix_prefix)
    with True Cons.prems show ?thesis by simp
  next
    case False
    with Cons.prems obtain q' where q': "text_before m u = Some q'" "q = c # q'" by auto
    from text_before_eq [OF q'(1)] have "length m \<le> length (c # u)" by auto
    then have "prefix m ((c # u) @ b) \<Longrightarrow> prefix m (c # u)"
      using prefix_length_prefix [of m "(c # u) @ b" "c # u"] by simp
    with False have "\<not> prefix m ((c # u) @ b)" by blast
    with Cons.IH [OF q'(1)] q'(2) show ?thesis by simp
  qed
qed

lemma text_before_marker:
  "\<exists>q. \<forall>b. text_before m (p @ m @ b) = Some q"
proof -
  have "text_before m (p @ m @ []) \<noteq> None" by (simp only: text_before_None sublist_appendI not_not)
  then obtain q where "text_before m (p @ m) = Some q" by auto
  from text_before_append [OF this] show ?thesis by auto
qed

lemma cut_found:
  "text_before m s = Some q \<Longrightarrow> cut_at (m # ms) s = q @ m @ '' [request body omitted]''"
  by simp

lemma cut_missing: "\<not> sublist m s \<Longrightarrow> cut_at (m # ms) s = cut_at ms s"
  using text_before_None [of m s] by simp

lemma first_marker_hides: "cut_at (m # ms) (p @ m @ b) = cut_at (m # ms) (p @ m @ b')"
proof -
  obtain q where "\<forall>b. text_before m (p @ m @ b) = Some q"
    using text_before_marker by blast
  then show ?thesis by simp
qed

lemma second_marker_hides:
  assumes "\<not> sublist m (p @ n @ b)" and "\<not> sublist m (p @ n @ b')"
  shows "cut_at (m # n # ms) (p @ n @ b) = cut_at (m # n # ms) (p @ n @ b')"
  unfolding cut_missing [OF assms(1)] cut_missing [OF assms(2)] by (rule first_marker_hides)

text \<open>
  C36: What is logged of a message that quotes a request body after \<open>Raw body:\<close> does not depend on the
  body; nor does it after \<open>Invalid Request Body:\<close>, unless the message also has the first marker.
\<close>

theorem request_bodies_not_logged:
  "no_bodies (p @ ''Raw body:'' @ b) = no_bodies (p @ ''Raw body:'' @ b') \<and>
   (\<not> sublist ''Raw body:'' (p @ ''Invalid Request Body:'' @ b) \<longrightarrow>
    \<not> sublist ''Raw body:'' (p @ ''Invalid Request Body:'' @ b') \<longrightarrow>
    no_bodies (p @ ''Invalid Request Body:'' @ b) = no_bodies (p @ ''Invalid Request Body:'' @ b'))"
  unfolding no_bodies_def MARKERS_def
  by (intro conjI impI first_marker_hides second_marker_hides)

theorem request_bodies_not_logged_witness:
  "no_bodies (''bad. '' @ ''Raw body:'' @ ''{secret'') = no_bodies (''bad. '' @ ''Raw body:'' @ []) \<and>
   no_bodies ([] @ ''Invalid Request Body:'' @ ''[secret]'') = no_bodies ([] @ ''Invalid Request Body:'' @ [])"
proof
  show "no_bodies (''bad. '' @ ''Raw body:'' @ ''{secret'') = no_bodies (''bad. '' @ ''Raw body:'' @ [])"
    by (rule request_bodies_not_logged [THEN conjunct1])
  show "no_bodies ([] @ ''Invalid Request Body:'' @ ''[secret]'') = no_bodies ([] @ ''Invalid Request Body:'' @ [])"
    by (rule request_bodies_not_logged [THEN conjunct2, rule_format])
      (simp_all add: sublist_code)
qed

text \<open>With the first marker inside the body of the second, the text between them stays in the log.\<close>

lemma marker_in_body_leaks:
  "no_bodies ''Invalid Request Body: [secret Raw body: x]'' =
     ''Invalid Request Body: [secret Raw body: [request body omitted]''"
  by (simp add: no_bodies_def MARKERS_def)
section \<open>The watchdog\<close>

text \<open>A round that lets the watchdog go on.\<close>

definition passes :: "int \<Rightarrow> round \<Rightarrow> bool" where
  "passes limit r \<longleftrightarrow> \<not> halted r \<and> (case reading_of r of Inl _ \<Rightarrow> False | Inr a \<Rightarrow> a \<le> limit)"

text \<open>The clock of the last sample and the events after \<open>n\<close> rounds that let it go on.\<close>

primrec progress :: "bool \<Rightarrow> rat \<Rightarrow> (nat \<Rightarrow> round) \<Rightarrow> nat \<Rightarrow> rat \<times> guard_event list" where
  "progress sampling every rounds 0 = (0, [])"
| "progress sampling every rounds (Suc n) =
     (let (t, evs) = progress sampling every rounds n; r = rounds n
      in if sampling \<and> clock r - t \<ge> every
         then (clock r, evs @ [Sample n (projr (reading_of r))] @ (if recorded r then [] else [Sample_failed]))
         else (t, evs))"

lemma check_within: "a \<le> limit \<Longrightarrow> check_memory_use a limit = Inr None"
  by (simp add: check_memory_use_def)

lemma watch_progress:
  assumes "\<And>j. j < n \<Longrightarrow> passes limit (rounds j)"
  shows "start_watchdog sampling limit every rounds =
    (case progress sampling every rounds n of (t, evs) \<Rightarrow> watch sampling limit every rounds n t evs)"
  using assms
proof (induction n)
  case 0
  then show ?case by (simp add: start_watchdog_def)
next
  case (Suc n)
  obtain t evs where p: "progress sampling every rounds n = (t, evs)" by force
  from Suc have start: "start_watchdog sampling limit every rounds = watch sampling limit every rounds n t evs"
    by (simp add: p)
  from Suc.prems [of n] obtain a where a: "\<not> halted (rounds n)" "reading_of (rounds n) = Inr a" "a \<le> limit"
    by (auto simp: passes_def split: sum.splits)
  show ?case
    unfolding start using a
    by (simp add: watch.simps [of _ _ _ _ n] p check_within Let_def)
qed

text \<open>The rounds in which a sample was taken, and how the samples are spaced\<close>

definition sample_rounds :: "guard_event list \<Rightarrow> nat list" where
  "sample_rounds evs = concat (map (\<lambda>e. case e of Sample j _ \<Rightarrow> [j] | _ \<Rightarrow> []) evs)"

definition truthful :: "(nat \<Rightarrow> round) \<Rightarrow> guard_event \<Rightarrow> bool" where
  "truthful rounds e \<longleftrightarrow>
     (case e of Sample j a \<Rightarrow> reading_of (rounds j) = Inr a | Sample_failed \<Rightarrow> True | _ \<Rightarrow> False)"

definition spaced :: "rat \<Rightarrow> (nat \<Rightarrow> round) \<Rightarrow> nat list \<Rightarrow> bool" where
  "spaced every rounds js \<longleftrightarrow>
     sorted_wrt (\<lambda>i j. i < j \<and> clock (rounds i) + every \<le> clock (rounds j)) js"

text \<open>At round \<open>j\<close> the last sample is not older than \<open>every\<close>.\<close>

definition fresh :: "rat \<Rightarrow> (nat \<Rightarrow> round) \<Rightarrow> nat list \<Rightarrow> nat \<Rightarrow> bool" where
  "fresh every rounds js j \<longleftrightarrow>
     clock (rounds j) < every \<or> (\<exists>i \<in> set js. i \<le> j \<and> clock (rounds j) < clock (rounds i) + every)"

lemma sample_rounds_simps [simp]:
  "sample_rounds [] = []"
  "sample_rounds (evs @ es) = sample_rounds evs @ sample_rounds es"
  "sample_rounds (Sample j a # es) = j # sample_rounds es"
  "sample_rounds (Sample_failed # es) = sample_rounds es"
  by (simp_all add: sample_rounds_def)

definition progress_inv :: "bool \<Rightarrow> rat \<Rightarrow> (nat \<Rightarrow> round) \<Rightarrow> nat \<Rightarrow> rat \<times> guard_event list \<Rightarrow> bool" where
  "progress_inv sampling every rounds n s \<longleftrightarrow>
     (let js = sample_rounds (snd s)
      in list_all (truthful rounds) (snd s) \<and> spaced every rounds js \<and>
         (\<forall>j \<in> set js. j < n \<and> clock (rounds j) \<le> fst s) \<and>
         (js = [] \<and> fst s = 0 \<or> (\<exists>i \<in> set js. fst s = clock (rounds i))) \<and>
         (sampling \<longrightarrow> (\<forall>j < n. fresh every rounds js j)))"

lemma fresh_append: "fresh every rounds js j \<Longrightarrow> fresh every rounds (js @ ks) j"
  by (auto simp: fresh_def)

lemma progress_keeps:
  assumes ok: "\<And>j. j < n \<Longrightarrow> passes limit (rounds j)"
    and mono: "\<And>i j. i \<le> j \<Longrightarrow> clock (rounds i) \<le> clock (rounds j)" and every: "0 < every"
  shows "progress_inv sampling every rounds n (progress sampling every rounds n)"
  using ok
proof (induction n)
  case 0
  then show ?case by (simp add: progress_inv_def spaced_def)
next
  case (Suc n)
  obtain t evs where p: "progress sampling every rounds n = (t, evs)" by force
  let ?js = "sample_rounds evs"
  from Suc have inv: "progress_inv sampling every rounds n (t, evs)" by (simp add: p)
  from Suc.prems [of n] obtain a where a: "reading_of (rounds n) = Inr a"
    by (auto simp: passes_def split: sum.splits)
  show ?case
  proof (cases "sampling \<and> clock (rounds n) - t \<ge> every")
    case True
    have before: "i < n \<and> clock (rounds i) \<le> t" if "i \<in> set ?js" for i
      using inv that by (simp add: progress_inv_def Let_def)
    have "spaced every rounds ?js" using inv by (simp add: progress_inv_def Let_def)
    moreover have "i < n \<and> clock (rounds i) + every \<le> clock (rounds n)" if "i \<in> set ?js" for i
      using before [OF that] True by linarith
    ultimately have "spaced every rounds (?js @ [n])" by (auto simp: spaced_def sorted_wrt_append)
    moreover have "fresh every rounds (?js @ [n]) j" if "j < Suc n" for j
    proof (cases "j < n")
      case j: True
      with inv True have "fresh every rounds ?js j" by (simp add: progress_inv_def Let_def)
      then show ?thesis by (rule fresh_append)
    next
      case False
      with that every show ?thesis by (auto simp: fresh_def less_Suc_eq)
    qed
    moreover have "clock (rounds j) \<le> clock (rounds n)" if "j \<in> set ?js" for j
      using before [OF that] mono [of j n] by simp
    moreover have "progress sampling every rounds (Suc n) =
        (clock (rounds n), evs @ [Sample n a] @ (if recorded (rounds n) then [] else [Sample_failed]))"
      using True p a by (simp add: Let_def)
    moreover have "list_all (truthful rounds) evs" using inv by (simp add: progress_inv_def Let_def)
    ultimately show ?thesis
      using before a by (auto simp: progress_inv_def truthful_def Let_def less_Suc_eq)
  next
    case False
    have "fresh every rounds ?js n" if sampling
    proof (cases "?js = []")
      case True
      with inv that False show ?thesis by (auto simp: progress_inv_def fresh_def)
    next
      case ne: False
      with inv obtain i where "i \<in> set ?js" "t = clock (rounds i)" "i < n"
        by (auto simp: progress_inv_def Let_def)
      with False that show ?thesis by (auto simp: fresh_def intro!: bexI [of _ i])
    qed
    moreover have "progress sampling every rounds (Suc n) = (t, evs)"
      using False p by (simp only: progress.simps Let_def split_conv if_False)
    ultimately show ?thesis using inv by (auto simp: progress_inv_def Let_def less_Suc_eq)
  qed
qed

lemma size_text_returns:
  assumes "n < 2 ^ 64"
  shows "\<exists>t. size_text n = Inr t"
proof -
  have "\<exists>f. int_div n u = Inr f" if u: "u = GIB \<or> u = 1024 ^ 2" for u
  proof (cases "n \<le> 0")
    case True
    then have "(of_int n :: rat) / of_nat u \<le> 0" by (simp add: divide_le_0_iff)
    then show ?thesis by (simp add: int_div_def round_double_def)
  next
    case False
    then have n: "(1 :: rat) \<le> of_int n" by simp
    have "of_int n < (of_int (2 ^ 64) :: rat)" using assms by (simp only: of_int_less_iff)
    then have n': "of_int n < (2 :: rat) ^ 64" by simp
    from u have u': "(1 :: rat) \<le> of_nat u" "of_nat u \<le> (2 :: rat) ^ 30" by (auto simp: GIB_def)
    have "1 / 2 ^ 30 \<le> (of_int n / of_nat u :: rat)"
      using n u' by (intro frac_le) simp_all
    moreover have "(of_int n / of_nat u :: rat) \<le> of_int n / 1"
      using n u' by (intro divide_left_mono) simp_all
    with n' have "(of_int n / of_nat u :: rat) < 2 ^ 1000"
      by (simp add: less_trans [OF _ power_strict_increasing [of 64 1000 "2 :: rat"]])
    ultimately show ?thesis by (rule round_double_close) (simp add: int_div_def)
  qed
  from this [of GIB] this [of "1024 ^ 2"] show ?thesis by (auto simp: size_text_def)
qed

lemma stopping_round:
  assumes stop: "\<not> passes limit (rounds k)" and small: "\<And>a. reading_of (rounds k) = Inr a \<Longrightarrow> a < 2 ^ 64"
  shows "\<exists>reason. watch sampling limit every rounds k t evs =
    Some (evs @ (if halted (rounds k) then [] else [Exceeded k reason]))"
proof (cases "halted (rounds k)")
  case True
  then show ?thesis by (simp add: watch.simps [of _ _ _ _ k] Let_def)
next
  case False
  show ?thesis
  proof (cases "reading_of (rounds k)")
    case (Inl e)
    with False show ?thesis by (simp add: watch.simps [of _ _ _ _ k] Let_def)
  next
    case (Inr a)
    with False stop have a: "limit < a" by (auto simp: passes_def)
    with small [OF Inr] obtain u v where "size_text a = Inr u" "size_text limit = Inr v"
      by (meson size_text_returns less_trans)
    with a have "\<exists>r. check_memory_use a limit = Inr (Some r)" by (simp add: check_memory_use_def)
    with False Inr show ?thesis by (auto simp: watch.simps [of _ _ _ _ k] Let_def)
  qed
qed

text \<open>
  C37: The watchdog stops in the first round in which it is told to, MLX cannot be read, or MLX uses more
  than the limit, and in the last two cases it reports that, once and in that very round. Until then
  it passes on true readings, \<open>every\<close> seconds or more apart, the last one never older than that, and
  a sample that cannot be recorded does not stop it.
\<close>

theorem watchdog_guards_the_limit:
  assumes "\<And>j. j < k \<Longrightarrow> passes limit (rounds j)" and "\<not> passes limit (rounds k)"
    and "\<And>a. reading_of (rounds k) = Inr a \<Longrightarrow> a < 2 ^ 64"
    and "\<And>i j. i \<le> j \<Longrightarrow> clock (rounds i) \<le> clock (rounds j)" and "0 < every"
  shows "\<exists>evs reason.
    start_watchdog sampling limit every rounds =
      Some (evs @ (if halted (rounds k) then [] else [Exceeded k reason])) \<and>
    list_all (truthful rounds) evs \<and> spaced every rounds (sample_rounds evs) \<and>
    (\<forall>j < k. sampling \<longrightarrow> fresh every rounds (sample_rounds evs) j)"
proof -
  obtain t evs where p: "progress sampling every rounds k = (t, evs)" by force
  from progress_keeps [of k limit rounds every sampling] assms
  have "progress_inv sampling every rounds k (t, evs)" by (simp add: p)
  moreover from watch_progress [of k limit rounds sampling every] assms(1)
  have "start_watchdog sampling limit every rounds = watch sampling limit every rounds k t evs"
    by (simp add: p)
  moreover from stopping_round [of limit rounds k sampling every t evs] assms(2,3) obtain reason
    where "watch sampling limit every rounds k t evs =
      Some (evs @ (if halted (rounds k) then [] else [Exceeded k reason]))" by blast
  ultimately show ?thesis by (intro exI [of _ evs] exI [of _ reason]) (simp add: progress_inv_def Let_def)
qed

definition growing :: "nat \<Rightarrow> round" where
  "growing n = \<lparr>halted = False, reading_of = Inr (50 * int n), clock = of_nat n, recorded = (n \<noteq> 1)\<rparr>"

theorem watchdog_guards_the_limit_witness:
  "\<exists>evs reason. start_watchdog True 120 1 growing = Some (evs @ [Exceeded 3 reason]) \<and>
     list_all (truthful growing) evs \<and> spaced 1 growing (sample_rounds evs) \<and>
     fresh 1 growing (sample_rounds evs) 2"
proof -
  have "passes 120 (growing j)" if "j < 3" for j
  proof -
    from that have "int j \<le> 2" by simp
    then show ?thesis by (simp add: passes_def growing_def)
  qed
  moreover have "\<not> passes 120 (growing 3)" by (simp add: passes_def growing_def)
  ultimately show ?thesis
    using watchdog_guards_the_limit [of 3 120 growing 1 True] by (force simp: growing_def)
qed

text \<open>As long as every round passes, the watchdog goes on: it has no other way to end.\<close>

definition stops_later :: "bool \<Rightarrow> int \<Rightarrow> rat \<Rightarrow> (nat \<Rightarrow> round) \<Rightarrow> nat \<Rightarrow> rat \<Rightarrow> guard_event list \<Rightarrow> guard_event list \<Rightarrow> bool" where
  "stops_later sampling limit every rounds n t es evs \<longleftrightarrow> (\<exists>k \<ge> n. \<not> passes limit (rounds k))"

lemma watch_stops_later:
  assumes "watch sampling limit every rounds n t es = Some evs"
  shows "stops_later sampling limit every rounds n t es evs"
proof (rule watch.raw_induct [of stops_later, OF _ assms])
  fix rec sampling limit every rounds n t es evs
  assume ih: "\<And>sampling limit every rounds n t es evs.
      rec sampling limit every rounds n t es = Some evs \<Longrightarrow> stops_later sampling limit every rounds n t es evs"
    and body: "(let r = rounds n
      in if halted r then Some es
         else case reading_of r of
           Inl e \<Rightarrow> Some (es @ [Exceeded n (''cannot read MLX memory use ('' @ e @ ''); stopping the backend'')])
         | Inr active \<Rightarrow>
             (case check_memory_use active limit of
                Inl x \<Rightarrow> Some (es @ [Guard_died x])
              | Inr None \<Rightarrow>
                  if sampling \<and> clock r - t \<ge> every
                  then rec sampling limit every rounds (Suc n) (clock r)
                         (es @ [Sample n active] @ (if recorded r then [] else [Sample_failed]))
                  else rec sampling limit every rounds (Suc n) t es
              | Inr (Some reason) \<Rightarrow> Some (es @ [Exceeded n reason]))) = Some evs"
  show "stops_later sampling limit every rounds n t es evs"
  proof (cases "passes limit (rounds n)")
    case True
    then obtain a where a: "\<not> halted (rounds n)" "reading_of (rounds n) = Inr a" "a \<le> limit"
      by (auto simp: passes_def split: sum.splits)
    with body have "\<exists>u fs. rec sampling limit every rounds (Suc n) u fs = Some evs"
      by (auto simp: Let_def check_within split: if_splits)
    then obtain u fs where "rec sampling limit every rounds (Suc n) u fs = Some evs" by blast
    from ih [OF this] show ?thesis by (auto simp: stops_later_def dest: Suc_leD)
  next
    case False
    then show ?thesis by (auto simp: stops_later_def)
  qed
qed

lemma watch_ends_only_when_stopped:
  "start_watchdog sampling limit every rounds = Some evs \<Longrightarrow> \<exists>k. \<not> passes limit (rounds k)"
  unfolding start_watchdog_def by (drule watch_stops_later) (auto simp: stops_later_def)

section \<open>The records\<close>

text \<open>
  Each write goes through the old file, or the complete new one, and leaves no temporary file; only a
  write that returns leaves the new one.
\<close>

lemma write_json_atomic:
  assumes "write_json fails_at tmp path t d = (ds, ok)" and "tmp \<noteq> path" and "d tmp = None"
  shows "\<forall>x \<in> set ds. (x path = d path \<or> x path = Some \<lparr>content = t @ [NEWLINE], mode = 384\<rparr>) \<and>
      (\<forall>q. q \<noteq> path \<longrightarrow> q \<noteq> tmp \<longrightarrow> x q = d q)"
    and "last ds = (if ok then d(path \<mapsto> \<lparr>content = t @ [NEWLINE], mode = 384\<rparr>) else d)"
    and "ds \<noteq> []"
  using assms
  by (auto simp: write_json_def Let_def fun_eq_iff split: option.splits json_failure.splits)

text \<open>
  The record that says the backend is ready only appears when the model is loaded and its memory
  is recorded, and it appears whole. Loading that fails ends the process with code 3 and leaves all files as
  they were; when a write fails, the directory still holds old or complete records and no temporary file.
\<close>

lemma ready_record_after_load:
  assumes "load_default dumps s l tmp tmp' mpath rpath d = (ds, r)"
    and "tmp \<notin> {mpath, rpath}" and "tmp' \<notin> {mpath, rpath}" and "mpath \<noteq> rpath"
    and "d tmp = None" and "d tmp' = None"
  defines "m_rec \<equiv> \<lparr>content = dumps (memory_record (own_pid l) (active_later l) (peak_later l)) @ [NEWLINE], mode = 384\<rparr>"
    and "r_rec \<equiv> \<lparr>content = dumps (ready_info s l) @ [NEWLINE], mode = 384\<rparr>"
  shows "(\<forall>x \<in> set ds. x rpath = d rpath \<or> \<not> load_fails l \<and> x mpath = Some m_rec \<and> x rpath = Some r_rec) \<and>
    (\<forall>x \<in> set ds. x mpath = d mpath \<or> x mpath = Some m_rec) \<and>
    (if r = Returns then last ds = d(mpath \<mapsto> m_rec, rpath \<mapsto> r_rec)
     else last ds \<in> {d, d(mpath \<mapsto> m_rec)}) \<and>
    (load_fails l \<longrightarrow> r = Exits 3 \<and> ds = [d])"
proof (cases "load_fails l \<or> (\<exists>e. size_text (active_now l) = Inl e)")
  case True
  then have "(ds, r) = ([d], if load_fails l then Exits 3 else Raises)"
    unfolding assms(1) [symmetric] by (auto simp: load_default_def EXIT_LOAD_FAILED_def)
  then show ?thesis using True by auto
next
  case False
  then obtain z where z: "\<not> load_fails l" "size_text (active_now l) = Inr z"
    by (cases "size_text (active_now l)") auto
  obtain ds1 ok1 where w1: "write_json (memory_write l) tmp mpath
      (dumps (memory_record (own_pid l) (active_later l) (peak_later l))) d = (ds1, ok1)" by force
  have first: "\<forall>x \<in> set ds1. (x mpath = d mpath \<or> x mpath = Some m_rec) \<and> x rpath = d rpath"
    "last ds1 = (if ok1 then d(mpath \<mapsto> m_rec) else d)" "ds1 \<noteq> []"
    using write_json_atomic [OF w1] assms(2,4,5) by (auto simp: m_rec_def)
  show ?thesis
  proof (cases ok1)
    case False
    with z w1 assms(1) have "ds = ds1" "r = Raises" by (auto simp: load_default_def)
    with first False z show ?thesis by simp
  next
    case True
    obtain es ok2 where w2: "write_json (ready_write l) tmp' rpath (dumps (ready_info s l)) (last ds1) = (es, ok2)"
      by force
    from z w1 w2 True assms(1) have ds: "ds = ds1 @ es" "r = (if ok2 then Returns else Raises)"
      by (auto simp: load_default_def)
    have second: "\<forall>x \<in> set es. x mpath = Some m_rec \<and> (x rpath = d rpath \<or> x rpath = Some r_rec)"
      "last es = (if ok2 then d(mpath \<mapsto> m_rec, rpath \<mapsto> r_rec) else d(mpath \<mapsto> m_rec))" "es \<noteq> []"
      using write_json_atomic [OF w2] first(2) True assms(3,4,6) by (auto simp: r_rec_def)
    show ?thesis unfolding ds using first second z by auto
  qed
qed

definition sample_loading :: loading where
  "sample_loading =
     \<lparr>load_fails = False, load_time = 3, has_parser = False, init_kwargs = None, active_now = 100, peak_now = 120,
      active_later = 100, peak_later = 120, own_pid = 7, mlx_lm_version = [], mlx_version = [],
      memory_write = None, ready_write = Some In_replace\<rparr>"

definition sample_settings :: launch_settings where
  "sample_settings =
     \<lparr>ls_profile = ''tiny'', ls_model_id = ''m'', ls_model_dir = ''/m'', ls_port = 1, ls_memory_limit = 1,
      ls_tool_parser = None, ls_args = []\<rparr>"

lemma ready_record_after_load_witness:
  "case load_default (\<lambda>_. ''x'') sample_settings sample_loading ''t'' ''u'' ''m'' ''r'' Map.empty of
     (ds, r) \<Rightarrow> last ds \<in> {Map.empty, [''m'' \<mapsto> \<lparr>content = ''x'' @ [NEWLINE], mode = 384\<rparr>]}"
proof -
  obtain ds r where l: "load_default (\<lambda>_. ''x'') sample_settings sample_loading ''t'' ''u'' ''m'' ''r'' Map.empty = (ds, r)" by force
  then have "r \<noteq> Returns"
    using size_text_returns [of 100]
    by (auto simp: load_default_def sample_loading_def write_json_def Let_def)
  with ready_record_after_load [OF l] l show ?thesis by simp
qed

end
