(* ===== verification/Mac_Stats.thy ===== *)
theory Mac_Stats
  imports Doctor
begin

text \<open>
  \<open>macos.py\<close>: the memory figures in the output of \<open>vm_stat\<close> and \<open>sysctl vm.swapusage\<close>. The three
  regular expressions have no choice that backtracking could undo: each class of characters is
  disjoint from what may follow it, so that they are read from left to right. \<open>int\<close> of more than
  4300 digits, which raises, is written out as in \<open>sysctl_value\<close>.
\<close>

section \<open>Scanning\<close>

text \<open>\<open>search\<close>: the leftmost place where a pattern matches\<close>

fun search :: "(string \<Rightarrow> 'a option) \<Rightarrow> string \<Rightarrow> 'a option" where
  "search m [] = m []"
| "search m (c # s) = (case m (c # s) of Some r \<Rightarrow> Some r | None \<Rightarrow> search m s)"

definition after :: "string \<Rightarrow> string \<Rightarrow> string option" where
  "after p s = (if prefix p s then Some (drop (length p) s) else None)"

definition int_of_text :: "string \<Rightarrow> py_exn + int" where
  "int_of_text s = (if length s > 4300 then Inl ValueError else int_of_digits s)"

text \<open>\<open>page size of (\d+) bytes\<close>\<close>

definition page_size_at :: "string \<Rightarrow> string option" where
  "page_size_at s =
     (case after ''page size of '' s of
        None \<Rightarrow> None
      | Some r \<Rightarrow>
          let ds = takeWhile is_ascii_digit r
          in if ds \<noteq> [] \<and> prefix '' bytes'' (drop (length ds) r) then Some ds else None)"

text \<open>\<open>^"?([^:"]+)"?:\s+(\d+)\.?\s*$\<close>\<close>

definition QUOTE :: char where
  "QUOTE = CHR 0x22"

definition skip :: "char \<Rightarrow> string \<Rightarrow> string" where
  "skip c s = (if s \<noteq> [] \<and> hd s = c then tl s else s)"

definition vm_stat_line :: "string \<Rightarrow> (string \<times> string) option" where
  "vm_stat_line s =
     (let s1 = skip QUOTE s;
          key = takeWhile (\<lambda>c. c \<noteq> CHR '':'' \<and> c \<noteq> QUOTE) s1;
          s2 = skip QUOTE (drop (length key) s1)
      in if key = [] \<or> s2 = [] \<or> hd s2 \<noteq> CHR '':'' then None
         else
           let s3 = tl s2; s4 = dropWhile is_space s3;
               ds = takeWhile is_ascii_digit s4; s5 = skip (CHR ''.'') (drop (length ds) s4)
           in if s3 \<noteq> s4 \<and> ds \<noteq> [] \<and> list_all is_space s5 then Some (key, ds) else None)"

section \<open>The lines of a text\<close>

text \<open>\<open>str.splitlines\<close>: a carriage return with a line feed is one line break.\<close>

definition breaks_line :: "char \<Rightarrow> bool" where
  "breaks_line c \<longleftrightarrow> code c \<in> {10, 11, 12, 13, 28, 29, 30, 133}"

function splitlines :: "string \<Rightarrow> string list" where
  "splitlines [] = []"
| "splitlines (c # s) =
     (if breaks_line c
      then [] # splitlines (if code c = 13 \<and> s \<noteq> [] \<and> code (hd s) = 10 then tl s else s)
      else case splitlines s of [] \<Rightarrow> [[c]] | l # ls \<Rightarrow> (c # l) # ls)"
  by pat_completeness auto
termination by (relation "measure length") auto

section \<open>The figures\<close>

fun pages_of :: "string list \<Rightarrow> (string \<times> int) list \<Rightarrow> py_exn + (string \<times> int) list" where
  "pages_of [] d = Inr d"
| "pages_of (l # ls) d =
     (case vm_stat_line (strip l) of
        None \<Rightarrow> pages_of ls d
      | Some (key, ds) \<Rightarrow> and_then (int_of_text ds) (\<lambda>n. pages_of ls (AList.update (strip key) n d)))"

definition WANTED :: "string list" where
  "WANTED = [''Pages free'', ''Pages inactive'', ''Pages speculative'']"

definition parse_vm_stat :: "string \<Rightarrow> py_exn + int option" where
  "parse_vm_stat text =
     (case search page_size_at text of
        None \<Rightarrow> Inr None
      | Some psize \<Rightarrow>
          and_then (pages_of (splitlines text) []) (\<lambda>pages.
            if \<not> list_all (\<lambda>k. map_of pages k \<noteq> None) WANTED then Inr None
            else and_then (int_of_text psize) (\<lambda>n.
              Inr (Some (sum_list (map (\<lambda>k. case map_of pages k of None \<Rightarrow> 0 | Some v \<Rightarrow> v) WANTED) * n)))))"

text \<open>\<open>used\s*=\s*([\d.]+)([KMGT])\<close>\<close>

definition figure_char :: "char \<Rightarrow> bool" where
  "figure_char c \<longleftrightarrow> is_ascii_digit c \<or> c = CHR ''.''"

definition swap_used_at :: "string \<Rightarrow> (string \<times> char) option" where
  "swap_used_at s =
     (case after ''used'' s of
        None \<Rightarrow> None
      | Some r \<Rightarrow>
          (case after ''='' (dropWhile is_space r) of
             None \<Rightarrow> None
           | Some r2 \<Rightarrow>
               let r3 = dropWhile is_space r2; num = takeWhile figure_char r3; r4 = drop (length num) r3
               in if num \<noteq> [] \<and> r4 \<noteq> [] \<and> hd r4 \<in> set ''KMGT'' then Some (num, hd r4) else None))"

text \<open>\<open>float\<close> of digits and dots: one dot at most, and a digit on one side of it\<close>

definition float_of_figure :: "string \<Rightarrow> py_exn + pyfloat" where
  "float_of_figure s =
     (case split_at (CHR ''.'') s of
        [a] \<Rightarrow> if a = [] then Inl ValueError else Inr (round_double (of_nat (read_nat a)))
      | [a, b] \<Rightarrow>
          if a = [] \<and> b = [] then Inl ValueError
          else Inr (round_double (of_nat (read_nat (a @ b)) / 10 ^ length b))
      | _ \<Rightarrow> Inl ValueError)"

definition UNIT_BYTES :: "(char \<times> nat) list" where
  "UNIT_BYTES = [(CHR ''K'', 1024), (CHR ''M'', 1024 ^ 2), (CHR ''G'', 1024 ^ 3), (CHR ''T'', 1024 ^ 4)]"

definition parse_swap_usage :: "string \<Rightarrow> py_exn + int option" where
  "parse_swap_usage text =
     (case search swap_used_at text of
        None \<Rightarrow> Inr None
      | Some (num, u) \<Rightarrow>
          and_then (float_of_figure num) (\<lambda>f.
          and_then (int_of_float (float_mult f (case map_of UNIT_BYTES u of None \<Rightarrow> 1 | Some n \<Rightarrow> n))) (\<lambda>n.
          Inr (Some n))))"

text \<open>\<open>_run\<close> is a parameter: what the command prints, or nothing when it fails.\<close>

definition read_memory_stats :: "(string list \<Rightarrow> string) \<Rightarrow> py_exn + memory_stats option" where
  "read_memory_stats output_of =
     and_then (parse_vm_stat (output_of [''/usr/bin/vm_stat''])) (\<lambda>available.
       case available of
         None \<Rightarrow> Inr None
       | Some n \<Rightarrow>
           and_then (parse_swap_usage (strip (output_of [''/usr/sbin/sysctl'', ''-n'', ''vm.swapusage'']))) (\<lambda>used.
           Inr (Some \<lparr>available_bytes = n, swap_used_bytes = used\<rparr>)))"

end
