(* ===== verification/Paths.thy ===== *)
theory Paths
  imports Prelude
begin

text \<open>
  \<open>paths.py\<close>: where everything is, as lists of names below the root of the file system, and
  \<open>ensure_layout\<close>, which makes the directories under \<open>var/\<close>. The file system is a map from paths to
  directories with a mode, or anything else.
\<close>

unbundle bit_operations_syntax

section \<open>Locations\<close>

type_synonym path = "string list"

text \<open>\<open>$AGENT_LAB_HOME\<close>, unless it is unset or empty; \<open>resolve\<close> is the file system's.\<close>

definition home_of :: "string option \<Rightarrow> (string \<Rightarrow> path) \<Rightarrow> path \<Rightarrow> path" where
  "home_of env resolve repo_root =
     (case env of None \<Rightarrow> repo_root | Some v \<Rightarrow> if v = [] then repo_root else resolve v)"

definition config_dir :: "path \<Rightarrow> path" where
  "config_dir home = home @ [''config'']"
definition profiles_dir :: "path \<Rightarrow> path" where
  "profiles_dir home = config_dir home @ [''profiles'']"
definition tools_toml :: "path \<Rightarrow> path" where
  "tools_toml home = config_dir home @ [''tools.toml'']"
definition models_toml :: "path \<Rightarrow> path" where
  "models_toml home = config_dir home @ [''models.toml'']"
definition python_version_file :: "path \<Rightarrow> path" where
  "python_version_file home = home @ [''.python-version'']"
definition tools_dir :: "path \<Rightarrow> path" where
  "tools_dir home = home @ [''.tools'']"
definition tools_bin_dir :: "path \<Rightarrow> path" where
  "tools_bin_dir home = tools_dir home @ [''bin'']"
definition tools_python_dir :: "path \<Rightarrow> path" where
  "tools_python_dir home = tools_dir home @ [''python'']"
definition tools_stamps_dir :: "path \<Rightarrow> path" where
  "tools_stamps_dir home = tools_dir home @ [''stamps'']"
definition env_sh :: "path \<Rightarrow> path" where
  "env_sh home = tools_dir home @ [''env.sh'']"
definition venv_dir :: "path \<Rightarrow> path" where
  "venv_dir home = home @ [''.venv'']"
definition var_dir :: "path \<Rightarrow> path" where
  "var_dir home = home @ [''var'']"
definition models_dir :: "path \<Rightarrow> path" where
  "models_dir home = var_dir home @ [''models'']"
definition logs_dir :: "path \<Rightarrow> path" where
  "logs_dir home = var_dir home @ [''logs'']"
definition run_dir :: "path \<Rightarrow> path" where
  "run_dir home = var_dir home @ [''run'']"
definition backend_log :: "path \<Rightarrow> path" where
  "backend_log home = logs_dir home @ [''backend.log'']"
definition backend_console_log :: "path \<Rightarrow> path" where
  "backend_console_log home = logs_dir home @ [''backend.console.log'']"
definition backend_state :: "path \<Rightarrow> path" where
  "backend_state home = run_dir home @ [''backend.json'']"
definition backend_ready :: "path \<Rightarrow> path" where
  "backend_ready home = run_dir home @ [''backend.ready.json'']"
definition backend_memory :: "path \<Rightarrow> path" where
  "backend_memory home = run_dir home @ [''backend.memory.json'']"
definition backend_lock :: "path \<Rightarrow> path" where
  "backend_lock home = run_dir home @ [''backend.lock'']"
definition gateway_log :: "path \<Rightarrow> path" where
  "gateway_log home = logs_dir home @ [''gateway.log'']"
definition gateway_console_log :: "path \<Rightarrow> path" where
  "gateway_console_log home = logs_dir home @ [''gateway.console.log'']"
definition gateway_state :: "path \<Rightarrow> path" where
  "gateway_state home = run_dir home @ [''gateway.json'']"
definition gateway_ready :: "path \<Rightarrow> path" where
  "gateway_ready home = run_dir home @ [''gateway.ready.json'']"
definition gateway_queue :: "path \<Rightarrow> path" where
  "gateway_queue home = run_dir home @ [''gateway.queue.json'']"
definition gateway_lock :: "path \<Rightarrow> path" where
  "gateway_lock home = run_dir home @ [''gateway.lock'']"
definition bench_dir :: "path \<Rightarrow> path" where
  "bench_dir home = var_dir home @ [''bench'']"
definition secrets_dir :: "path \<Rightarrow> path" where
  "secrets_dir home = var_dir home @ [''secrets'']"
definition cache_dir :: "path \<Rightarrow> path" where
  "cache_dir home = var_dir home @ [''cache'']"
definition keys_file :: "path \<Rightarrow> path" where
  "keys_file home = secrets_dir home @ [''keys.toml'']"

lemmas location_defs = config_dir_def profiles_dir_def tools_toml_def models_toml_def python_version_file_def tools_dir_def tools_bin_dir_def tools_python_dir_def tools_stamps_dir_def env_sh_def venv_dir_def var_dir_def models_dir_def logs_dir_def run_dir_def backend_log_def backend_console_log_def backend_state_def backend_ready_def backend_memory_def backend_lock_def gateway_log_def gateway_console_log_def gateway_state_def gateway_ready_def gateway_queue_def gateway_lock_def bench_dir_def secrets_dir_def cache_dir_def keys_file_def

section \<open>Directories\<close>

datatype node = Dir nat | Plain

type_synonym tree = "path \<rightharpoonup> node"

datatype os_error = File_exists | No_entry | Not_directory

fun is_dir :: "node option \<Rightarrow> bool" where
  "is_dir (Some (Dir _)) = True"
| "is_dir _ = False"

lemma is_dir_iff: "is_dir n \<longleftrightarrow> (\<exists>m. n = Some (Dir m))"
  by (cases n rule: is_dir.cases) auto

text \<open>The system call, with a mode that the umask has been taken from\<close>

definition masked :: "nat \<Rightarrow> nat \<Rightarrow> nat" where
  "masked umask m = m - (m AND umask)"

definition os_mkdir :: "nat \<Rightarrow> path \<Rightarrow> tree \<Rightarrow> os_error + tree" where
  "os_mkdir m p t =
     (if t p \<noteq> None then Inl File_exists
      else case t (butlast p) of
        None \<Rightarrow> Inl No_entry
      | Some Plain \<Rightarrow> Inl Not_directory
      | Some (Dir _) \<Rightarrow> Inr (t(p \<mapsto> Dir m)))"

text \<open>\<open>Path.mkdir(parents=True, exist_ok=True)\<close>\<close>

definition accept_dir :: "path \<Rightarrow> tree \<Rightarrow> os_error \<Rightarrow> os_error + tree" where
  "accept_dir p t e = (if is_dir (t p) then Inr t else Inl e)"

function make_dirs :: "nat \<Rightarrow> path \<Rightarrow> tree \<Rightarrow> os_error + tree" where
  "make_dirs umask p t =
     (case os_mkdir (masked umask 511) p t of
        Inr t' \<Rightarrow> Inr t'
      | Inl No_entry \<Rightarrow>
          if p = [] then Inl No_entry
          else (case make_dirs umask (butlast p) t of
                  Inl e \<Rightarrow> Inl e
                | Inr t' \<Rightarrow>
                    (case os_mkdir (masked umask 511) p t' of
                       Inr t'' \<Rightarrow> Inr t''
                     | Inl No_entry \<Rightarrow> Inl No_entry
                     | Inl e \<Rightarrow> accept_dir p t' e))
      | Inl e \<Rightarrow> accept_dir p t e)"
  by pat_completeness auto
termination by (relation "measure (\<lambda>(u, p, t). length p)") auto

declare make_dirs.simps [simp del]

fun make_all :: "nat \<Rightarrow> path list \<Rightarrow> tree \<Rightarrow> os_error + tree" where
  "make_all umask [] t = Inr t"
| "make_all umask (p # ps) t = and_then (make_dirs umask p t) (make_all umask ps)"

definition SECRETS_MODE :: nat where
  "SECRETS_MODE = 448"  \<comment> \<open>0o700\<close>

definition make_secrets :: "nat \<Rightarrow> path \<Rightarrow> tree \<Rightarrow> os_error + tree" where
  "make_secrets umask p t =
     (case os_mkdir (masked umask SECRETS_MODE) p t of
        Inl File_exists \<Rightarrow> Inr t
      | Inl e \<Rightarrow> Inl e
      | Inr t' \<Rightarrow> Inr (t'(p \<mapsto> Dir SECRETS_MODE)))"

definition layout :: "path \<Rightarrow> path list" where
  "layout home = [models_dir home, logs_dir home, run_dir home, bench_dir home, cache_dir home]"

definition ensure_layout :: "nat \<Rightarrow> path \<Rightarrow> tree \<Rightarrow> os_error + tree" where
  "ensure_layout umask home t =
     and_then (make_all umask (layout home) t) (make_secrets umask (secrets_dir home))"

section \<open>What the layout is\<close>

text \<open>A tree as file systems have them: what exists is in a directory.\<close>

definition tree_ok :: "tree \<Rightarrow> bool" where
  "tree_ok t \<longleftrightarrow> is_dir (t []) \<and> (\<forall>p. t p \<noteq> None \<longrightarrow> is_dir (t (butlast p)))"

text \<open>What was there stays as it was.\<close>

definition keeps :: "tree \<Rightarrow> tree \<Rightarrow> bool" where
  "keeps t t' \<longleftrightarrow> t \<subseteq>\<^sub>m t'"

lemma keeps_refl [simp]: "keeps t t"
  by (simp add: keeps_def)

lemma keeps_trans: "keeps t u \<Longrightarrow> keeps u v \<Longrightarrow> keeps t v"
  unfolding keeps_def by (rule map_le_trans)

lemma keeps_dir: "keeps t u \<Longrightarrow> is_dir (t p) \<Longrightarrow> is_dir (u p)"
  by (auto simp: keeps_def map_le_def is_dir_iff dom_def)

lemma os_mkdir_keeps:
  assumes "os_mkdir m p t = Inr t'"
  shows "keeps t t'" and "t' p = Some (Dir m)" and "tree_ok t \<Longrightarrow> tree_ok t'" and "t p = None"
    and "q \<noteq> p \<Longrightarrow> t' q = t q"
proof -
  from assms obtain k where new: "t p = None" "t (butlast p) = Some (Dir k)" "t' = t(p \<mapsto> Dir m)"
    by (auto simp: os_mkdir_def split: if_splits option.splits node.splits)
  then show "keeps t t'" "t' p = Some (Dir m)" "t p = None" "q \<noteq> p \<Longrightarrow> t' q = t q"
    by (auto simp: keeps_def map_le_def)
  show "tree_ok t'" if "tree_ok t"
    using that new by (auto simp: tree_ok_def)
qed

text \<open>What is new are directories on the way to a path.\<close>

definition only_new :: "path set \<Rightarrow> tree \<Rightarrow> tree \<Rightarrow> bool" where
  "only_new ps t t' \<longleftrightarrow> keeps t t' \<and> (\<forall>q. t' q \<noteq> t q \<longrightarrow> is_dir (t' q) \<and> (\<exists>p \<in> ps. prefix q p))"

lemma only_new_refl [simp]: "only_new ps t t"
  by (simp add: only_new_def)

lemma only_new_trans: "only_new ps t u \<Longrightarrow> only_new qs u v \<Longrightarrow> only_new (ps \<union> qs) t v"
  unfolding only_new_def by (metis UnCI keeps_dir keeps_trans)

lemma only_new_mono: "only_new ps t u \<Longrightarrow> (\<And>p. p \<in> ps \<Longrightarrow> \<exists>q \<in> qs. prefix p q) \<Longrightarrow> only_new qs t u"
  unfolding only_new_def by (meson prefix_order.trans)

lemma os_mkdir_new: "os_mkdir m p t = Inr t' \<Longrightarrow> only_new {p} t t'"
  by (metis is_dir.simps(1) only_new_def os_mkdir_keeps(1,2,5) prefix_order.refl singletonI)

lemma make_dirs_new:
  assumes "make_dirs umask p t = Inr t'" and "tree_ok t"
  shows "only_new {p} t t' \<and> is_dir (t' p) \<and> tree_ok t'"
  using assms
proof (induction umask p t arbitrary: t' rule: make_dirs.induct)
  case (1 umask p t)
  show ?case
  proof (cases "os_mkdir (masked umask 511) p t")
    case (Inr u)
    with 1 os_mkdir_keeps [OF Inr] os_mkdir_new [OF Inr] show ?thesis
      by (auto simp: make_dirs.simps [of umask p t])
  next
    case (Inl e)
    show ?thesis
    proof (cases "e = No_entry")
      case False
      with 1 Inl show ?thesis
        by (cases e) (auto simp: make_dirs.simps [of umask p t] accept_dir_def split: if_splits)
    next
      case True
      with 1 Inl obtain u where p: "p \<noteq> []" and u: "make_dirs umask (butlast p) t = Inr u"
        and rest: "(case os_mkdir (masked umask 511) p u of
           Inr t'' \<Rightarrow> Inr t'' | Inl No_entry \<Rightarrow> Inl No_entry | Inl e \<Rightarrow> accept_dir p u e) = Inr t'"
        by (auto simp: make_dirs.simps [of umask p t] split: if_splits sum.splits)
      from 1(1) [OF Inl True p u 1(3)] have ih: "only_new {butlast p} t u" "tree_ok u" by auto
      from this(1) have new: "only_new {p} t u"
        by (rule only_new_mono) (auto intro: prefixeq_butlast)
      show ?thesis
      proof (cases "os_mkdir (masked umask 511) p u")
        case (Inr v)
        with rest have "t' = v" by simp
        with os_mkdir_keeps [OF Inr] only_new_trans [OF new os_mkdir_new [OF Inr]] ih(2) show ?thesis by simp
      next
        case (Inl e)
        with rest ih new show ?thesis
          by (cases e) (auto simp: accept_dir_def split: if_splits)
      qed
    qed
  qed
qed

lemma make_dirs_there: "is_dir (t p) \<Longrightarrow> make_dirs umask p t = Inr t"
  by (cases "t p") (simp_all add: make_dirs.simps [of umask p t] os_mkdir_def accept_dir_def)

text \<open>Only something else than a directory can be in the way.\<close>

lemma make_dirs_succeeds:
  assumes "tree_ok t" and "\<And>q. prefix q p \<Longrightarrow> t q \<noteq> Some Plain"
  shows "\<exists>t'. make_dirs umask p t = Inr t'"
  using assms
proof (induction umask p t rule: make_dirs.induct)
  case (1 umask p t)
  show ?case
  proof (cases "t p")
    case (Some n)
    with 1(3) [of p] have "is_dir (t p)" by (cases n) auto
    then show ?thesis by (simp add: make_dirs_there)
  next
    case None
    with 1(2) have p: "p \<noteq> []" by (auto simp: tree_ok_def is_dir_iff)
    then have below: "prefix (butlast p) p" by (simp add: prefixeq_butlast)
    show ?thesis
    proof (cases "t (butlast p)")
      case (Some n)
      with 1(3) [OF below] obtain m where "t (butlast p) = Some (Dir m)" by (cases n) auto
      with None show ?thesis by (simp add: make_dirs.simps [of umask p t] os_mkdir_def)
    next
      case no_parent: None
      then have miss: "os_mkdir (masked umask 511) p t = Inl No_entry" by (simp add: os_mkdir_def None)
      from 1(1) [OF miss refl p 1(2)] 1(3) below obtain u where u: "make_dirs umask (butlast p) t = Inr u"
        by (meson prefix_order.trans)
      from make_dirs_new [OF u 1(2)] obtain m where parent: "u (butlast p) = Some (Dir m)"
        and new: "only_new {butlast p} t u" by (auto simp: is_dir_iff)
      have "u p = None"
      proof (rule ccontr)
        assume "u p \<noteq> None"
        with None new have "prefix p (butlast p)" by (auto simp: only_new_def)
        then have "length p \<le> length (butlast p)" by (rule prefix_length_le)
        with p show False by (cases p rule: rev_cases) auto
      qed
      with parent miss u p show ?thesis by (simp add: make_dirs.simps [of umask p t] os_mkdir_def)
    qed
  qed
qed

lemma make_all_new:
  assumes "tree_ok t" and "\<And>p q. p \<in> set ps \<Longrightarrow> prefix q p \<Longrightarrow> t q \<noteq> Some Plain"
  shows "\<exists>t'. make_all umask ps t = Inr t' \<and> only_new (set ps) t t' \<and> tree_ok t' \<and> (\<forall>p \<in> set ps. is_dir (t' p))"
  using assms
proof (induction ps arbitrary: t)
  case Nil
  then show ?case by simp
next
  case (Cons p ps)
  from make_dirs_succeeds [of t p umask] Cons.prems obtain u where u: "make_dirs umask p t = Inr u" by auto
  from make_dirs_new [OF u Cons.prems(1)] have new: "only_new {p} t u" "is_dir (u p)" "tree_ok u" by auto
  have clear: "\<And>p' q. p' \<in> set ps \<Longrightarrow> prefix q p' \<Longrightarrow> u q \<noteq> Some Plain"
  proof -
    fix p' q assume "p' \<in> set ps" "prefix q p'"
    with new(1) Cons.prems(2) [of p' q] show "u q \<noteq> Some Plain"
      by (cases "u q = t q") (auto simp: only_new_def)
  qed
  obtain v where
    v: "make_all umask ps u = Inr v" "only_new (set ps) u v" "tree_ok v" "\<forall>p \<in> set ps. is_dir (v p)"
    using Cons.IH [of u] new(3) clear by blast
  have "is_dir (v p)" using v(2) new(2) by (auto simp: only_new_def intro: keeps_dir)
  with u v only_new_trans [OF new(1) v(2)] show ?case by auto
qed

lemma make_all_there: "(\<And>p. p \<in> set ps \<Longrightarrow> is_dir (t p)) \<Longrightarrow> make_all umask ps t = Inr t"
  by (induction ps) (simp_all add: make_dirs_there)

lemma layout_below_var: "p \<in> set (layout home) \<Longrightarrow> \<exists>n. p = var_dir home @ [n] \<and> n \<noteq> ''secrets''"
  by (auto simp: layout_def location_defs)

text \<open>
  Unless something else is in the way, \<open>ensure_layout\<close> leaves every directory of the layout there and
  makes nothing but directories on the way to them. What was there is as it was, a wrong mode of
  \<open>var/secrets\<close> included, but a new one has mode 700 under any umask. A second call changes nothing.
\<close>

lemma layout_is_ensured:
  assumes "tree_ok t" and "\<And>p q. p \<in> set (layout home) \<Longrightarrow> prefix q p \<Longrightarrow> t q \<noteq> Some Plain"
  shows "\<exists>t'. ensure_layout umask home t = Inr t' \<and> tree_ok t' \<and>
    list_all (\<lambda>p. is_dir (t' p)) (layout home) \<and>
    only_new (set (secrets_dir home # layout home)) t t' \<and>
    t' (secrets_dir home) = (case t (secrets_dir home) of None \<Rightarrow> Some (Dir 448) | Some n \<Rightarrow> Some n) \<and>
    ensure_layout umask' home t' = Inr t'"
proof -
  let ?s = "secrets_dir home"
  obtain u where
    u: "make_all umask (layout home) t = Inr u" "only_new (set (layout home)) t u" "tree_ok u"
      "\<forall>p \<in> set (layout home). is_dir (u p)"
    using make_all_new [of t "layout home" umask] assms by blast
  have "is_dir (u (models_dir home))" using u(4) by (simp add: layout_def)
  then have "is_dir (u (butlast (models_dir home)))"
    using u(3) by (cases "u (models_dir home)") (auto simp: tree_ok_def)
  then obtain m where var: "u (butlast ?s) = Some (Dir m)"
    by (auto simp: location_defs is_dir_iff butlast_append)
  have same: "u ?s = t ?s"
  proof (rule ccontr)
    assume "u ?s \<noteq> t ?s"
    with u(2) obtain p where "p \<in> set (layout home)" "prefix ?s p" by (auto simp: only_new_def)
    then show False using layout_below_var [of p home] by (auto simp: location_defs)
  qed
  show ?thesis
  proof (cases "t ?s")
    case (Some n)
    then have "\<And>umask. make_secrets umask ?s u = Inr u" by (simp add: make_secrets_def os_mkdir_def same)
    moreover have "\<And>umask. make_all umask (layout home) u = Inr u" using u(4) by (simp add: make_all_there)
    moreover have "only_new (set (?s # layout home)) t u" by (rule only_new_mono [OF u(2)]) auto
    ultimately show ?thesis using u Some same by (simp add: ensure_layout_def list_all_iff)
  next
    case None
    let ?v = "u(?s \<mapsto> Dir 448)"
    have "make_secrets umask ?s u = Inr ?v"
      using None same var by (simp add: make_secrets_def os_mkdir_def SECRETS_MODE_def)
    moreover have dirs: "\<forall>p \<in> set (layout home). is_dir (?v p)" using u(4) by auto
    moreover have "\<And>umask. make_all umask (layout home) ?v = Inr ?v" using dirs by (simp add: make_all_there)
    moreover have "\<And>umask. make_secrets umask ?s ?v = Inr ?v" by (simp add: make_secrets_def os_mkdir_def)
    moreover have "tree_ok ?v" using u(3) var by (auto simp: tree_ok_def)
    moreover have "only_new (set (layout home) \<union> {?s}) t ?v"
      by (rule only_new_trans [OF u(2)]) (use None same in \<open>auto simp: only_new_def keeps_def map_le_def\<close>)
    then have "only_new (set (?s # layout home)) t ?v" by (rule only_new_mono) auto
    ultimately show ?thesis using u None same by (simp add: ensure_layout_def list_all_iff)
  qed
qed

text \<open>In a home with nothing in it yet\<close>

definition fresh_tree :: tree where
  "fresh_tree = [[] \<mapsto> Dir 493, [''home''] \<mapsto> Dir 493]"

lemma layout_is_ensured_witness:
  "\<exists>t'. ensure_layout 63 [''home''] fresh_tree = Inr t' \<and> is_dir (t' [''home'', ''var'', ''run'']) \<and>
     t' [''home'', ''var'', ''secrets''] = Some (Dir 448) \<and> ensure_layout 18 [''home''] t' = Inr t'"
proof -
  have "tree_ok fresh_tree" by (auto simp: tree_ok_def fresh_tree_def)
  moreover have "fresh_tree q \<noteq> Some Plain" for q by (simp add: fresh_tree_def)
  ultimately obtain t' where "ensure_layout 63 [''home''] fresh_tree = Inr t'"
    "list_all (\<lambda>p. is_dir (t' p)) (layout [''home''])" "ensure_layout 18 [''home''] t' = Inr t'"
    "t' (secrets_dir [''home'']) =
      (case fresh_tree (secrets_dir [''home'']) of None \<Rightarrow> Some (Dir 448) | Some n \<Rightarrow> Some n)"
    using layout_is_ensured [of fresh_tree "[''home'']" 63 18] by blast
  then show ?thesis by (auto simp: layout_def location_defs fresh_tree_def)
qed

end
