(* ===== verification/Doctor_Run.thy ===== *)
theory Doctor_Run
  imports Mac_Stats Paths
begin

text \<open>
  \<open>doctor.py\<close>: how the system is described, the checks of Python, the tools, the secrets directory and
  the profile, and the run of all checks. What the system, the files and the parsers answer is the
  argument \<open>found\<close>.
\<close>

section \<open>The system\<close>

record platform_found =
  platform_system :: string
  platform_machine :: string
  brand_text :: string                  \<comment> \<open>\<open>sysctl machdep.cpu.brand_string\<close>\<close>
  memsize_text :: string                \<comment> \<open>\<open>sysctl hw.memsize\<close>\<close>
  mac_ver :: string
  cpuinfo :: "string option"            \<comment> \<open>\<open>None\<close>: it cannot be read\<close>
  sysconf :: "(int \<times> int) option"       \<comment> \<open>page size and number of pages\<close>

definition cpu_line :: "string \<Rightarrow> bool" where
  "cpu_line l = prefix ''model name'' l"

definition linux_cpu_name :: "string option \<Rightarrow> string" where
  "linux_cpu_name text =
     (case text of
        None \<Rightarrow> []
      | Some s \<Rightarrow>
          (case filter cpu_line (splitlines s) of
             [] \<Rightarrow> []
           | l # _ \<Rightarrow> strip (snd (snd (partition_at (CHR '':'') l)))))"

definition collect_system :: "platform_found \<Rightarrow> py_exn + system_info" where
  "collect_system f =
     (let or_unknown = (\<lambda>s. if s = [] then ''unknown'' else s)
      in if platform_system f = ''Darwin''
         then and_then (sysctl_value (memsize_text f)) (\<lambda>memory.
           Inr \<lparr>system = platform_system f, machine_name = platform_machine f, chip = or_unknown (brand_text f),
             memory_bytes = memory, macos_version = mac_ver f\<rparr>)
         else
           Inr \<lparr>system = platform_system f, machine_name = platform_machine f,
             chip = or_unknown (if platform_system f = ''Linux'' then linux_cpu_name (cpuinfo f) else []),
             memory_bytes = map_option (\<lambda>(size, n). size * n) (sysconf f), macos_version = []\<rparr>)"

section \<open>Python\<close>

text \<open>Paths as text: the executable, where it leads, and where \<open>.tools/python\<close> leads\<close>

record python_found =
  executable :: string
  real_executable :: string
  tools_python :: string
  running_version :: string
  version_file :: "string + string"     \<comment> \<open>the error, or the text of \<open>.python-version\<close>\<close>

definition is_relative_to :: "string \<Rightarrow> string \<Rightarrow> bool" where
  "is_relative_to p q = prefix (split_at (CHR ''/'') q) (split_at (CHR ''/'') p)"

definition check_python :: "python_found \<Rightarrow> check" where
  "check_python f =
     (case version_file f of
        Inl e \<Rightarrow> Check ''python'' FAIL (''cannot read .python-version: '' @ e)
      | Inr text \<Rightarrow>
          let pinned = strip text; real = real_executable f;
              d = running_version f @ '' at '' @ executable f @
                  (if real \<noteq> executable f then '' -> '' @ real else [])
          in if \<not> is_relative_to real (tools_python f)
             then Check ''python'' FAIL (d @ ''; not the Python in .tools/python'')
             else if running_version f \<noteq> pinned
             then Check ''python'' FAIL (d @ ''; .python-version pins '' @ pinned)
             else Check ''python'' OK d)"

section \<open>Tools\<close>

record tools_found =
  tools_path :: string
  tools_file :: toml_file
  binary_of :: "string \<Rightarrow> string"            \<comment> \<open>its path\<close>
  stamp_of :: "string \<Rightarrow> string option"      \<comment> \<open>the text of its stamp\<close>
  program_of :: "string \<Rightarrow> string option"    \<comment> \<open>its bytes\<close>

definition text_of_val :: "(pyval \<Rightarrow> string) \<Rightarrow> pyval \<Rightarrow> string" where
  "text_of_val show_val v = (case v of PStr s \<Rightarrow> s | _ \<Rightarrow> show_val v)"

definition check_tool :: "(string \<Rightarrow> string) \<Rightarrow> (pyval \<Rightarrow> string) \<Rightarrow> tools_found \<Rightarrow> tool_pin \<Rightarrow> check" where
  "check_tool sha show_val f pin =
     (case verify_tool sha show_val (binary_of f (pin_name pin)) (map_option splitlines (stamp_of f (pin_name pin)))
             (program_of f (pin_name pin)) pin of
        Some problem \<Rightarrow> Check (pin_name pin) FAIL (problem @ ''; run ./bootstrap.sh'')
      | None \<Rightarrow> Check (pin_name pin) OK (text_of_val show_val (pin_version pin) @ '', sha256 verified''))"

definition check_tools ::
    "(string \<Rightarrow> string) \<Rightarrow> (pyval \<Rightarrow> string) \<Rightarrow> tools_found \<Rightarrow> string option \<Rightarrow> check list" where
  "check_tools sha show_val f platform =
     (case platform of
        None \<Rightarrow> [Check ''toolchain'' FAIL ''no pinned tools for this platform'']
      | Some key \<Rightarrow>
          (case load_pins (tools_path f) (tools_file f) key of
             Inl e \<Rightarrow> [Check ''toolchain'' FAIL e]
           | Inr pins \<Rightarrow> map (check_tool sha show_val f) pins))"

section \<open>Secrets and profile\<close>

fun octal :: "nat \<Rightarrow> string" where
  "octal n = (if n < 8 then [digit_char n] else octal (n div 8) @ [digit_char (n mod 8)])"

declare octal.simps [simp del]

text \<open>The mode of the directory, \<open>None\<close> if there is none\<close>

definition check_secrets_dir :: "string \<Rightarrow> nat option \<Rightarrow> check" where
  "check_secrets_dir secrets dir_mode =
     (case dir_mode of
        None \<Rightarrow> Check ''secrets'' FAIL (secrets @ '' is missing; run ./bootstrap.sh'')
      | Some m \<Rightarrow>
          let bits = m mod 512
          in if bits \<noteq> SECRETS_MODE
             then Check ''secrets'' FAIL (secrets @ '' has mode '' @ octal bits @ ''; run chmod 700 '' @ secrets)
             else Check ''secrets'' OK (secrets @ '' (mode 700)''))"

definition check_profile ::
    "(config_failure \<Rightarrow> string) \<Rightarrow> string \<Rightarrow> config_failure + profile \<Rightarrow> py_exn + check \<times> profile option" where
  "check_profile text_of name loaded =
     (case loaded of
        Inl (Crash e) \<Rightarrow> Inl e
      | Inl e \<Rightarrow> Inr (Check ''profile'' FAIL (text_of e), None)
      | Inr p \<Rightarrow>
          Inr (Check ''profile'' OK (name @ '' (max_context '' @ show_int (max_context (gateway p)) @ '')''), Some p))"

section \<open>All checks\<close>

record doctor_found =
  found_platform :: platform_found
  home_text :: string
  free_bytes :: int
  found_python :: python_found
  found_tools :: tools_found
  secrets_text :: string
  secrets_mode :: "nat option"
  found_profile :: "config_failure + profile"
  failure_text :: "config_failure \<Rightarrow> string"
  val_text :: "pyval \<Rightarrow> string"
  hash_of :: "string \<Rightarrow> string"
  found_mac :: mac
  command_text :: "string list \<Rightarrow> string"
  port_used :: "int \<Rightarrow> bool"
  lsof_lines :: "int \<Rightarrow> string list"

text \<open>Where the sysctl does not exist, no state of the limit is read.\<close>

definition no_limits :: limit_state where
  "no_limits =
     \<lparr>wired_limit_mb = None, metal = \<lparr>recommended_bytes = None, metal_note = []\<rparr>, memory_of = None\<rparr>"

definition profile_checks :: "doctor_found \<Rightarrow> system_info \<Rightarrow> profile \<Rightarrow> py_exn + check list" where
  "profile_checks f info p =
     and_then (if system info \<noteq> ''Darwin'' then Inr (check_gpu_limit info p no_limits)
               else and_then (read_state (found_mac f)) (\<lambda>s. Inr (check_gpu_limit info p s))) (\<lambda>gpu.
     and_then (if system info \<noteq> ''Darwin'' then check_memory_pressure info p None
               else and_then (read_memory_stats (command_text f)) (check_memory_pressure info p)) (\<lambda>memory.
     Inr (gpu # memory @ check_ports (port_used f) (\<lambda>n. port_owner (lsof_lines f n)) p)))"

definition DEFAULT_PROFILE :: string where
  "DEFAULT_PROFILE = ''mac-24gb''"

definition run_checks :: "doctor_found \<Rightarrow> py_exn + check list" where
  "run_checks f =
     and_then (collect_system (found_platform f)) (\<lambda>info.
     and_then (check_profile (failure_text f) DEFAULT_PROFILE (found_profile f)) (\<lambda>(profile_check, loaded).
     and_then (check_memory info) (\<lambda>memory.
     and_then (check_macos info) (\<lambda>macos.
     and_then (check_disk (home_text f) (free_bytes f)) (\<lambda>disk.
     and_then (case loaded of None \<Rightarrow> Inr [] | Some p \<Rightarrow> profile_checks f info p) (\<lambda>more_checks.
     Inr ([check_chip info, memory, macos, disk, check_python (found_python f)] @
          check_tools (hash_of f) (val_text f) (found_tools f) (platform_key (system info) (machine_name info)) @
          [check_secrets_dir (secrets_text f) (secrets_mode f), profile_check] @ more_checks)))))))"

text \<open>\<open>main\<close>: the lines it prints and the exit code\<close>

fun status_text :: "check_status \<Rightarrow> string" where
  "status_text OK = ''ok''"
| "status_text WARN = ''warn''"
| "status_text FAIL = ''FAIL''"

definition check_row :: "nat \<Rightarrow> check \<Rightarrow> string" where
  "check_row width c =
     ''  '' @ ljust 4 (status_text (outcome c)) @ ''  '' @ ljust width (check.check_name c) @ ''  '' @ detail c"

definition count :: "check_status \<Rightarrow> check list \<Rightarrow> nat" where
  "count st cs = length (filter (\<lambda>c. outcome c = st) cs)"

definition doctor_main :: "doctor_found \<Rightarrow> py_exn + string list \<times> nat" where
  "doctor_main f =
     and_then (run_checks f) (\<lambda>cs.
       let width = Max (set (map (\<lambda>c. length (check.check_name c)) cs));
           warned = show_nat (count WARN cs);
           summary = (if doctor_code cs = 1
             then show_nat (count FAIL cs) @ '' check(s) failed, '' @ warned @ '' warning(s)''
             else ''all checks passed ('' @ warned @ '' warning(s))'')
       in Inr ((''agent-lab doctor (AGENT_LAB_HOME='' @ home_text f @ '')'') # map (check_row width) cs @ [summary],
               doctor_code cs))"

end
