(* ===== verification/Mac_Stats_Properties.thy ===== *)
theory Mac_Stats_Properties
  imports Mac_Stats Registry_Sizes
begin

text \<open>
  What \<open>vm_stat\<close> prints is read back: the pages that can be had without swapping, times the size of a
  page.
\<close>

section \<open>Scanning\<close>

lemma search_skips: "(\<And>c s. c \<in> set u \<Longrightarrow> m (c # s) = None) \<Longrightarrow> search m (u @ s) = search m s"
  by (induction u) auto

lemma takeWhile_stops:
  "list_all P u \<Longrightarrow> s = [] \<or> \<not> P (hd s) \<Longrightarrow> takeWhile P (u @ s) = u \<and> dropWhile P (u @ s) = s"
  by (induction u) (auto simp: takeWhile_eq_Nil_iff dropWhile_eq_self_iff)

lemma splitlines_line:
  "list_all (\<lambda>c. \<not> breaks_line c) l \<Longrightarrow> splitlines (l @ char_of (10 :: nat) # s) = l # splitlines s"
proof (induction l)
  case Nil
  have "breaks_line (char_of (10 :: nat))" "code (char_of (10 :: nat)) \<noteq> 13"
    by (simp_all add: breaks_line_def code_def)
  then show ?case by simp
next
  case (Cons c l)
  then show ?case by simp
qed

lemma digits_free: "is_ascii_digit c \<Longrightarrow> \<not> is_space c \<and> \<not> breaks_line c \<and> c \<noteq> CHR ''.'' \<and> c \<noteq> CHR '' ''"
  by (auto simp: is_ascii_digit_def is_space_def breaks_line_def code_def)

section \<open>A line\<close>

text \<open>A line of the output: the name, whether it is quoted, the blanks before the number, and the number.\<close>

record stat =
  stat_name :: string
  stat_quoted :: bool
  stat_blanks :: nat
  stat_pages :: nat

definition stat_line :: "stat \<Rightarrow> string" where
  "stat_line e =
     (let q = (if stat_quoted e then [QUOTE] else [])
      in q @ stat_name e @ q @ '':'' @ replicate (Suc (stat_blanks e)) (CHR '' '') @ show_nat (stat_pages e) @ ''.'')"

definition ok_stat :: "stat \<Rightarrow> bool" where
  "ok_stat e \<longleftrightarrow>
     stat_name e \<noteq> [] \<and> list_all (\<lambda>c. c \<noteq> CHR '':'' \<and> c \<noteq> QUOTE \<and> \<not> breaks_line c) (stat_name e) \<and>
     \<not> is_space (hd (stat_name e)) \<and> \<not> is_space (last (stat_name e)) \<and>
     length (show_nat (stat_pages e)) \<le> 4300"

lemma QUOTE_plain [simp]: "\<not> is_space QUOTE" "\<not> breaks_line QUOTE" "QUOTE \<noteq> CHR '':''"
  by (simp_all add: QUOTE_def is_space_def breaks_line_def code_def)

lemma plain_chars [simp]:
  "\<not> is_space (CHR ''.'')" "\<not> breaks_line (CHR ''.'')" "\<not> breaks_line (CHR '':'')"
  "\<not> breaks_line (CHR '' '')" "is_space (CHR '' '')" "\<not> is_ascii_digit (CHR ''.'')"
  by (simp_all add: is_space_def breaks_line_def is_ascii_digit_def code_def)

lemma stat_line_strip: "ok_stat e \<Longrightarrow> strip (stat_line e) = stat_line e"
  by (rule strip_id) (simp add: stat_line_def ok_stat_def Let_def)

lemma digits_no_break: "list_all (\<lambda>c. \<not> breaks_line c) (show_nat n)"
  by (rule list.pred_mono_strong [OF show_nat_digits]) (simp add: digits_free)

lemma stat_line_no_break: "ok_stat e \<Longrightarrow> list_all (\<lambda>c. \<not> breaks_line c) (stat_line e)"
  by (simp add: stat_line_def ok_stat_def Let_def digits_no_break) (simp add: list_all_iff)

lemma vm_stat_line_reads:
  assumes "ok_stat e"
  shows "vm_stat_line (stat_line e) = Some (stat_name e, show_nat (stat_pages e))"
proof -
  let ?P = "\<lambda>c. c \<noteq> CHR '':'' \<and> c \<noteq> QUOTE"
  let ?tail = "replicate (Suc (stat_blanks e)) (CHR '' '') @ show_nat (stat_pages e) @ ''.''"
  define q where "q = (if stat_quoted e then [QUOTE] else [])"
  from assms have name: "list_all ?P (stat_name e)" "stat_name e \<noteq> []" "hd (stat_name e) \<noteq> QUOTE"
    by (auto simp: ok_stat_def list_all_iff)
  have line: "stat_line e = q @ stat_name e @ q @ CHR '':'' # ?tail"
    by (simp add: stat_line_def q_def Let_def)
  have 1: "skip QUOTE (stat_line e) = stat_name e @ q @ CHR '':'' # ?tail"
    using name by (auto simp: line q_def skip_def)
  have 2: "takeWhile ?P (stat_name e @ q @ CHR '':'' # ?tail) = stat_name e"
    using takeWhile_stops [of ?P "stat_name e" "q @ CHR '':'' # ?tail"] name by (auto simp: q_def)
  have 3: "skip QUOTE (q @ CHR '':'' # ?tail) = CHR '':'' # ?tail"
    by (auto simp: q_def skip_def QUOTE_def)
  have digits: "list_all is_ascii_digit (show_nat (stat_pages e))" by (rule show_nat_digits)
  then have "\<not> is_space (hd (show_nat (stat_pages e) @ ''.''))"
    using digits_free by (cases "show_nat (stat_pages e)") auto
  then have 4: "dropWhile is_space ?tail = show_nat (stat_pages e) @ ''.''"
    using takeWhile_stops [of is_space "replicate (Suc (stat_blanks e)) (CHR '' '')" "show_nat (stat_pages e) @ ''.''"]
    by (simp add: list_all_iff)
  have 5: "takeWhile is_ascii_digit (show_nat (stat_pages e) @ ''.'') = show_nat (stat_pages e)"
    using takeWhile_stops [OF digits, of "''.''"] by simp
  have 6: "?tail \<noteq> show_nat (stat_pages e) @ ''.''" by (rule notI, drule arg_cong [of _ _ length]) simp
  show ?thesis
    unfolding vm_stat_line_def 1 Let_def 2
    using name 3 4 5 6 by (simp add: skip_def)
qed

section \<open>The output\<close>

definition vm_stat_text :: "nat \<Rightarrow> stat list \<Rightarrow> string" where
  "vm_stat_text n es =
     ''Mach Virtual Memory Statistics: (page size of '' @ show_nat n @ '' bytes)'' @ [char_of (10 :: nat)] @
     concat (map (\<lambda>e. stat_line e @ [char_of (10 :: nat)]) es)"

definition pages :: "stat list \<Rightarrow> string \<Rightarrow> int option" where
  "pages es k = map_option int (map_of (map (\<lambda>e. (stat_name e, stat_pages e)) es) k)"

lemma page_size_found: "search page_size_at (vm_stat_text n es) = Some (show_nat n)"
proof -
  have "search page_size_at (vm_stat_text n es) =
      search page_size_at (''page size of '' @ show_nat n @ '' bytes)'' @ [char_of (10 :: nat)] @
        concat (map (\<lambda>e. stat_line e @ [char_of (10 :: nat)]) es))"
    using search_skips [of "''Mach Virtual Memory Statistics: (''" page_size_at]
    by (simp add: vm_stat_text_def page_size_at_def after_def)
  also have "\<dots> = Some (show_nat n)"
  proof -
    let ?r = "show_nat n @ '' bytes)'' @ [char_of (10 :: nat)] @ concat (map (\<lambda>e. stat_line e @ [char_of (10 :: nat)]) es)"
    have "takeWhile is_ascii_digit ?r = show_nat n"
      using takeWhile_stops [OF show_nat_digits, of "drop (length (show_nat n)) ?r" n]
      by (simp add: is_ascii_digit_def code_def)
    then have "page_size_at (''page size of '' @ ?r) = Some (show_nat n)"
      by (simp add: page_size_at_def after_def)
    then show ?thesis by simp
  qed
  finally show ?thesis .
qed

lemma splitlines_stats:
  "list_all ok_stat es \<Longrightarrow> splitlines (concat (map (\<lambda>e. stat_line e @ [char_of (10 :: nat)]) es)) = map stat_line es"
  by (induction es) (simp_all add: splitlines_line stat_line_no_break)

lemma int_of_shown: "length (show_nat n) \<le> 4300 \<Longrightarrow> int_of_text (show_nat n) = Inr (int n)"
  using show_nat_digits [of n] by (simp add: int_of_text_def int_of_digits_def read_show_nat)

lemma name_stripped: "ok_stat e \<Longrightarrow> strip (stat_name e) = stat_name e"
  by (rule strip_id) (simp add: ok_stat_def)

lemma pages_of_stats:
  "list_all ok_stat es \<Longrightarrow>
   pages_of (map stat_line es) d = Inr (fold (\<lambda>e. AList.update (stat_name e) (int (stat_pages e))) es d)"
proof (induction es arbitrary: d)
  case Nil
  then show ?case by simp
next
  case (Cons e es)
  then have "int_of_text (show_nat (stat_pages e)) = Inr (int (stat_pages e))"
    by (intro int_of_shown) (simp add: ok_stat_def)
  with Cons show ?case by (simp add: stat_line_strip vm_stat_line_reads name_stripped)
qed

lemma lookup_stats:
  "distinct (map stat_name es) \<Longrightarrow>
   map_of (fold (\<lambda>e. AList.update (stat_name e) (int (stat_pages e))) es d) k =
     (case pages es k of Some v \<Rightarrow> Some v | None \<Rightarrow> map_of d k)"
proof (induction es arbitrary: d)
  case Nil
  then show ?case by (simp add: pages_def)
next
  case (Cons e es)
  have "pages es (stat_name e) = None" using Cons.prems by (auto simp: pages_def map_of_eq_None_iff)
  with Cons show ?case by (auto simp: pages_def update_conv split: option.splits)
qed

lemma parse_vm_stat_text:
  assumes "list_all ok_stat es" and "distinct (map stat_name es)" and "length (show_nat n) \<le> 4300"
  shows "parse_vm_stat (vm_stat_text n es) = Inr
    (case (pages es ''Pages free'', pages es ''Pages inactive'', pages es ''Pages speculative'') of
       (Some a, Some b, Some c) \<Rightarrow> Some ((a + b + c) * int n)
     | _ \<Rightarrow> None)"
proof -
  let ?header = "''Mach Virtual Memory Statistics: (page size of '' @ show_nat n @ '' bytes)''"
  have "list_all (\<lambda>c. \<not> breaks_line c) ?header"
    using digits_no_break [of n] by (simp add: breaks_line_def code_def)
  then have lines: "splitlines (vm_stat_text n es) = ?header # map stat_line es"
    using splitlines_line [of ?header] assms(1) by (simp add: vm_stat_text_def splitlines_stats)
  have "strip ?header = ?header"
    by (rule strip_id) (simp add: is_space_def code_def)
  then have "vm_stat_line (strip ?header) = None"
    by (simp add: vm_stat_line_def skip_def QUOTE_def Let_def is_space_def is_ascii_digit_def code_def)
  then have "pages_of (splitlines (vm_stat_text n es)) [] =
      Inr (fold (\<lambda>e. AList.update (stat_name e) (int (stat_pages e))) es [])"
    by (simp add: lines pages_of_stats [OF assms(1)])
  then show ?thesis
    using int_of_shown [OF assms(3)]
    by (simp add: parse_vm_stat_def page_size_found WANTED_def lookup_stats [OF assms(2)] split: option.splits)
qed

text \<open>
  Whatever the machine's figures are, \<open>parse_vm_stat\<close> reads from the text in which \<open>vm_stat\<close> prints
  them the free, inactive and speculative pages and gives their sum in bytes; without one of the
  three it says that it does not know.
\<close>

lemma vm_stat_reads_back:
  assumes "list_all ok_stat es" and "distinct (map stat_name es)" and "length (show_nat n) \<le> 4300"
  shows "parse_vm_stat (vm_stat_text n es) = Inr
    (case (pages es ''Pages free'', pages es ''Pages inactive'', pages es ''Pages speculative'') of
       (Some a, Some b, Some c) \<Rightarrow> Some ((a + b + c) * int n)
     | _ \<Rightarrow> None)"
  using assms by (rule parse_vm_stat_text)

lemma vm_stat_reads_back_witness:
  "parse_vm_stat (vm_stat_text 16384
     [\<lparr>stat_name = ''Pages free'', stat_quoted = False, stat_blanks = 30, stat_pages = 10000\<rparr>,
      \<lparr>stat_name = ''Pages inactive'', stat_quoted = False, stat_blanks = 25, stat_pages = 200000\<rparr>,
      \<lparr>stat_name = ''Pages speculative'', stat_quoted = False, stat_blanks = 22, stat_pages = 5000\<rparr>,
      \<lparr>stat_name = ''Translation faults'', stat_quoted = True, stat_blanks = 16, stat_pages = 123456789\<rparr>]) =
   Inr (Some (215000 * 16384))"
  by (subst vm_stat_reads_back)
    (simp_all add: ok_stat_def pages_def QUOTE_def breaks_line_def is_space_def code_def show_nat.simps)

section \<open>Figures that raise\<close>

text \<open>The functions are meant to return nothing instead of raising; these two raise.\<close>

lemma odd_figures_raise:
  "parse_swap_usage ''used = 1.2.3M'' = Inl ValueError"
  "sysctl_value [char_of (178 :: nat)] = Inl ValueError"
  by (simp_all add: parse_swap_usage_def swap_used_at_def after_def is_space_def figure_char_def is_ascii_digit_def
      code_def float_of_figure_def Let_def sysctl_value_def str_isdigit_def is_digit_def int_of_digits_def)

end
