(* ===== verification/Doctor_Properties.thy ===== *)
theory Doctor_Properties
  imports Doctor_Run Serve_Properties Mac_Stats_Properties
begin

text \<open>
  What it means that the doctor passes a machine, and that what it passes without a warning can be served.
\<close>

section \<open>What each check stands for\<close>

lemma outcome_Check [simp]: "outcome (Check n s d) = s"
  by (simp add: Check_def)

definition supported_mac :: "system_info \<Rightarrow> bool" where
  "supported_mac info \<longleftrightarrow>
     system info = ''Darwin'' \<and> machine_name info = ''arm64'' \<and>
     (\<forall>v. version_parts (split_at (CHR ''.'') (macos_version info)) = Inr v \<longrightarrow> v = [] \<or> MIN_MACOS \<le> v)"

definition pinned_python :: "python_found \<Rightarrow> bool" where
  "pinned_python f \<longleftrightarrow>
     is_relative_to (real_executable f) (tools_python f) \<and>
     (\<exists>text. version_file f = Inr text \<and> running_version f = strip text)"

text \<open>A tool is the pinned one when its stamp says so and its bytes are those that were stamped.\<close>

definition stamp_says :: "tools_found \<Rightarrow> string \<Rightarrow> string \<Rightarrow> string option" where
  "stamp_says f name field =
     (case stamp_of f name of None \<Rightarrow> None | Some text \<Rightarrow> map_of (stamp_values [] (splitlines text)) field)"

definition pinned_tool :: "(string \<Rightarrow> string) \<Rightarrow> tools_found \<Rightarrow> tool_pin \<Rightarrow> bool" where
  "pinned_tool sha f pin \<longleftrightarrow>
     (\<exists>data version hash. program_of f (pin_name pin) = Some data \<and>
        stamp_says f (pin_name pin) ''binary_sha256'' = Some (sha data) \<and>
        stamp_says f (pin_name pin) ''version'' = Some version \<and> pin_version pin = PStr version \<and>
        stamp_says f (pin_name pin) ''sha256'' = Some hash \<and> pin_sha256 pin = PStr hash)"

lemma check_tool_outcome:
  "outcome (check_tool sha show_val f pin) = (if pinned_tool sha f pin then OK else FAIL)"
  by (auto simp: check_tool_def verify_tool_def pinned_tool_def stamp_says_def Let_def split: option.splits)

lemma check_python_outcome: "outcome (check_python f) = (if pinned_python f then OK else FAIL)"
  by (auto simp: check_python_def pinned_python_def Let_def split: sum.splits)

lemma check_secrets_outcome:
  "outcome (check_secrets_dir s m) = (if \<exists>k. m = Some k \<and> k mod 512 = 448 then OK else FAIL)"
  by (auto simp: check_secrets_dir_def SECRETS_MODE_def Let_def split: option.splits)

lemma never_fails:
  "outcome (check_gpu_limit info p s) \<noteq> FAIL"
  "check_memory info = Inr c \<Longrightarrow> outcome c \<noteq> FAIL"
  "check_disk home n = Inr c \<Longrightarrow> outcome c \<noteq> FAIL"
  "check_memory_pressure info p stats = Inr cs \<Longrightarrow> c \<in> set cs \<Longrightarrow> outcome c \<noteq> FAIL"
  "c \<in> set (check_ports used owner p) \<Longrightarrow> outcome c \<noteq> FAIL"
  by (auto simp: check_gpu_limit_def check_memory_def check_disk_def check_memory_pressure_def check_free_def
      check_swap_def check_ports_def check_port_def Let_def and_then_eq_Inr split: option.splits if_splits)

lemma check_mac_outcome:
  assumes "check_macos info = Inr c"
  shows "(outcome (check_chip info) \<noteq> FAIL \<and> outcome c \<noteq> FAIL) \<longleftrightarrow> supported_mac info"
proof (cases "system info = ''Darwin''")
  case False
  then show ?thesis by (simp add: check_chip_def supported_mac_def Let_def)
next
  case True
  with assms obtain v where "version_parts (split_at (CHR ''.'') (macos_version info)) = Inr v"
    by (auto simp: check_macos_def and_then_eq_Inr)
  with True assms show ?thesis
    by (cases "v = []"; cases "v < MIN_MACOS")
      (auto simp: check_chip_def check_macos_def supported_mac_def Let_def not_less)
qed

lemma profile_checks_never_fail:
  "profile_checks f info p = Inr cs \<Longrightarrow> c \<in> set cs \<Longrightarrow> outcome c \<noteq> FAIL"
  by (auto simp: profile_checks_def and_then_eq_Inr never_fails(1) split: if_splits dest: never_fails(4,5))

lemma doctor_code_zero: "doctor_code cs = 0 \<longleftrightarrow> (\<forall>c \<in> set cs. outcome c \<noteq> FAIL)"
  by (auto simp: doctor_code_def filter_empty_conv)

section \<open>What passing means\<close>

definition tools_ok :: "doctor_found \<Rightarrow> bool" where
  "tools_ok f \<longleftrightarrow>
     (\<exists>pins. load_pins (tools_path (found_tools f)) (tools_file (found_tools f)) ''darwin-arm64'' = Inr pins \<and>
        list_all (pinned_tool (hash_of f) (found_tools f)) pins)"

lemma check_tools_outcome:
  "(\<forall>c \<in> set (check_tools (hash_of f) shown (found_tools f) (Some ''darwin-arm64'')). outcome c \<noteq> FAIL) \<longleftrightarrow> tools_ok f"
  by (auto simp: check_tools_def tools_ok_def check_tool_outcome list_all_iff split: sum.splits)

lemma profile_check_outcome:
  assumes "check_profile text_of name loaded = Inr (c, p)"
  shows "outcome c \<noteq> FAIL \<longleftrightarrow> (\<exists>q. loaded = Inr q)" and "p = (case loaded of Inr q \<Rightarrow> Some q | Inl _ \<Rightarrow> None)"
  using assms by (auto simp: check_profile_def split: sum.splits config_failure.splits)

text \<open>The parts of a run that returned\<close>

lemma run_checks_parts:
  assumes "run_checks f = Inr cs" and "collect_system (found_platform f) = Inr info"
  obtains pc p memory macos disk rest where
    "check_profile (failure_text f) DEFAULT_PROFILE (found_profile f) = Inr (pc, p)"
    "check_memory info = Inr memory" "check_macos info = Inr macos"
    "check_disk (home_text f) (free_bytes f) = Inr disk"
    "(case p of None \<Rightarrow> Inr [] | Some p \<Rightarrow> profile_checks f info p) = Inr rest"
    "cs = [check_chip info, memory, macos, disk, check_python (found_python f)] @
       check_tools (hash_of f) (val_text f) (found_tools f) (platform_key (system info) (machine_name info)) @
       [check_secrets_dir (secrets_text f) (secrets_mode f), pc] @ rest"
  using assms unfolding run_checks_def by (auto simp: and_then_eq_Inr)

text \<open>
  C38: \<open>alab doctor\<close> exits with 0 exactly on an Apple Silicon Mac whose macOS is not known to be too old,
  run by the pinned Python of \<open>.tools\<close>, where both tools are the pinned ones byte for byte, with a secrets
  directory of mode 700 and a default profile that loads. Nothing else it finds makes it fail.
\<close>

theorem doctor_passes_exactly:
  assumes "run_checks f = Inr cs" and "collect_system (found_platform f) = Inr info"
  shows "doctor_code cs = 0 \<longleftrightarrow>
    supported_mac info \<and> pinned_python (found_python f) \<and> tools_ok f \<and>
    (\<exists>m. secrets_mode f = Some m \<and> m mod 512 = 448) \<and> (\<exists>p. found_profile f = Inr p)"
proof -
  from run_checks_parts [OF assms] obtain pc p memory macos disk rest where
    parts: "check_profile (failure_text f) DEFAULT_PROFILE (found_profile f) = Inr (pc, p)"
    "check_memory info = Inr memory" "check_macos info = Inr macos"
    "check_disk (home_text f) (free_bytes f) = Inr disk"
    "(case p of None \<Rightarrow> Inr [] | Some p \<Rightarrow> profile_checks f info p) = Inr rest"
    "cs = [check_chip info, memory, macos, disk, check_python (found_python f)] @
       check_tools (hash_of f) (val_text f) (found_tools f) (platform_key (system info) (machine_name info)) @
       [check_secrets_dir (secrets_text f) (secrets_mode f), pc] @ rest" .
  have rest: "outcome c \<noteq> FAIL" if "c \<in> set rest" for c
    using parts(5) that by (cases p) (auto dest: profile_checks_never_fail)
  have mac: "(outcome (check_chip info) \<noteq> FAIL \<and> outcome macos \<noteq> FAIL) \<longleftrightarrow> supported_mac info"
    by (rule check_mac_outcome [OF parts(3)])
  have tools: "(\<forall>c \<in> set (check_tools (hash_of f) (val_text f) (found_tools f)
      (platform_key (system info) (machine_name info))). outcome c \<noteq> FAIL) \<longleftrightarrow> tools_ok f" if "supported_mac info"
  proof -
    from that have "platform_key (system info) (machine_name info) = Some ''darwin-arm64''"
      by (simp add: supported_mac_def platform_key_def)
    then show ?thesis by (simp add: check_tools_outcome)
  qed
  have "doctor_code cs = 0 \<longleftrightarrow>
      (outcome (check_chip info) \<noteq> FAIL \<and> outcome macos \<noteq> FAIL) \<and> pinned_python (found_python f) \<and>
      (\<forall>c \<in> set (check_tools (hash_of f) (val_text f) (found_tools f)
        (platform_key (system info) (machine_name info))). outcome c \<noteq> FAIL) \<and>
      (\<exists>m. secrets_mode f = Some m \<and> m mod 512 = 448) \<and> outcome pc \<noteq> FAIL"
    unfolding doctor_code_zero parts(6)
    using rest never_fails(2) [OF parts(2)] never_fails(3) [OF parts(4)]
    by (auto simp: check_python_outcome check_secrets_outcome split: if_splits)
  with mac tools profile_check_outcome(1) [OF parts(1)] show ?thesis by auto
qed

section \<open>From the doctor to serving\<close>

text \<open>
  On a machine that the doctor passes without a single warning, \<open>alab serve\<close> goes ahead without a
  warning and without \<open>--force\<close>, as long as it finds the machine as the doctor did and the model is verified.
\<close>

theorem doctor_passes_serve_goes_ahead:
  assumes "run_checks f = Inr cs" and "list_all (\<lambda>c. outcome c = OK) cs"
    and "collect_system (found_platform f) = Inr (info_found s)" and "found_profile f = Inr p"
    and "read_state (found_mac f) = Inr (limits_found s)"
    and "read_memory_stats (command_text f) = Inr (stats_found s)" and "used_port s = port_used f"
    and "and_then (registry_found s) (get_entry (profile.model_id p)) = Inr entry"
    and "model_state s entry = Downloaded"
  shows "preflight s p False = Inr []"
proof -
  from run_checks_parts [OF assms(1,3)] obtain pc p' memory macos disk rest where
    pc: "check_profile (failure_text f) DEFAULT_PROFILE (found_profile f) = Inr (pc, p')"
    and rest: "(case p' of None \<Rightarrow> Inr [] | Some p \<Rightarrow> profile_checks f (info_found s) p) = Inr rest"
    and all_cs: "cs = [check_chip (info_found s), memory, macos, disk, check_python (found_python f)] @
       check_tools (hash_of f) (val_text f) (found_tools f)
         (platform_key (system (info_found s)) (machine_name (info_found s))) @
       [check_secrets_dir (secrets_text f) (secrets_mode f), pc] @ rest" .
  from all_cs have cs: "set rest \<subseteq> set cs" "check_chip (info_found s) \<in> set cs" by auto
  from pc assms(4) have p': "p' = Some p" by (auto dest: profile_check_outcome(2))
  from cs assms(2) have ok: "\<And>c. c \<in> set rest \<Longrightarrow> outcome c = OK" "outcome (check_chip (info_found s)) = OK"
    by (auto simp: list_all_iff)
  from ok(2) have mac: "system (info_found s) = ''Darwin''"
    by (auto simp: check_chip_def Let_def split: if_splits)
  with rest p' assms(5,6) obtain checks where
    checks: "check_memory_pressure (info_found s) p (stats_found s) = Inr checks"
    and all: "rest = check_gpu_limit (info_found s) p (limits_found s) # checks @
      check_ports (port_used f) (\<lambda>n. port_owner (lsof_lines f n)) p"
    by (auto simp: profile_checks_def and_then_eq_Inr)
  from ok(1) all have "outcome (check_gpu_limit (info_found s) p (limits_found s)) = OK"
    "filter (\<lambda>c. outcome c \<noteq> OK) checks = []" by (auto simp: filter_empty_conv)
  moreover have "\<not> used_port s (backend_port (backend p))"
    using ok(1) [of "check_port (port_used f) (\<lambda>n. port_owner (lsof_lines f n)) ''backend'' (backend_port (backend p))"]
    by (auto simp: all check_ports_def check_port_def assms(7) Let_def split: if_splits)
  ultimately show ?thesis using checks assms(8,9) by (simp add: preflight_def Let_def)
qed

section \<open>A machine that passes\<close>

definition good_tools :: tools_found where
  "good_tools =
     \<lparr>tools_path = ''tools.toml'',
      tools_file = (let entry = PDict [(''version'', PStr ''1''), (''darwin-arm64'', PDict [(''sha256'', PStr ''aa'')])]
        in Parsed [(''uv'', entry), (''cloudflared'', entry)]),
      binary_of = (\<lambda>n. ''.tools/bin/'' @ n),
      stamp_of = (\<lambda>_. Some (join_with [char_of (10 :: nat)] [''version=1'', ''sha256=aa'', ''binary_sha256=h''])),
      program_of = (\<lambda>_. Some [])\<rparr>"

definition good_command :: "string list \<Rightarrow> string" where
  "good_command args =
     (if args = [''/usr/bin/vm_stat'']
      then vm_stat_text 1073741824
        [\<lparr>stat_name = ''Pages free'', stat_quoted = False, stat_blanks = 1, stat_pages = 16\<rparr>,
         \<lparr>stat_name = ''Pages inactive'', stat_quoted = False, stat_blanks = 1, stat_pages = 0\<rparr>,
         \<lparr>stat_name = ''Pages speculative'', stat_quoted = False, stat_blanks = 1, stat_pages = 0\<rparr>]
      else ''used = 0G'')"

definition good_mac :: mac where
  "good_mac = small_mac\<lparr>sysctl_text := \<lambda>name. if name = ''hw.memsize'' then ''25769803776'' else ''20480''\<rparr>"

definition good_machine :: doctor_found where
  "good_machine =
     \<lparr>found_platform = \<lparr>platform_system = ''Darwin'', platform_machine = ''arm64'', brand_text = ''M4'',
        memsize_text = ''25769803776'', mac_ver = ''15.1'', cpuinfo = None, sysconf = None\<rparr>,
      home_text = ''/lab'', free_bytes = 32 * 2 ^ 30,
      found_python = \<lparr>executable = ''/lab/python'', real_executable = ''/lab/.tools/python/bin/python'',
        tools_python = ''/lab/.tools/python'', running_version = ''3.14.0'', version_file = Inr ''3.14.0''\<rparr>,
      found_tools = good_tools, secrets_text = ''/lab/var/secrets'', secrets_mode = Some 16832,
      found_profile = Inr some_profile, failure_text = \<lambda>_. [], val_text = \<lambda>_. [], hash_of = \<lambda>_. ''h'',
      found_mac = good_mac, command_text = good_command, port_used = \<lambda>_. False, lsof_lines = \<lambda>_. []\<rparr>"

definition good_info :: system_info where
  "good_info =
     \<lparr>system = ''Darwin'', machine_name = ''arm64'', chip = ''M4'', memory_bytes = Some 25769803776, macos_version = ''15.1''\<rparr>"

definition good_limits :: limit_state where
  "good_limits = \<lparr>wired_limit_mb = Some 20480, metal = mlx_info small_mac, memory_of = Some 25769803776\<rparr>"

lemma whole_gib: "k < 2 ^ 53 \<Longrightarrow> int_div (int k * 2 ^ 30) GIB = Inr (Fin (of_nat k))"
proof -
  assume "k < 2 ^ 53"
  moreover have "of_int (int k * 2 ^ 30) / of_nat GIB = (of_nat k :: rat)" by (simp add: GIB_def)
  ultimately show ?thesis by (simp add: int_div_def round_double_nat)
qed

lemma some_gib:
  "int_div 25769803776 GIB = Inr (Fin 24)" "int_div (32 * 2 ^ 30) GIB = Inr (Fin 32)"
  "int_div 17179869184 GIB = Inr (Fin 16)" "int_div 0 GIB = Inr (Fin 0)"
  using whole_gib [of 24] whole_gib [of 32] whole_gib [of 16] whole_gib [of 0] by simp_all

lemma good_system: "collect_system (found_platform good_machine) = Inr good_info"
  by (simp add: good_machine_def collect_system_def small_texts good_info_def)

lemma good_state: "read_state (found_mac good_machine) = Inr good_limits"
  by (simp add: good_machine_def read_state_def good_mac_def small_texts SYSCTL_NAME_def good_limits_def small_mac_def)

lemma good_memory:
  "read_memory_stats good_command = Inr (Some \<lparr>available_bytes = 17179869184, swap_used_bytes = Some 0\<rparr>)"
proof -
  have "parse_vm_stat (good_command [''/usr/bin/vm_stat'']) = Inr (Some 17179869184)"
    unfolding good_command_def
    by (simp, subst parse_vm_stat_text)
      (simp_all add: ok_stat_def pages_def QUOTE_def breaks_line_def is_space_def code_def show_nat.simps)
  moreover have "strip ''used = 0G'' = ''used = 0G''" by (rule strip_id) (simp add: is_space_def code_def)
  then have "parse_swap_usage (strip (good_command [''/usr/sbin/sysctl'', ''-n'', ''vm.swapusage''])) = Inr (Some 0)"
    by (simp add: good_command_def parse_swap_usage_def swap_used_at_def after_def is_space_def figure_char_def
        is_ascii_digit_def code_def float_of_figure_def read_nat_def digit_val_def round_double_def float_mult_def
        int_of_float_def UNIT_BYTES_def Let_def)
  ultimately show ?thesis by (simp add: read_memory_stats_def)
qed

lemma good_tool_pins:
  "load_pins ''tools.toml'' (tools_file good_tools) ''darwin-arm64'' =
     Inr [\<lparr>pin_name = ''uv'', pin_version = PStr ''1'', pin_sha256 = PStr ''aa''\<rparr>,
          \<lparr>pin_name = ''cloudflared'', pin_version = PStr ''1'', pin_sha256 = PStr ''aa''\<rparr>]"
  by (simp add: good_tools_def load_pins_def TOOLS_def load_pin_def item_get_def Let_def)

lemma good_stamp: "stamp_values [] (splitlines (join_with [char_of (10 :: nat)] [''version=1'', ''sha256=aa'', ''binary_sha256=h''])) =
    [(''version'', ''1''), (''sha256'', ''aa''), (''binary_sha256'', ''h'')]"
  by (simp add: breaks_line_def code_def partition_at_def)

lemma good_tools_checked:
  "list_all (\<lambda>c. outcome c = OK) (check_tools (\<lambda>_. ''h'') shown good_tools (platform_key ''Darwin'' ''arm64''))"
proof -
  have "pinned_tool (\<lambda>_. ''h'') good_tools \<lparr>pin_name = n, pin_version = PStr ''1'', pin_sha256 = PStr ''aa''\<rparr>" for n
    using good_stamp by (simp add: pinned_tool_def stamp_says_def good_tools_def)
  moreover have "tools_path good_tools = ''tools.toml''" by (simp add: good_tools_def)
  ultimately show ?thesis
    by (simp add: check_tools_def platform_key_def good_tool_pins check_tool_outcome)
qed

lemma good_profile_checks:
  "\<exists>cs. profile_checks good_machine good_info some_profile = Inr cs \<and> list_all (\<lambda>c. outcome c = OK) cs"
proof -
  have "outcome (check_gpu_limit good_info some_profile good_limits) = OK"
    by (simp add: check_gpu_limit_def good_info_def some_profile_def good_limits_def ceiling_mb_def MIB_def HEADROOM_MB_def
        effective_mb_def)
  moreover have "\<exists>cs. check_memory_pressure good_info some_profile (Some \<lparr>available_bytes = 17179869184, swap_used_bytes = Some 0\<rparr>) =
      Inr cs \<and> list_all (\<lambda>c. outcome c = OK) cs"
    by (simp add: check_memory_pressure_def good_info_def check_free_def in_gb_def scaled_def some_gib some_profile_def
        check_swap_def SWAP_WARN_def)
  moreover have "list_all (\<lambda>c. outcome c = OK) (check_ports (\<lambda>_. False) owner some_profile)" for owner
    by (simp add: check_ports_def check_port_def Let_def)
  moreover have "system good_info = ''Darwin''" "command_text good_machine = good_command" "port_used good_machine = (\<lambda>_. False)"
    by (simp_all add: good_info_def good_machine_def)
  ultimately show ?thesis
    using good_state good_memory by (auto simp: profile_checks_def)
qed

lemma good_run:
  obtains cs where "run_checks good_machine = Inr cs" and "list_all (\<lambda>c. outcome c = OK) cs"
proof -
  obtain rest where rest: "profile_checks good_machine good_info some_profile = Inr rest" "list_all (\<lambda>c. outcome c = OK) rest"
    using good_profile_checks by blast
  have "check_memory good_info = Inr (Check ''memory'' OK (fixed0 (Fin 24) @ '' GB''))"
    by (simp add: check_memory_def good_info_def whole_gb_def some_gib) (simp add: RECOMMENDED_MEMORY_def GIB_def)
  moreover have "check_macos good_info = Inr (Check ''macOS'' OK ''15.1'')"
    by (simp add: check_macos_def good_info_def str_isdigit_def is_digit_def is_ascii_digit_def int_of_digits_def code_def
        read_nat_def digit_val_def MIN_MACOS_def)
  moreover have "\<exists>d. check_disk ''/lab'' (32 * 2 ^ 30) = Inr (Check ''disk'' OK d)"
    using some_gib(2) by (simp add: check_disk_def in_gb_def scaled_def MIN_FREE_DISK_def GIB_def) blast
  then obtain d where "check_disk ''/lab'' (32 * 2 ^ 30) = Inr (Check ''disk'' OK d)" by blast
  moreover have "outcome (check_chip good_info) = OK" by (simp add: check_chip_def good_info_def)
  moreover have "outcome (check_python (found_python good_machine)) = OK"
    by (simp add: check_python_outcome pinned_python_def good_machine_def is_relative_to_def strip_def is_space_def code_def)
  moreover have "outcome (check_secrets_dir s (Some 16832)) = OK" for s by (simp add: check_secrets_outcome)
  moreover have "system good_info = ''Darwin''" "machine_name good_info = ''arm64''" by (simp_all add: good_info_def)
  moreover have "home_text good_machine = ''/lab''" "free_bytes good_machine = 32 * 2 ^ 30" "found_tools good_machine = good_tools"
    "secrets_mode good_machine = Some 16832" "found_profile good_machine = Inr some_profile" "hash_of good_machine = (\<lambda>_. ''h'')"
    by (simp_all add: good_machine_def)
  ultimately have "\<exists>cs. run_checks good_machine = Inr cs \<and> list_all (\<lambda>c. outcome c = OK) cs"
    using rest good_system good_tools_checked
    by (simp add: run_checks_def check_profile_def)
  then show thesis using that by blast
qed

theorem doctor_passes_exactly_witness:
  "\<exists>cs. run_checks good_machine = Inr cs \<and> doctor_code cs = 0 \<and> supported_mac good_info \<and> tools_ok good_machine"
proof -
  obtain cs where "run_checks good_machine = Inr cs" "list_all (\<lambda>c. outcome c = OK) cs" by (rule good_run)
  moreover from this(2) have "doctor_code cs = 0" by (auto simp: doctor_code_zero list_all_iff)
  ultimately show ?thesis using doctor_passes_exactly [OF _ good_system] by blast
qed

definition good_serving :: serving where
  "good_serving = ready_machine\<lparr>info_found := good_info, limits_found := good_limits,
     stats_found := Some \<lparr>available_bytes = 17179869184, swap_used_bytes = Some 0\<rparr>\<rparr>"

theorem doctor_passes_serve_goes_ahead_witness: "preflight good_serving some_profile False = Inr []"
proof -
  obtain cs where cs: "run_checks good_machine = Inr cs" "list_all (\<lambda>c. outcome c = OK) cs" by (rule good_run)
  have fields: "info_found good_serving = good_info" "limits_found good_serving = good_limits"
    "stats_found good_serving = Some \<lparr>available_bytes = 17179869184, swap_used_bytes = Some 0\<rparr>"
    "used_port good_serving = port_used good_machine" "registry_found good_serving = Inr [(''m'', one_file)]"
    "model_state good_serving = (\<lambda>e. local_state (\<lambda>_. []) e model_in_place)" "found_profile good_machine = Inr some_profile"
    "command_text good_machine = good_command" "profile.model_id some_profile = ''m''"
    by (simp_all add: good_serving_def ready_machine_def good_machine_def some_profile_def)
  show ?thesis
    by (rule doctor_passes_serve_goes_ahead [OF cs, where entry = one_file])
      (simp_all add: fields good_system good_state good_memory get_entry_def ready_model)
qed

end
