(* ===== verification/Probes.thy ===== *)
theory Probes
  imports Gpu_Limit Processes
begin

text \<open>
  What the programs ask of a process and of the GPU: the memory of a process and the health of a server from
  \<open>backend/process.py\<close>, and what MLX reports from \<open>gpulimit.py\<close>. The answers of \<open>ps\<close>, of \<open>urllib\<close> and
  of MLX are arguments.
\<close>

section \<open>A process\<close>

text \<open>The output of \<open>ps -o rss=\<close>, in kilobytes; \<open>None\<close> if \<open>ps\<close> cannot be run.\<close>

definition rss_bytes :: "string option \<Rightarrow> py_exn + int option" where
  "rss_bytes out =
     (case out of
        None \<Rightarrow> Inr None
      | Some text \<Rightarrow> and_then (sysctl_value (strip text)) (\<lambda>v. Inr (map_option (\<lambda>n. n * 1024) v)))"

text \<open>
  \<open>health\<close>: \<open>urllib\<close> raises an \<open>HTTPError\<close> for a status that is not a success. \<open>OSError\<close> and \<open>ValueError\<close>
  count as no answer; \<open>http.client\<close> raises an exception of another kind when the answer is not HTTP.
\<close>

datatype http_answer = Http_status int | Http_error int | No_connection | Bad_value | Not_http

definition health :: "http_answer \<Rightarrow> http_answer + int option" where
  "health a =
     (case a of
        Http_status n \<Rightarrow> Inr (Some n)
      | Http_error n \<Rightarrow> Inr (Some n)
      | Not_http \<Rightarrow> Inl Not_http
      | _ \<Rightarrow> Inr None)"

lemma health_raises_only_for_other_protocols: "health a = Inl e \<longleftrightarrow> a = Not_http \<and> e = Not_http"
  by (cases a) (auto simp: health_def)

section \<open>The GPU\<close>

datatype mlx = Not_installed string | Installed "string + bool" "string + pydict" string

definition read_metal_info :: "mlx \<Rightarrow> metal_info" where
  "read_metal_info m =
     (let unread = (\<lambda>e. \<lparr>recommended_bytes = None, metal_note = ''MLX could not read the Metal device: '' @ e\<rparr>)
      in case m of
           Not_installed e \<Rightarrow>
             \<lparr>recommended_bytes = None,
              metal_note = ''MLX is not installed ('' @ e @ ''); only the sysctl value is shown''\<rparr>
         | Installed available info version \<Rightarrow>
             (case available of
                Inl e \<Rightarrow> unread e
              | Inr False \<Rightarrow> \<lparr>recommended_bytes = None, metal_note = ''MLX reports no Metal GPU on this machine''\<rparr>
              | Inr True \<Rightarrow>
                  (case info of
                     Inl e \<Rightarrow> unread e
                   | Inr d \<Rightarrow>
                       let missing = \<lparr>recommended_bytes = None,
                             metal_note = ''MLX '' @ version @ '' did not report the recommended working set''\<rparr>;
                           found = (\<lambda>n. if n \<le> 0 then missing else \<lparr>recommended_bytes = Some n, metal_note = ''MLX '' @ version\<rparr>)
                       in (case dget d ''max_recommended_working_set_size'' of
                             PInt n \<Rightarrow> found n
                           | PBool b \<Rightarrow> found (of_bool b)
                           | _ \<Rightarrow> missing))))"

text \<open>A working set that is known is positive, so what \<open>show\<close> says of it is a number.\<close>

lemma known_working_set: "recommended_bytes (read_metal_info m) = Some n \<Longrightarrow> 0 < n"
  by (auto simp: read_metal_info_def Let_def split: mlx.splits sum.splits bool.splits pyval.splits if_splits)

lemma working_set_is_shown:
  assumes "recommended_bytes (read_metal_info m) = Some n" and "metal_row (read_metal_info m) = Inr t"
  shows "\<exists>size_text. in_gb n = Inr size_text \<and> t = size_text @ '' ('' @ metal_note (read_metal_info m) @ '')''"
  using assms known_working_set [OF assms(1)] by (auto simp: metal_row_def and_then_eq_Inr)

end
