(* ===== verification/Status_Report.thy ===== *)
theory Status_Report
  imports Launcher Mac_Stats
begin

text \<open>
  \<open>serve.py\<close>, the lines that describe a service's status, and the last lines of a log from
  \<open>backend/process.py\<close>. A record is JSON that anything may have written, so a value of a wrong type
  raises here as it does in the code.
\<close>

section \<open>Values as text\<close>

text \<open>\<open>_gb\<close>: division by a power of two and two digits; the sign is written apart.\<close>

definition gb :: "pyval \<Rightarrow> py_exn + string" where
  "gb v =
     (let number = (\<lambda>q. if q < 0 then and_then (case round_double (- q / of_nat GIB) of PosInf \<Rightarrow> Inl OverflowError | f \<Rightarrow> Inr f)
                               (\<lambda>f. Inr (''-'' @ fixed2 f @ '' GB''))
                        else and_then (case round_double (q / of_nat GIB) of PosInf \<Rightarrow> Inl OverflowError | f \<Rightarrow> Inr f)
                               (\<lambda>f. Inr (fixed2 f @ '' GB'')))
      in case v of
           PNone \<Rightarrow> Inr ''unknown''
         | PInt i \<Rightarrow> number (of_int i)
         | PBool b \<Rightarrow> number (if b then 1 else 0)
         | PFloat (Fin q) \<Rightarrow> number q
         | PFloat f \<Rightarrow> Inr (fixed2 f @ '' GB'')
         | _ \<Rightarrow> Inl TypeError)"

definition pad2 :: "int \<Rightarrow> string" where
  "pad2 n = [digit_char (nat n div 10), digit_char (nat n mod 10)]"

text \<open>\<open>_uptime\<close> at the time \<open>wall\<close>\<close>

definition elapsed :: "rat \<Rightarrow> pyfloat \<Rightarrow> py_exn + int" where
  "elapsed wall started =
     (case started of
        Fin q \<Rightarrow>
          if wall \<ge> q then int_of_float (round_double (wall - q))
          else and_then (int_of_float (round_double (q - wall))) (\<lambda>n. Inr (- n))
      | NaN \<Rightarrow> Inl ValueError
      | _ \<Rightarrow> Inl OverflowError)"

definition uptime :: "rat \<Rightarrow> pyfloat \<Rightarrow> py_exn + string" where
  "uptime wall started =
     and_then (elapsed wall started) (\<lambda>s.
       Inr (show_int (s div 3600) @ ''h'' @ pad2 (s div 60 mod 60) @ ''m'' @ pad2 (s mod 60) @ ''s''))"

text \<open>\<open>str\<close> of a JSON value; \<open>shown\<close> is how the interpreter shows what is neither a text nor an integer.\<close>

definition text_of_json :: "(pyval \<Rightarrow> string) \<Rightarrow> pyval \<Rightarrow> string" where
  "text_of_json shown v = (case v of PStr s \<Rightarrow> s | PInt i \<Rightarrow> show_int i | PNone \<Rightarrow> ''None'' | _ \<Rightarrow> shown v)"

fun state_text :: "state \<Rightarrow> string" where
  "state_text STOPPED = ''not running''"
| "state_text LOADING = ''loading the model''"
| "state_text RUNNING = ''running''"
| "state_text UNHEALTHY = ''running but unhealthy''"
| "state_text EXITED = ''exited unexpectedly''"

section \<open>Logs\<close>

text \<open>The bytes of the file, if it can be read; \<open>decode\<close> is UTF-8 with replacement.\<close>

definition TAIL_BYTES :: nat where
  "TAIL_BYTES = 64 * 1024"

definition log_tail :: "(string \<Rightarrow> string) \<Rightarrow> nat \<Rightarrow> string option \<Rightarrow> string list" where
  "log_tail decode n file =
     (case file of
        None \<Rightarrow> []
      | Some bytes \<Rightarrow>
          let ls = splitlines (decode (drop (length bytes - TAIL_BYTES) bytes))
          in drop (length ls - n) ls)"

definition indented :: "nat \<Rightarrow> string list \<Rightarrow> string list" where
  "indented n = map (\<lambda>l. replicate n (CHR '' '') @ l)"

text \<open>\<open>_failure\<close>: the message of a start that failed, with the ends of the two logs\<close>

definition failure_message ::
    "(string \<Rightarrow> string) \<Rightarrow> string \<Rightarrow> (string \<times> string option) list \<Rightarrow> string" where
  "failure_message decode msg logs =
     join_with [NEWLINE]
       (msg # concat (map (\<lambda>(path, file).
          let tail = log_tail decode 20 file
          in if tail = [] then [] else (''last lines of '' @ path @ '':'') # indented 2 tail) logs))"

section \<open>Descriptions\<close>

record report_env =
  wall_time :: rat
  decode_bytes :: "string \<Rightarrow> string"
  shown_value :: "pyval \<Rightarrow> string"
  log_path :: string
  log_bytes :: "string option"
  console_path :: string
  console_bytes :: "string option"

definition EXITED_HINT :: string where
  "EXITED_HINT = ''  run ./alab stop to clear it, then ./alab serve to start again''"

definition head_line :: "string \<Rightarrow> status \<Rightarrow> run_record \<Rightarrow> string \<Rightarrow> string" where
  "head_line name st r more_text =
     name @ '': '' @ state_text (st_state st) @ '' (pid '' @ show_int (run_record.pid r) @ '', port '' @
       show_int (run_record.port r) @ more_text @ '')''"

definition gateway_tail :: "report_env \<Rightarrow> status \<Rightarrow> string list" where
  "gateway_tail env st =
     (if st_state st \<in> {EXITED, UNHEALTHY}
      then let tail = log_tail (decode_bytes env) 10 (log_bytes env);
               lines = (if tail = [] then log_tail (decode_bytes env) 10 (console_bytes env) else tail)
           in if lines = [] then [] else ''  last log lines:'' # indented 4 lines
      else [])"

definition queue_line :: "report_env \<Rightarrow> pydict \<Rightarrow> string" where
  "queue_line env q =
     ''  queue: '' @ text_of_json (shown_value env) (dget_default q ''active'' (PInt 0)) @ '' running, '' @
       text_of_json (shown_value env) (dget_default q ''waiting'' (PInt 0)) @ '' waiting''"

definition describe_gateway :: "report_env \<Rightarrow> status \<Rightarrow> py_exn + string list" where
  "describe_gateway env st =
     (case st_record st of
        None \<Rightarrow> Inr [''gateway: not running'']
      | Some r \<Rightarrow>
          and_then
            (if st_state st = EXITED then Inr [EXITED_HINT]
             else
               let ready = (case st_ready st of None \<Rightarrow> [] | Some d \<Rightarrow> d);
                   name = text_of_json (shown_value env) (dget_default ready ''model_name'' (PStr ''?''))
               in and_then (uptime (wall_time env) (started_at r)) (\<lambda>t.
                 Inr ([''  url: http://127.0.0.1:'' @ show_int (run_record.port r) @ ''/v1 (model '' @ name @ '')'',
                       ''  uptime: '' @ t] @
                      (case st_extra st of None \<Rightarrow> [] | Some q \<Rightarrow> [queue_line env q])))) (\<lambda>middle.
          Inr ([head_line ''gateway'' st r []] @ middle @ [''  log: '' @ log_path env] @ gateway_tail env st)))"

definition memory_line :: "status \<Rightarrow> py_exn + string" where
  "memory_line st =
     (let memory = (case st_extra st of None \<Rightarrow> [] | Some d \<Rightarrow> d)
      in and_then (gb (dget memory ''active_bytes'')) (\<lambda>a.
         and_then (gb (dget memory ''peak_bytes'')) (\<lambda>p.
         and_then (gb (case st_rss st of None \<Rightarrow> PNone | Some n \<Rightarrow> PInt n)) (\<lambda>r.
         Inr (''  memory: Metal '' @ a @ '' in use, peak '' @ p @ ''; process RSS '' @ r @
              '' (RSS leaves out most Metal buffers)'')))))"

definition loaded_line :: "report_env \<Rightarrow> pydict \<Rightarrow> py_exn + string" where
  "loaded_line env ready =
     (let t = (\<lambda>k. text_of_json (shown_value env) (dget ready k))
      in and_then (gb (dget ready ''metal_active_bytes'')) (\<lambda>m.
         Inr (''  loaded in '' @ t ''load_seconds'' @ ''s with mlx-lm '' @ t ''mlx_lm'' @ '' (MLX '' @ t ''mlx'' @
              ''); Metal memory after load '' @ m @ ''; tool parser '' @ t ''tool_parser'')))"

definition backend_tail :: "report_env \<Rightarrow> status \<Rightarrow> string list" where
  "backend_tail env st =
     (if st_state st \<in> {EXITED, UNHEALTHY}
      then let tail = log_tail (decode_bytes env) 10 (log_bytes env);
               console = log_tail (decode_bytes env) 10 (console_bytes env)
           in (if tail = [] then [] else ''  last log lines:'' # indented 4 tail) @
              (if console = [] then []
               else (''  console output ('' @ console_path env @ ''):'') # indented 4 console)
      else [])"

definition describe :: "report_env \<Rightarrow> status \<Rightarrow> py_exn + string list" where
  "describe env st =
     (case st_record st of
        None \<Rightarrow> Inr [''backend: not running'']
      | Some r \<Rightarrow>
          and_then
            (if st_state st = EXITED then Inr [EXITED_HINT]
             else and_then (uptime (wall_time env) (started_at r)) (\<lambda>t.
                  and_then (memory_line st) (\<lambda>m. Inr [''  uptime: '' @ t, m]))) (\<lambda>middle.
          and_then
            (case st_ready st of
               None \<Rightarrow> Inr []
             | Some d \<Rightarrow> if d = [] then Inr [] else and_then (loaded_line env d) (\<lambda>l. Inr [l])) (\<lambda>loaded.
          Inr ([head_line ''backend'' st r ('', model '' @ run_record.model_id r @ '', profile '' @ run_record.profile r)] @
               middle @ loaded @ [''  log: '' @ log_path env] @ backend_tail env st))))"

end
