(* ===== verification/Gateway_Process.thy ===== *)
theory Gateway_Process
  imports Status_Report Queue_Service Server Launcher_Properties
begin

text \<open>
  \<open>gateway/server.py\<close>: the process around the gateway. It records the queue on every change, writes its
  ready record once it listens, and removes its own queue record when it ends. uvicorn, the tokenizer
  and the moment at which the server listens are parameters.
\<close>

section \<open>The queue's record\<close>

definition queue_info :: "int \<Rightarrow> int \<times> int \<Rightarrow> pyfloat \<Rightarrow> pyval" where
  "queue_info own counts updated =
     PDict [(''pid'', PInt own), (''active'', PInt (fst counts)), (''waiting'', PInt (snd counts)),
            (''updated'', PFloat updated)]"

text \<open>What a process writes with: its pid, the paths, JSON, and the names of temporary files.\<close>

record writer =
  own_id :: int
  json_text :: "pyval \<Rightarrow> string"
  temp_name :: string
  queue_path :: string
  ready_path :: string

text \<open>One call of \<open>on_queue\<close>: how the write fails, if it does, and the time of day. An \<open>OSError\<close> is logged.\<close>

definition write_queue ::
    "writer \<Rightarrow> json_failure option \<times> pyfloat \<Rightarrow> int \<times> int \<Rightarrow> directory \<Rightarrow> directory" where
  "write_queue w e counts d =
     last (fst (write_json (fst e) (temp_name w) (queue_path w) (json_text w (queue_info (own_id w) counts (snd e))) d))"

fun write_reports ::
    "writer \<Rightarrow> (nat \<Rightarrow> json_failure option \<times> pyfloat) \<Rightarrow> nat \<Rightarrow> (int \<times> int) list \<Rightarrow> directory \<Rightarrow> directory" where
  "write_reports w e n [] d = d"
| "write_reports w e n (c # cs) d = write_reports w e (Suc n) cs (write_queue w (e n) c d)"

section \<open>Running\<close>

text \<open>
  The server task is polled until the server has started or the task is done; \<open>None\<close> if neither happens.
\<close>

partial_function (option) wait_started :: "(nat \<Rightarrow> bool \<times> bool) \<Rightarrow> nat \<Rightarrow> bool option" where
  "wait_started polls n =
     (if fst (polls n) then Some True
      else if snd (polls n) then Some False
      else wait_started polls (Suc n))"

record gateway_run =
  preparation_fails :: bool               \<comment> \<open>the tokenizer cannot be loaded, or the like\<close>
  polls :: "nat \<Rightarrow> bool \<times> bool"
  task_raises :: bool
  early_events :: "(int \<times> int) list"      \<comment> \<open>the queue's reports before the poll sees that it has started\<close>
  queue_events :: "(int \<times> int) list"      \<comment> \<open>and after that\<close>
  write_events :: "nat \<Rightarrow> json_failure option \<times> pyfloat"
  ready_fails :: "json_failure option"
  start_time :: rat
  model_public_name :: string
  effort_name :: "string option"
  listen_port :: int

definition ready_record :: "writer \<Rightarrow> gateway_run \<Rightarrow> pyval" where
  "ready_record w g =
     PDict [(''pid'', PInt (own_id w)), (''port'', PInt (listen_port g)),
            (''model_name'', PStr (model_public_name g)), (''start_seconds'', PFloat (rounded1 (start_time g))),
            (''effort_variable'', case effort_name g of None \<Rightarrow> PNone | Some s \<Rightarrow> PStr s)]"

text \<open>
  The server accepts requests from the moment it has started, which the poll notices up to 50ms later:
  the queue may have reported by then.
\<close>

text \<open>How \<open>run\<close> ends: it returns, raises an exception, or leaves with \<open>sys.exit(1)\<close>.\<close>

datatype run_end = Run_returns | Run_raises | Run_exits

definition run_gateway :: "writer \<Rightarrow> gateway_run \<Rightarrow> directory \<Rightarrow> (run_end \<times> directory) option" where
  "run_gateway w g d =
     (if preparation_fails g then Some (Run_raises, d)
      else case wait_started (polls g) 0 of
        None \<Rightarrow> None
      | Some False \<Rightarrow> Some (if task_raises g then Run_raises else Run_exits, d)
      | Some True \<Rightarrow>
          (let n = length (early_events g);
               d0 = write_reports w (write_events g) 0 (early_events g) d;
               d1 = write_queue w (write_events g n) (0, 0) d0
           in case write_json (ready_fails g) (temp_name w) (ready_path w) (json_text w (ready_record w g)) d1 of
                (ds, False) \<Rightarrow> Some (Run_raises, last ds)
              | (ds, True) \<Rightarrow>
                  Some (if task_raises g then Run_raises else Run_returns,
                        write_reports w (write_events g) (Suc n) (queue_events g) (last ds))))"

text \<open>\<open>main\<close>: whether a profile loads, and how its text reads as JSON; the exit code and the files left.\<close>

definition own_queue_record :: "writer \<Rightarrow> (string \<Rightarrow> pyval option) \<Rightarrow> directory \<Rightarrow> bool" where
  "own_queue_record w loads d =
     (case d (queue_path w) of
        None \<Rightarrow> False
      | Some f \<Rightarrow> read_record (loads (content f)) (own_id w) \<noteq> None)"

definition gateway_main ::
    "bool \<Rightarrow> writer \<Rightarrow> (string \<Rightarrow> pyval option) \<Rightarrow> bool \<Rightarrow> gateway_run \<Rightarrow> directory \<Rightarrow> (nat \<times> directory) option" where
  "gateway_main profile_loads w loads unlink_fails g d =
     (if \<not> profile_loads then Some (2, d)
      else case run_gateway w g d of
        None \<Rightarrow> None
      | Some (r, d') \<Rightarrow>
          Some (if r = Run_returns then 0 else 1,
                if own_queue_record w loads d' \<and> \<not> unlink_fails then d'(queue_path w := None) else d'))"

section \<open>The record is the queue\<close>

text \<open>The file's text for given counts\<close>

definition queue_text :: "writer \<Rightarrow> int \<times> int \<Rightarrow> pyfloat \<Rightarrow> stored" where
  "queue_text w counts updated =
     \<lparr>content = json_text w (queue_info (own_id w) counts updated) @ [NEWLINE], mode = 384\<rparr>"

definition paths_apart :: "writer \<Rightarrow> bool" where
  "paths_apart w \<longleftrightarrow> distinct [temp_name w, queue_path w, ready_path w]"

lemma write_queue_last:
  assumes "paths_apart w" and "d (temp_name w) = None"
  shows "write_queue w e counts d = (if fst e = None then d(queue_path w \<mapsto> queue_text w counts (snd e)) else d)"
proof -
  obtain ds ok where w: "write_json (fst e) (temp_name w) (queue_path w)
      (json_text w (queue_info (own_id w) counts (snd e))) d = (ds, ok)" by force
  then have "ok \<longleftrightarrow> fst e = None"
    by (auto simp: write_json_def Let_def split: option.splits json_failure.splits)
  with write_json_atomic(2) [OF w] assms show ?thesis
    by (simp add: write_queue_def w queue_text_def paths_apart_def)
qed

lemma write_reports_temp:
  "paths_apart w \<Longrightarrow> d (temp_name w) = None \<Longrightarrow> write_reports w env n cs d (temp_name w) = None"
  by (induction cs arbitrary: n d) (auto simp: write_queue_last paths_apart_def)

lemma write_reports_last:
  assumes "paths_apart w" and "d (temp_name w) = None" and "cs \<noteq> []" and "fst (env (n + length cs - 1)) = None"
  shows "write_reports w env n cs d (queue_path w) = Some (queue_text w (last cs) (snd (env (n + length cs - 1))))"
  using assms(2-)
proof (induction cs arbitrary: n d)
  case Nil
  then show ?case by simp
next
  case (Cons c cs)
  have "write_queue w (env n) c d (temp_name w) = None"
    using Cons.prems(1) assms(1) by (auto simp: write_queue_last paths_apart_def)
  with Cons show ?case
    by (cases cs) (auto simp: write_queue_last [OF assms(1)])
qed

text \<open>
  What \<open>gateway.queue.json\<close> holds is the last report after the start was noticed, or that nothing runs and waits,
  which is written then.
\<close>

lemma queue_file_is_last_report:
  assumes run: "run_gateway w g d = Some (r, d')" and "paths_apart w" and "d (temp_name w) = None"
    and started: "\<not> preparation_fails g" "wait_started (polls g) 0 = Some True" "ready_fails g = None"
    and ok: "fst (write_events g (length (early_events g) + length (queue_events g))) = None"
  shows "d' (queue_path w) =
    Some (queue_text w (if queue_events g = [] then (0, 0) else last (queue_events g))
      (snd (write_events g (length (early_events g) + length (queue_events g)))))"
proof -
  let ?n = "length (early_events g)"
  let ?d0 = "write_reports w (write_events g) 0 (early_events g) d"
  let ?d1 = "write_queue w (write_events g ?n) (0, 0) ?d0"
  have d0: "?d0 (temp_name w) = None" by (simp add: write_reports_temp assms(2,3))
  then have d1: "?d1 (temp_name w) = None" using assms(2) by (auto simp: write_queue_last paths_apart_def)
  obtain ds success where w: "write_json (ready_fails g) (temp_name w) (ready_path w) (json_text w (ready_record w g)) ?d1 = (ds, success)"
    by force
  then have success using started(3) by (auto simp: write_json_def Let_def)
  with write_json_atomic(2) [OF w] assms(2) d1
  have last: "last ds = ?d1(ready_path w \<mapsto> \<lparr>content = json_text w (ready_record w g) @ [NEWLINE], mode = 384\<rparr>)"
    by (simp add: paths_apart_def)
  have d': "d' = write_reports w (write_events g) (Suc ?n) (queue_events g) (last ds)"
    using run started w \<open>success\<close> by (simp add: run_gateway_def Let_def)
  show ?thesis
  proof (cases "queue_events g = []")
    case True
    with ok d' last d0 assms(2) show ?thesis
      by (auto simp: write_queue_last paths_apart_def)
  next
    case False
    then have "Suc ?n + length (queue_events g) - 1 = ?n + length (queue_events g)" by (cases "queue_events g") auto
    moreover have "last ds (temp_name w) = None" using last d1 assms(2) by (simp add: paths_apart_def)
    ultimately show ?thesis
      using write_reports_last [OF assms(2) _ False, of "last ds" "write_events g" "Suc ?n"] ok False
      by (auto simp: d')
  qed
qed

section \<open>From the queue to the status line\<close>

lemma record_reads_back:
  "loads (content (queue_text w counts t)) = Some (queue_info (own_id w) counts t) \<Longrightarrow>
   read_record (loads (content (queue_text w counts t))) (own_id w) =
     Some [(''pid'', PInt (own_id w)), (''active'', PInt (fst counts)), (''waiting'', PInt (snd counts)),
           (''updated'', PFloat t)]"
  by (simp add: read_record_def queue_info_def dget_def)

lemma running_status:
  assumes "Processes.status svc v = Inr st" and "st_record st = Some r" and "st_state st \<noteq> EXITED"
  shows "st_extra st = read_record (json_of v (extra_file svc)) (run_record.pid r)"
proof (cases "load_record (json_of v (state_file svc))")
  case (Inl e)
  with assms(1) show ?thesis by (simp add: Processes.status_def and_then_def)
next
  case (Inr found)
  with assms(1,2) obtain r' where r': "found = Some r'"
    by (cases found) (auto simp: Processes.status_def and_then_def)
  show ?thesis
  proof (cases "runs_module (entry_module svc) v (run_record.pid r')")
    case Inl
    with assms(1) Inr r' show ?thesis by (simp add: Processes.status_def and_then_def)
  next
    case runs: (Inr b)
    with assms Inr r' show ?thesis
      by (cases b) (auto simp: Processes.status_def and_then_def full_status_def Let_def)
  qed
qed

lemma described_queue:
  assumes "describe_gateway env st = Inr lines" and "st_record st = Some r" and "st_state st \<noteq> EXITED"
    and "st_extra st = Some q"
  shows "queue_line env q \<in> set lines"
  using assms by (auto simp: describe_gateway_def and_then_eq_Inr Let_def)

text \<open>
  C39: The queue line of \<open>alab status\<close> for a gateway that listens, through the queue's reports, the record written
  on each, and the JSON that is read back - if the last of these writes did not fail and its text reads back as JSON:
  the line shows the last report after the start was noticed, or 0 and 0 if there was none. These are the numbers of
  requests that run and wait at the moment, if the queue reported after the start was noticed, or not at all; a
  report that came only before it has been overwritten by 0 and 0 (\<open>early_report_is_overwritten\<close>).
\<close>

theorem status_shows_queue:
  assumes run: "requests.run (init_system n) as s" and reports: "reports (queue s) = early_events g @ queue_events g"
    and files: "run_gateway w g d = Some (e, d')" "paths_apart w" "d (temp_name w) = None" "queue_path w = ''gateway.queue.json''"
    and started: "\<not> preparation_fails g" "wait_started (polls g) 0 = Some True" "ready_fails g = None"
    and last: "write_events g (length (early_events g) + length (queue_events g)) = (None, tick)"
    and shown: "shown = (if queue_events g = [] then (0, 0) else List.last (queue_events g))"
    and json: "record = queue_info (own_id w) shown tick" "loads (json_text w record @ [NEWLINE]) = Some record"
    and view: "json_of v ''gateway.queue.json'' = Option.bind (d' ''gateway.queue.json'') (\<lambda>f. loads (stored.content f))"
    and status: "gateway_status v = Inr st" "st_record st = Some r" "run_record.pid r = own_id w" "st_state st \<noteq> EXITED"
    and lines: "describe_gateway env st = Inr ls"
  shows "(''  queue: '' @ show_int (fst shown) @ '' running, '' @ show_int (snd shown) @ '' waiting'') \<in> set ls \<and>
    (queue_events g \<noteq> [] \<or> early_events g = [] \<longrightarrow>
       shown = (count (running (phase_of s)), count (waits (phase_of s))))"
proof -
  from run_system_inv [OF run] have counts: "counts_inv s" and rep: "report_ok (queue s)"
    by (simp_all add: system_inv_def report_inv_def)
  have true_counts: "shown = (count (running (phase_of s)), count (waits (phase_of s)))"
    if noticed: "queue_events g \<noteq> [] \<or> early_events g = []"
  proof -
    have "(active (queue s), waiting (queue s)) = shown"
      using rep reports noticed by (cases "queue_events g = []") (simp_all add: report_ok_def shown)
    with counts show ?thesis by (simp add: counts_inv_def)
  qed
  have "d' ''gateway.queue.json'' = Some (queue_text w shown tick)"
    using queue_file_is_last_report [OF files(1,2,3) started] files(4) last by (simp add: shown)
  with view have "json_of v ''gateway.queue.json'' = loads (stored.content (queue_text w shown tick))" by simp
  moreover have reads: "loads (stored.content (queue_text w shown tick)) = Some (queue_info (own_id w) shown tick)"
    using json by (simp add: queue_text_def)
  moreover have "st_extra st = read_record (json_of v ''gateway.queue.json'') (own_id w)"
    using running_status [of gateway_service v st r] status by (simp add: gateway_status_def gateway_service_def)
  ultimately have q: "st_extra st = Some [(''pid'', PInt (own_id w)), (''active'', PInt (fst shown)),
      (''waiting'', PInt (snd shown)), (''updated'', PFloat tick)]"
    using record_reads_back [of loads w shown tick, OF reads] by simp
  have "(''  queue: '' @ show_int (fst shown) @ '' running, '' @ show_int (snd shown) @ '' waiting'') \<in> set ls"
    using described_queue [OF lines status(2,4) q] by (simp add: queue_line_def dget_default_def text_of_json_def)
  with true_counts show ?thesis by blast
qed

text \<open>The trace of \<open>Queue_Service\<close>: two requests came, one was refused, one is done, one waits.\<close>

definition sample_record :: pyval where
  "sample_record = queue_info 7 (0, 1) (Fin 9)"

definition sample_writer :: writer where
  "sample_writer =
     \<lparr>own_id = 7, json_text = (\<lambda>v. if v = sample_record then ''1'' else ''0''), temp_name = ''gateway.queue.json.tmp'',
      queue_path = ''gateway.queue.json'', ready_path = ''gateway.ready.json''\<rparr>"

definition sample_gateway :: gateway_run where
  "sample_gateway =
     \<lparr>preparation_fails = False, polls = (\<lambda>n. (n = 1, False)), task_raises = False, early_events = [(0, 1)],
      queue_events = [(1, 0), (1, 1), (0, 1)], write_events = (\<lambda>_. (None, Fin 9)), ready_fails = None,
      start_time = 1, model_public_name = ''qwen'', effort_name = None, listen_port = 8080\<rparr>"

definition sample_loads :: "string \<Rightarrow> pyval option" where
  "sample_loads t = (if t = ''1'' @ [NEWLINE] then Some sample_record else None)"

definition sample_files :: directory where
  "sample_files = snd (the (run_gateway sample_writer sample_gateway Map.empty))"

definition sample_view :: view where
  "sample_view =
     \<lparr>json_of = (\<lambda>f. if f = ''gateway.json''
        then Some (PDict [(''pid'', PInt 7), (''port'', PInt 8080), (''profile'', PStr ''p''), (''model'', PStr ''m''),
          (''started_at'', PFloat (Fin 0))])
        else if f = ''gateway.ready.json'' then Some (PDict [(''pid'', PInt 7), (''model_name'', PStr ''qwen'')])
        else Option.bind (sample_files f) (\<lambda>f. sample_loads (stored.content f))),
      command_of = (\<lambda>_. Some ''python -m agent_lab.gateway''), may_signal = (\<lambda>_. True), answers = (\<lambda>_ _. Some 200),
      rss_of = (\<lambda>_. None), polled = (\<lambda>_. None), now = 9, interrupted = False\<rparr>"

definition sample_env :: report_env where
  "sample_env =
     \<lparr>wall_time = 9, decode_bytes = id, shown_value = (\<lambda>_. ''?''), log_path = ''gateway.log'', log_bytes = None,
      console_path = ''gateway.out'', console_bytes = None\<rparr>"

lemma sample_counts: "count (running (phase_of sample)) = 0" "count (waits (phase_of sample)) = 1"
  using run_system_inv [OF sample_run] sample_state by (simp_all add: system_inv_def counts_inv_def)

lemma sample_starts: "wait_started (\<lambda>n. (n = Suc 0, False)) 0 = Some True"
  by (simp add: wait_started.simps [of _ 0] wait_started.simps [of _ "Suc 0"])

lemma sample_gateway_files: "run_gateway sample_writer sample_gateway Map.empty = Some (Run_returns, sample_files)"
proof -
  have "\<exists>d'. run_gateway sample_writer sample_gateway Map.empty = Some (Run_returns, d')"
    by (simp add: run_gateway_def sample_gateway_def sample_starts sample_writer_def write_json_def Let_def)
  then show ?thesis by (auto simp: sample_files_def)
qed

lemma sample_queue_file:
  "sample_files ''gateway.queue.json'' = Some (queue_text sample_writer (0, 1) (Fin 9))"
  using queue_file_is_last_report [OF sample_gateway_files]
  by (simp add: sample_gateway_def sample_starts paths_apart_def sample_writer_def)

lemma sample_reads: "json_of sample_view ''gateway.queue.json'' = Some sample_record"
  by (simp add: sample_view_def sample_queue_file queue_text_def sample_writer_def sample_record_def sample_loads_def)

definition sample_found :: run_record where
  "sample_found = \<lparr>pid = 7, port = 8080, profile = ''p'', model_id = ''m'', started_at = Fin 0\<rparr>"

lemma sample_status:
  "gateway_status sample_view =
     Inr (full_status gateway_service sample_view RUNNING sample_found
       (Some [(''pid'', PInt 7), (''model_name'', PStr ''qwen'')]))"
  by (simp add: gateway_status_def Processes.status_def gateway_service_def sample_view_def load_record_def
      int_field_def str_field_def float_field_def runs_module_def PID_MAX_def is_space_def code_def
      read_record_def sample_found_def Let_def dget_def)

lemma sample_describes:
  "\<exists>ls. describe_gateway sample_env (full_status gateway_service sample_view RUNNING sample_found
       (Some [(''pid'', PInt 7), (''model_name'', PStr ''qwen'')])) = Inr ls"
proof -
  have "round_double 9 = Fin 9" using round_double_nat [of 9] by simp
  then show ?thesis
    by (simp add: describe_gateway_def full_status_def uptime_def elapsed_def int_of_float_def sample_env_def
        sample_found_def Let_def)
qed

theorem status_shows_queue_witness:
  "\<exists>st ls. gateway_status sample_view = Inr st \<and> describe_gateway sample_env st = Inr ls \<and>
     ''  queue: '' @ show_int 0 @ '' running, '' @ show_int 1 @ '' waiting'' \<in> set ls \<and>
     (0, 1) = (count (running (phase_of sample)), count (waits (phase_of sample)))"
proof -
  let ?st = "full_status gateway_service sample_view RUNNING sample_found
    (Some [(''pid'', PInt 7), (''model_name'', PStr ''qwen'')])"
  obtain ls where ls: "describe_gateway sample_env ?st = Inr ls" using sample_describes by blast
  have "''  queue: '' @ show_int (fst (0, 1 :: int)) @ '' running, '' @ show_int (snd (0 :: int, 1)) @ '' waiting'' \<in> set ls \<and>
    (queue_events sample_gateway \<noteq> [] \<or> early_events sample_gateway = [] \<longrightarrow>
      (0, 1) = (count (running (phase_of sample)), count (waits (phase_of sample))))"
  proof (rule status_shows_queue [OF sample_run _ sample_gateway_files _ _ _ _ _ _ _ _ refl _ _ sample_status _ _ _ ls,
        where tick = "Fin 9" and loads = sample_loads and r = sample_found])
    show "json_of sample_view ''gateway.queue.json'' =
        Option.bind (sample_files ''gateway.queue.json'') (\<lambda>f. sample_loads (stored.content f))"
      by (simp add: sample_view_def)
  qed (simp_all add: sample_state sample_counts sample_starts sample_gateway_def sample_writer_def paths_apart_def
      sample_loads_def sample_record_def full_status_def sample_found_def)
  then show ?thesis using ls sample_status sample_counts by auto
qed

text \<open>A request that was accepted before the poll is overwritten by the first record of an empty queue.\<close>

definition early_run :: gateway_run where
  "early_run =
     \<lparr>preparation_fails = False, polls = (\<lambda>_. (True, False)), task_raises = False,
      early_events = [(0, 1), (1, 0)], queue_events = [], write_events = (\<lambda>_. (None, Fin 0)), ready_fails = None,
      start_time = 1, model_public_name = ''qwen'', effort_name = None, listen_port = 8080\<rparr>"

lemma early_report_is_overwritten:
  assumes "paths_apart w"
  shows "\<exists>d'. run_gateway w early_run Map.empty = Some (Run_returns, d') \<and>
    d' (queue_path w) = Some (queue_text w (0, 0) (Fin 0))"
  using assms
  by (simp add: run_gateway_def early_run_def wait_started.simps [of _ 0] write_queue_last paths_apart_def
      write_json_def Let_def)

section \<open>A gateway that does not listen\<close>

text \<open>
  It changes no file, except that \<open>main\<close> removes a queue record of its own pid, and the exit code is not 0.
\<close>

lemma not_listening_changes_nothing:
  assumes "gateway_main loaded w loads unlink_fails g d = Some (c, d')"
    and "\<not> loaded \<or> preparation_fails g \<or> wait_started (polls g) 0 = Some False"
  shows "c \<noteq> 0 \<and> (d' = d \<or> own_queue_record w loads d \<and> d' = d(queue_path w := None))"
  using assms by (auto simp: gateway_main_def run_gateway_def split: if_splits option.splits)

end
