(* ===== verification/Command_Line.thy ===== *)
theory Command_Line
  imports Doctor_Run
begin

text \<open>
  \<open>cli.py\<close>, the parsers that \<open>build_parser\<close> makes and the command \<open>main\<close> calls. How \<open>argparse\<close> tells
  options from other words is not modelled: an invocation says what is given to each parser, by its name
  in the namespace. What is modelled is how the namespace comes about: a parser sets its defaults first,
  then what it is given; a subcommand starts with a namespace of its own, and all of it is then copied
  over the one of the parser above.
\<close>

section \<open>Parsers\<close>

text \<open>
  An option or positional argument: its name, its default (\<open>None\<close> for \<open>SUPPRESS\<close>) and whether it must be
  given. A parser has these, the values of \<open>set_defaults\<close>, and the name of its subcommand in the
  namespace, whether one must be given, and the subcommands.
\<close>

datatype argument = Argument (dest: string) (default: "pyval option") (needed: bool)

datatype parser =
  Parser (arguments: "argument list") (set_defaults: "(string \<times> pyval) list")
    (subparsers: "(string \<times> bool \<times> (string \<times> parser) list) option")

datatype invocation = Last "(string \<times> pyval) list" | With "(string \<times> pyval) list" string invocation

datatype usage_error = Unrecognized | Missing_argument | No_command | Unknown_command string

type_synonym namespace = "string \<rightharpoonup> pyval"

text \<open>
  First the defaults of the arguments, the one of the subcommand being \<open>None\<close>; then those of \<open>set_defaults\<close>
  for what is not there yet.
\<close>

fun defaults :: "argument list \<Rightarrow> (string \<times> pyval) list" where
  "defaults [] = []"
| "defaults (a # as) = (case default a of None \<Rightarrow> defaults as | Some v \<Rightarrow> (dest a, v) # defaults as)"

lemma fst_defaults: "fst ` set (defaults as) = dest ` {a \<in> set as. default a \<noteq> None}"
  by (induction as) (auto split: option.splits)

definition first_namespace :: "parser \<Rightarrow> namespace" where
  "first_namespace p =
     (let ns = map_of (defaults (arguments p));
          ns' = (case subparsers p of None \<Rightarrow> ns | Some (d, _) \<Rightarrow> if ns d = None then ns(d \<mapsto> PNone) else ns)
      in map_of (set_defaults p) ++ ns')"

definition take_values :: "parser \<Rightarrow> (string \<times> pyval) list \<Rightarrow> usage_error + namespace" where
  "take_values p given =
     (if \<not> list_all (\<lambda>(d, v). d \<in> dest ` set (arguments p)) given then Inl Unrecognized
      else if \<not> list_all (\<lambda>a. needed a \<longrightarrow> dest a \<in> fst ` set given) (arguments p) then Inl Missing_argument
      else Inr (first_namespace p ++ map_of (rev given)))"

fun parse_args :: "parser \<Rightarrow> invocation \<Rightarrow> usage_error + namespace" where
  "parse_args p (Last given) =
     (case subparsers p of
        Some (_, True, _) \<Rightarrow> Inl No_command
      | _ \<Rightarrow> take_values p given)"
| "parse_args p (With given name rest) =
     and_then (take_values p given) (\<lambda>ns.
       (case subparsers p of
          None \<Rightarrow> Inl Unrecognized
        | Some (d, _, ps) \<Rightarrow>
            (case map_of ps name of
               None \<Rightarrow> Inl (Unknown_command name)
             | Some q \<Rightarrow> and_then (parse_args q rest) (\<lambda>ns'. Inr (ns(d \<mapsto> PStr name) ++ ns')))))"

section \<open>The commands of \<open>alab\<close>\<close>

definition runs :: "string \<Rightarrow> string \<times> pyval" where
  "runs f = (''func'', PStr f)"

definition command :: "argument list \<Rightarrow> string \<Rightarrow> parser" where
  "command as f = Parser as [runs f] None"

definition profile_option :: argument where
  "profile_option = Argument ''profile'' (Some (PStr DEFAULT_PROFILE)) False"

definition flag :: "string \<Rightarrow> argument" where
  "flag d = Argument d (Some (PBool False)) False"

definition positional :: "string \<Rightarrow> argument" where
  "positional d = Argument d (Some PNone) True"

definition pull_parser :: parser where
  "pull_parser =
     command [Argument ''model'' (Some PNone) False, profile_option, flag ''recheck'', Argument ''limit_rate'' (Some PNone) False]
       ''_cmd_pull''"

definition models_parser :: parser where
  "models_parser =
     Parser [] [runs ''_cmd_models_list'']
       (Some (''models_command'', False,
         [(''list'', command [] ''_cmd_models_list''),
          (''lock'', command
             [positional ''model'', Argument ''repo'' (Some PNone) True, Argument ''revision'' (Some (PStr ''main'')) False,
              Argument ''description'' (Some PNone) False, flag ''write'']
             ''_cmd_models_lock'')]))"

definition gpu_parser :: parser where
  "gpu_parser =
     Parser [profile_option] [runs ''_cmd_gpu_limit'', (''gpu_command'', PStr ''show'')]
       (Some (''gpu_command'', False,
         [(''show'', Parser [Argument ''profile'' None False] [] None),
          (''apply'', Parser [Argument ''profile'' None False, flag ''yes''] [] None),
          (''revert'', Parser [flag ''yes''] [] None)]))"

definition keys_parser :: parser where
  "keys_parser =
     Parser [] [runs ''_cmd_keys_list'']
       (Some (''keys_command'', False,
         [(''create'', command [positional ''name''] ''_cmd_keys_create''),
          (''list'', command [] ''_cmd_keys_list''),
          (''revoke'', command [positional ''name''] ''_cmd_keys_revoke'')]))"

definition alab_commands :: "(string \<times> parser) list" where
  "alab_commands =
         [(''version'', command [] ''_cmd_version''), (''doctor'', command [] ''_cmd_doctor''),
          (''pull'', pull_parser), (''models'', models_parser), (''gpu-limit'', gpu_parser), (''keys'', keys_parser),
          (''serve'', command [profile_option, flag ''force''] ''_cmd_serve''),
          (''stop'', command [] ''_cmd_stop''), (''status'', command [] ''_cmd_status'')]"

definition build_parser :: parser where
  "build_parser = Parser [] [] (Some (''command'', True, alab_commands))"

text \<open>\<open>main\<close>: \<open>args.func(args)\<close>; \<open>None\<close>: no such attribute\<close>

definition main_calls :: "invocation \<Rightarrow> usage_error + (pyval \<times> namespace) option" where
  "main_calls words = and_then (parse_args build_parser words) (\<lambda>ns. Inr (map_option (\<lambda>f. (f, ns)) (ns ''func'')))"

text \<open>What a command reads of its arguments\<close>

definition reads :: "pyval \<Rightarrow> namespace \<Rightarrow> string list" where
  "reads f ns =
     (if f = PStr ''_cmd_pull'' then [''model'', ''profile'', ''recheck'', ''limit_rate'']
      else if f = PStr ''_cmd_models_lock'' then [''model'', ''repo'', ''revision'', ''description'', ''write'']
      else if f = PStr ''_cmd_gpu_limit''
      then ''gpu_command'' # (if ns ''gpu_command'' = Some (PStr ''revert'') then [''yes'']
                            else if ns ''gpu_command'' = Some (PStr ''apply'') then [''profile'', ''yes''] else [''profile''])
      else if f = PStr ''_cmd_serve'' then [''profile'', ''force'']
      else if f \<in> {PStr ''_cmd_keys_create'', PStr ''_cmd_keys_revoke''} then [''name'']
      else [])"

section \<open>What reaches the commands\<close>

lemma take_values_eq:
  "take_values p given = Inr ns \<longleftrightarrow>
     fst ` set given \<subseteq> dest ` set (arguments p) \<and> (\<forall>a \<in> set (arguments p). needed a \<longrightarrow> dest a \<in> fst ` set given) \<and>
     ns = first_namespace p ++ map_of (rev given)"
  by (auto simp: take_values_def list_all_iff)

text \<open>What is not an argument of the parser keeps its first value; what has a first value has one.\<close>

lemma take_values_kept:
  assumes "take_values p given = Inr ns" and "d \<notin> dest ` set (arguments p)"
  shows "ns d = first_namespace p d"
proof -
  have "map_of (rev given) d = None" using assms by (auto simp: take_values_eq map_of_eq_None_iff)
  with assms(1) show ?thesis by (auto simp: take_values_eq map_add_def)
qed

lemma take_values_there:
  "take_values p given = Inr ns \<Longrightarrow> first_namespace p d \<noteq> None \<Longrightarrow> ns d \<noteq> None"
  by (auto simp: take_values_eq map_add_def split: option.splits)

text \<open>A value given last wins.\<close>

lemma take_values_given:
  assumes "take_values p (given @ [(d, v)]) = Inr ns"
  shows "ns d = Some v"
  using assms by (simp add: take_values_eq)

lemma first_default:
  assumes "a \<in> set (arguments p)" and "default a \<noteq> None"
  shows "first_namespace p (dest a) \<noteq> None"
proof -
  have "map_of (defaults (arguments p)) (dest a) \<noteq> None"
    using assms by (auto simp: map_of_eq_None_iff fst_defaults)
  then show ?thesis
    by (auto simp: first_namespace_def Let_def map_add_def split: option.splits)
qed

definition given_all :: "namespace \<Rightarrow> argument list \<Rightarrow> bool" where
  "given_all ns as \<longleftrightarrow> (\<forall>a \<in> set as. ns (dest a) \<noteq> None)"

lemma command_parses:
  assumes "parse_args (command as f) words = Inr ns" and "''func'' \<notin> dest ` set as" and "\<forall>a \<in> set as. default a \<noteq> None"
  shows "ns ''func'' = Some (PStr f) \<and> given_all ns as"
proof -
  obtain given where given: "take_values (command as f) given = Inr ns"
    using assms(1) by (cases words) (auto simp: command_def and_then_eq_Inr)
  have "map_of (defaults as) ''func'' = None"
    using assms(2) by (auto simp: map_of_eq_None_iff fst_defaults)
  then have "first_namespace (command as f) ''func'' = Some (PStr f)"
    by (simp add: first_namespace_def command_def runs_def map_add_def)
  then have "ns ''func'' = Some (PStr f)"
    using take_values_kept [OF given, of "''func''"] assms(2) by (simp add: command_def)
  moreover have "given_all ns as"
    using first_default [of _ "command as f"] take_values_there [OF given] assms(3)
    by (auto simp: given_all_def command_def)
  ultimately show ?thesis by blast
qed

lemmas parser_defs = profile_option_def flag_def positional_def

text \<open>\<open>build_parser\<close> takes nothing itself but a command.\<close>

lemma build_parser_parses:
  assumes "parse_args build_parser words = Inr ns"
  shows "\<exists>name rest q ns'. map_of alab_commands name = Some q \<and> parse_args q rest = Inr ns' \<and>
    ns = [''command'' \<mapsto> PStr name] ++ ns'"
proof (cases words)
  case (Last given)
  with assms show ?thesis by (simp add: build_parser_def)
next
  case (With given name rest)
  from assms With obtain upper where upper: "take_values build_parser given = Inr upper"
    by (auto simp: and_then_eq_Inr)
  then have "upper = [''command'' \<mapsto> PNone]"
    by (auto simp: take_values_eq build_parser_def first_namespace_def)
  with assms With upper show ?thesis
    by (auto simp: build_parser_def and_then_eq_Inr split: option.splits)
qed

lemma with_parses:
  assumes "parse_args p (With given name rest) = Inr ns" and "subparsers p = Some (d, b, ps)"
  shows "\<exists>u q ns'. take_values p given = Inr u \<and> map_of ps name = Some q \<and> parse_args q rest = Inr ns' \<and>
    ns = u(d \<mapsto> PStr name) ++ ns'"
  using assms by (auto simp: and_then_eq_Inr split: option.splits)

text \<open>A group of subcommands: its own command runs, or the one of the subcommand.\<close>

lemma group_parses:
  assumes "parse_args (Parser as (runs f # others) (Some (d, False, ps))) words = Inr ns"
    and "''func'' \<notin> dest ` set as" and "d \<noteq> ''func''"
  shows "(\<exists>given. take_values (Parser as (runs f # others) (Some (d, False, ps))) given = Inr ns \<and> ns ''func'' = Some (PStr f)) \<or>
    (\<exists>given upper name q rest ns'. take_values (Parser as (runs f # others) (Some (d, False, ps))) given = Inr upper \<and>
       upper ''func'' = Some (PStr f) \<and>
       map_of ps name = Some q \<and> parse_args q rest = Inr ns' \<and> ns = upper(d \<mapsto> PStr name) ++ ns')"
proof -
  let ?p = "Parser as (runs f # others) (Some (d, False, ps))"
  have "map_of (defaults as) ''func'' = None"
    using assms(2) by (auto simp: map_of_eq_None_iff fst_defaults)
  then have "first_namespace ?p ''func'' = Some (PStr f)"
    using assms(3) by (simp add: first_namespace_def runs_def map_add_def Let_def)
  then have func: "take_values ?p given = Inr upper \<Longrightarrow> upper ''func'' = Some (PStr f)" for given upper
    using take_values_kept [of ?p given upper "''func''"] assms(2) by simp
  show ?thesis
  proof (cases words)
    case (Last given)
    with assms(1) func show ?thesis by auto
  next
    case (With given name rest)
    with with_parses [of ?p given name rest ns] assms(1) func show ?thesis by fastforce
  qed
qed

definition served :: "namespace \<Rightarrow> bool" where
  "served ns \<longleftrightarrow> (\<exists>f. ns ''func'' = Some f \<and> (\<forall>d \<in> set (reads f ns). ns d \<noteq> None))"

lemma leaf_served:
  assumes "parse_args (command as f) words = Inr ns" and "''func'' \<notin> dest ` set as" and "\<forall>a \<in> set as. default a \<noteq> None"
    and "f \<noteq> ''_cmd_gpu_limit''" and "set (reads (PStr f) ns) \<subseteq> dest ` set as"
  shows "served (upper ++ ns)"
proof -
  from command_parses [OF assms(1-3)] have ns: "ns ''func'' = Some (PStr f)" "given_all ns as" by simp_all
  have same: "reads (PStr f) (upper ++ ns) = reads (PStr f) ns" using assms(4) by (simp add: reads_def)
  have "(upper ++ ns) d \<noteq> None" if "d \<in> set (reads (PStr f) ns)" for d
  proof -
    from that assms(5) obtain a where "a \<in> set as" "d = dest a" by blast
    with ns(2) show ?thesis by (auto simp: given_all_def map_add_def)
  qed
  with ns(1) same show ?thesis by (simp add: served_def map_add_def)
qed

lemma group_served:
  assumes "parse_args (Parser as [runs f] (Some (d, False, ps))) words = Inr ns"
    and "''func'' \<notin> dest ` set as" and "d \<noteq> ''func''" and "reads (PStr f) = (\<lambda>_. [])"
    and "\<And>name q rest ns' upper. map_of ps name = Some q \<Longrightarrow> parse_args q rest = Inr ns' \<Longrightarrow> served (upper ++ ns')"
  shows "served (upper ++ ns)"
proof -
  consider "ns ''func'' = Some (PStr f)"
    | u name q rest ns' where "map_of ps name = Some q" "parse_args q rest = Inr ns'" "ns = u(d \<mapsto> PStr name) ++ ns'"
    using group_parses [OF assms(1-3)] by blast
  then show ?thesis
  proof cases
    case 1
    then show ?thesis by (simp add: served_def assms(4) map_add_def)
  next
    case 2
    from assms(5) [OF this(1,2), of "upper ++ u(d \<mapsto> PStr name)"] show ?thesis by (simp add: 2(3))
  qed
qed

lemmas leaves = pull_parser_def parser_defs reads_def

lemma models_served:
  assumes "parse_args models_parser words = Inr ns"
  shows "served (upper ++ ns)"
proof (rule group_served [OF assms [unfolded models_parser_def]])
  fix name q rest ns' and upper :: namespace
  assume "map_of [(''list'', command [] ''_cmd_models_list''),
          (''lock'', command
             [positional ''model'', Argument ''repo'' (Some PNone) True, Argument ''revision'' (Some (PStr ''main'')) False,
              Argument ''description'' (Some PNone) False, flag ''write'']
             ''_cmd_models_lock'')] name = Some q" and q: "parse_args q rest = Inr ns'"
  then consider "q = command [] ''_cmd_models_list''"
    | "q = command
             [positional ''model'', Argument ''repo'' (Some PNone) True, Argument ''revision'' (Some (PStr ''main'')) False,
              Argument ''description'' (Some PNone) False, flag ''write'']
             ''_cmd_models_lock''"
    by (auto split: if_splits)
  then show "served (upper ++ ns')"
  proof cases
    case 1
    show ?thesis by (rule leaf_served [OF q [unfolded 1]]) (simp_all add: leaves)
  next
    case 2
    show ?thesis by (rule leaf_served [OF q [unfolded 2]]) (simp_all add: leaves)
  qed
qed (simp_all add: reads_def fun_eq_iff)

lemma keys_served:
  assumes "parse_args keys_parser words = Inr ns"
  shows "served (upper ++ ns)"
proof (rule group_served [OF assms [unfolded keys_parser_def]])
  fix name q rest ns' and upper :: namespace
  assume "map_of [(''create'', command [positional ''name''] ''_cmd_keys_create''),
          (''list'', command [] ''_cmd_keys_list''),
          (''revoke'', command [positional ''name''] ''_cmd_keys_revoke'')] name = Some q"
    and q: "parse_args q rest = Inr ns'"
  then consider "q = command [positional ''name''] ''_cmd_keys_create''" | "q = command [] ''_cmd_keys_list''"
    | "q = command [positional ''name''] ''_cmd_keys_revoke''"
    by (auto split: if_splits)
  then show "served (upper ++ ns')"
  proof cases
    case 1
    show ?thesis by (rule leaf_served [OF q [unfolded 1]]) (simp_all add: leaves)
  next
    case 2
    show ?thesis by (rule leaf_served [OF q [unfolded 2]]) (simp_all add: leaves)
  next
    case 3
    show ?thesis by (rule leaf_served [OF q [unfolded 3]]) (simp_all add: leaves)
  qed
qed (simp_all add: reads_def fun_eq_iff)

text \<open>The subcommands of \<open>gpu-limit\<close> have no function of their own, and no value for the profile unless it is given.\<close>

definition gpu_commands :: "(string \<times> parser) list" where
  "gpu_commands = snd (snd (the (subparsers gpu_parser)))"

lemma gpu_subcommand:
  assumes "map_of gpu_commands name = Some q" and "parse_args q rest = Inr ns"
  shows "ns ''func'' = None \<and> ns ''gpu_command'' = None \<and>
    (name = ''show'' \<or> name = ''apply'' \<and> ns ''yes'' \<noteq> None \<or> name = ''revert'' \<and> ns ''yes'' \<noteq> None) \<and>
    (\<forall>given. rest = Last given \<longrightarrow> ''profile'' \<notin> fst ` set given \<longrightarrow> ns ''profile'' = None)"
proof -
  have q: "subparsers q = None" "set_defaults q = []" "dest ` set (arguments q) \<subseteq> {''profile'', ''yes''}"
    "first_namespace q ''profile'' = None"
    "name = ''show'' \<or> name = ''apply'' \<and> first_namespace q ''yes'' \<noteq> None \<or> name = ''revert'' \<and> first_namespace q ''yes'' \<noteq> None"
    using assms(1)
    by (auto simp: gpu_commands_def gpu_parser_def parser_defs first_namespace_def split: if_splits)
  obtain given where given: "take_values q given = Inr ns" and rest: "\<forall>g. rest = Last g \<longrightarrow> g = given"
    using assms(2) q(1) by (cases rest) (auto simp: and_then_eq_Inr)
  have "ns d = None" if "d \<noteq> ''profile''" "d \<noteq> ''yes''" for d
  proof -
    have "d \<notin> dest ` set (arguments q)" using that q(3) by blast
    moreover from this have "first_namespace q d = None"
      using q(1,2) by (auto simp: first_namespace_def map_of_eq_None_iff fst_defaults)
    ultimately show ?thesis using take_values_kept [OF given] by simp
  qed
  moreover have "''profile'' \<notin> fst ` set given \<Longrightarrow> ns ''profile'' = None"
    using given q(4) by (auto simp: take_values_eq map_add_None map_of_eq_None_iff)
  ultimately show ?thesis using q(5) take_values_there [OF given] rest by auto
qed

lemma gpu_served:
  assumes "parse_args gpu_parser words = Inr ns"
  shows "served (upper ++ ns)"
proof -
  have profile: "u ''profile'' \<noteq> None" if "take_values gpu_parser given = Inr u" for given u
    using first_default [of profile_option gpu_parser] take_values_there [OF that]
    by (simp add: gpu_parser_def profile_option_def)
  have f: "served (upper ++ ns)"
    if "ns ''func'' = Some (PStr ''_cmd_gpu_limit'')" "ns ''gpu_command'' = Some c" "ns ''profile'' \<noteq> None"
      "c \<in> {PStr ''revert'', PStr ''apply''} \<longrightarrow> ns ''yes'' \<noteq> None" for c
    using that by (auto simp: served_def reads_def map_add_def)
  consider given where "take_values gpu_parser given = Inr ns" "ns ''func'' = Some (PStr ''_cmd_gpu_limit'')"
    | given u name q rest ns' where "take_values gpu_parser given = Inr u" "u ''func'' = Some (PStr ''_cmd_gpu_limit'')"
      "map_of gpu_commands name = Some q" "parse_args q rest = Inr ns'" "ns = u(''gpu_command'' \<mapsto> PStr name) ++ ns'"
    using group_parses [OF assms [unfolded gpu_parser_def]]
    by (auto simp: gpu_parser_def gpu_commands_def profile_option_def)
  then show ?thesis
  proof cases
    case 1
    have "ns ''gpu_command'' = Some PNone"
      using take_values_kept [OF 1(1), of "''gpu_command''"]
      by (simp add: gpu_parser_def parser_defs first_namespace_def runs_def)
    with f [of PNone] 1(2) profile [OF 1(1)] show ?thesis by simp
  next
    case 2
    note sub = gpu_subcommand [OF 2(3,4)]
    have "ns ''func'' = Some (PStr ''_cmd_gpu_limit'')" "ns ''gpu_command'' = Some (PStr name)"
      using sub 2(2,5) by (simp_all add: map_add_def)
    moreover have "ns ''profile'' \<noteq> None" using profile [OF 2(1)] 2(5) by (auto simp: map_add_def split: option.splits)
    moreover have "name \<in> {''revert'', ''apply''} \<longrightarrow> ns ''yes'' \<noteq> None"
      using sub 2(5) by (auto simp: map_add_def split: option.splits)
    ultimately show ?thesis using f [of "PStr name"] by simp
  qed
qed

text \<open>
  Whatever words are accepted, \<open>main\<close> calls one command, and every argument that the command reads is in
  the namespace.
\<close>

lemma main_has_what_is_read:
  assumes "main_calls words = Inr r"
  shows "\<exists>f ns. r = Some (f, ns) \<and> (\<forall>d \<in> set (reads f ns). ns d \<noteq> None)"
proof -
  obtain ns where ns: "parse_args build_parser words = Inr ns" and r: "r = map_option (\<lambda>f. (f, ns)) (ns ''func'')"
    using assms by (auto simp: main_calls_def and_then_eq_Inr)
  obtain name rest q ns' where q: "map_of alab_commands name = Some q" "parse_args q rest = Inr ns'"
    and n: "ns = [''command'' \<mapsto> PStr name] ++ ns'"
    using build_parser_parses [OF ns] by blast
  from q(1) consider "q = models_parser" | "q = gpu_parser" | "q = keys_parser" | "q = pull_parser"
    | "q = command [profile_option, flag ''force''] ''_cmd_serve''"
    | f where "q = command [] f" "f \<in> {''_cmd_version'', ''_cmd_doctor'', ''_cmd_stop'', ''_cmd_status''}"
    by (auto simp: alab_commands_def split: if_splits)
  then have "served ([''command'' \<mapsto> PStr name] ++ ns')"
  proof cases
    case 1
    then show ?thesis using models_served q(2) by blast
  next
    case 2
    then show ?thesis using gpu_served q(2) by blast
  next
    case 3
    then show ?thesis using keys_served q(2) by blast
  next
    case 4
    show ?thesis by (rule leaf_served [OF q(2) [unfolded 4 pull_parser_def]]) (simp_all add: leaves)
  next
    case 5
    show ?thesis by (rule leaf_served [OF q(2) [unfolded 5]]) (simp_all add: leaves)
  next
    case 6
    show ?thesis by (rule leaf_served [OF q(2) [unfolded 6(1)]]) (use 6(2) in \<open>auto simp: leaves\<close>)
  qed
  then have "served ns" by (simp add: n)
  with r show ?thesis by (auto simp: served_def)
qed

text \<open>A profile given above a subcommand of \<open>gpu-limit\<close> holds unless the subcommand is given one.\<close>

lemma profile_above_holds:
  assumes "parse_args gpu_parser (With (given @ [(''profile'', v)]) name (Last later)) = Inr ns"
    and "''profile'' \<notin> fst ` set later"
  shows "ns ''profile'' = Some v"
proof -
  have "subparsers gpu_parser = Some (''gpu_command'', False, gpu_commands)"
    by (simp add: gpu_parser_def gpu_commands_def)
  from with_parses [OF assms(1) this]
  obtain u q ns' where u: "take_values gpu_parser (given @ [(''profile'', v)]) = Inr u"
    and q: "map_of gpu_commands name = Some q" "parse_args q (Last later) = Inr ns'"
    and ns: "ns = u(''gpu_command'' \<mapsto> PStr name) ++ ns'"
    by blast
  from gpu_subcommand [OF q] assms(2) have "ns' ''profile'' = None" by blast
  with take_values_given [OF u] ns show ?thesis by (simp add: map_add_def)
qed

end
