(* ===== verification/Cli.thy ===== *)
theory Cli
  imports Serve Doctor_Run Status_Report
begin

text \<open>
  \<open>cli.py\<close>: what the commands of \<open>alab\<close> do with the operations of the other parts: the exit code, the
  lines of a success and what a failure says. The arguments come from \<open>argparse\<close>; Ctrl-C is an argument
  where a command catches it.
\<close>

section \<open>Answers\<close>

datatype complaint =
    Of_config config_failure
  | Of_size string                  \<comment> \<open>\<open>parse_size\<close> does not know the text\<close>
  | Of_pull pull_error
  | Of_keys keys_error
  | Of_gpu gpu_error
  | Of_serve serve_error
  | Of_other string                 \<comment> \<open>an exception of another kind, with its name\<close>
  | Note string

record answer =
  exit_code :: nat
  result_lines :: "string list"
  complained :: "complaint option"

text \<open>What no command catches: the interpreter prints it with a traceback and exits with 1.\<close>

datatype traceback = Py_exception py_exn | Os_exception | Svc_exception svc_failure | Other_exception string

definition succeeds :: "string list \<Rightarrow> traceback + answer" where
  "succeeds ls = Inr \<lparr>exit_code = 0, result_lines = ls, complained = None\<rparr>"

definition refuses :: "nat \<Rightarrow> complaint \<Rightarrow> traceback + answer" where
  "refuses n c = Inr \<lparr>exit_code = n, result_lines = [], complained = Some c\<rparr>"

definition printing :: "py_exn + string list \<Rightarrow> traceback + answer" where
  "printing r = (case r of Inl e \<Rightarrow> Inl (Py_exception e) | Inr ls \<Rightarrow> succeeds ls)"

text \<open>\<open>except ConfigError\<close>: an exception of another kind passes.\<close>

definition config_refused :: "config_failure \<Rightarrow> traceback + answer" where
  "config_refused e = (case e of Crash x \<Rightarrow> Inl (Py_exception x) | _ \<Rightarrow> refuses 1 (Of_config e))"

section \<open>Models\<close>

record pull_args =
  asked_model :: "string option"
  limit_text :: "string option"
  rechecked :: bool

record pull_found =
  pull_profile :: "config_failure + profile"
  pull_registry :: "config_failure + registry"
  digest :: "string \<Rightarrow> string"
  val_shown :: "pyval \<Rightarrow> string"
  pull_world :: world
  dir_text :: "string \<Rightarrow> string"
  seconds_taken :: rat
  blocks_used :: int
  os_error :: "string \<Rightarrow> bool"     \<comment> \<open>whether an exception of this name is an \<open>OSError\<close>\<close>

definition chosen_model :: "pull_args \<Rightarrow> pull_found \<Rightarrow> config_failure + model_entry" where
  "chosen_model a f =
     and_then
       (case asked_model a of
          Some m \<Rightarrow> if m \<noteq> [] then Inr m else and_then (pull_profile f) (\<lambda>p. Inr (profile.model_id p))
        | None \<Rightarrow> and_then (pull_profile f) (\<lambda>p. Inr (profile.model_id p)))
       (\<lambda>m. and_then (pull_registry f) (get_entry m))"

definition pull_lines :: "pull_found \<Rightarrow> model_entry \<Rightarrow> int \<Rightarrow> py_exn + string list" where
  "pull_lines f entry bytes =
     and_then (format_size bytes) (\<lambda>got.
     and_then (format_size (blocks_used f)) (\<lambda>used.
     Inr [me_id entry @ '': all '' @ show_nat (length (me_files entry)) @ '' files verified at '' @
            dir_text f (me_id entry) @ '' (downloaded '' @ got @ '' in '' @ show_int (round_half_even (seconds_taken f)) @
            ''s, disk usage '' @ used @ '')'']))"

text \<open>An exception of the system, or Ctrl-C, that ends a pull: in an attempt of a download or elsewhere.\<close>

definition pull_raised :: "pull_found \<Rightarrow> string \<Rightarrow> traceback + answer" where
  "pull_raised f x =
     (if x = ''KeyboardInterrupt'' then refuses 130 (Note ''interrupted; run the same command again to resume'')
      else if os_error f x then refuses 1 (Of_other x)
      else Inl (Other_exception x))"

text \<open>Directories by model id\<close>

definition cmd_pull ::
    "pull_args \<Rightarrow> pull_found \<Rightarrow> (string \<Rightarrow> model_dir) \<Rightarrow> (traceback + answer) \<times> (string \<Rightarrow> model_dir)" where
  "cmd_pull a f dirs =
     (case chosen_model a f of
        Inl e \<Rightarrow> ((if e = Crash ValueError then refuses 1 (Of_config e) else config_refused e), dirs)
      | Inr entry \<Rightarrow>
          (case (case limit_text a of None \<Rightarrow> Inr 0 | Some t \<Rightarrow> if t = [] then Inr 0 else parse_size t) of
             Inl e \<Rightarrow> ((if e = ValueError then refuses 1 (Of_size (the (limit_text a))) else Inl (Py_exception e)), dirs)
           | Inr _ \<Rightarrow>
               (case format_size (total_size entry) of
                  Inl e \<Rightarrow> (Inl (Py_exception e), dirs)
                | Inr _ \<Rightarrow>
                    (case pull (digest f) (val_shown f) (rechecked a) (pull_world f) entry (dirs (me_id entry)) of
                       (res, d) \<Rightarrow>
                         ((case res of
                             Inr bytes \<Rightarrow> printing (pull_lines f entry bytes)
                           | Inl (Uncaught x) \<Rightarrow> pull_raised f x
                           | Inl (Struck p x) \<Rightarrow> pull_raised f x
                           | Inl e \<Rightarrow> refuses 1 (Of_pull e)),
                          dirs(me_id entry := d))))))"

fun local_state_text :: "local_state \<Rightarrow> string" where
  "local_state_text Not_downloaded = ''not downloaded''"
| "local_state_text Incomplete = ''incomplete''"
| "local_state_text Unverified = ''unverified''"
| "local_state_text Downloaded = ''downloaded''"
| "local_state_text Failed_verification = ''failed verification''"

definition model_row :: "(model_entry \<Rightarrow> local_state) \<Rightarrow> model_entry \<Rightarrow> py_exn + string list" where
  "model_row state_of e =
     and_then (format_size (total_size e)) (\<lambda>size_text.
       Inr [me_id e, local_state_text (state_of e), size_text, me_repo e @ ''@'' @ take 12 (me_revision e)])"

text \<open>The first three columns are padded to their widths.\<close>

definition widths :: "string list list \<Rightarrow> nat list" where
  "widths rows = map (\<lambda>i. Max (set (map (\<lambda>r. length (r ! i)) rows))) [0..<3]"

definition table_line :: "nat list \<Rightarrow> string list \<Rightarrow> string" where
  "table_line ws r = join_with ''  '' (map2 (\<lambda>w c. ljust w c) ws (take 3 r)) @ ''  '' @ r ! 3"

definition cmd_models_list :: "config_failure + registry \<Rightarrow> (model_entry \<Rightarrow> local_state) \<Rightarrow> traceback + answer" where
  "cmd_models_list reg state_of =
     (case reg of
        Inl e \<Rightarrow> config_refused e
      | Inr entries \<Rightarrow>
          printing (and_then (map_res (model_row state_of) (sort_key me_id (map snd entries))) (\<lambda>found.
            let rows = [''ID'', ''STATE'', ''SIZE'', ''SOURCE''] # found
            in Inr (map (table_line (widths rows)) rows))))"

record lock_args =
  lock_model :: string
  lock_repo :: string
  lock_revision :: string
  lock_description :: "string option"
  writes :: bool

text \<open>What Hugging Face answers, or the name of an exception.\<close>

type_synonym hub = "string + (string option \<times> sibling list)"

text \<open>The entry, which is an exception of another kind where the network fails; \<open>None\<close>: it does not end.\<close>

definition locked_entry ::
    "(string \<Rightarrow> string) \<Rightarrow> registry_env \<Rightarrow> hub \<Rightarrow> lock_args \<Rightarrow> (string \<rightharpoonup> string) \<Rightarrow> (complaint + model_entry) option" where
  "locked_entry sha env hub a d =
     (case (case lock_description a of
              Some t \<Rightarrow> Inr t
            | None \<Rightarrow> and_then (load_registry (shown_val env) (registry_env.models_toml env) (registry_file env d)) (\<lambda>reg.
                Inr (case map_of reg (lock_model a) of Some e \<Rightarrow> me_description e | None \<Rightarrow> lock_repo a))) of
        Inl e \<Rightarrow> Some (Inl (Of_config e))
      | Inr text \<Rightarrow>
          (case hub of
             Inl x \<Rightarrow>
               if check_id (lock_model a) = None \<and> check_repo (lock_repo a) = None then Some (Inl (Of_other x))
               else map_option (\<lambda>r. case r of Inl e \<Rightarrow> Inl (Of_config e) | Inr e \<Rightarrow> Inr e)
                      (lock_entry sha (lock_model a) (lock_repo a) (lock_revision a) text None [])
           | Inr (commit, siblings) \<Rightarrow>
               map_option (\<lambda>r. case r of Inl e \<Rightarrow> Inl (Of_config e) | Inr e \<Rightarrow> Inr e)
                 (lock_entry sha (lock_model a) (lock_repo a) (lock_revision a) text commit siblings)))"

definition cmd_models_lock ::
    "(string \<Rightarrow> string) \<Rightarrow> registry_env \<Rightarrow> hub \<Rightarrow> write_failure option \<Rightarrow> lock_args \<Rightarrow> (string \<rightharpoonup> string) \<Rightarrow>
     ((traceback + answer) \<times> (string \<rightharpoonup> string)) option" where
  "cmd_models_lock sha env hub failing a d =
     (case locked_entry sha env hub a d of
        None \<Rightarrow> None
      | Some (Inl c) \<Rightarrow> Some (refuses 1 c, d)
      | Some (Inr entry) \<Rightarrow>
          if writes a
          then (case write_entry env failing entry d of
                  None \<Rightarrow> None
                | Some (Written, d') \<Rightarrow>
                    Some (succeeds [''wrote '' @ me_id entry @ '' ('' @ me_repo entry @ ''@'' @ me_revision entry @
                      '') to '' @ registry_env.models_toml env], d')
                | Some (Refused_write e, d') \<Rightarrow> Some (refuses 1 (Of_config e), d')
                | Some (Bad_text x, d') \<Rightarrow> Some (refuses 1 (Of_other x), d')
                | Some (Disk_error, d') \<Rightarrow> Some (refuses 1 (Of_other ''OSError''), d'))
          else (case render_model entry of
                  None \<Rightarrow> None
                | Some r \<Rightarrow> Some (printing (and_then r (\<lambda>t. Inr (splitlines t))), d)))"

section \<open>The GPU limit\<close>

definition shown_argv :: "string list \<Rightarrow> string" where
  "shown_argv argv = ''Command: '' @ join_with '' '' argv"

text \<open>The lines before the question, and the line after the change\<close>

definition apply_lines :: "limit_state \<Rightarrow> profile \<Rightarrow> string \<Rightarrow> string list" where
  "apply_lines s p left_text =
     (let value = gpu_wired_limit_mb p
      in [''This sets '' @ SYSCTL_NAME @ '' from '' @ describe_limit s @ '' to '' @ show_int value @ '' MB (profile '' @
            profile_name p @ '').'',
          ''  - Wired memory cannot be swapped out. If the model plus macOS and your apps need more than the '' @
            left_text @ '' left, the Mac can stall or freeze until rebooted.'',
          ''  - Close memory-heavy apps before `./alab serve`.'',
          ''  - It is temporary: a reboot restores the default, and `./alab gpu-limit revert` restores it now.'',
          shown_argv (sysctl_command value)])"

definition apply_printed :: "mac \<Rightarrow> profile \<Rightarrow> string list" where
  "apply_printed m p =
     (let value = gpu_wired_limit_mb p
      in case read_state m of
           Inl _ \<Rightarrow> []
         | Inr s \<Rightarrow>
             if wired_limit_mb s = Some value
             then [SYSCTL_NAME @ '' is already '' @ show_int value @ '' MB; nothing to do'']
             else (case memory_of s of
                 None \<Rightarrow> []
               | Some memory \<Rightarrow>
                   (case in_gb (memory - value * MIB) of
                      Inl _ \<Rightarrow> []
                    | Inr left_text \<Rightarrow>
                        apply_lines s p left_text @
                        [SYSCTL_NAME @ '' is now '' @ show_int value @ '' MB until reboot or `./alab gpu-limit revert`''])))"

definition revert_printed :: "mac \<Rightarrow> string list" where
  "revert_printed m =
     (case sysctl_value (sysctl_text m SYSCTL_NAME) of
        Inl _ \<Rightarrow> []
      | Inr current \<Rightarrow>
          if current = Some 0 then [SYSCTL_NAME @ '' is already 0 (system default); nothing to do'']
          else
            let shown = (case current of None \<Rightarrow> ''unknown'' | Some n \<Rightarrow> show_int n @ '' MB'')
            in [''This restores '' @ SYSCTL_NAME @ '' from '' @ shown @ '' to 0 (the system default).'',
                shown_argv (sysctl_command 0), SYSCTL_NAME @ '' is back to 0 (system default)''])"

datatype gpu_command = Show | Apply | Revert

text \<open>
  Ctrl-C comes while the question waits, or while the command runs or its effect is read back: then the
  commands that \<open>_set\<close> had begun have been run.
\<close>

datatype ctrl_c = At_question | After_command

definition gpu_answer :: "(gpu_error + unit) \<Rightarrow> string list \<Rightarrow> traceback + answer" where
  "gpu_answer r ls =
     (case r of
        Inr _ \<Rightarrow> succeeds ls
      | Inl (Gpu_crash e) \<Rightarrow> Inl (Py_exception e)
      | Inl e \<Rightarrow> refuses 1 (Of_gpu e))"

definition interrupted_answer :: "traceback + answer" where
  "interrupted_answer = refuses 130 (Note ''cancelled; nothing was changed'')"

definition change_limit ::
    "ctrl_c option \<Rightarrow> bool \<Rightarrow> (gpu_error + unit) \<times> string list list \<Rightarrow> string list \<Rightarrow>
     (traceback + answer) \<times> string list list" where
  "change_limit c yes change ls =
     (case change of (r, cmds) \<Rightarrow>
        (case c of
           Some At_question \<Rightarrow>
             if cmds \<noteq> [] \<and> \<not> yes \<or> r = Inl Cancelled then (interrupted_answer, []) else (gpu_answer r ls, cmds)
         | Some After_command \<Rightarrow> if cmds \<noteq> [] then (interrupted_answer, cmds) else (gpu_answer r ls, cmds)
         | None \<Rightarrow> (gpu_answer r ls, cmds)))"

definition cmd_gpu_limit ::
    "mac \<Rightarrow> config_failure + profile \<Rightarrow> ctrl_c option \<Rightarrow> gpu_command \<Rightarrow> bool \<Rightarrow> (traceback + answer) \<times> string list list" where
  "cmd_gpu_limit m loaded c command yes =
     (if command = Revert then change_limit c yes (revert_limit m yes) (revert_printed m)
      else case loaded of
        Inl e \<Rightarrow> (config_refused e, [])
      | Inr p \<Rightarrow>
          if command = Apply then change_limit c yes (apply_limit m p yes) (apply_printed m p)
          else (printing (and_then (read_state m) (show_limit p)), []))"

section \<open>Serving\<close>

text \<open>A start that fails while it waits raises a \<open>BackendError\<close> too.\<close>

fun raised_by_wait :: "svc_failure \<Rightarrow> bool" where
  "raised_by_wait (Exited_early _) = True"
| "raised_by_wait Not_ready = True"
| "raised_by_wait _ = False"

definition report_lines ::
    "string \<Rightarrow> rat \<Rightarrow> (status \<Rightarrow> py_exn + string list) \<Rightarrow> report \<Rightarrow> py_exn + string list" where
  "report_lines name seconds described r =
     (case r of
        Already_up st \<Rightarrow>
          and_then (described st) (\<lambda>ls.
            Inr ((''the '' @ name @ '' is already '' @ state_text (st_state st) @ '' (pid '' @
              show_int (run_record.pid (the (st_record st))) @ ''); not starting another'') # ls))
      | Other_started st \<Rightarrow>
          and_then (described st) (\<lambda>ls. Inr ((''another alab serve started the '' @ name @ '' first'') # ls))
      | Is_ready st \<Rightarrow>
          and_then (described st) (\<lambda>ls. Inr ((name @ '' ready after '' @ fixed1 (round_double seconds) @ ''s'') # ls)))"

definition serve_answer ::
    "report_env \<Rightarrow> report_env \<Rightarrow> rat \<Rightarrow> rat \<Rightarrow> serve_error + warning list \<times> report \<times> report \<Rightarrow> traceback + answer" where
  "serve_answer eb eg tb tg res =
     (case res of
        Inr (_, b, g) \<Rightarrow>
          printing (and_then (report_lines ''backend'' tb (describe eb) b) (\<lambda>ls.
            and_then (report_lines ''gateway'' tg (describe_gateway eg) g) (\<lambda>ls'. Inr (ls @ ls'))))
      | Inl e \<Rightarrow>
          (case e of
             Crashed x \<Rightarrow> Inl (Py_exception x)
           | Registry_problem x \<Rightarrow> config_refused x
           | Backend_failed Interrupted \<Rightarrow> refuses 130 (Note ''interrupted; run ./alab status to see what is left running'')
           | Gateway_failed Interrupted \<Rightarrow> refuses 130 (Note ''interrupted; run ./alab status to see what is left running'')
           | Backend_failed x \<Rightarrow> if is_backend_error x \<or> raised_by_wait x then refuses 1 (Of_serve e) else Inl (Svc_exception x)
           | Gateway_failed x \<Rightarrow> if is_backend_error x \<or> raised_by_wait x then refuses 1 (Of_serve e) else Inl (Svc_exception x)
           | _ \<Rightarrow> refuses 1 (Of_serve e)))"

definition cmd_serve ::
    "config_failure + profile \<Rightarrow> serving \<Rightarrow> report_env \<Rightarrow> report_env \<Rightarrow> rat \<Rightarrow> rat \<Rightarrow> bool \<Rightarrow>
     ((traceback + answer) \<times> effect list \<times> effect list) option" where
  "cmd_serve loaded s eb eg tb tg force =
     (case loaded of
        Inl e \<Rightarrow> Some (config_refused e, [], [])
      | Inr p \<Rightarrow> map_option (\<lambda>(res, b, g). (serve_answer eb eg tb tg res, b, g)) (serve s p force))"

section \<open>Keys\<close>

definition keys_refused :: "keys_error \<Rightarrow> traceback + answer" where
  "keys_refused e = refuses 1 (Of_keys e)"

definition cmd_keys_create ::
    "key_env \<Rightarrow> failure option \<Rightarrow> string \<Rightarrow> string \<Rightarrow> string \<Rightarrow> string \<Rightarrow> directory \<Rightarrow>
     (traceback + answer) \<times> directory" where
  "cmd_keys_create env fails_at tmp token today name d =
     (case create env fails_at tmp token today name d of
        (Refused e, d') \<Rightarrow> (keys_refused e, d')
      | (OS_Error, d') \<Rightarrow> (Inl Os_exception, d')
      | (Returned key, d') \<Rightarrow>
          (succeeds
            [''created key '' @ name @ ''; it is shown only this once, so copy it now:'', [], ''  '' @ key, [],
             ''Clients send it as `Authorization: Bearer <key>`. It works at once, without a restart.''], d'))"

definition keys_table :: "key_entry list \<Rightarrow> string list" where
  "keys_table es =
     (let width = max 4 (Max (set (map (\<lambda>e. length (entry_name e)) es)))
      in (ljust width ''NAME'' @ ''  CREATED'') # map (\<lambda>e. ljust width (entry_name e) @ ''  '' @ entry_created e) es)"

definition cmd_keys_list :: "key_env \<Rightarrow> directory \<Rightarrow> traceback + answer" where
  "cmd_keys_list env d =
     (case load_keys env d of
        Inl e \<Rightarrow> keys_refused e
      | Inr [] \<Rightarrow> succeeds [''no keys; create one with ./alab keys create <name>'']
      | Inr es \<Rightarrow> succeeds (keys_table es))"

definition cmd_keys_revoke ::
    "key_env \<Rightarrow> failure option \<Rightarrow> string \<Rightarrow> string \<Rightarrow> directory \<Rightarrow> (traceback + answer) \<times> directory" where
  "cmd_keys_revoke env fails_at tmp name d =
     (case revoke env fails_at tmp name d of
        (Refused e, d') \<Rightarrow> (keys_refused e, d')
      | (OS_Error, d') \<Rightarrow> (Inl Os_exception, d')
      | (Returned _, d') \<Rightarrow>
          (succeeds [''revoked key '' @ name @ ''; the gateway rejects it from the next request on''], d'))"

section \<open>The version and the doctor\<close>

definition cmd_version :: "string \<Rightarrow> string \<Rightarrow> string \<Rightarrow> traceback + answer" where
  "cmd_version version python exe =
     succeeds [''agent-lab '' @ version @ '' (Python '' @ python @ '', '' @ exe @ '')'']"

definition cmd_doctor :: "doctor_found \<Rightarrow> traceback + answer" where
  "cmd_doctor f =
     (case doctor_main f of
        Inl e \<Rightarrow> Inl (Py_exception e)
      | Inr (ls, n) \<Rightarrow> Inr \<lparr>exit_code = n, result_lines = ls, complained = None\<rparr>)"

end
