(* ===== verification/Cli_Properties.thy ===== *)
theory Cli_Properties
  imports Cli Registry_Properties Pull_Properties Serve_Properties
begin

text \<open>What the commands of \<open>alab\<close> promise with their exit codes and with what they print.\<close>

section \<open>Answers\<close>

named_theorems answers

lemma succeeds_eq [answers]: "succeeds ls = Inr a \<longleftrightarrow> a = \<lparr>exit_code = 0, result_lines = ls, complained = None\<rparr>"
  by (auto simp: succeeds_def)

lemma refuses_eq [answers]: "refuses n c = Inr a \<longleftrightarrow> a = \<lparr>exit_code = n, result_lines = [], complained = Some c\<rparr>"
  by (auto simp: refuses_def)

lemma printing_eq [answers]:
  "printing r = Inr a \<longleftrightarrow> (\<exists>ls. r = Inr ls \<and> a = \<lparr>exit_code = 0, result_lines = ls, complained = None\<rparr>)"
  by (auto simp: printing_def succeeds_def split: sum.splits)

lemma config_refused_eq [answers]:
  "config_refused e = Inr a \<longleftrightarrow> (\<forall>x. e \<noteq> Crash x) \<and> a = \<lparr>exit_code = 1, result_lines = [], complained = Some (Of_config e)\<rparr>"
  by (auto simp: config_refused_def refuses_def split: config_failure.splits)

section \<open>Pulling, then serving\<close>

lemma pull_raised_answer: "pull_raised f x = Inr ans \<Longrightarrow> exit_code ans \<in> {1, 130} \<and> complained ans \<noteq> None"
  by (auto simp: pull_raised_def answers split: if_splits)

lemma pull_code:
  assumes "cmd_pull a f dirs = (Inr ans, dirs')"
  shows "exit_code ans \<in> {0, 1, 130} \<and> (exit_code ans = 0 \<longleftrightarrow> complained ans = None)"
  using assms
  by (auto simp: cmd_pull_def answers dest: pull_raised_answer split: sum.splits pull_error.splits if_splits prod.splits)

lemma pull_done:
  assumes "cmd_pull a f dirs = (Inr ans, dirs')" and "exit_code ans = 0"
  shows "\<exists>entry bytes d. chosen_model a f = Inr entry \<and>
    pull (digest f) (val_shown f) (rechecked a) (pull_world f) entry (dirs (me_id entry)) = (Inr bytes, d) \<and>
    dirs' = dirs(me_id entry := d)"
  using assms
  by (auto simp: cmd_pull_def answers dest: pull_raised_answer
      split: sum.splits pull_error.splits if_splits prod.splits)

text \<open>However the command ends, it has touched no model, or pulled the chosen one.\<close>

lemma pull_dirs:
  assumes "cmd_pull a f dirs = (out, dirs')"
  shows "dirs' = dirs \<or> (\<exists>e res d. chosen_model a f = Inr e \<and> dirs' = dirs(me_id e := d) \<and>
    pull (digest f) (val_shown f) (rechecked a) (pull_world f) e (dirs (me_id e)) = (res, d))"
  using assms by (auto simp: cmd_pull_def split: sum.splits prod.splits)

lemma loaded_entry:
  assumes "load_registry shown path file = Inr reg" and "get_entry mid reg = Inr e"
    and "\<And>data. file = Parsed data \<Longrightarrow> tables_ok data"
  shows "me_id e = mid \<and> distinct (map mf_name (me_files e))"
proof -
  from assms(1) obtain data where "file = Parsed data" "parse_registry shown path data = Inr reg"
    by (auto simp: load_registry_def split: toml_file.splits)
  with parse_registry_ok assms(3) have ok: "registry_ok reg" by blast
  from assms(2) have "(mid, e) \<in> set reg"
    by (auto simp: get_entry_def Let_def split: option.splits dest: map_of_SomeD)
  with ok show ?thesis by (auto simp: registry_ok_def entry_ok_def files_ok_def)
qed

text \<open>The model that is meant: the argument, or the profile's.\<close>

definition meant :: "pull_args \<Rightarrow> pull_found \<Rightarrow> string \<Rightarrow> bool" where
  "meant a f m \<longleftrightarrow>
     (case asked_model a of
        Some n \<Rightarrow> if n \<noteq> [] then m = n else (\<exists>p. pull_profile f = Inr p \<and> m = profile.model_id p)
      | None \<Rightarrow> \<exists>p. pull_profile f = Inr p \<and> m = profile.model_id p)"

lemma chosen_entry:
  assumes "chosen_model a f = Inr e"
  shows "\<exists>m reg. meant a f m \<and> pull_registry f = Inr reg \<and> get_entry m reg = Inr e"
  using assms by (auto simp: chosen_model_def meant_def and_then_eq_Inr split: option.splits if_splits)

text \<open>
  C40: \<open>alab pull\<close>, of the model that is named or else of the profile's, with true records or \<open>--recheck\<close>, ends with
  0 only if \<open>alab serve\<close>, with the same registry and the directories as left, has nothing to say about that model,
  with whatever profile names it: every file
  that the registry lists is in place with its hash, and the checks before starting find the entry and the verified
  model. Any other answer has the code 1 or 130 and says why. However the command ends, also with a traceback of
  an exception that it does not catch, the directories of other models are as they were, and each file of the model
  is as it was, or gone, or right; records that told the truth still do.
\<close>

theorem pulled_model_can_be_served:
  assumes reg: "load_registry shown path file = Inr reg" "\<And>data. file = Parsed data \<Longrightarrow> tables_ok data"
    and found: "pull_registry f = Inr reg"
    and known: "\<And>e. chosen_model a f = Inr e \<Longrightarrow> rechecked a \<or>
      records_sound (digest f) (me_files e) (load_records (val_shown f) (dirs (me_id e))) (dirs (me_id e))"
    and cmd: "cmd_pull a f dirs = (out, dirs')"
    and machine: "registry_found s = Inr reg" "model_state s = (\<lambda>e. local_state (val_shown f) e (dirs' (me_id e)))"
  shows "(\<forall>m. \<not> meant a f m \<longrightarrow> dirs' m = dirs m) \<and>
    (\<forall>m e. meant a f m \<and> get_entry m reg = Inr e \<longrightarrow>
      (\<forall>x \<in> set (me_files e). map_of (md_files (dirs' m)) (mf_name x) = map_of (md_files (dirs m)) (mf_name x) \<or>
        (\<forall>st. map_of (md_files (dirs' m)) (mf_name x) = Some st \<longrightarrow> digest f (disk_file.content st) = mf_sha256 x)) \<and>
      (records_sound (digest f) (me_files e) (load_records (val_shown f) (dirs m)) (dirs m) \<longrightarrow>
       records_sound (digest f) (me_files e) (load_records (val_shown f) (dirs' m)) (dirs' m))) \<and>
    (\<forall>ans. out = Inr ans \<longrightarrow> exit_code ans \<in> {0, 1, 130} \<and> (exit_code ans = 0 \<longleftrightarrow> complained ans = None)) \<and>
    (\<forall>ans. out = Inr ans \<and> exit_code ans = 0 \<longrightarrow>
      (\<exists>m e. meant a f m \<and> get_entry m reg = Inr e \<and>
        (\<forall>x \<in> set (me_files e). \<exists>st. map_of (md_files (dirs' m)) (mf_name x) = Some st \<and>
           digest f (disk_file.content st) = mf_sha256 x) \<and>
        (\<forall>p force st x. profile.model_id p = m \<longrightarrow>
           preflight s p force \<notin> {Inl (Model_not_ready st), Inl (Registry_problem x)})))"
proof (intro conjI)
  have chosen: "\<exists>m. meant a f m \<and> get_entry m reg = Inr e \<and> me_id e = m \<and> distinct (map mf_name (me_files e))"
    if "chosen_model a f = Inr e" for e
    using chosen_entry [OF that] loaded_entry [OF reg(1) _ reg(2)] found by auto
  have one: "meant a f m \<Longrightarrow> meant a f n \<Longrightarrow> m = n" for m n
    by (auto simp: meant_def split: option.splits if_splits)
  show "\<forall>m. \<not> meant a f m \<longrightarrow> dirs' m = dirs m"
    using pull_dirs [OF cmd] chosen by auto
  show "\<forall>m e. meant a f m \<and> get_entry m reg = Inr e \<longrightarrow>
      (\<forall>x \<in> set (me_files e). map_of (md_files (dirs' m)) (mf_name x) = map_of (md_files (dirs m)) (mf_name x) \<or>
        (\<forall>st. map_of (md_files (dirs' m)) (mf_name x) = Some st \<longrightarrow> digest f (disk_file.content st) = mf_sha256 x)) \<and>
      (records_sound (digest f) (me_files e) (load_records (val_shown f) (dirs m)) (dirs m) \<longrightarrow>
       records_sound (digest f) (me_files e) (load_records (val_shown f) (dirs' m)) (dirs' m))"
    using pull_dirs [OF cmd]
  proof (elim disjE exE conjE)
    fix e res d
    assume e: "chosen_model a f = Inr e" and dirs': "dirs' = dirs(me_id e := d)"
      and p: "pull (digest f) (val_shown f) (rechecked a) (pull_world f) e (dirs (me_id e)) = (res, d)"
    from chosen [OF e] obtain m where m: "meant a f m" "get_entry m reg = Inr e" "me_id e = m"
      and dist: "distinct (map mf_name (me_files e))" by blast
    note ends = pull_ends [OF dist p]
    show ?thesis
    proof (intro allI impI)
      fix m' e'
      assume asked: "meant a f m' \<and> get_entry m' reg = Inr e'"
      with one m(1) have "m' = m" by blast
      with asked m(2) have "e' = e" by simp
      with \<open>m' = m\<close> ends m(3) dirs' show "(\<forall>x \<in> set (me_files e'). map_of (md_files (dirs' m')) (mf_name x) = map_of (md_files (dirs m')) (mf_name x) \<or>
        (\<forall>st. map_of (md_files (dirs' m')) (mf_name x) = Some st \<longrightarrow> digest f (disk_file.content st) = mf_sha256 x)) \<and>
      (records_sound (digest f) (me_files e') (load_records (val_shown f) (dirs m')) (dirs m') \<longrightarrow>
       records_sound (digest f) (me_files e') (load_records (val_shown f) (dirs' m')) (dirs' m'))" by simp
    qed
  qed simp
  show "\<forall>ans. out = Inr ans \<longrightarrow> exit_code ans \<in> {0, 1, 130} \<and> (exit_code ans = 0 \<longleftrightarrow> complained ans = None)"
    using pull_code cmd by blast
  show "\<forall>ans. out = Inr ans \<and> exit_code ans = 0 \<longrightarrow>
      (\<exists>m e. meant a f m \<and> get_entry m reg = Inr e \<and>
        (\<forall>x \<in> set (me_files e). \<exists>st. map_of (md_files (dirs' m)) (mf_name x) = Some st \<and>
           digest f (disk_file.content st) = mf_sha256 x) \<and>
        (\<forall>p force st x. profile.model_id p = m \<longrightarrow>
           preflight s p force \<notin> {Inl (Model_not_ready st), Inl (Registry_problem x)}))"
  proof (intro allI impI, elim conjE)
    fix ans
    assume "out = Inr ans" "exit_code ans = 0"
    with cmd obtain e bytes d where e: "chosen_model a f = Inr e" and dirs': "dirs' = dirs(me_id e := d)"
      and p: "pull (digest f) (val_shown f) (rechecked a) (pull_world f) e (dirs (me_id e)) = (Inr bytes, d)"
      using pull_done by blast
    from chosen [OF e] obtain m where m: "meant a f m" "get_entry m reg = Inr e" "me_id e = m"
      and dist: "distinct (map mf_name (me_files e))" by blast
    have right: "right_in_place (digest f) (me_files e) None (load_records (val_shown f) d) d"
      and state: "local_state (val_shown f) e d = Downloaded"
      using pull_ends [OF dist p] known [OF e] by simp_all
    have there: "\<exists>st. map_of (md_files (dirs' m)) (mf_name x) = Some st \<and> digest f (disk_file.content st) = mf_sha256 x"
      if "x \<in> set (me_files e)" for x
      using downloaded_files [OF state right_in_place_sound [OF right] that] dirs' m(3) by simp
    have "model_state s e = Downloaded" using machine(2) state dirs' by simp
    with m(2) machine(1) have "preflight s p force \<notin> {Inl (Model_not_ready st), Inl (Registry_problem x)}"
      if "profile.model_id p = m" for p force st x
      using that by (auto simp: preflight_def Let_def split: sum.splits if_splits)
    with m there show "\<exists>m e. meant a f m \<and> get_entry m reg = Inr e \<and>
        (\<forall>x \<in> set (me_files e). \<exists>st. map_of (md_files (dirs' m)) (mf_name x) = Some st \<and>
           digest f (disk_file.content st) = mf_sha256 x) \<and>
        (\<forall>p force st x. profile.model_id p = m \<longrightarrow>
           preflight s p force \<notin> {Inl (Model_not_ready st), Inl (Registry_problem x)})" by blast
  qed
qed

text \<open>The registry of \<open>Registry_Properties\<close>, a server that sends the 100 bytes, and an empty directory.\<close>

definition hundred :: string where
  "hundred = replicate 100 (CHR ''x'')"

lemma length_hundred [simp]: "length hundred = 100"
  by (simp add: hundred_def)

lemma hundred_not_empty [simp]: "hundred \<noteq> []"
  by (simp add: hundred_def)

definition sample_pull :: pull_found where
  "sample_pull =
     \<lparr>pull_profile = Inr some_profile, pull_registry = Inr [(''m'', small_entry)],
      digest = (\<lambda>_. mf_sha256 (hd (me_files small_entry))), val_shown = (\<lambda>_. ''m''),
      pull_world = \<lparr>fetching = \<lambda>_ _ _. Reply 200 [hundred] None, stamping = \<lambda>_. int, free_space = 2 ^ 40, lock_held = False,
        strikes = \<lambda>_. None\<rparr>,
      dir_text = (\<lambda>m. ''var/models/'' @ m), seconds_taken = 1, blocks_used = 512, os_error = (\<lambda>_. False)\<rparr>"

definition sample_args :: pull_args where
  "sample_args = \<lparr>asked_model = Some ''m'', limit_text = None, rechecked = False\<rparr>"

lemma sample_entry: "chosen_model sample_args sample_pull = Inr small_entry"
  by (simp add: chosen_model_def sample_args_def sample_pull_def some_profile_def get_entry_def)

lemma sample_download:
  "download_file (\<lambda>a k. Reply 200 [hundred] None) int (hd (me_files small_entry)) None =
     (Inr (), \<lparr>part = Some \<lparr>disk_file.content = hundred, mtime_ns = 1\<rparr>, asked = [0], slept = []\<rparr>)"
  by (simp add: download_file_def RETRIES_def upt_rec try_download_def check_received_def part_data_def
      small_entry_def Let_def)

lemma sample_pulls:
  "fst (pull (digest sample_pull) (val_shown sample_pull) False (pull_world sample_pull) small_entry empty_dir) = Inr 100"
  using sample_download by (simp add: pull_eval sample_pull_def small_entry_def empty_dir_def del: replicate.simps)

lemma sample_pull_answers:
  "\<exists>ls dirs'. cmd_pull sample_args sample_pull (\<lambda>_. empty_dir) =
     (Inr \<lparr>exit_code = 0, result_lines = ls, complained = None\<rparr>, dirs')"
proof -
  obtain d where d: "pull (digest sample_pull) (val_shown sample_pull) False (pull_world sample_pull) small_entry empty_dir =
      (Inr 100, d)"
    using sample_pulls by (metis prod.collapse)
  have "\<exists>ls. pull_lines sample_pull small_entry 100 = Inr ls"
    by (simp add: pull_lines_def format_size_def GIB_def sample_pull_def)
  then obtain ls where "pull_lines sample_pull small_entry 100 = Inr ls" by blast
  moreover have "\<exists>t. format_size (total_size small_entry) = Inr t"
    by (simp add: format_size_def GIB_def total_size_def small_entry_def)
  ultimately show ?thesis
    using d by (auto simp: cmd_pull_def sample_entry printing_def succeeds_def)
      (simp_all add: sample_args_def printing_def succeeds_def)
qed

definition sample_serving :: "(string \<Rightarrow> model_dir) \<Rightarrow> serving" where
  "sample_serving dirs =
     ready_machine\<lparr>registry_found := Inr [(''m'', small_entry)],
       model_state := (\<lambda>e. local_state (\<lambda>_. ''m'') e (dirs (me_id e)))\<rparr>"

theorem pulled_model_can_be_served_witness:
  "\<exists>ans dirs'. cmd_pull sample_args sample_pull (\<lambda>_. empty_dir) = (Inr ans, dirs') \<and> exit_code ans = 0 \<and>
     (\<forall>st. preflight (sample_serving dirs') some_profile False \<noteq> Inl (Model_not_ready st)) \<and> dirs' ''n'' = empty_dir"
proof -
  obtain ls dirs' where p: "cmd_pull sample_args sample_pull (\<lambda>_. empty_dir) =
     (Inr \<lparr>exit_code = 0, result_lines = ls, complained = None\<rparr>, dirs')"
    using sample_pull_answers by blast
  have r: "load_registry (\<lambda>_. ''m'') ''models.toml'' (Parsed small_data) = Inr [(''m'', small_entry)]"
    by (simp add: load_registry_def small_data_parses)
  have m: "meant sample_args sample_pull m \<longleftrightarrow> m = ''m''" for m by (simp add: meant_def sample_args_def)
  have fields: "pull_registry sample_pull = Inr [(''m'', small_entry)]" "profile.model_id some_profile = ''m''"
    "registry_found (sample_serving dirs') = Inr [(''m'', small_entry)]"
    "model_state (sample_serving dirs') = (\<lambda>e. local_state (val_shown sample_pull) e (dirs' (me_id e)))"
    by (simp_all add: sample_pull_def some_profile_def sample_serving_def)
  have ok: "\<And>data. Parsed small_data = Parsed data \<Longrightarrow> tables_ok data" using small_data_ok by simp
  have known: "\<And>e. chosen_model sample_args sample_pull = Inr e \<Longrightarrow> rechecked sample_args \<or>
      records_sound (digest sample_pull) (me_files e) (load_records (val_shown sample_pull) empty_dir) empty_dir"
    by (simp add: records_sound_def empty_dir_def)
  note c = pulled_model_can_be_served [OF r ok fields(1) known p fields(3,4)]
  have "dirs' ''n'' = empty_dir" using conjunct1 [OF c] m by simp
  have "\<exists>k. meant sample_args sample_pull k \<and> (\<forall>p force st x. profile.model_id p = k \<longrightarrow>
      preflight (sample_serving dirs') p force \<notin> {Inl (Model_not_ready st), Inl (Registry_problem x)})"
    by (rule exE [OF mp [OF spec [OF conjunct2 [OF conjunct2 [OF conjunct2 [OF c]]]] conjI [OF refl]]],
        assumption, assumption, simp, elim exE conjE, intro exI conjI, assumption, assumption)
  then obtain k where k: "meant sample_args sample_pull k"
    "\<forall>p force st x. profile.model_id p = k \<longrightarrow>
      preflight (sample_serving dirs') p force \<notin> {Inl (Model_not_ready st), Inl (Registry_problem x)}" by blast
  have "preflight (sample_serving dirs') some_profile False \<noteq> Inl (Model_not_ready st)" for st
    using k(2) k(1) [unfolded m] fields(2) by blast
  with \<open>dirs' ''n'' = empty_dir\<close> show ?thesis using p by auto
qed

section \<open>The GPU limit\<close>

text \<open>
  The exit code of \<open>gpu-limit\<close>: without Ctrl-C, 0 after apply or revert means that the limit reads as
  set, and a refusal means that no command has been run or that the one command is named in what is said.
\<close>

lemma change_code:
  assumes "change_limit None yes change ls = (Inr ans, cmds)"
  shows "cmds = snd change \<and> (exit_code ans = 0 \<longleftrightarrow> fst change = Inr ())"
  using assms
  by (auto simp: change_limit_def gpu_answer_def answers split: prod.splits sum.splits gpu_error.splits)

text \<open>
  After Ctrl-C the command says that nothing was changed. That is true while it waits for the answer; once
  the command has run it is not: here the limit has been raised.
\<close>

lemma cancelled_before_the_command:
  "change_limit (Some At_question) False change ls = (interrupted_answer, cmds) \<Longrightarrow> cmds = [] \<or> snd change = []"
  by (auto simp: change_limit_def split: prod.splits if_splits)

lemma raised_and_called_unchanged:
  "cmd_gpu_limit small_mac (Inr some_profile) (Some After_command) Apply True =
     (interrupted_answer, [sysctl_command 20480]) \<and>
   sysctl_value (sysctl_text small_mac SYSCTL_NAME) = Inr (Some 0) \<and>
   sysctl_value (text_after small_mac (sysctl_command 20480)) = Inr (Some 20480)"
proof -
  have run: "snd (apply_limit small_mac some_profile True) = [sysctl_command 20480]"
    using small_left
    by (auto simp: apply_limit_def small_mac_def some_profile_def read_state_def small_texts SYSCTL_NAME_def
        ceiling_mb_def MIB_def HEADROOM_MB_def set_limit_def Let_def)
  then have "cmd_gpu_limit small_mac (Inr some_profile) (Some After_command) Apply True =
      (interrupted_answer, [sysctl_command 20480])"
    by (cases "apply_limit small_mac some_profile True") (simp add: cmd_gpu_limit_def change_limit_def)
  moreover have "sysctl_command 20480 \<noteq> sysctl_command 0"
    by (simp add: sysctl_command_def show_int_def show_nat.simps [of 20480] show_nat.simps [of 0])
  ultimately show ?thesis
    by (simp add: small_mac_def small_texts SYSCTL_NAME_def)
qed

section \<open>Keys\<close>

text \<open>
  A key is shown by the command that made it, and by no other: what \<open>keys list\<close> prints depends on names and
  times only, whatever the hashes are.
\<close>

lemma created_key_is_shown:
  assumes "cmd_keys_create env failing tmp token today name d = (Inr ans, d')"
  shows "(exit_code ans = 0 \<longrightarrow> ''  '' @ KEY_PREFIX @ token \<in> set (result_lines ans)) \<and>
    (exit_code ans \<noteq> 0 \<longrightarrow> d' = d \<and> exit_code ans = 1)"
  using assms
  by (auto simp: cmd_keys_create_def keys_refused_def answers create_def Let_def split: outcome.splits prod.splits sum.splits if_splits)

lemma keys_list_shows_no_hash:
  assumes "load_keys env d = Inr es" and "load_keys env d' = Inr es'"
    and "map (\<lambda>e. (entry_name e, entry_created e)) es = map (\<lambda>e. (entry_name e, entry_created e)) es'"
  shows "cmd_keys_list env d = cmd_keys_list env d'"
proof -
  have "map entry_name es = map fst (map (\<lambda>e. (entry_name e, entry_created e)) es)"
    "map entry_name es' = map fst (map (\<lambda>e. (entry_name e, entry_created e)) es')" by simp_all
  with assms(3) have names: "map entry_name es = map entry_name es'" by metis
  have "Max (set (map (\<lambda>e. length (entry_name e)) xs)) = Max (set (map length (map entry_name xs)))" for xs :: "key_entry list"
    by (simp add: comp_def)
  then have w: "Max (set (map (\<lambda>e. length (entry_name e)) es)) = Max (set (map (\<lambda>e. length (entry_name e)) es'))"
    using names by metis
  have lines: "map (\<lambda>e. ljust n (entry_name e) @ ''  '' @ entry_created e) xs =
      map (\<lambda>(a, b). ljust n a @ ''  '' @ b) (map (\<lambda>e. (entry_name e, entry_created e)) xs)" for n and xs :: "key_entry list"
    by simp
  have "keys_table es = keys_table es'"
    unfolding keys_table_def w lines assms(3) by (rule refl)
  moreover have "es = [] \<longleftrightarrow> es' = []" using names by auto
  ultimately show ?thesis
    using assms(1,2) by (cases es; cases es') (simp_all add: cmd_keys_list_def)
qed

end
