(* ===== verification/Spec2Isabelle.thy ===== *)
theory Spec2Isabelle
  imports Queue_Service Request_Types Server Key_Life Gateway_Runs Answer_Properties Request_Log
    Registry_Properties Download_Client Transfer_Rate Service_Runs Serve_Properties Launcher_Properties
    Doctor_Properties Probes Gateway_Process Command_Line Cli_Properties
begin

text \<open>
  Agent Lab serves one local language model behind an API gateway. A profile
  (\<open>config/profiles/*.toml\<close>) names the model and every limit. \<open>pull.py\<close> downloads the model's
  files and verifies them against the registry; \<open>serve.py\<close> checks that the machine can run it and
  starts two processes, the backend (\<open>mlx_lm\<close> under \<open>backend/launch.py\<close>) and the gateway
  (\<open>gateway/server.py\<close>). The gateway checks the client's key against \<open>keys.toml\<close>, translates
  the chat request into the backend's form, counts the prompt, waits in the queue for the backend,
  and relays the answer, streamed or in one piece. All paths below are under \<open>src/agent_lab/\<close>.

  The parts and their theories

  \<^item> Foundations. \<open>Prelude\<close>: results \<open>py_exn + 'a\<close>, \<open>for\<close> loops over them, dictionaries as
    association lists in insertion order (locale \<open>dictionary\<close>), runs and invariants of state
    machines (locale \<open>machine\<close>). \<open>Py_Value\<close>: the values of JSON and TOML. \<open>Doubles\<close>: floats as
    rationals rounded to 53 bits. \<open>Regex\<close>: the patterns of \<open>re.fullmatch\<close>, with a matcher by
    derivatives that is proved to decide their language.
  \<^item> \<open>gateway/queue.py\<close>: \<open>Request_Queue\<close> has the counters, the lock and each method of
    \<open>RequestQueue\<close> and \<open>Place\<close>; the tasks' steps between suspension points are the relation
    \<open>qstep\<close>. \<open>Queue_Service\<close> has the abstract server with a waiting line which that relation
    refines, the order of service and the absence of lost wake-ups.
  \<^item> \<open>gateway/translate.py\<close>: \<open>Translate\<close> has every function, \<open>prepare\<close> in the paragraphs of the
    source. \<open>Request_Validity\<close> states which requests are valid without any order of checks,
    \<open>Request_Properties\<close> what the backend is sent, and \<open>Request_Types\<close> the type of each field of it. \<open>Tokens\<close> is \<open>gateway/tokens.py\<close>, up to the
    call of the tokenizer, which is in \<open>count_prompt\<close> of \<open>Gateway\<close>.
  \<^item> \<open>config.py\<close>: \<open>Config\<close> has the readers of sections and fields and \<open>parse_profile\<close>.
    \<open>Config_Contract\<close> states the contract of a field reader (locale \<open>field_reader\<close>, interpreted
    for the five readers of the code), \<open>Profile_Format\<close> the file format as a table,
    \<open>Profile_Properties\<close> the bounds of a profile that loads. \<open>Server\<close> builds the rules of
    \<open>gateway/server.py\<close> from a profile and closes the chain from file to request.
  \<^item> \<open>gateway/keys.py\<close>: \<open>Keys\<close> has the commands, the atomic save with its failure points and the
    cached view of \<open>KeyStore\<close>. \<open>Key_File\<close> is the round trip of the file, \<open>Key_Properties\<close> the
    refinement to a map from names to hashes, and the cached view as a state machine. \<open>Key_Life\<close>
    follows a key through the commands and the endpoint, from its creation to its revocation.
  \<^item> \<open>gateway/app.py\<close>: \<open>Chunks\<close> (shape of a backend chunk, what the client sees of it),
    \<open>Backend_Stream\<close> (the generator over the backend's lines), \<open>Heartbeats\<close> (the race of producer
    and timer), \<open>Answer\<close> (\<open>_stream\<close> and \<open>_complete\<close>), \<open>Gateway\<close> (authentication, the body, the
    endpoints and the response that gives its place back). \<open>Chunk_Laws\<close>, \<open>Answer_Properties\<close> and
    \<open>Gateway_Properties\<close> prove what a client and the queue can rely on; \<open>Request_Log\<close> has the text of a
    request's log line and what can be in it once the answer has ended, however it ended; \<open>Admission\<close> is the
    interface to the queue (locale \<open>admission\<close>, interpreted on \<open>Request_Queue\<close>). \<open>Gateway_Runs\<close> puts
    the endpoint, the responses and the queue together as one machine and shows over all its runs
    that no place is lost and that what was begun can end.
  \<^item> \<open>registry.py\<close>: \<open>Registry\<close> reads, checks, renders and rewrites \<open>models.toml\<close>;
    \<open>Registry_Sizes\<close> proves that the disk space written is enough, in spite of rounding;
    \<open>Registry_Properties\<close> that entries are safe to use and that a rewrite keeps the file loadable.
  \<^item> \<open>pull.py\<close>: \<open>Pull\<close> has the model's directory as a map from names to files, the records, the
    resumable download and the pull, which can be struck by Ctrl-C or an exception of the system before each of its
    effects (the type \<open>point\<close>); \<open>Pull_Properties\<close> shows what is in place wherever it ends.
    \<open>Download_Client\<close> has the HTTP client's side and shows that a download over the network keeps what it got.
    \<open>Transfer_Rate\<close> has the progress line and the limit on the rate.
  \<^item> \<open>backend/process.py\<close> and \<open>gateway/process.py\<close>: \<open>Processes\<close> has status, start, stop and
    terminate of a service, against a clock and what the system answers at each tick;
    \<open>Process_Properties\<close> shows which process is signalled and what is left behind. An operation gives the list of
    its effects in their order, and a Ctrl-C or the end of the command leaves a beginning of that list. \<open>Service_Runs\<close>
    runs the sections under the lock file of several commands at once, with processes that die, and
    has the command a service is launched with and how it is recognised in what \<open>ps\<close> shows.
    \<open>Probes\<close> reads what \<open>ps\<close>, a health request and MLX answer.
  \<^item> \<open>backend/launch.py\<close>: \<open>Launcher\<close> has the filter of the log, the ready and memory records with
    their atomic write, and the watchdog over the memory limit as a loop over rounds.
    \<open>Launcher_Properties\<close> shows that bodies of requests are not logged and what the watchdog sees.
  \<^item> \<open>gateway/server.py\<close>: \<open>Gateway_Process\<close> has the record of the queue, the start and the exit code;
    it closes the chain from the queue's reports to the line that \<open>alab status\<close> prints. That line and
    the others about a service are in \<open>Status_Report\<close>, with the ends of logs.
  \<^item> \<open>gpulimit.py\<close>: \<open>Gpu_Limit\<close>, with its property. \<open>macos.py\<close>: \<open>Mac_Stats\<close> parses \<open>vm_stat\<close> and
    \<open>swapusage\<close>, \<open>Mac_Stats_Properties\<close> is the round trip. \<open>paths.py\<close>: \<open>Paths\<close>, a file system of
    directories with modes, and what \<open>ensure_layout\<close> leaves in it. \<open>doctor.py\<close> and \<open>toolchain.py\<close>:
    \<open>Doctor\<close> has the checks, \<open>Doctor_Run\<close> runs them, \<open>Doctor_Properties\<close> says when they pass.
  \<^item> \<open>serve.py\<close>, \<open>backend/settings.py\<close> and \<open>alab stop\<close> and \<open>alab status\<close>: \<open>Serve\<close>;
    \<open>Serve_Properties\<close> composes registry, pull, GPU limit and processes.
  \<^item> \<open>cli.py\<close>: \<open>Cli\<close> has the other commands, with exit codes, results and what they catch;
    \<open>Cli_Properties\<close> connects \<open>alab pull\<close> with \<open>alab serve\<close>. \<open>Command_Line\<close> has the parsers and how a
    namespace comes about, and shows that a command finds every argument it reads.

  How state and errors are modelled

  An exception is the left of a sum: \<open>ApiError\<close>, \<open>ConfigError\<close> and the other classes of the
  source by name, and the exceptions of Python (\<open>TypeError\<close>, \<open>OverflowError\<close> and others) where the code
  does not exclude them. Python's integers are \<open>int\<close>. Objects with state are records that the
  operations return updated; files are maps from names to contents, with a failure point for each
  system call that may fail. Code between two \<open>await\<close>s is one step.

  What the lemmas of a theory show

  The models' theories prove, next to a definition, the branches of each operation and the facts
  that the simplifier uses. The theories named \<open>_Properties\<close>, \<open>_Laws\<close>, \<open>_Contract\<close>, \<open>_Service\<close>
  and \<open>_Runs\<close> hold the statements: invariants by rule induction over reachable states (queue, cached
  keys, endpoint with queue, services under their lock),
  equivalence with declarative predicates (valid requests, profile files), refinement of abstract
  specifications (waiting line, map of keys), round trips (key file, streamed body, disk
  space), termination (heartbeats, rounding, waiting for a process), and the safety of what is
  done to the outside (files replaced, processes signalled, commands run).

  Loops

  Loops over data are structurally recursive or have a measure; a download's loop ends with its
  list of pieces. Six loops have no such bound in the code, and are \<open>partial_function\<close>s whose value
  is \<open>None\<close> when they do not end: \<open>with_heartbeats\<close>, \<open>enough_tenths\<close>, \<open>wait_exit\<close>, \<open>wait_ready\<close>,
  \<open>watch\<close> and \<open>wait_started\<close>. The first four are proved to end: when the producer does, for every need
  below \<open>2^50\<close> bytes, and, for the waits, when the clock passes the deadline. \<open>watch\<close> is meant to run as
  long as the process and is proved to end only in the rounds it must; \<open>wait_started\<close> waits for uvicorn.
  No definition uses fuel.

  Parameters

  The code outside the repository is an argument of the definitions that use it: the JSON and TOML
  parsers, SHA-256, random tokens, the tokenizer, what Hugging Face and its download server send,
  the moments when lines of the backend arrive, what \<open>ps\<close>, \<open>sysctl\<close>, the file system and the
  user answer. What a property needs of them is among its hypotheses, for example that a parser
  reads back the lines which the code writes.

  Not modelled

  \<^item> What \<open>backend/launch.py\<close> replaces in \<open>mlx_lm\<close> and \<open>mlx\<close> while the server runs: its effect is that of
    code which is not in the repository. uvicorn, Starlette and \<open>httpx\<close> are parameters.
  \<^item> How \<open>argparse\<close> splits words into options, help texts, progress notes of a start, and lines of the
    gateway's own log other than the one of a request.
  \<^item> Directories are flat maps except in \<open>Paths\<close>, so making parent directories has no counterpart there.
  \<^item> Strings have characters below 256, so a lone surrogate, on which encoding a JSON text fails, cannot occur.
    A file of TOML that is not UTF-8 (its \<open>UnicodeDecodeError\<close> passes the handlers) is no value of \<open>toml_file\<close>.
  \<^item> A failure of \<open>stat\<close> on the key file for another reason than that it is missing, failures to open a lock file or
    to make the directories of \<open>var\<close> in a command, and a second cancellation while an answer is being wound up.
  \<^item> Sending to a client takes no time in \<open>Heartbeats\<close>, and the
    lock of \<open>keys.py\<close> makes its commands atomic.
\<close>

end
